(* ===== verification/Kernel_Prelude.thy ===== *)
theory Kernel_Prelude
  imports Main
begin

text \<open>
  Shared vocabulary of the development.

  Every validator of the kernel either answers or throws; it is modelled as a value of
  \<open>'e + 'a\<close>, where \<open>Inl\<close> is the thrown value and \<open>Inr\<close> the answer. Every asynchronous
  collaborator call is a state transformer over an arbitrary world \<open>'w\<close>, so that the order
  and the number of calls are part of the meaning. The combinators of both are collected here
  with the facts that let the simplifier read a chain of checks as a conjunction.
\<close>

named_theorems result_simps \<open>inversion of chains of fallible checks\<close>
named_theorems eff_simps \<open>one-step evaluation of effectful programs\<close>

section \<open>Fallible computations\<close>

definition rbind :: "'e + 'a \<Rightarrow> ('a \<Rightarrow> 'e + 'b) \<Rightarrow> 'e + 'b" where
  "rbind m f = (case m of Inl e \<Rightarrow> Inl e | Inr x \<Rightarrow> f x)"

definition require :: "bool \<Rightarrow> 'e \<Rightarrow> 'e + unit" where
  "require b e = (if b then Inr () else Inl e)"

definition is_ok :: "'e + 'a \<Rightarrow> bool" where
  "is_ok m = (case m of Inl _ \<Rightarrow> False | Inr _ \<Rightarrow> True)"

lemma rbind_Inl [simp]: "rbind (Inl e) f = Inl e"
  by (simp add: rbind_def)

lemma rbind_Inr [simp]: "rbind (Inr x) f = f x"
  by (simp add: rbind_def)

lemma rbind_Inr_right [simp]: "rbind m Inr = m"
  by (cases m) simp_all

lemma rbind_eq_Inr [result_simps]: "rbind m f = Inr y \<longleftrightarrow> (\<exists>x. m = Inr x \<and> f x = Inr y)"
  by (cases m) simp_all

lemma rbind_eq_Inl [result_simps]:
  "rbind m f = Inl e \<longleftrightarrow> m = Inl e \<or> (\<exists>x. m = Inr x \<and> f x = Inl e)"
  by (cases m) simp_all

lemma rbind_assoc: "rbind (rbind m f) g = rbind m (\<lambda>x. rbind (f x) g)"
  by (cases m) simp_all

lemma rbind_cong [fundef_cong]:
  "m = m' \<Longrightarrow> (\<And>x. m' = Inr x \<Longrightarrow> f x = g x) \<Longrightarrow> rbind m f = rbind m' g"
  by (cases m') simp_all

lemma require_eq_Inr [result_simps]: "require b e = Inr u \<longleftrightarrow> b"
  by (simp add: require_def)

lemma require_eq_Inl [result_simps]: "require b e = Inl e' \<longleftrightarrow> \<not> b \<and> e' = e"
  by (auto simp: require_def)

lemma require_True [simp]: "require True e = Inr ()"
  by (simp add: require_def)

lemma require_False [simp]: "require False e = Inl e"
  by (simp add: require_def)

lemma is_ok_simps [simp]: "is_ok (Inl e) = False" "is_ok (Inr x) = True"
  by (simp_all add: is_ok_def)

lemma is_ok_iff: "is_ok m \<longleftrightarrow> (\<exists>x. m = Inr x)"
  by (cases m) simp_all

lemma is_ok_rbind [simp]: "is_ok (rbind m f) \<longleftrightarrow> (\<exists>x. m = Inr x \<and> is_ok (f x))"
  by (cases m) simp_all

lemma is_ok_require [simp]: "is_ok (require b e) \<longleftrightarrow> b"
  by (simp add: require_def)

text \<open>\<open>Array.prototype.map\<close> with a callback that may throw: the first throw ends it.\<close>

fun rmap :: "('a \<Rightarrow> 'e + 'b) \<Rightarrow> 'a list \<Rightarrow> 'e + 'b list" where
  "rmap f [] = Inr []"
| "rmap f (x # xs) = rbind (f x) (\<lambda>y. rbind (rmap f xs) (\<lambda>ys. Inr (y # ys)))"

text \<open>The same with a state threaded through the calls in order.\<close>

fun rmap_state :: "('s \<Rightarrow> 'a \<Rightarrow> 'e + 'b \<times> 's) \<Rightarrow> 's \<Rightarrow> 'a list \<Rightarrow> 'e + 'b list \<times> 's" where
  "rmap_state f s [] = Inr ([], s)"
| "rmap_state f s (x # xs) =
     rbind (f s x) (\<lambda>(y, s1). rbind (rmap_state f s1 xs) (\<lambda>(ys, s2). Inr (y # ys, s2)))"

lemma rmap_eq_Inr [result_simps]:
  "rmap f xs = Inr ys \<longleftrightarrow> list_all2 (\<lambda>x y. f x = Inr y) xs ys"
proof (induction xs arbitrary: ys)
  case Nil
  then show ?case by auto
next
  case (Cons x xs)
  then show ?case by (cases ys) (auto simp: result_simps)
qed

lemma rmap_length: "rmap f xs = Inr ys \<Longrightarrow> length ys = length xs"
  by (auto simp: result_simps dest: list_all2_lengthD)

lemma rmap_cong [fundef_cong]:
  "xs = ys \<Longrightarrow> (\<And>x. x \<in> set ys \<Longrightarrow> f x = g x) \<Longrightarrow> rmap f xs = rmap g ys"
  by (induction ys arbitrary: xs) auto

lemma rmap_total: "(\<And>x. x \<in> set xs \<Longrightarrow> f x = Inr (g x)) \<Longrightarrow> rmap f xs = Inr (map g xs)"
  by (induction xs) auto

lemma rmap_set: "rmap f xs = Inr ys \<Longrightarrow> y \<in> set ys \<Longrightarrow> \<exists>x \<in> set xs. f x = Inr y"
  by (induction xs arbitrary: ys) (auto simp: rbind_eq_Inr)

lemma rmap_first_error: "rmap f (xs @ x # zs) = Inl e"
  if "rmap f xs = Inr ys" "f x = Inl e"
  using that by (induction xs arbitrary: ys) (auto simp: rbind_eq_Inr rbind_eq_Inl)

section \<open>Effectful programs\<close>

text \<open>
  An awaited call is a function of the world it runs in. The world is a type variable: a
  theorem that holds for every world holds whatever the collaborators keep in theirs.
\<close>

type_synonym ('w, 'e, 'a) eff = "'w \<Rightarrow> ('e + 'a) \<times> 'w"

definition eret :: "'a \<Rightarrow> ('w, 'e, 'a) eff" where
  "eret x = (\<lambda>w. (Inr x, w))"

definition ethrow :: "'e \<Rightarrow> ('w, 'e, 'a) eff" where
  "ethrow e = (\<lambda>w. (Inl e, w))"

definition elift :: "'e + 'a \<Rightarrow> ('w, 'e, 'a) eff" where
  "elift r = (\<lambda>w. (r, w))"

definition ebind :: "('w, 'e, 'a) eff \<Rightarrow> ('a \<Rightarrow> ('w, 'e, 'b) eff) \<Rightarrow> ('w, 'e, 'b) eff" where
  "ebind m f = (\<lambda>w. case m w of (Inl e, w1) \<Rightarrow> (Inl e, w1) | (Inr x, w1) \<Rightarrow> f x w1)"

text \<open>\<open>try m catch\<close>: the handler runs in the world the failing call left behind.\<close>

definition ecatch :: "('w, 'e, 'a) eff \<Rightarrow> ('e \<Rightarrow> ('w, 'e, 'a) eff) \<Rightarrow> ('w, 'e, 'a) eff" where
  "ecatch m h = (\<lambda>w. case m w of (Inl e, w1) \<Rightarrow> h e w1 | (Inr x, w1) \<Rightarrow> (Inr x, w1))"

text \<open>
  \<open>try m finally f\<close>: \<open>f\<close> runs on every path; its own failure replaces the outcome, as in
  JavaScript, and otherwise the outcome of \<open>m\<close> stands.
\<close>

definition efinally :: "('w, 'e, 'a) eff \<Rightarrow> ('w, 'e, unit) eff \<Rightarrow> ('w, 'e, 'a) eff" where
  "efinally m f = (\<lambda>w. case m w of (r, w1) \<Rightarrow>
     (case f w1 of (Inl e, w2) \<Rightarrow> (Inl e, w2) | (Inr _, w2) \<Rightarrow> (r, w2)))"

text \<open>A \<open>for ... of\<close> loop whose body awaits: strictly in order, the first throw ends it.\<close>

fun emap :: "('a \<Rightarrow> ('w, 'e, 'b) eff) \<Rightarrow> 'a list \<Rightarrow> ('w, 'e, 'b list) eff" where
  "emap f [] = eret []"
| "emap f (x # xs) = ebind (f x) (\<lambda>y. ebind (emap f xs) (\<lambda>ys. eret (y # ys)))"

lemma eret_apply [simp, eff_simps]: "eret x w = (Inr x, w)"
  by (simp add: eret_def)

lemma ethrow_apply [simp, eff_simps]: "ethrow e w = (Inl e, w)"
  by (simp add: ethrow_def)

lemma elift_apply [simp, eff_simps]: "elift r w = (r, w)"
  by (simp add: elift_def)

lemma ebind_Inr: "m w = (Inr x, w1) \<Longrightarrow> ebind m f w = f x w1"
  by (simp add: ebind_def)

lemma ebind_Inl: "m w = (Inl e, w1) \<Longrightarrow> ebind m f w = (Inl e, w1)"
  by (simp add: ebind_def)

lemma ebind_apply [eff_simps]:
  "ebind m f w = (case m w of (Inl e, w1) \<Rightarrow> (Inl e, w1) | (Inr x, w1) \<Rightarrow> f x w1)"
  by (simp add: ebind_def)

lemma ecatch_apply [eff_simps]:
  "ecatch m h w = (case m w of (Inl e, w1) \<Rightarrow> h e w1 | (Inr x, w1) \<Rightarrow> (Inr x, w1))"
  by (simp add: ecatch_def)

lemma efinally_apply [eff_simps]:
  "efinally m f w = (case m w of (r, w1) \<Rightarrow>
     (case f w1 of (Inl e, w2) \<Rightarrow> (Inl e, w2) | (Inr _, w2) \<Rightarrow> (r, w2)))"
  by (simp add: efinally_def)

lemma ebind_eret_left [simp]: "ebind (eret x) f = f x"
  by (rule ext) (simp add: ebind_def)

lemma ebind_ethrow_left [simp]: "ebind (ethrow e) f = ethrow e"
  by (rule ext) (simp add: ebind_def)

lemma ebind_elift_Inr [simp]: "ebind (elift (Inr x)) f = f x"
  by (rule ext) (simp add: ebind_def)

lemma ebind_elift_Inl [simp]: "ebind (elift (Inl e)) f = ethrow e"
  by (rule ext) (simp add: ebind_def)

lemma ebind_Inr_iff [result_simps]:
  "ebind m f w = (Inr y, w2) \<longleftrightarrow> (\<exists>x w1. m w = (Inr x, w1) \<and> f x w1 = (Inr y, w2))"
  by (auto simp: ebind_def split: prod.splits sum.splits)

lemma ebind_Inl_iff [result_simps]:
  "ebind m f w = (Inl e, w2) \<longleftrightarrow>
     m w = (Inl e, w2) \<or> (\<exists>x w1. m w = (Inr x, w1) \<and> f x w1 = (Inl e, w2))"
  by (auto simp: ebind_def split: prod.splits sum.splits)

lemma eff_cases:
  obtains (throws) e w1 where "m w = (Inl e, w1)" | (answers) x w1 where "m w = (Inr x, w1)"
  by (cases "m w"; cases "fst (m w)") auto

section \<open>Lists\<close>

lemma filter_eq_single_iff_distinct:
  "distinct xs \<Longrightarrow> x \<in> set xs \<Longrightarrow> (\<And>y. y \<in> set xs \<Longrightarrow> P y \<longleftrightarrow> y = x) \<Longrightarrow> filter P xs = [x]"
proof (induction xs)
  case Nil
  then show ?case by simp
next
  case (Cons z zs)
  show ?case
  proof (cases "z = x")
    case True
    with Cons.prems have "\<forall>y \<in> set zs. \<not> P y" by auto
    then have "filter P zs = []" by (simp add: filter_empty_conv)
    with True Cons.prems show ?thesis by simp
  next
    case False
    with Cons.prems have "filter P zs = [x]" by (intro Cons.IH) auto
    with False Cons.prems show ?thesis by simp
  qed
qed

lemma set_eq_of_length_subset:
  "distinct xs \<Longrightarrow> distinct ys \<Longrightarrow> set ys \<subseteq> set xs \<Longrightarrow> length xs = length ys \<Longrightarrow> set xs = set ys"
  by (metis List.finite_set card_subset_eq distinct_card)

end
