(* ===== verification/Js_Text.thy ===== *)
theory Js_Text
  imports Kernel_Prelude "HOL-Library.Word" "HOL-Library.List_Lexorder"
begin

text \<open>
  JavaScript text. A string is its sequence of UTF-16 code units, so \<open>length\<close> is the source's
  \<open>.length\<close> and the lexicographic order on lists of units is the order of \<open>Array.prototype.sort\<close>
  without a comparator and of \<open><\<close> on strings. The regular expressions of the source are terms
  of a small expression language with an executable matcher (derivatives) and the language it
  recognises; every pattern of the source is written as such a term beside the code using it.
\<close>

section \<open>Code units and literals\<close>

type_synonym code_unit = "16 word"
type_synonym js_string = "code_unit list"

definition js :: "string \<Rightarrow> js_string" where
  "js = map of_char"

lemma of_char_word16_inject [simp]: "(of_char a :: code_unit) = of_char b \<longleftrightarrow> a = b"
proof
  assume eq: "(of_char a :: code_unit) = of_char b"
  have small: "(of_char c :: nat) < 2 ^ LENGTH(16)" for c
    by (rule less_trans [of _ 256]) simp_all
  have "(word_of_nat (of_char a) :: code_unit) = word_of_nat (of_char b)"
    using eq by (simp add: of_nat_of_char)
  then have "(of_char a :: nat) = of_char b"
    using small [of a] small [of b] by (simp add: word_of_nat_eq_iff take_bit_nat_eq_self)
  then show "a = b" by simp
qed simp

lemma js_inject [simp]: "js a = js b \<longleftrightarrow> a = b"
  by (simp add: js_def inj_map_eq_map inj_on_def)

lemma js_append: "js (a @ b) = js a @ js b"
  by (simp add: js_def)

lemma js_Nil [simp]: "js [] = []"
  by (simp add: js_def)

lemma js_eq_Nil [simp]: "js a = [] \<longleftrightarrow> a = []" "[] = js a \<longleftrightarrow> a = []"
  by (auto simp: js_def)

lemma length_js [simp]: "length (js a) = length a"
  by (simp add: js_def)

section \<open>Regular expressions\<close>

datatype regex =
    Zero
  | One
  | Class "(code_unit \<times> code_unit) list" \<comment> \<open>inclusive ranges\<close>
  | Seq regex regex
  | Alt regex regex
  | Star regex

fun in_class :: "(code_unit \<times> code_unit) list \<Rightarrow> code_unit \<Rightarrow> bool" where
  "in_class [] c = False"
| "in_class ((lo, hi) # rs) c = ((lo \<le> c \<and> c \<le> hi) \<or> in_class rs c)"

definition conc :: "js_string set \<Rightarrow> js_string set \<Rightarrow> js_string set" where
  "conc A B = {u @ v | u v. u \<in> A \<and> v \<in> B}"

inductive_set star :: "js_string set \<Rightarrow> js_string set" for A where
  star_Nil [intro, simp]: "[] \<in> star A"
| star_append [intro]: "u \<in> A \<Longrightarrow> v \<in> star A \<Longrightarrow> u @ v \<in> star A"

fun lang :: "regex \<Rightarrow> js_string set" where
  "lang Zero = {}"
| "lang One = {[]}"
| "lang (Class rs) = {[c] | c. in_class rs c}"
| "lang (Seq r s) = conc (lang r) (lang s)"
| "lang (Alt r s) = lang r \<union> lang s"
| "lang (Star r) = star (lang r)"

fun nullable :: "regex \<Rightarrow> bool" where
  "nullable Zero = False"
| "nullable One = True"
| "nullable (Class _) = False"
| "nullable (Seq r s) = (nullable r \<and> nullable s)"
| "nullable (Alt r s) = (nullable r \<or> nullable s)"
| "nullable (Star _) = True"

fun mk_seq :: "regex \<Rightarrow> regex \<Rightarrow> regex" where
  "mk_seq Zero _ = Zero"
| "mk_seq _ Zero = Zero"
| "mk_seq One s = s"
| "mk_seq r s = Seq r s"

fun mk_alt :: "regex \<Rightarrow> regex \<Rightarrow> regex" where
  "mk_alt Zero s = s"
| "mk_alt r Zero = r"
| "mk_alt r s = Alt r s"

fun deriv :: "code_unit \<Rightarrow> regex \<Rightarrow> regex" where
  "deriv _ Zero = Zero"
| "deriv _ One = Zero"
| "deriv c (Class rs) = (if in_class rs c then One else Zero)"
| "deriv c (Seq r s) =
     (if nullable r then mk_alt (mk_seq (deriv c r) s) (deriv c s) else mk_seq (deriv c r) s)"
| "deriv c (Alt r s) = mk_alt (deriv c r) (deriv c s)"
| "deriv c (Star r) = mk_seq (deriv c r) (Star r)"

text \<open>\<open>/^r$/.test(s)\<close>\<close>

fun re_test :: "regex \<Rightarrow> js_string \<Rightarrow> bool" where
  "re_test r [] = nullable r"
| "re_test r (c # cs) = re_test (deriv c r) cs"

text \<open>\<open>/[ranges]/.test(s)\<close>: some unit of the string is in the class.\<close>

definition re_search :: "(code_unit \<times> code_unit) list \<Rightarrow> js_string \<Rightarrow> bool" where
  "re_search rs s = list_ex (in_class rs) s"

lemma nullable_iff: "nullable r \<longleftrightarrow> [] \<in> lang r"
  by (induction r) (auto simp: conc_def)

lemma lang_mk_seq [simp]: "lang (mk_seq r s) = conc (lang r) (lang s)"
  by (cases "(r, s)" rule: mk_seq.cases) (auto simp: conc_def)

lemma lang_mk_alt [simp]: "lang (mk_alt r s) = lang r \<union> lang s"
  by (cases "(r, s)" rule: mk_alt.cases) auto

lemma Cons_in_conc:
  "c # w \<in> conc A B \<longleftrightarrow> ([] \<in> A \<and> c # w \<in> B) \<or> (\<exists>u v. w = u @ v \<and> c # u \<in> A \<and> v \<in> B)"
  unfolding conc_def by (auto simp: Cons_eq_append_conv)

lemma Cons_in_star:
  "c # w \<in> star A \<longleftrightarrow> (\<exists>u v. w = u @ v \<and> c # u \<in> A \<and> v \<in> star A)"
proof
  have "x \<in> star A \<Longrightarrow> x = c # w \<Longrightarrow> \<exists>u v. w = u @ v \<and> c # u \<in> A \<and> v \<in> star A" for x
  proof (induction rule: star.induct)
    case (star_append u v)
    then show ?case by (cases u) auto
  qed simp
  then show "c # w \<in> star A \<Longrightarrow> \<exists>u v. w = u @ v \<and> c # u \<in> A \<and> v \<in> star A" by blast
next
  assume "\<exists>u v. w = u @ v \<and> c # u \<in> A \<and> v \<in> star A"
  then obtain u v where "w = u @ v" "c # u \<in> A" "v \<in> star A" by blast
  then show "c # w \<in> star A" using star_append [of "c # u" A v] by simp
qed

lemma deriv_lang: "w \<in> lang (deriv c r) \<longleftrightarrow> c # w \<in> lang r"
proof (induction r arbitrary: w)
  case (Seq r s)
  then show ?case by (auto simp: Cons_in_conc nullable_iff) (auto simp: conc_def)
next
  case (Star r)
  then show ?case by (auto simp: Cons_in_star conc_def)
qed auto

text \<open>The matcher decides membership in the language.\<close>

lemma re_test_lang: "re_test r s \<longleftrightarrow> s \<in> lang r"
  by (induction s arbitrary: r) (simp_all add: nullable_iff deriv_lang)

subsection \<open>Derived forms\<close>

fun rep :: "nat \<Rightarrow> regex \<Rightarrow> regex" where \<comment> \<open>\<open>r{n}\<close>\<close>
  "rep 0 r = One"
| "rep (Suc n) r = Seq r (rep n r)"

fun up_to :: "nat \<Rightarrow> regex \<Rightarrow> regex" where \<comment> \<open>\<open>r{0,n}\<close>\<close>
  "up_to 0 r = One"
| "up_to (Suc n) r = Alt One (Seq r (up_to n r))"

definition plus :: "regex \<Rightarrow> regex" where "plus r = Seq r (Star r)"
definition opt :: "regex \<Rightarrow> regex" where "opt r = Alt One r"

text \<open>Concatenation of the parts of a pattern, in order.\<close>

fun seqs :: "regex list \<Rightarrow> regex" where
  "seqs [] = One"
| "seqs [r] = r"
| "seqs (r # rs) = Seq r (seqs rs)"

text \<open>The literal text of a pattern: each unit as a one-unit class.\<close>

definition lit :: "string \<Rightarrow> regex" where
  "lit s = seqs (map (\<lambda>c. Class [(c, c)]) (js s))"

lemma conc_Class:
  "s \<in> conc (lang (Class rs)) B \<longleftrightarrow> (\<exists>c t. s = c # t \<and> in_class rs c \<and> t \<in> B)"
proof
  assume "\<exists>c t. s = c # t \<and> in_class rs c \<and> t \<in> B"
  then obtain c t where "s = [c] @ t" "[c] \<in> lang (Class rs)" "t \<in> B" by auto
  then show "s \<in> conc (lang (Class rs)) B" unfolding conc_def by blast
qed (auto simp: conc_def)

lemma conc_One: "conc {[]} B = B"
  by (auto simp: conc_def)

lemma lang_rep_Class: "s \<in> lang (rep n (Class rs)) \<longleftrightarrow> length s = n \<and> list_all (in_class rs) s"
proof (induction n arbitrary: s)
  case 0
  then show ?case by auto
next
  case (Suc n)
  have "s \<in> lang (rep (Suc n) (Class rs)) \<longleftrightarrow> s \<in> conc (lang (Class rs)) (lang (rep n (Class rs)))"
    by (simp only: rep.simps lang.simps)
  also have "\<dots> \<longleftrightarrow> (\<exists>c t. s = c # t \<and> in_class rs c \<and> length t = n \<and> list_all (in_class rs) t)"
    by (simp only: conc_Class Suc.IH)
  finally show ?case by (cases s) auto
qed

lemma lang_up_to_Class:
  "s \<in> lang (up_to n (Class rs)) \<longleftrightarrow> length s \<le> n \<and> list_all (in_class rs) s"
proof (induction n arbitrary: s)
  case 0
  then show ?case by auto
next
  case (Suc n)
  have "s \<in> lang (up_to (Suc n) (Class rs)) \<longleftrightarrow>
      s = [] \<or> s \<in> conc (lang (Class rs)) (lang (up_to n (Class rs)))"
    by (simp only: up_to.simps lang.simps Un_iff singleton_iff)
  also have "\<dots> \<longleftrightarrow>
      s = [] \<or> (\<exists>c t. s = c # t \<and> in_class rs c \<and> length t \<le> n \<and> list_all (in_class rs) t)"
    by (simp only: conc_Class Suc.IH)
  finally show ?case by (cases s) auto
qed

lemma lang_Star_Class: "s \<in> lang (Star (Class rs)) \<longleftrightarrow> list_all (in_class rs) s"
proof -
  have "s \<in> star {[c] | c. in_class rs c} \<Longrightarrow> list_all (in_class rs) s"
    by (induction rule: star.induct) auto
  moreover have "list_all (in_class rs) s \<Longrightarrow> s \<in> star {[c] | c. in_class rs c}"
  proof (induction s)
    case (Cons c s)
    then have "[c] @ s \<in> star {[c] | c. in_class rs c}"
      by (intro star_append) auto
    then show ?case by simp
  qed simp
  ultimately show ?thesis by auto
qed

text \<open>All units of a matching string come from the classes of the pattern.\<close>

fun units_ok :: "(code_unit \<Rightarrow> bool) \<Rightarrow> regex \<Rightarrow> bool" where
  "units_ok P Zero = True"
| "units_ok P One = True"
| "units_ok P (Class rs) = (\<forall>c. in_class rs c \<longrightarrow> P c)"
| "units_ok P (Seq r s) = (units_ok P r \<and> units_ok P s)"
| "units_ok P (Alt r s) = (units_ok P r \<and> units_ok P s)"
| "units_ok P (Star r) = units_ok P r"

lemma units_ok_lang: "units_ok P r \<Longrightarrow> s \<in> lang r \<Longrightarrow> list_all P s"
proof (induction r arbitrary: s)
  case (Star r)
  have "s \<in> star (lang r) \<Longrightarrow> list_all P s"
    by (induction rule: star.induct) (use Star in auto)
  with Star.prems show ?case by simp
qed (auto simp: conc_def)

section \<open>Whitespace, size and order\<close>

text \<open>ECMAScript WhiteSpace and LineTerminator, what \<open>String.prototype.trim\<close> removes.\<close>

definition is_js_space :: "code_unit \<Rightarrow> bool" where
  "is_js_space c = in_class
     [(0x09, 0x0D), (0x20, 0x20), (0xA0, 0xA0), (0x1680, 0x1680), (0x2000, 0x200A),
      (0x2028, 0x2029), (0x202F, 0x202F), (0x205F, 0x205F), (0x3000, 0x3000), (0xFEFF, 0xFEFF)] c"

definition js_trim :: "js_string \<Rightarrow> js_string" where
  "js_trim s = rev (dropWhile is_js_space (rev (dropWhile is_js_space s)))"

lemma js_trim_id_iff:
  "js_trim s = s \<longleftrightarrow> (s = [] \<or> (\<not> is_js_space (hd s) \<and> \<not> is_js_space (last s)))"
proof (cases "s = []")
  case True
  then show ?thesis by (simp add: js_trim_def)
next
  case False
  have len: "length (js_trim t) \<le> length (dropWhile is_js_space t)" for t
    unfolding js_trim_def by (metis length_dropWhile_le length_rev)
  show ?thesis
  proof
    assume eq: "js_trim s = s"
    then have "length s \<le> length (dropWhile is_js_space s)" using len [of s] by simp
    then have d: "dropWhile is_js_space s = s"
      by (metis append_Nil dropWhile_eq_drop drop_eq_Nil length_drop le_antisym
          length_dropWhile_le append_eq_append_conv takeWhile_dropWhile_id)
    then have h: "\<not> is_js_space (hd s)" using False by (metis hd_dropWhile)
    from eq d have "rev (dropWhile is_js_space (rev s)) = s" by (simp add: js_trim_def)
    then have "dropWhile is_js_space (rev s) = rev s" by (metis rev_rev_ident)
    then have "\<not> is_js_space (hd (rev s))" using False by (metis hd_dropWhile rev_is_Nil_conv)
    with h False show "s = [] \<or> (\<not> is_js_space (hd s) \<and> \<not> is_js_space (last s))"
      by (simp add: hd_rev)
  next
    assume "s = [] \<or> (\<not> is_js_space (hd s) \<and> \<not> is_js_space (last s))"
    with False have "\<not> is_js_space (hd s)" "\<not> is_js_space (hd (rev s))" by (auto simp: hd_rev)
    with False have "dropWhile is_js_space s = s" "dropWhile is_js_space (rev s) = rev s"
      by (metis dropWhile_eq_self_iff) (metis False \<open>\<not> is_js_space (hd (rev s))\<close> dropWhile_eq_self_iff)
    then show "js_trim s = s" by (simp add: js_trim_def)
  qed
qed

definition is_high_surrogate :: "code_unit \<Rightarrow> bool" where
  "is_high_surrogate c = (0xD800 \<le> c \<and> c \<le> 0xDBFF)"

definition is_low_surrogate :: "code_unit \<Rightarrow> bool" where
  "is_low_surrogate c = (0xDC00 \<le> c \<and> c \<le> 0xDFFF)"

text \<open>
  The length of \<open>TextEncoder.encode\<close>: a surrogate pair takes four bytes and a lone surrogate is
  replaced by U+FFFD, which takes three.
\<close>

fun utf8_length :: "js_string \<Rightarrow> nat" where
  "utf8_length [] = 0"
| "utf8_length (a # b # s) =
     (if is_high_surrogate a \<and> is_low_surrogate b then 4 + utf8_length s
      else (if a < 0x80 then 1 else if a < 0x800 then 2 else 3) + utf8_length (b # s))"
| "utf8_length [a] = (if a < 0x80 then 1 else if a < 0x800 then 2 else 3)"

lemma utf8_length_bounds: "length s \<le> utf8_length s \<and> utf8_length s \<le> 3 * length s"
  by (induction s rule: utf8_length.induct) auto

lemma ascii_not_surrogate: "c < 0x80 \<Longrightarrow> \<not> is_high_surrogate c"
  by (auto simp: is_high_surrogate_def word_le_nat_alt word_less_nat_alt)

lemma utf8_length_ascii: "list_all (\<lambda>c. c < 0x80) s \<Longrightarrow> utf8_length s = length s"
proof (induction s rule: utf8_length.induct)
  case (2 a b s)
  then have "\<not> is_high_surrogate a" by (simp add: ascii_not_surrogate)
  with 2 show ?case by simp
qed auto

text \<open>The decimal text of a natural number, as \<open>String(n)\<close> prints it.\<close>

definition digit :: "nat \<Rightarrow> code_unit" where
  "digit d = word_of_nat (48 + d)"

function dec_nat :: "nat \<Rightarrow> js_string" where
  "dec_nat n = (if n < 10 then [digit n] else dec_nat (n div 10) @ [digit (n mod 10)])"
  by pat_completeness auto
termination
  by (relation "measure id") auto

declare dec_nat.simps [simp del]

definition is_digit :: "code_unit \<Rightarrow> bool" where
  "is_digit c = (48 \<le> c \<and> c \<le> 57)"

definition digit_value :: "code_unit \<Rightarrow> nat" where
  "digit_value c = unat (c - 48)"

definition nat_of_dec :: "js_string \<Rightarrow> nat" where
  "nat_of_dec s = foldl (\<lambda>n c. 10 * n + digit_value c) 0 s"

lemma digit_value_digit [simp]: "d < 10 \<Longrightarrow> digit_value (digit d) = d"
  by (simp add: digit_value_def digit_def unat_of_nat take_bit_nat_eq_self)

lemma is_digit_digit: "d < 10 \<Longrightarrow> is_digit (digit d)"
proof -
  assume "d < 10"
  then have "d \<in> set [0..<10]" by simp
  then show ?thesis by (auto simp: upt_rec is_digit_def digit_def)
qed

lemma dec_nat_digits: "list_all is_digit (dec_nat n)"
  by (induction n rule: dec_nat.induct) (subst dec_nat.simps, auto simp: is_digit_digit)

lemma dec_nat_not_Nil [simp]: "dec_nat n \<noteq> []"
  by (subst dec_nat.simps) simp

lemma nat_of_dec_nat [simp]: "nat_of_dec (dec_nat n) = n"
proof (induction n rule: dec_nat.induct)
  case (1 n)
  show ?case
  proof (cases "n < 10")
    case True
    then show ?thesis by (subst dec_nat.simps) (simp add: nat_of_dec_def)
  next
    case False
    with 1 have "nat_of_dec (dec_nat (n div 10)) = n div 10" by simp
    with False show ?thesis
      by (subst dec_nat.simps) (simp add: nat_of_dec_def)
  qed
qed

lemma dec_nat_inject [simp]: "dec_nat m = dec_nat n \<longleftrightarrow> m = n"
  by (metis nat_of_dec_nat)

end
