(* ===== verification/Js_Number.thy ===== *)
theory Js_Number
  imports Js_Text
begin

text \<open>
  JavaScript numbers. A finite double is represented by the shortest decimal that denotes it,
  which is how ECMAScript names it when it is printed: an integer, or a decimal fraction whose last
  digit is not zero, so that every number has one representation. The representation keeps what the kernel asks of a number (finite, safe
  integer, zero, its text) and has room for every double.
\<close>

datatype nonzero_digit = D1 | D2 | D3 | D4 | D5 | D6 | D7 | D8 | D9

definition digit_nat :: "nonzero_digit \<Rightarrow> nat" where
  "digit_nat d = (case d of D1 \<Rightarrow> 1 | D2 \<Rightarrow> 2 | D3 \<Rightarrow> 3 | D4 \<Rightarrow> 4 | D5 \<Rightarrow> 5 | D6 \<Rightarrow> 6
     | D7 \<Rightarrow> 7 | D8 \<Rightarrow> 8 | D9 \<Rightarrow> 9)"

datatype js_number =
    JNaN
  | JInf bool \<comment> \<open>\<open>True\<close> for negative infinity\<close>
  | JNegZero
  | JInt int
  | JDec bool nat nonzero_digit nat
      \<comment> \<open>\<open>JDec neg a d k\<close> is \<open>(10 a + d) / 10 ^ (k + 1)\<close>, negated if \<open>neg\<close>: not an integer\<close>

definition number_is_finite :: "js_number \<Rightarrow> bool" where
  "number_is_finite n = (case n of JNaN \<Rightarrow> False | JInf _ \<Rightarrow> False | _ \<Rightarrow> True)"

text \<open>\<open>Number.isInteger\<close> and \<open>Number.isSafeInteger\<close>: negative zero is the integer zero.\<close>

definition number_to_int :: "js_number \<Rightarrow> int option" where
  "number_to_int n = (case n of JInt i \<Rightarrow> Some i | JNegZero \<Rightarrow> Some 0 | _ \<Rightarrow> None)"

definition max_safe_integer :: int where
  "max_safe_integer = 9007199254740991"

definition number_to_safe_int :: "js_number \<Rightarrow> int option" where
  "number_to_safe_int n = (case number_to_int n of
     None \<Rightarrow> None | Some i \<Rightarrow> if \<bar>i\<bar> \<le> max_safe_integer then Some i else None)"

text \<open>\<open>value === 0 ? 0 : value\<close>\<close>

definition normalise_zero :: "js_number \<Rightarrow> js_number" where
  "normalise_zero n = (if n = JNegZero then JInt 0 else n)"

section \<open>The text of a number\<close>

definition zeros :: "nat \<Rightarrow> js_string" where
  "zeros n = replicate n 0x30"

text \<open>
  ECMAScript \<open>Number::toString\<close> for a positive value whose shortest digits are \<open>s\<close> and whose
  decimal point stands after \<open>n\<close> of them (\<open>n\<close> may be negative or exceed their number).
\<close>

definition digits_text :: "js_string \<Rightarrow> int \<Rightarrow> js_string" where
  "digits_text s n =
     (if int (length s) \<le> n \<and> n \<le> 21 then s @ zeros (nat n - length s)
      else if 0 < n \<and> n \<le> 21 then take (nat n) s @ js ''.'' @ drop (nat n) s
      else if - 6 < n \<and> n \<le> 0 then js ''0.'' @ zeros (nat (- n)) @ s
      else (if length s = 1 then s else take 1 s @ js ''.'' @ drop 1 s)
           @ js ''e'' @ (if 0 \<le> n - 1 then js ''+'' else js ''-'') @ dec_nat (nat \<bar>n - 1\<bar>))"

definition strip_zeros :: "js_string \<Rightarrow> js_string" where
  "strip_zeros s = rev (dropWhile (\<lambda>c. c = 0x30) (rev s))"

definition sign_text :: "int \<Rightarrow> js_string" where
  "sign_text i = (if i < 0 then js ''-'' else [])"

definition number_text :: "js_number \<Rightarrow> js_string" where
  "number_text v = (case v of
     JNaN \<Rightarrow> js ''NaN''
   | JInf neg \<Rightarrow> (if neg then js ''-Infinity'' else js ''Infinity'')
   | JNegZero \<Rightarrow> js ''0''
   | JInt i \<Rightarrow>
       (if i = 0 then js ''0''
        else (let s = dec_nat (nat \<bar>i\<bar>) in sign_text i @ digits_text (strip_zeros s) (int (length s))))
   | JDec neg a d k \<Rightarrow>
       (let s = dec_nat (10 * a + digit_nat d)
        in (if neg then js ''-'' else []) @ digits_text s (int (length s) - int k - 1)))"

lemma normalise_zero_finite [simp]: "number_is_finite (normalise_zero n) = number_is_finite n"
  by (cases n) (simp_all add: normalise_zero_def number_is_finite_def)

lemma normalise_zero_idem [simp]: "normalise_zero (normalise_zero n) = normalise_zero n"
  by (simp add: normalise_zero_def)

lemma normalise_zero_not_neg [simp]: "normalise_zero n \<noteq> JNegZero"
  by (simp add: normalise_zero_def)

lemma number_to_safe_int_bound:
  "number_to_safe_int n = Some i \<Longrightarrow> - max_safe_integer \<le> i \<and> i \<le> max_safe_integer"
  by (auto simp: number_to_safe_int_def split: option.splits if_splits)

lemma number_to_safe_int_JInt [simp]:
  "number_to_safe_int (JInt i) = (if \<bar>i\<bar> \<le> max_safe_integer then Some i else None)"
  by (simp add: number_to_safe_int_def number_to_int_def)

end
