(* ===== verification/Kernel_Values.thy ===== *)
theory Kernel_Values
  imports Js_Number
begin

text \<open>
  The data model: JSON-native values, the private state of the kernel's closed value types, and
  the JavaScript values, property tables and objects a caller can hand to a constructor.

  An instance of a kernel class is frozen and holds its state in private fields, so it is an
  immutable value here. Two things about it are observable beside its state and are kept: whether
  it carries private state at all (\<open>Object.create(T.prototype)\<close> has the prototype and nothing
  else, \<open>Hollow\<close> below), and, for a correlation id, which object it is, because the decision log
  compares two of them with \<open>!==\<close>.
\<close>

section \<open>JSON-native values\<close>

datatype json =
    JsonNull
  | JsonBool bool
  | JsonNum js_number
  | JsonStr js_string
  | JsonArr "json list"
  | JsonObj "(js_string \<times> json) list" \<comment> \<open>own properties in the order they were created\<close>

section \<open>Private state of the closed value types\<close>

text \<open>An object whose prototype is exactly the class's: with its private state or without.\<close>

datatype 'a exact = Genuine 'a | Hollow

datatype tenant_id = TenantId (tenant_value: js_string)
datatype causation_id = CausationId (causation_value: js_string)
datatype actor_id = ActorId (actor_value: js_string)
datatype idempotency_key = IdempotencyKey (fingerprint: js_string)

record correlation_id =
  correlation_ref :: nat \<comment> \<open>object identity, what \<open>===\<close> compares\<close>
  correlation_value :: js_string

record principal =
  principal_tenant :: "tenant_id exact"
  principal_actor :: "actor_id exact"

record command =
  command_name :: js_string
  command_version :: int
  command_principal :: "principal exact"
  command_correlation :: "correlation_id exact"
  command_causation :: "causation_id exact option"
  command_key :: "idempotency_key exact"
  command_payload :: json

record query =
  query_name :: js_string
  query_version :: int
  query_principal :: "principal exact"
  query_correlation :: "correlation_id exact"
  query_causation :: "causation_id exact option"
  query_payload :: json

datatype action = ACommand command | AQuery query

datatype kernel_error = KernelError
  (error_code: js_string) (error_details: "json option") (error_cause: "kernel_error option")
  (error_depth: nat)

datatype result = ResultOk json | ResultFailure "kernel_error exact"

datatype action_kind = KCommand | KQuery

record action_contract =
  contract_kind :: action_kind
  contract_name :: js_string
  contract_version :: int
  contract_fields :: "js_string list"
  contract_outcomes :: "js_string list"
  contract_error_fields :: "js_string list"

datatype effect = Allow | Deny
datatype layer = System | Platform | Tenant

record policy_request =
  request_action :: action
  request_resource :: json
  request_context :: json

record policy_decision =
  decision_effect :: effect
  decision_reason :: js_string
  decision_matched :: "js_string option"
  decision_trace :: correlation_id

record policy_statement =
  statement_id :: js_string
  statement_effect :: effect
  statement_actor :: json
  statement_action :: js_string
  statement_resource_type :: js_string
  statement_condition :: json
  statement_priority :: int
  statement_layer :: layer
  statement_version :: js_string
  statement_enabled :: bool

record decision_log_entry =
  entry_id :: js_string
  entry_request :: policy_request
  entry_decision :: policy_decision
  entry_layer :: "layer option"
  entry_ts :: js_string
  entry_prev :: "js_string option"
  entry_hash :: js_string

record commit_receipt =
  receipt_request_id :: js_string
  receipt_tenant_id :: js_string
  receipt_resource_id :: js_string
  receipt_committed_at :: js_string
  receipt_audit_id :: js_string
  receipt_outbox_ids :: "js_string list"
  receipt_idempotency_key :: js_string

text \<open>
  Instances of the classes that hold collaborators rather than data. The composition keeps each
  under a handle; what its operations do is modelled by the component's theory.
\<close>

datatype service_class =
    SvcIdentity | SvcClock | SvcPolicy | SvcDecisionLogPort | SvcUnitOfWork
  | SvcDecisionPoint | SvcLoggingDecisionPoint | SvcPipeline | SvcCommitService
  | SvcRequestHandler | SvcHttpAdapter | SvcRouter

datatype kernel_instance =
    ITenantId "tenant_id exact"
  | ICorrelationId "correlation_id exact"
  | ICausationId "causation_id exact"
  | IActorId "actor_id exact"
  | IPrincipal "principal exact"
  | IIdempotencyKey "idempotency_key exact"
  | ICommand "command exact"
  | IQuery "query exact"
  | IKernelError "kernel_error exact"
  | IResult "result exact"
  | IActionContract "action_contract exact"
  | IPolicyRequest "policy_request exact"
  | IPolicyDecision "policy_decision exact"
  | IPolicyStatement "policy_statement exact"
  | IDecisionLogEntry "decision_log_entry exact"
  | ICommitReceipt "commit_receipt exact"
  | IService service_class "nat exact"

section \<open>Thrown values\<close>

text \<open>
  What a \<open>throw\<close> can carry: the errors the kernel mints, and any other value, of which the code
  only ever reads \<open>name\<close>, \<open>code\<close> and \<open>constraint\<close> (or that it is null or undefined).
\<close>

datatype thrown =
    TypeError js_string
  | RangeError js_string
  | IdempotencyConflict js_string js_string \<comment> \<open>tenant, fingerprint\<close>
  | IntegrityViolation js_string
  | ChainConflict js_string js_string "js_string option" \<comment> \<open>tenant, entry id, prevHash\<close>
  | Foreign "js_string option" "js_string option" "js_string option" \<comment> \<open>name, code, constraint\<close>
  | ThrownNullish

type_synonym 'a outcome = "thrown + 'a"

definition type_error :: "js_string \<Rightarrow> 'a outcome" where
  "type_error m = Inl (TypeError m)"

definition range_error :: "js_string \<Rightarrow> 'a outcome" where
  "range_error m = Inl (RangeError m)"

lemma type_error_simps [simp, result_simps]:
  "type_error m \<noteq> Inr x" "Inr x \<noteq> type_error m" "is_ok (type_error m) = False"
  by (simp_all add: type_error_def)

lemma range_error_simps [simp, result_simps]:
  "range_error m \<noteq> Inr x" "Inr x \<noteq> range_error m" "is_ok (range_error m) = False"
  by (simp_all add: range_error_def)

section \<open>JavaScript values and objects\<close>

datatype jsval =
    VUndef
  | VNull
  | VBool bool
  | VNum js_number
  | VStr js_string
  | VBigint int
  | VSymbol nat
  | VFun nat \<comment> \<open>a function, by identity\<close>
  | VInst kernel_instance
  | VObj nat \<comment> \<open>any other object, by its address\<close>

datatype key = KStr js_string | KSym nat

text \<open>
  An own property: a data property, or an accessor with what its getter answers or throws. The
  flag is \<open>enumerable\<close>.
\<close>

datatype property = Data jsval bool | Accessor "jsval outcome" bool

datatype prototype = ObjectPrototype | ArrayPrototype | NullPrototype | OtherPrototype nat

datatype object_kind = Plain | ArrayOf nat \<comment> \<open>its \<open>length\<close>\<close> | ByteArray "8 word list"

record js_object =
  obj_proto :: prototype
  obj_kind :: object_kind
  obj_props :: "(key \<times> property) list" \<comment> \<open>own properties, but for an array's \<open>length\<close>\<close>

type_synonym heap = "nat \<Rightarrow> js_object"

definition plain_object :: "(string \<times> jsval) list \<Rightarrow> js_object" where
  "plain_object ps =
     \<lparr>obj_proto = ObjectPrototype, obj_kind = Plain,
      obj_props = map (\<lambda>(k, v). (KStr (js k), Data v True)) ps\<rparr>"

definition array_object :: "jsval list \<Rightarrow> js_object" where
  "array_object vs =
     \<lparr>obj_proto = ArrayPrototype, obj_kind = ArrayOf (length vs),
      obj_props = map (\<lambda>(i, v). (KStr (dec_nat i), Data v True)) (List.enumerate 0 vs)\<rparr>"

subsection \<open>Reflection\<close>

definition type_of :: "jsval \<Rightarrow> js_string" where
  "type_of v = js (case v of
     VUndef \<Rightarrow> ''undefined'' | VNull \<Rightarrow> ''object'' | VBool _ \<Rightarrow> ''boolean'' | VNum _ \<Rightarrow> ''number''
   | VStr _ \<Rightarrow> ''string'' | VBigint _ \<Rightarrow> ''bigint'' | VSymbol _ \<Rightarrow> ''symbol''
   | VFun _ \<Rightarrow> ''function'' | VInst _ \<Rightarrow> ''object'' | VObj _ \<Rightarrow> ''object'')"

text \<open>\<open>value === null ? "null" : typeof value\<close>, as the refusal messages print it\<close>

definition kind_name :: "jsval \<Rightarrow> js_string" where
  "kind_name v = (if v = VNull then js ''null'' else type_of v)"

definition own_property :: "heap \<Rightarrow> nat \<Rightarrow> key \<Rightarrow> property option" where
  "own_property h r k = map_of (obj_props (h r)) k"

text \<open>An array index as a property key: these come first, in ascending order.\<close>

definition index_form :: regex where
  "index_form = Alt (lit ''0'') (Seq (Class [(0x31, 0x39)]) (Star (Class [(0x30, 0x39)])))"

definition is_index :: "js_string \<Rightarrow> bool" where
  "is_index s = (re_test index_form s \<and> nat_of_dec s < 4294967295)"

definition own_order :: "js_string list \<Rightarrow> js_string list" where
  "own_order ks = sort_key nat_of_dec (filter is_index ks) @ filter (\<lambda>k. \<not> is_index k) ks"

definition string_keys :: "heap \<Rightarrow> nat \<Rightarrow> js_string list" where
  "string_keys h r =
     own_order (remdups (List.map_filter (\<lambda>k. case k of KStr s \<Rightarrow> Some s | KSym _ \<Rightarrow> None)
       (map fst (obj_props (h r)))))"

definition symbol_keys :: "heap \<Rightarrow> nat \<Rightarrow> nat list" where
  "symbol_keys h r =
     remdups (List.map_filter (\<lambda>k. case k of KStr _ \<Rightarrow> None | KSym n \<Rightarrow> Some n)
       (map fst (obj_props (h r))))"

text \<open>\<open>Reflect.ownKeys\<close>, but for the \<open>length\<close> of an array: strings first, then symbols.\<close>

definition own_keys :: "heap \<Rightarrow> nat \<Rightarrow> key list" where
  "own_keys h r = map KStr (string_keys h r) @ map KSym (symbol_keys h r)"

definition is_array :: "heap \<Rightarrow> jsval \<Rightarrow> bool" where
  "is_array h v = (case v of
     VObj r \<Rightarrow> (case obj_kind (h r) of ArrayOf _ \<Rightarrow> True | _ \<Rightarrow> False) | _ \<Rightarrow> False)"

definition array_length :: "heap \<Rightarrow> nat \<Rightarrow> nat" where
  "array_length h r = (case obj_kind (h r) of ArrayOf n \<Rightarrow> n | _ \<Rightarrow> 0)"

text \<open>
  \<open>value !== null && typeof value === "object" && !Array.isArray(value)
     && Object.getPrototypeOf(value) === Object.prototype\<close>
\<close>

definition is_ordinary :: "heap \<Rightarrow> jsval \<Rightarrow> bool" where
  "is_ordinary h v = (case v of
     VObj r \<Rightarrow> \<not> is_array h v \<and> obj_proto (h r) = ObjectPrototype | _ \<Rightarrow> False)"

text \<open>\<open>o[k]\<close>: a data property's value, what a getter answers, or undefined.\<close>

definition read_key :: "heap \<Rightarrow> nat \<Rightarrow> js_string \<Rightarrow> jsval outcome" where
  "read_key h r k = (case own_property h r (KStr k) of
     None \<Rightarrow> Inr VUndef | Some (Data v _) \<Rightarrow> Inr v | Some (Accessor g _) \<Rightarrow> g)"

definition enumerable_data :: "property option \<Rightarrow> bool" where
  "enumerable_data p = (case p of Some (Data _ e) \<Rightarrow> e | _ \<Rightarrow> False)"

definition data_value :: "property option \<Rightarrow> jsval" where
  "data_value p = (case p of Some (Data v _) \<Rightarrow> v | _ \<Rightarrow> VUndef)"

lemma enumerable_data_simps [simp]:
  "enumerable_data None = False" "enumerable_data (Some (Data v e)) = e"
  "enumerable_data (Some (Accessor g e)) = False"
  by (simp_all add: enumerable_data_def)

lemma enumerable_dataE:
  assumes "enumerable_data p" obtains v where "p = Some (Data v True)"
  using assms by (auto simp: enumerable_data_def split: option.splits property.splits)

lemma read_key_data:
  "own_property h r (KStr k) = Some (Data v e) \<Longrightarrow> read_key h r k = Inr v"
  by (simp add: read_key_def)

lemma set_own_order [simp]: "set (own_order ks) = set ks"
  by (auto simp: own_order_def)

lemma distinct_own_order [simp]: "distinct (own_order ks) \<longleftrightarrow> distinct ks"
proof -
  have "distinct (filter is_index ks) \<and> distinct (filter (\<lambda>k. \<not> is_index k) ks) \<longleftrightarrow> distinct ks"
    by (induction ks) auto
  then show ?thesis by (auto simp: own_order_def)
qed

lemma length_own_order [simp]: "length (own_order ks) = length ks"
  using sum_length_filter_compl [of is_index ks] by (simp add: own_order_def)

lemma distinct_string_keys [simp]: "distinct (string_keys h r)"
  by (simp add: string_keys_def)

lemma distinct_own_keys [simp]: "distinct (own_keys h r)"
  by (auto simp: own_keys_def symbol_keys_def distinct_map inj_on_def)

lemma set_string_keys: "set (string_keys h r) = {s. own_property h r (KStr s) \<noteq> None}"
proof -
  have "s \<in> set (string_keys h r) \<longleftrightarrow> KStr s \<in> fst ` set (obj_props (h r))" for s
    by (force simp: string_keys_def map_filter_def split: key.splits)
  then show ?thesis by (auto simp: own_property_def map_of_eq_None_iff)
qed

lemma KStr_own_keys: "KStr s \<in> set (own_keys h r) \<longleftrightarrow> own_property h r (KStr s) \<noteq> None"
  by (auto simp: own_keys_def set_string_keys)

lemma KSym_own_keys: "KSym n \<in> set (own_keys h r) \<longleftrightarrow> own_property h r (KSym n) \<noteq> None"
proof -
  have "KSym n \<in> set (own_keys h r) \<longleftrightarrow> KSym n \<in> fst ` set (obj_props (h r))"
    by (force simp: own_keys_def symbol_keys_def map_filter_def split: key.splits)
  then show ?thesis by (auto simp: own_property_def map_of_eq_None_iff)
qed

lemma set_own_keys: "set (own_keys h r) = {k. own_property h r k \<noteq> None}"
proof (rule set_eqI)
  fix k show "k \<in> set (own_keys h r) \<longleftrightarrow> k \<in> {k. own_property h r k \<noteq> None}"
    by (cases k) (simp_all add: KStr_own_keys KSym_own_keys)
qed

lemma length_own_keys: "length (own_keys h r) = card {k. own_property h r k \<noteq> None}"
  by (metis distinct_card distinct_own_keys set_own_keys)

end
