(* ===== verification/Domain_Identity.thy ===== *)
theory Domain_Identity
  imports Js_Json
begin

text \<open>
  \<^verbatim>\<open>src/src/domain/identity-primitives.mjs\<close>: the closed value types that say which tenant,
  which actor, which message and which idempotency fingerprint. A constructor is a function from
  the raw argument to the instance or the error it throws; \<open>equals\<close> takes receiver and argument as
  they are, because an object with the right prototype need not hold private state.
\<close>

section \<open>Exact-class tests\<close>

text \<open>\<open>isExactly(value, T)\<close>, with what the object holds when it answers true\<close>

definition exact_tenant :: "jsval \<Rightarrow> tenant_id exact option" where
  "exact_tenant v = (case v of VInst (ITenantId e) \<Rightarrow> Some e | _ \<Rightarrow> None)"

definition exact_correlation :: "jsval \<Rightarrow> correlation_id exact option" where
  "exact_correlation v = (case v of VInst (ICorrelationId e) \<Rightarrow> Some e | _ \<Rightarrow> None)"

definition exact_causation :: "jsval \<Rightarrow> causation_id exact option" where
  "exact_causation v = (case v of VInst (ICausationId e) \<Rightarrow> Some e | _ \<Rightarrow> None)"

definition exact_actor :: "jsval \<Rightarrow> actor_id exact option" where
  "exact_actor v = (case v of VInst (IActorId e) \<Rightarrow> Some e | _ \<Rightarrow> None)"

definition exact_principal :: "jsval \<Rightarrow> principal exact option" where
  "exact_principal v = (case v of VInst (IPrincipal e) \<Rightarrow> Some e | _ \<Rightarrow> None)"

definition exact_idempotency_key :: "jsval \<Rightarrow> idempotency_key exact option" where
  "exact_idempotency_key v = (case v of VInst (IIdempotencyKey e) \<Rightarrow> Some e | _ \<Rightarrow> None)"

text \<open>
  Reading a private field: an object without it throws, which is how a hollow instance shows.
\<close>

definition private_error :: "string \<Rightarrow> thrown" where
  "private_error field = TypeError (js ''Cannot read private member #'' @ js field
     @ js '' from an object whose class did not declare it'')"

definition private_read :: "string \<Rightarrow> 'a exact \<Rightarrow> 'a outcome" where
  "private_read field e = (case e of Genuine x \<Rightarrow> Inr x | Hollow \<Rightarrow> Inl (private_error field))"

lemma private_read_simps [simp]:
  "private_read f (Genuine x) = Inr x" "private_read f Hollow = Inl (private_error f)"
  by (simp_all add: private_read_def)

text \<open>
  The three clauses every \<open>equals\<close> has: receiver exact, argument exact, and then the private
  fields compared, the argument's read first.
\<close>

definition exact_equals ::
    "string \<Rightarrow> ('a \<Rightarrow> 'a \<Rightarrow> bool) \<Rightarrow> 'a exact option \<Rightarrow> 'a exact option \<Rightarrow> bool outcome" where
  "exact_equals field same this other = (case this of
     None \<Rightarrow> Inr False
   | Some t \<Rightarrow> (case other of
       None \<Rightarrow> Inr False
     | Some u \<Rightarrow> rbind (private_read field u) (\<lambda>y. rbind (private_read field t) (\<lambda>x. Inr (same x y)))))"

lemma exact_equals_genuine [simp]:
  "exact_equals f same (Some (Genuine x)) (Some (Genuine y)) = Inr (same x y)"
  by (simp add: exact_equals_def)

lemma exact_equals_foreign [simp]:
  "exact_equals f same None u = Inr False" "exact_equals f same t None = Inr False"
  by (simp_all add: exact_equals_def split: option.splits)

lemma exact_equals_hollow:
  "exact_equals f same (Some t) (Some Hollow) = Inl (private_error f)"
  "exact_equals f same (Some Hollow) (Some (Genuine y)) = Inl (private_error f)"
  by (simp_all add: exact_equals_def)

section \<open>UUID-form identities\<close>

definition hex_class :: regex where
  "hex_class = Class [(0x30, 0x39), (0x61, 0x66)]"

definition uuid_form :: regex where
  "uuid_form = seqs [rep 8 hex_class, lit ''-'', rep 4 hex_class, lit ''-'', rep 4 hex_class,
     lit ''-'', rep 4 hex_class, lit ''-'', rep 12 hex_class]"

definition nil_uuid :: js_string where
  "nil_uuid = js ''00000000-0000-0000-0000-000000000000''"

definition canonical_uuid :: "jsval \<Rightarrow> js_string \<Rightarrow> js_string outcome" where
  "canonical_uuid value type = (case value of
     VStr s \<Rightarrow>
       if \<not> re_test uuid_form s
       then type_error (type @ js '' needs a canonical lowercase hyphenated UUID in 8-4-4-4-12 form'')
       else if s = nil_uuid then range_error (type @ js '' must not be the nil UUID'')
       else Inr s
   | _ \<Rightarrow> type_error (type @ js '' needs a primitive string, not '' @ kind_name value))"

definition uuid_ok :: "js_string \<Rightarrow> bool" where
  "uuid_ok s \<longleftrightarrow> s \<in> lang uuid_form \<and> s \<noteq> nil_uuid"

lemma canonical_uuid_eq_Inr [result_simps]:
  "canonical_uuid v t = Inr s \<longleftrightarrow> v = VStr s \<and> uuid_ok s"
  by (cases v) (auto simp: canonical_uuid_def uuid_ok_def re_test_lang)

definition tenant_id_new :: "jsval \<Rightarrow> tenant_id outcome" where
  "tenant_id_new v = rbind (canonical_uuid v (js ''TenantId'')) (\<lambda>s. Inr (TenantId s))"

definition correlation_id_new :: "nat \<Rightarrow> jsval \<Rightarrow> correlation_id outcome" where
  "correlation_id_new ref v = rbind (canonical_uuid v (js ''CorrelationId''))
     (\<lambda>s. Inr \<lparr>correlation_ref = ref, correlation_value = s\<rparr>)"

definition causation_id_new :: "jsval \<Rightarrow> causation_id outcome" where
  "causation_id_new v = rbind (canonical_uuid v (js ''CausationId'')) (\<lambda>s. Inr (CausationId s))"

definition tenant_id_equals :: "jsval \<Rightarrow> jsval \<Rightarrow> bool outcome" where
  "tenant_id_equals this other = exact_equals ''value'' (\<lambda>x y. tenant_value y = tenant_value x)
     (exact_tenant this) (exact_tenant other)"

definition correlation_id_equals :: "jsval \<Rightarrow> jsval \<Rightarrow> bool outcome" where
  "correlation_id_equals this other =
     exact_equals ''value'' (\<lambda>x y. correlation_value y = correlation_value x)
       (exact_correlation this) (exact_correlation other)"

definition causation_id_equals :: "jsval \<Rightarrow> jsval \<Rightarrow> bool outcome" where
  "causation_id_equals this other =
     exact_equals ''value'' (\<lambda>x y. causation_value y = causation_value x)
       (exact_causation this) (exact_causation other)"

text \<open>\<open>toString\<close> and \<open>toJSON\<close>: the canonical value, or \<open>[object T]\<close> for a hollow instance\<close>

definition tenant_id_to_string :: "tenant_id exact \<Rightarrow> js_string" where
  "tenant_id_to_string e =
     (case e of Genuine t \<Rightarrow> tenant_value t | Hollow \<Rightarrow> js ''[object TenantId]'')"

definition correlation_id_to_string :: "correlation_id exact \<Rightarrow> js_string" where
  "correlation_id_to_string e =
     (case e of Genuine c \<Rightarrow> correlation_value c | Hollow \<Rightarrow> js ''[object CorrelationId]'')"

definition causation_id_to_string :: "causation_id exact \<Rightarrow> js_string" where
  "causation_id_to_string e =
     (case e of Genuine c \<Rightarrow> causation_value c | Hollow \<Rightarrow> js ''[object CausationId]'')"

section \<open>ActorId\<close>

definition actor_form :: regex where
  "actor_form = Seq (Class [(0x21, 0x7E)]) (up_to 127 (Class [(0x21, 0x7E)]))"

definition canonical_actor :: "jsval \<Rightarrow> js_string outcome" where
  "canonical_actor value = (case value of
     VStr s \<Rightarrow>
       if \<not> re_test actor_form s
       then type_error (js ''ActorId needs 1 to 128 visible ASCII characters (0x21 through 0x7e)'')
       else Inr s
   | _ \<Rightarrow> type_error (js ''ActorId needs a primitive string, not '' @ kind_name value))"

definition actor_ok :: "js_string \<Rightarrow> bool" where
  "actor_ok s \<longleftrightarrow> 1 \<le> length s \<and> length s \<le> 128 \<and> (\<forall>c \<in> set s. 0x21 \<le> c \<and> c \<le> 0x7E)"

lemma actor_form_lang: "s \<in> lang actor_form \<longleftrightarrow> actor_ok s"
proof -
  have "s \<in> lang actor_form \<longleftrightarrow>
      (\<exists>c t. s = c # t \<and> in_class [(0x21, 0x7E)] c \<and>
        length t \<le> 127 \<and> list_all (in_class [(0x21, 0x7E)]) t)"
    by (simp only: actor_form_def lang.simps(4) conc_Class lang_up_to_Class)
  then show ?thesis by (cases s) (auto simp: actor_ok_def list_all_iff)
qed

lemma canonical_actor_eq_Inr [result_simps]:
  "canonical_actor v = Inr s \<longleftrightarrow> v = VStr s \<and> actor_ok s"
  by (cases v) (auto simp: canonical_actor_def re_test_lang actor_form_lang)

definition actor_id_new :: "jsval \<Rightarrow> actor_id outcome" where
  "actor_id_new v = rbind (canonical_actor v) (\<lambda>s. Inr (ActorId s))"

definition actor_id_equals :: "jsval \<Rightarrow> jsval \<Rightarrow> bool outcome" where
  "actor_id_equals this other = exact_equals ''value'' (\<lambda>x y. actor_value y = actor_value x)
     (exact_actor this) (exact_actor other)"

definition actor_id_to_string :: "actor_id exact \<Rightarrow> js_string" where
  "actor_id_to_string e = (case e of Genuine a \<Rightarrow> actor_value a | Hollow \<Rightarrow> js ''[object ActorId]'')"

section \<open>Principal\<close>

definition principal_new :: "jsval \<Rightarrow> jsval \<Rightarrow> principal outcome" where
  "principal_new tenant actor = (case exact_tenant tenant of
     None \<Rightarrow> type_error (js ''Principal needs a TenantId instance as its first argument'')
   | Some t \<Rightarrow> (case exact_actor actor of
       None \<Rightarrow> type_error (js ''Principal needs an ActorId instance as its second argument'')
     | Some a \<Rightarrow> Inr \<lparr>principal_tenant = t, principal_actor = a\<rparr>))"

definition principal_equals :: "jsval \<Rightarrow> jsval \<Rightarrow> bool outcome" where
  "principal_equals this other = (case exact_principal this of
     None \<Rightarrow> Inr False
   | Some p \<Rightarrow> (case exact_principal other of
       None \<Rightarrow> Inr False
     | Some q \<Rightarrow>
         rbind (private_read ''tenantId'' q) (\<lambda>q1.
         rbind (private_read ''tenantId'' p) (\<lambda>p1.
         rbind (tenant_id_equals (VInst (ITenantId (principal_tenant q1)))
                  (VInst (ITenantId (principal_tenant p1)))) (\<lambda>same_tenant.
         if \<not> same_tenant then Inr False
         else actor_id_equals (VInst (IActorId (principal_actor q1)))
                (VInst (IActorId (principal_actor p1))))))))"

definition principal_to_json :: "principal exact \<Rightarrow> json outcome" where
  "principal_to_json e = rbind (private_read ''tenantId'' e) (\<lambda>p.
     Inr (JsonObj [(js ''tenantId'', JsonStr (tenant_id_to_string (principal_tenant p))),
                   (js ''actorId'', JsonStr (actor_id_to_string (principal_actor p)))]))"

definition principal_to_string :: "principal exact \<Rightarrow> js_string outcome" where
  "principal_to_string e = rbind (principal_to_json e) (\<lambda>j. Inr (stringify j))"

section \<open>IdempotencyKey\<close>

definition raw_min_bytes :: nat where "raw_min_bytes = 1"
definition raw_max_bytes :: nat where "raw_max_bytes = 1024"

definition control_class :: "(code_unit \<times> code_unit) list" where
  "control_class = [(0x00, 0x1F), (0x7F, 0x7F)]"

text \<open>
  \<open>sha\<close> is \<open>createHash("sha256").update(raw, "utf8").digest("hex")\<close> of \<open>node:crypto\<close>, code outside
  the repository: a parameter, from text to text.
\<close>

definition fingerprint_of :: "(js_string \<Rightarrow> js_string) \<Rightarrow> jsval \<Rightarrow> js_string outcome" where
  "fingerprint_of sha raw = (case raw of
     VStr s \<Rightarrow>
       if js_trim s \<noteq> s
       then range_error (js ''IdempotencyKey raw input must carry no leading or trailing whitespace'')
       else if re_search control_class s
       then range_error (js ''IdempotencyKey raw input must carry no C0 or DEL control character'')
       else let bytes = utf8_length s in
         if bytes < raw_min_bytes \<or> bytes > raw_max_bytes
         then range_error (js ''IdempotencyKey raw input must be '' @ dec_nat raw_min_bytes
                @ js '' to '' @ dec_nat raw_max_bytes @ js '' UTF-8 bytes, and this one is '' @ dec_nat bytes)
         else Inr (sha s)
   | _ \<Rightarrow> type_error (js ''IdempotencyKey needs a primitive string, not '' @ kind_name raw))"

definition idempotency_key_new :: "(js_string \<Rightarrow> js_string) \<Rightarrow> jsval \<Rightarrow> idempotency_key outcome" where
  "idempotency_key_new sha raw = rbind (fingerprint_of sha raw) (\<lambda>f. Inr (IdempotencyKey f))"

definition idempotency_key_equals :: "jsval \<Rightarrow> jsval \<Rightarrow> bool outcome" where
  "idempotency_key_equals this other =
     exact_equals ''fingerprint'' (\<lambda>x y. fingerprint y = fingerprint x)
       (exact_idempotency_key this) (exact_idempotency_key other)"

definition idempotency_key_to_string :: "idempotency_key exact \<Rightarrow> js_string" where
  "idempotency_key_to_string e =
     (case e of Genuine k \<Rightarrow> fingerprint k | Hollow \<Rightarrow> js ''[object IdempotencyKey]'')"

definition raw_key_ok :: "js_string \<Rightarrow> bool" where
  "raw_key_ok s \<longleftrightarrow> js_trim s = s \<and> \<not> re_search control_class s \<and>
     1 \<le> utf8_length s \<and> utf8_length s \<le> 1024"

lemma fingerprint_of_eq_Inr [result_simps]:
  "fingerprint_of sha v = Inr f \<longleftrightarrow> (\<exists>s. v = VStr s \<and> raw_key_ok s \<and> f = sha s)"
  by (cases v)
    (auto simp: fingerprint_of_def raw_key_ok_def raw_min_bytes_def raw_max_bytes_def Let_def)

section \<open>The contract the string identities share\<close>

text \<open>
  A closed identity type admits some canonical spellings, keeps the spelling it admitted, and
  compares by it. Everything its clients rely on follows: no two spellings of one identity, the
  rendering constructs the value again, equality is an equivalence, and nothing but a primitive
  string is ever admitted.
\<close>

locale closed_identity =
  fixes admits :: "js_string \<Rightarrow> bool"
    and make :: "jsval \<Rightarrow> 'a outcome"
    and embed :: "'a exact \<Rightarrow> jsval"
    and render :: "'a exact \<Rightarrow> js_string"
    and equals :: "jsval \<Rightarrow> jsval \<Rightarrow> bool outcome"
  assumes make_sound: "make v = Inr x \<Longrightarrow> v = VStr (render (Genuine x)) \<and> admits (render (Genuine x))"
    and make_admits: "admits s \<Longrightarrow> \<exists>x. make (VStr s) = Inr x"
    and equals_genuine: "equals (embed (Genuine x)) (embed (Genuine y))
        = Inr (render (Genuine x) = render (Genuine y))"
begin

lemma make_string: "make v = Inr x \<Longrightarrow> v = VStr (render (Genuine x))"
  using make_sound by blast

lemma make_ok_iff: "is_ok (make v) \<longleftrightarrow> (\<exists>s. v = VStr s \<and> admits s)"
  by (metis is_ok_iff make_admits make_sound)

lemma render_make: "make v = Inr x \<Longrightarrow> make (VStr (render (Genuine x))) = Inr x"
  using make_string by blast

lemma one_spelling:
  "make v = Inr x \<Longrightarrow> make w = Inr y \<Longrightarrow>
     equals (embed (Genuine x)) (embed (Genuine y)) = Inr (v = w)"
  using make_string [of v x] make_string [of w y] by (auto simp: equals_genuine)

lemma equals_equivalence:
  "equals (embed (Genuine x)) (embed (Genuine x)) = Inr True"
  "equals (embed (Genuine x)) (embed (Genuine y)) = equals (embed (Genuine y)) (embed (Genuine x))"
  "equals (embed (Genuine x)) (embed (Genuine y)) = Inr True \<Longrightarrow>
   equals (embed (Genuine y)) (embed (Genuine z)) = Inr True \<Longrightarrow>
   equals (embed (Genuine x)) (embed (Genuine z)) = Inr True"
  by (auto simp: equals_genuine)

end

interpretation tenant: closed_identity uuid_ok tenant_id_new
    "\<lambda>e. VInst (ITenantId e)" tenant_id_to_string tenant_id_equals
  by unfold_locales
    (auto simp: tenant_id_new_def result_simps tenant_id_to_string_def tenant_id_equals_def
      exact_tenant_def)

interpretation correlation: closed_identity uuid_ok "correlation_id_new ref"
    "\<lambda>e. VInst (ICorrelationId e)" correlation_id_to_string correlation_id_equals for ref
  by unfold_locales
    (auto simp: correlation_id_new_def result_simps correlation_id_to_string_def
      correlation_id_equals_def exact_correlation_def)

interpretation causation: closed_identity uuid_ok causation_id_new
    "\<lambda>e. VInst (ICausationId e)" causation_id_to_string causation_id_equals
  by unfold_locales
    (auto simp: causation_id_new_def result_simps causation_id_to_string_def
      causation_id_equals_def exact_causation_def)

interpretation actor: closed_identity actor_ok actor_id_new
    "\<lambda>e. VInst (IActorId e)" actor_id_to_string actor_id_equals
  by unfold_locales
    (auto simp: actor_id_new_def result_simps actor_id_to_string_def actor_id_equals_def
      exact_actor_def)

section \<open>Properties\<close>

text \<open>What the UUID pattern says, position by position.\<close>

definition is_hex :: "code_unit \<Rightarrow> bool" where
  "is_hex c \<longleftrightarrow> (0x30 \<le> c \<and> c \<le> 0x39) \<or> (0x61 \<le> c \<and> c \<le> 0x66)"

definition uuid_shape :: "js_string \<Rightarrow> bool" where
  "uuid_shape s \<longleftrightarrow> (\<exists>a b c d e. s = a @ 0x2D # b @ 0x2D # c @ 0x2D # d @ 0x2D # e \<and>
     map length [a, b, c, d, e] = [8, 4, 4, 4, 12] \<and> list_all (list_all is_hex) [a, b, c, d, e])"

lemma hex_class_iff: "in_class [(0x30, 0x39), (0x61, 0x66)] = is_hex"
  by (auto simp: is_hex_def fun_eq_iff)

lemma lang_hex: "s \<in> lang (rep n hex_class) \<longleftrightarrow> length s = n \<and> list_all is_hex s"
  by (simp add: hex_class_def lang_rep_Class hex_class_iff)

lemma lang_hyphen: "s \<in> lang (lit ''-'') \<longleftrightarrow> s = [0x2D]"
  by (auto simp: lit_def js_def conc_def)

lemma conc_hyphen: "s \<in> conc A (conc (lang (lit ''-'')) B) \<longleftrightarrow> (\<exists>a b. s = a @ 0x2D # b \<and> a \<in> A \<and> b \<in> B)"
  by (fastforce simp: conc_def lang_hyphen)

lemma uuid_form_shape: "s \<in> lang uuid_form \<longleftrightarrow> uuid_shape s"
  unfolding uuid_form_def seqs.simps lang.simps conc_hyphen lang_hex uuid_shape_def
  by fastforce

text \<open>
  C28. A tenant, correlation or causation identity is constructed from exactly the primitive
  strings that are canonical lowercase hyphenated UUIDs other than the nil UUID; an actor
  identity from exactly the strings of 1 to 128 visible ASCII characters. No other value, of any
  JavaScript type, is admitted.
\<close>

theorem identities_admit_exactly:
  "is_ok (tenant_id_new v) = (case v of VStr s \<Rightarrow> uuid_shape s \<and> s \<noteq> nil_uuid | _ \<Rightarrow> False)
   \<and> is_ok (correlation_id_new ref v) = (case v of VStr s \<Rightarrow> uuid_shape s \<and> s \<noteq> nil_uuid | _ \<Rightarrow> False)
   \<and> is_ok (causation_id_new v) = (case v of VStr s \<Rightarrow> uuid_shape s \<and> s \<noteq> nil_uuid | _ \<Rightarrow> False)
   \<and> is_ok (actor_id_new v) = (case v of VStr s \<Rightarrow> actor_ok s | _ \<Rightarrow> False)"
  unfolding tenant.make_ok_iff correlation.make_ok_iff causation.make_ok_iff actor.make_ok_iff
  by (cases v) (auto simp: uuid_ok_def uuid_form_shape)

text \<open>
  There is one spelling of a tenant: two tenant identities compare equal exactly when they
  were constructed from the same value, and the rendering of an identity constructs it again.
\<close>

theorem tenant_one_spelling:
  assumes "tenant_id_new v = Inr x" and "tenant_id_new w = Inr y"
  shows "tenant_id_equals (VInst (ITenantId (Genuine x))) (VInst (ITenantId (Genuine y))) = Inr (v = w)
    \<and> tenant_id_new (VStr (tenant_id_to_string (Genuine x))) = Inr x"
  using assms tenant.one_spelling tenant.render_make by blast

definition sample_tenant :: js_string where
  "sample_tenant = js ''0b8f6d52-4c1e-4a57-9d7e-2f1f0c3a9b64''"

definition other_tenant :: js_string where
  "other_tenant = js ''0b8f6d52-4c1e-4a57-9d7e-2f1f0c3a9b65''"

lemma sample_tenant_new:
  "tenant_id_new (VStr sample_tenant) = Inr (TenantId sample_tenant)"
  "tenant_id_new (VStr other_tenant) = Inr (TenantId other_tenant)"
  by code_simp+

theorem tenant_one_spelling_witness:
  "tenant_id_equals (VInst (ITenantId (Genuine (TenantId sample_tenant))))
     (VInst (ITenantId (Genuine (TenantId other_tenant)))) = Inr (VStr sample_tenant = VStr other_tenant)
   \<and> tenant_id_new (VStr (tenant_id_to_string (Genuine (TenantId sample_tenant))))
     = Inr (TenantId sample_tenant)"
  by (rule tenant_one_spelling [OF sample_tenant_new])

text \<open>
  Two principals are equal exactly when both the tenant and the actor are: one actor acting
  in two tenants is two principals.
\<close>

theorem principal_equality:
  "principal_equals
     (VInst (IPrincipal (Genuine \<lparr>principal_tenant = Genuine t, principal_actor = Genuine a\<rparr>)))
     (VInst (IPrincipal (Genuine \<lparr>principal_tenant = Genuine u, principal_actor = Genuine b\<rparr>)))
   = Inr (t = u \<and> a = b)"
  by (cases t; cases u; cases a; cases b)
    (auto simp: principal_equals_def exact_principal_def tenant_id_equals_def exact_tenant_def
      actor_id_equals_def exact_actor_def)

text \<open>
  An idempotency key is constructed from exactly the untrimmed-clean, control-free strings of
  1 to 1024 UTF-8 bytes, and keeps nothing of the string but its digest.
\<close>

theorem idempotency_key_admits:
  "idempotency_key_new sha v = Inr k \<longleftrightarrow>
     (\<exists>s. v = VStr s \<and> raw_key_ok s \<and> k = IdempotencyKey (sha s))"
  by (auto simp: idempotency_key_new_def result_simps)

end
