(* ===== verification/Canonicalisation.thy ===== *)
theory Canonicalisation
  imports Domain_Identity
begin

text \<open>
  The canonical JSON value rule of \<^verbatim>\<open>src/src/application/action-primitives.mjs\<close>, and its copies in
  \<^verbatim>\<open>policy-decision.mjs\<close> and \<^verbatim>\<open>policy-statement.mjs\<close>: validate, clone, sort and freeze, refusing
  whatever \<open>JSON.stringify\<close> would change in silence. The section after the definitions says what
  the rule accepts and what it answers, without the traversal: exactly the trees of plain JSON
  data at most sixteen containers deep.
\<close>

definition max_depth :: nat where "max_depth = 16"

section \<open>The checks on one container\<close>

text \<open>The loop over the indices of an array.\<close>

fun check_elements :: "heap \<Rightarrow> nat \<Rightarrow> js_string \<Rightarrow> nat list \<Rightarrow> unit outcome" where
  "check_elements h r what [] = Inr ()"
| "check_elements h r what (i # is) = (case own_property h r (KStr (dec_nat i)) of
     None \<Rightarrow> type_error (what @ js '' admits no hole in an array'')
   | Some (Data _ True) \<Rightarrow> check_elements h r what is
   | Some _ \<Rightarrow> type_error (what @ js '' admits only enumerable data elements in an array''))"

text \<open>The loop over the own keys of an object.\<close>

fun check_members :: "heap \<Rightarrow> nat \<Rightarrow> js_string \<Rightarrow> key list \<Rightarrow> unit outcome" where
  "check_members h r what [] = Inr ()"
| "check_members h r what (KSym _ # ks) = type_error (what @ js '' admits no symbol-keyed member'')"
| "check_members h r what (KStr k # ks) =
     (if k \<in> set refused_keys
      then type_error (what @ js '' refuses the key '' @ k @ js '' at any depth'')
      else case own_property h r (KStr k) of
        Some (Data _ enumerable) \<Rightarrow>
          if enumerable then check_members h r what ks
          else type_error (what @ js '' admits no non-enumerable own property'')
      | _ \<Rightarrow> type_error (what @ js '' admits no accessor property''))"

definition element_at :: "heap \<Rightarrow> nat \<Rightarrow> nat \<Rightarrow> jsval" where
  "element_at h r i = data_value (own_property h r (KStr (dec_nat i)))"

definition member_at :: "heap \<Rightarrow> nat \<Rightarrow> js_string \<Rightarrow> jsval" where
  "member_at h r k = data_value (own_property h r (KStr k))"

section \<open>The rule\<close>

text \<open>
  \<open>not_finite\<close> is the text of the one message in which the copies of the rule differ. The set
  \<open>seen\<close> is threaded through the whole traversal and never cleared.
\<close>

function canonical_value ::
    "js_string \<Rightarrow> heap \<Rightarrow> js_string \<Rightarrow> nat \<Rightarrow> nat set \<Rightarrow> jsval \<Rightarrow> (json \<times> nat set) outcome" where
  "canonical_value not_finite h what depth seen value = (case value of
     VNull \<Rightarrow> Inr (JsonNull, seen)
   | VBool b \<Rightarrow> Inr (JsonBool b, seen)
   | VStr s \<Rightarrow> Inr (JsonStr s, seen)
   | VNum n \<Rightarrow>
       if \<not> number_is_finite n then range_error (what @ not_finite)
       else Inr (JsonNum (normalise_zero n), seen)
   | VInst _ \<Rightarrow>
       if depth > max_depth then range_error (what @ js '' nests at most 16 containers deep'')
       else type_error (what @ js '' admits only ordinary object literals'')
   | VObj r \<Rightarrow>
       if depth > max_depth then range_error (what @ js '' nests at most 16 containers deep'')
       else if r \<in> seen then type_error (what @ js '' admits no cycle and no value repeated by reference'')
       else if is_array h value then
         if obj_proto (h r) \<noteq> ArrayPrototype
         then type_error (what @ js '' admits only ordinary arrays'')
         else rbind (check_elements h r what [0..<array_length h r]) (\<lambda>_.
           if length (own_keys h r) + 1 \<noteq> array_length h r + 1
           then type_error (what @ js '' admits no property on an array beside its elements'')
           else rbind (rmap_state (\<lambda>s i. canonical_value not_finite h what (depth + 1) s (element_at h r i))
                        (insert r seen) [0..<array_length h r])
             (\<lambda>(vs, s). Inr (JsonArr vs, s)))
       else if obj_proto (h r) \<noteq> ObjectPrototype
         then type_error (what @ js '' admits only ordinary object literals'')
       else rbind (check_members h r what (own_keys h r)) (\<lambda>_.
         let keys = sort (string_keys h r) in
         rbind (rmap_state (\<lambda>s k. canonical_value not_finite h what (depth + 1) s (member_at h r k))
                  (insert r seen) keys)
           (\<lambda>(vs, s). Inr (JsonObj (zip keys vs), s)))
   | _ \<Rightarrow> type_error (what @ js '' admits no '' @ type_of value))"
  by pat_completeness auto
termination
  by (relation "measure (\<lambda>(_, _, _, depth, _, _). max_depth + 1 - depth)") auto

declare canonical_value.simps [simp del]

definition canonical_anything :: "heap \<Rightarrow> jsval \<Rightarrow> js_string \<Rightarrow> json outcome" where
  "canonical_anything h value what = rbind
     (canonical_value (js '' admits only finite numbers, and this one has no JSON form'') h what 1 {} value)
     (\<lambda>(j, _). Inr j)"

text \<open>A value that must be an object at its root.\<close>

definition root_is_object :: "heap \<Rightarrow> jsval \<Rightarrow> bool" where
  "root_is_object h v = ((case v of VInst _ \<Rightarrow> True | VObj _ \<Rightarrow> True | _ \<Rightarrow> False) \<and> \<not> is_array h v)"

definition canonical_object :: "heap \<Rightarrow> jsval \<Rightarrow> js_string \<Rightarrow> json outcome" where
  "canonical_object h value what =
     (if \<not> root_is_object h value then type_error (what @ js '' must be an ordinary object'')
      else canonical_anything h value what)"

text \<open>The copies of the rule in the policy modules.\<close>

definition policy_canonical_root :: "heap \<Rightarrow> jsval \<Rightarrow> js_string \<Rightarrow> json outcome" where
  "policy_canonical_root h value what =
     (if \<not> root_is_object h value then type_error (what @ js '' must be an ordinary object'')
      else rbind (canonical_value (js '' admits only finite numbers'') h what 1 {} value)
             (\<lambda>(j, _). Inr j))"

definition statement_canonical_root :: "heap \<Rightarrow> jsval \<Rightarrow> js_string \<Rightarrow> json outcome" where
  "statement_canonical_root h value what =
     (if \<not> root_is_object h value then type_error (what @ js '' must be an ordinary object'')
      else rbind (canonical_value (js '' admits only finite numbers'') h what 1 {} value)
             (\<lambda>(j, _). Inr j))"

section \<open>What the rule accepts\<close>

definition dense_array :: "heap \<Rightarrow> nat \<Rightarrow> bool" where
  "dense_array h r \<longleftrightarrow> obj_proto (h r) = ArrayPrototype \<and>
     (\<forall>i < array_length h r. enumerable_data (own_property h r (KStr (dec_nat i)))) \<and>
     length (own_keys h r) = array_length h r"

definition plain_literal :: "heap \<Rightarrow> nat \<Rightarrow> bool" where
  "plain_literal h r \<longleftrightarrow> obj_proto (h r) = ObjectPrototype \<and> symbol_keys h r = [] \<and>
     (\<forall>k \<in> set (string_keys h r).
        k \<notin> set refused_keys \<and> enumerable_data (own_property h r (KStr k)))"

text \<open>Plain JSON data with at most \<open>n\<close> containers on any path.\<close>

fun plain_json :: "heap \<Rightarrow> nat \<Rightarrow> jsval \<Rightarrow> bool" where
  "plain_json h n VNull = True"
| "plain_json h n (VBool _) = True"
| "plain_json h n (VStr _) = True"
| "plain_json h n (VNum v) = number_is_finite v"
| "plain_json h (Suc n) (VObj r) =
     (if is_array h (VObj r)
      then dense_array h r \<and> (\<forall>i < array_length h r. plain_json h n (element_at h r i))
      else plain_literal h r \<and> (\<forall>k \<in> set (string_keys h r). plain_json h n (member_at h r k)))"
| "plain_json h n v = False"

text \<open>The value such data denotes, members in key order.\<close>

fun denoted :: "heap \<Rightarrow> nat \<Rightarrow> jsval \<Rightarrow> json" where
  "denoted h n (VBool b) = JsonBool b"
| "denoted h n (VStr s) = JsonStr s"
| "denoted h n (VNum v) = JsonNum (normalise_zero v)"
| "denoted h (Suc n) (VObj r) =
     (if is_array h (VObj r)
      then JsonArr (map (\<lambda>i. denoted h n (element_at h r i)) [0..<array_length h r])
      else JsonObj (map (\<lambda>k. (k, denoted h n (member_at h r k))) (sort (string_keys h r))))"
| "denoted h n v = JsonNull"

text \<open>The containers of a value, each as often as a path leads to it.\<close>

fun containers :: "heap \<Rightarrow> nat \<Rightarrow> jsval \<Rightarrow> nat list" where
  "containers h (Suc n) (VObj r) = r #
     (if is_array h (VObj r)
      then concat (map (\<lambda>i. containers h n (element_at h r i)) [0..<array_length h r])
      else concat (map (\<lambda>k. containers h n (member_at h r k)) (sort (string_keys h r))))"
| "containers h n v = []"

lemma check_elements_ok:
  "check_elements h r what is = Inr u \<longleftrightarrow>
     (\<forall>i \<in> set is. enumerable_data (own_property h r (KStr (dec_nat i))))"
  by (induction h r what "is" rule: check_elements.induct)
    (auto split: option.splits property.splits bool.splits)

lemma check_members_ok:
  "check_members h r what ks = Inr u \<longleftrightarrow>
     (\<forall>k \<in> set ks. \<exists>s. k = KStr s \<and> s \<notin> set refused_keys \<and> enumerable_data (own_property h r k))"
  by (induction h r what ks rule: check_members.induct)
    (auto split: option.splits property.splits)

lemma check_members_own_keys:
  "check_members h r what (own_keys h r) = Inr u \<longleftrightarrow>
     symbol_keys h r = [] \<and> (\<forall>k \<in> set (string_keys h r).
        k \<notin> set refused_keys \<and> enumerable_data (own_property h r (KStr k)))"
  by (cases "symbol_keys h r") (auto simp: check_members_ok own_keys_def)

text \<open>
  A traversal that threads the set of visited containers, seen from outside: every element
  passes, no container is met twice, none was met before.
\<close>

lemma rmap_state_visits:
  assumes step: "\<And>s x y s'. x \<in> set xs \<Longrightarrow> f s x = Inr (y, s') \<longleftrightarrow>
      P x \<and> distinct (a x) \<and> set (a x) \<inter> s = {} \<and> y = d x \<and> s' = s \<union> set (a x)"
  shows "rmap_state f s xs = Inr (ys, s') \<longleftrightarrow>
      (\<forall>x \<in> set xs. P x) \<and> distinct (concat (map a xs)) \<and> set (concat (map a xs)) \<inter> s = {} \<and>
      ys = map d xs \<and> s' = s \<union> set (concat (map a xs))"
  using step
proof (induction xs arbitrary: s ys s')
  case Nil
  then show ?case by auto
next
  case (Cons x xs)
  have IH: "rmap_state f t xs = Inr (zs, t') \<longleftrightarrow>
      (\<forall>x \<in> set xs. P x) \<and> distinct (concat (map a xs)) \<and> set (concat (map a xs)) \<inter> t = {} \<and>
      zs = map d xs \<and> t' = t \<union> set (concat (map a xs))" for t zs t'
    by (rule Cons.IH) (simp add: Cons.prems)
  have "rmap_state f s (x # xs) = Inr (ys, s') \<longleftrightarrow>
      (\<exists>y t zs. f s x = Inr (y, t) \<and> rmap_state f t xs = Inr (zs, s') \<and> ys = y # zs)"
    by (auto simp: result_simps split: prod.splits)
  also have "\<dots> \<longleftrightarrow> P x \<and> distinct (a x) \<and> set (a x) \<inter> s = {} \<and>
      (\<exists>zs. rmap_state f (s \<union> set (a x)) xs = Inr (zs, s') \<and> ys = d x # zs)"
    by (auto simp: Cons.prems)
  also have "\<dots> \<longleftrightarrow> (\<forall>x \<in> set (x # xs). P x) \<and> distinct (concat (map a (x # xs))) \<and>
      set (concat (map a (x # xs))) \<inter> s = {} \<and> ys = map d (x # xs) \<and>
      s' = s \<union> set (concat (map a (x # xs)))"
    unfolding IH by auto
  finally show ?case .
qed

lemma is_array_length: "is_array h (VObj r) \<longleftrightarrow> (\<exists>n. obj_kind (h r) = ArrayOf n)"
  by (auto simp: is_array_def split: object_kind.splits)

lemma zip_map_self: "zip xs (map f xs) = map (\<lambda>x. (x, f x)) xs"
  by (induction xs) auto

text \<open>The traversal accepts exactly the plain trees that avoid the containers already seen.\<close>

lemma canonical_value_iff:
  "depth + n = max_depth + 1 \<Longrightarrow> canonical_value nf h what depth seen v = Inr (j, seen') \<longleftrightarrow>
     plain_json h n v \<and> distinct (containers h n v) \<and> set (containers h n v) \<inter> seen = {} \<and>
     j = denoted h n v \<and> seen' = seen \<union> set (containers h n v)"
proof (induction n arbitrary: depth seen v j seen')
  case 0
  then have "depth > max_depth" by simp
  then show ?case
    unfolding canonical_value.simps [of nf h what depth seen v] by (cases v) auto
next
  case (Suc n)
  then have d: "depth \<le> max_depth" and IH: "\<And>seen v j seen'.
      canonical_value nf h what (Suc depth) seen v = Inr (j, seen') \<longleftrightarrow>
      plain_json h n v \<and> distinct (containers h n v) \<and> set (containers h n v) \<inter> seen = {} \<and>
      j = denoted h n v \<and> seen' = seen \<union> set (containers h n v)"
    by auto
  show ?case
  proof (cases v)
    case (VObj r)
    show ?thesis
    proof (cases "is_array h v")
      case True
      have *: "rmap_state (\<lambda>s i. canonical_value nf h what (Suc depth) s (element_at h r i))
          (insert r seen) [0..<array_length h r] = Inr (vs, s) \<longleftrightarrow>
        (\<forall>i \<in> set [0..<array_length h r]. plain_json h n (element_at h r i)) \<and>
        distinct (concat (map (\<lambda>i. containers h n (element_at h r i)) [0..<array_length h r])) \<and>
        set (concat (map (\<lambda>i. containers h n (element_at h r i)) [0..<array_length h r]))
          \<inter> insert r seen = {} \<and>
        vs = map (\<lambda>i. denoted h n (element_at h r i)) [0..<array_length h r] \<and>
        s = insert r seen \<union>
          set (concat (map (\<lambda>i. containers h n (element_at h r i)) [0..<array_length h r]))" for vs s
        by (rule rmap_state_visits) (rule IH)
      show ?thesis
        unfolding canonical_value.simps [of nf h what depth seen v]
        using VObj True d
        by (auto simp: result_simps * dense_array_def check_elements_ok
            simp del: set_concat map_eq_conv)
    next
      case False
      have *: "rmap_state (\<lambda>s k. canonical_value nf h what (Suc depth) s (member_at h r k))
          (insert r seen) (sort (string_keys h r)) = Inr (vs, s) \<longleftrightarrow>
        (\<forall>k \<in> set (sort (string_keys h r)). plain_json h n (member_at h r k)) \<and>
        distinct (concat (map (\<lambda>k. containers h n (member_at h r k)) (sort (string_keys h r)))) \<and>
        set (concat (map (\<lambda>k. containers h n (member_at h r k)) (sort (string_keys h r))))
          \<inter> insert r seen = {} \<and>
        vs = map (\<lambda>k. denoted h n (member_at h r k)) (sort (string_keys h r)) \<and>
        s = insert r seen \<union>
          set (concat (map (\<lambda>k. containers h n (member_at h r k)) (sort (string_keys h r))))" for vs s
        by (rule rmap_state_visits) (rule IH)
      show ?thesis
        unfolding canonical_value.simps [of nf h what depth seen v]
        using VObj False d
        by (auto simp: result_simps * plain_literal_def check_members_own_keys zip_map_self Let_def
            simp del: set_concat map_eq_conv)
    qed
  qed (unfold canonical_value.simps [of nf h what depth seen v], auto)
qed

section \<open>Consequences\<close>

definition plain_tree :: "heap \<Rightarrow> jsval \<Rightarrow> bool" where
  "plain_tree h v \<longleftrightarrow> plain_json h max_depth v \<and> distinct (containers h max_depth v)"

lemma canonical_root_iff:
  "rbind (canonical_value nf h what (Suc 0) {} v) (\<lambda>(j, _). Inr j) = Inr j \<longleftrightarrow>
     plain_tree h v \<and> j = denoted h max_depth v"
  using canonical_value_iff [of 1 max_depth nf h what "{}" v]
  by (auto simp: result_simps plain_tree_def split: prod.splits)

lemma canonical_anything_iff [result_simps]:
  "canonical_anything h v what = Inr j \<longleftrightarrow> plain_tree h v \<and> j = denoted h max_depth v"
  unfolding canonical_anything_def One_nat_def by (rule canonical_root_iff)

lemma canonical_object_iff [result_simps]:
  "canonical_object h v what = Inr j \<longleftrightarrow>
     root_is_object h v \<and> plain_tree h v \<and> j = denoted h max_depth v"
  by (simp add: canonical_object_def canonical_anything_iff)

lemma policy_canonical_root_iff [result_simps]:
  "policy_canonical_root h v what = Inr j \<longleftrightarrow>
     root_is_object h v \<and> plain_tree h v \<and> j = denoted h max_depth v"
  using canonical_root_iff by (auto simp: policy_canonical_root_def)

lemma statement_canonical_root_iff [result_simps]:
  "statement_canonical_root h v what = Inr j \<longleftrightarrow>
     root_is_object h v \<and> plain_tree h v \<and> j = denoted h max_depth v"
  using canonical_root_iff by (auto simp: statement_canonical_root_def)

text \<open>What comes out is canonical.\<close>

lemma denoted_canonical: "plain_json h n v \<Longrightarrow> canonical n (denoted h n v)"
proof (induction h n v rule: plain_json.induct)
  case (5 h n r)
  then show ?case
    by (auto simp: list_all_iff plain_literal_def comp_def split: if_splits)
qed (auto simp: max_depth_def)

lemma denoted_object:
  "root_is_object h v \<Longrightarrow> plain_json h n v \<Longrightarrow> \<exists>ms. denoted h n v = JsonObj ms"
  by (cases "(h, n, v)" rule: plain_json.cases) (auto simp: root_is_object_def)

text \<open>
  The order in which a caller created the properties does not matter: two heaps whose objects
  have the same kinds, prototypes and own properties denote the same values.
\<close>

definition same_objects :: "heap \<Rightarrow> heap \<Rightarrow> bool" where
  "same_objects h g \<longleftrightarrow> (\<forall>r. obj_proto (h r) = obj_proto (g r) \<and> obj_kind (h r) = obj_kind (g r) \<and>
     own_property h r = own_property g r)"

lemma same_objects_keys:
  assumes "same_objects h g"
  shows "sort (string_keys h r) = sort (string_keys g r)"
    and "set (string_keys h r) = set (string_keys g r)"
    and "symbol_keys h r = [] \<longleftrightarrow> symbol_keys g r = []"
    and "length (own_keys h r) = length (own_keys g r)"
proof -
  have own: "own_property h r = own_property g r" using assms by (simp add: same_objects_def)
  show set_eq: "set (string_keys h r) = set (string_keys g r)" by (simp add: set_string_keys own)
  then show "sort (string_keys h r) = sort (string_keys g r)"
    by (metis distinct_string_keys sorted_list_of_set_sort_remdups distinct_remdups_id)
  have "symbol_keys k r = [] \<longleftrightarrow> (\<forall>n. own_property k r (KSym n) = None)" for k
  proof -
    have "symbol_keys k r = [] \<longleftrightarrow> (\<forall>n. KSym n \<notin> set (own_keys k r))"
      by (cases "symbol_keys k r") (auto simp: own_keys_def)
    then show ?thesis by (simp add: KSym_own_keys)
  qed
  with own show "symbol_keys h r = [] \<longleftrightarrow> symbol_keys g r = []" by simp
  show "length (own_keys h r) = length (own_keys g r)" by (simp add: length_own_keys own)
qed

lemma same_objects_view:
  assumes "same_objects h g"
  shows "is_array h v = is_array g v" "array_length h r = array_length g r"
    "element_at h r i = element_at g r i" "member_at h r k = member_at g r k"
    "dense_array h r = dense_array g r" "plain_literal h r = plain_literal g r"
  using assms same_objects_keys [OF assms, of r]
  by (auto simp: same_objects_def is_array_def array_length_def element_at_def member_at_def
      dense_array_def plain_literal_def split: jsval.splits object_kind.splits)

lemma same_objects_canonical:
  assumes "same_objects h g"
  shows "plain_json h n v = plain_json g n v"
    and "denoted h n v = denoted g n v"
    and "containers h n v = containers g n v"
proof -
  have "plain_json h n v = plain_json g n v \<and> denoted h n v = denoted g n v \<and>
      containers h n v = containers g n v"
  proof (induction n arbitrary: v)
    case 0
    then show ?case by (cases v) auto
  next
    case (Suc n)
    then show ?case
      using same_objects_keys [OF assms] by (cases v) (simp_all add: same_objects_view [OF assms])
  qed
  then show "plain_json h n v = plain_json g n v" "denoted h n v = denoted g n v"
    "containers h n v = containers g n v" by auto
qed

lemma same_objects_plain_tree: "same_objects h g \<Longrightarrow> plain_tree h v = plain_tree g v"
  by (simp add: plain_tree_def same_objects_canonical)

lemma same_objects_root: "same_objects h g \<Longrightarrow> root_is_object h v = root_is_object g v"
  by (simp add: root_is_object_def same_objects_view)

section \<open>Properties\<close>

text \<open>
  C26. The canonical value rule answers for exactly the trees of plain JSON data - dense ordinary
  arrays and ordinary literals of enumerable data properties, no refused key, no container reached
  twice, no more than sixteen on a path, every number finite - and what it answers is the value
  the tree denotes, its members sorted and its zeros positive.
\<close>

theorem canonical_rule_exact:
  "canonical_anything h v what = Inr j \<longleftrightarrow>
     plain_json h 16 v \<and> distinct (containers h 16 v) \<and> j = denoted h 16 v \<and> canonical 16 j"
  using denoted_canonical by (auto simp: canonical_anything_iff plain_tree_def max_depth_def)

text \<open>
  Two callers that hand in objects with the same own properties, created in any order, get
  the same canonical value or are both refused.
\<close>

theorem canonical_order_free:
  assumes "same_objects h g"
  shows "canonical_anything h v what = Inr j \<longleftrightarrow> canonical_anything g v what = Inr j"
  by (simp add: canonical_anything_iff same_objects_plain_tree [OF assms] same_objects_canonical [OF assms])

definition forward_heap :: heap where
  "forward_heap r = plain_object [(''a'', VBool True), (''b'', VNull)]"

definition backward_heap :: heap where
  "backward_heap r = plain_object [(''b'', VNull), (''a'', VBool True)]"

lemma forward_backward: "same_objects forward_heap backward_heap"
  by (auto simp: same_objects_def forward_heap_def backward_heap_def own_property_def plain_object_def
      fun_eq_iff)

theorem canonical_order_free_witness:
  "canonical_anything forward_heap (VObj 0) [] = Inr (JsonObj [(js ''a'', JsonBool True), (js ''b'', JsonNull)]) \<longleftrightarrow>
   canonical_anything backward_heap (VObj 0) [] = Inr (JsonObj [(js ''a'', JsonBool True), (js ''b'', JsonNull)])"
  by (rule canonical_order_free [OF forward_backward])

text \<open>
  The three copies of the rule - of the actions, of the policy decisions and of the policy
  statements - admit the same values and answer the same for them, and each refuses a root that
  is not an object.
\<close>

lemma canonical_copies_agree:
  "(canonical_object h v w1 = Inr j \<longleftrightarrow> policy_canonical_root h v w2 = Inr j) \<and>
   (policy_canonical_root h v w2 = Inr j \<longleftrightarrow> statement_canonical_root h v w3 = Inr j)"
  by (simp add: result_simps)

end
