(* ===== verification/Option_Shapes.thy ===== *)
theory Option_Shapes
  imports Canonicalisation
begin

text \<open>
  How the constructors of the kernel take their one options object. The source writes the rule
  out in every module; there are four spellings of it, from the most lenient to the strictest,
  and each is a predicate here with the reading it licenses. All four accept exactly the declared
  keys; they differ in whether a foreign prototype, an accessor or a non-enumerable member passes.
\<close>

definition comma_list :: "string list \<Rightarrow> js_string" where
  "comma_list ks = join (js '', '') (map js ks)"

definition key_set :: "string list \<Rightarrow> key set" where
  "key_set ks = KStr ` js ` set ks"

lemma inj_KStr_js: "inj_on (KStr \<circ> js) A"
  by (auto simp: inj_on_def)

lemma card_key_set: "distinct ks \<Longrightarrow> card (key_set ks) = length ks"
  using card_image [OF inj_KStr_js, of "set ks"] by (simp add: key_set_def image_comp distinct_card)

text \<open>\<open>Reflect.ownKeys(o).length === ks.length && ks.every((k) => hasOwn(o, k))\<close>\<close>

definition owns_exactly :: "heap \<Rightarrow> nat \<Rightarrow> string list \<Rightarrow> bool" where
  "owns_exactly h r ks \<longleftrightarrow> list_all (\<lambda>k. own_property h r (KStr (js k)) \<noteq> None) ks
     \<and> length (own_keys h r) = length ks"

text \<open>The same with \<open>ownKeys.includes(k)\<close> for \<open>hasOwn\<close>, as the composition code writes it.\<close>

definition includes_exactly :: "heap \<Rightarrow> nat \<Rightarrow> string list \<Rightarrow> bool" where
  "includes_exactly h r ks \<longleftrightarrow> length (own_keys h r) = length ks
     \<and> \<not> list_ex (\<lambda>k. KStr (js k) \<notin> set (own_keys h r)) ks"

definition data_exactly :: "heap \<Rightarrow> nat \<Rightarrow> string list \<Rightarrow> bool" where
  "data_exactly h r ks \<longleftrightarrow> length (own_keys h r) = length ks
     \<and> list_all (\<lambda>k. enumerable_data (own_property h r (KStr (js k)))) ks"

lemma owns_exactly_iff:
  assumes "distinct ks"
  shows "owns_exactly h r ks \<longleftrightarrow> set (own_keys h r) = key_set ks"
proof -
  have card_eq: "length (own_keys h r) = card (set (own_keys h r))"
    by (metis distinct_card distinct_own_keys)
  have "list_all (\<lambda>k. own_property h r (KStr (js k)) \<noteq> None) ks
      \<longleftrightarrow> key_set ks \<subseteq> set (own_keys h r)"
    by (auto simp: list_all_iff key_set_def set_own_keys)
  then have "owns_exactly h r ks \<longleftrightarrow> key_set ks \<subseteq> set (own_keys h r)
      \<and> card (set (own_keys h r)) = card (key_set ks)"
    by (simp add: owns_exactly_def card_eq card_key_set [OF assms])
  also have "\<dots> \<longleftrightarrow> set (own_keys h r) = key_set ks"
    by (metis List.finite_set card_subset_eq subset_refl)
  finally show ?thesis .
qed

lemma includes_exactly_owns: "includes_exactly h r ks = owns_exactly h r ks"
  by (auto simp: includes_exactly_def owns_exactly_def KStr_own_keys list_ex_iff list_all_iff)

lemma data_exactly_owns:
  "data_exactly h r ks \<longleftrightarrow>
     owns_exactly h r ks \<and> list_all (\<lambda>k. enumerable_data (own_property h r (KStr (js k)))) ks"
  by (auto simp: data_exactly_def owns_exactly_def list_all_iff elim: enumerable_dataE)

section \<open>The four spellings\<close>

text \<open>
  \<open>exactOptions\<close> of \<^verbatim>\<open>action-primitives.mjs\<close> and \<^verbatim>\<open>policy-decision.mjs\<close>: any object but an array,
  owning exactly the keys; an accessor passes and is invoked when the option is read.
\<close>

definition exact_options :: "heap \<Rightarrow> jsval \<Rightarrow> string list \<Rightarrow> js_string \<Rightarrow> nat outcome" where
  "exact_options h options expected what =
     (if \<not> root_is_object h options then type_error (what @ js '' needs an options object'')
      else case options of
        VObj r \<Rightarrow> if owns_exactly h r expected then Inr r
          else type_error (what @ js '' takes exactly these options: '' @ comma_list expected)
      | _ \<Rightarrow> type_error (what @ js '' takes exactly these options: '' @ comma_list expected))"

text \<open>The per-key loop of the strict spelling, in key order.\<close>

fun check_option_keys :: "heap \<Rightarrow> nat \<Rightarrow> js_string \<Rightarrow> key list \<Rightarrow> unit outcome" where
  "check_option_keys h r what [] = Inr ()"
| "check_option_keys h r what (KSym _ # ks) = type_error (what @ js '' admits no symbol-keyed option'')"
| "check_option_keys h r what (KStr k # ks) = (case own_property h r (KStr k) of
     Some (Data _ enumerable) \<Rightarrow>
       if enumerable then check_option_keys h r what ks
       else type_error (what @ js '' admits no non-enumerable option'')
   | _ \<Rightarrow> type_error (what @ js '' admits no accessor option''))"

text \<open>\<open>exactOptions\<close> of \<^verbatim>\<open>action-contract.mjs\<close> and \<^verbatim>\<open>policy-statement.mjs\<close>.\<close>

definition strict_options :: "heap \<Rightarrow> jsval \<Rightarrow> string list \<Rightarrow> js_string \<Rightarrow> nat outcome" where
  "strict_options h options expected what =
     (if \<not> root_is_object h options then type_error (what @ js '' needs an ordinary options object'')
      else case options of
        VObj r \<Rightarrow>
          if obj_proto (h r) \<noteq> ObjectPrototype
          then type_error (what @ js '' needs an ordinary object literal, not a custom or null-prototype object'')
          else rbind (check_option_keys h r what (own_keys h r)) (\<lambda>_.
            if owns_exactly h r expected then Inr r
            else type_error (what @ js '' takes exactly these options: '' @ comma_list expected))
      | _ \<Rightarrow> type_error (what @ js '' needs an ordinary object literal, not a custom or null-prototype object''))"

text \<open>
  \<open>exactOptions\<close> of the decision log and of \<^verbatim>\<open>commit-receipt.mjs\<close> and \<^verbatim>\<open>write-envelope.mjs\<close>: the
  count first, then each declared key as an enumerable data property.
\<close>

definition data_options ::
    "heap \<Rightarrow> jsval \<Rightarrow> string list \<Rightarrow> js_string \<Rightarrow> js_string \<Rightarrow> nat outcome" where
  "data_options h options expected not_ordinary not_exact =
     (case options of
        VObj r \<Rightarrow>
          if \<not> is_ordinary h options then type_error not_ordinary
          else if data_exactly h r expected then Inr r
          else type_error not_exact
      | _ \<Rightarrow> type_error not_ordinary)"

text \<open>
  \<open>checkOptions\<close> of the pipeline and the delivery modules: an ordinary object owning exactly the
  keys, accessors included.
\<close>

definition ordinary_options ::
    "heap \<Rightarrow> jsval \<Rightarrow> string list \<Rightarrow> js_string \<Rightarrow> js_string \<Rightarrow> nat outcome" where
  "ordinary_options h options expected not_ordinary not_exact =
     (case options of
        VObj r \<Rightarrow>
          if \<not> is_ordinary h options then type_error not_ordinary
          else if includes_exactly h r expected then Inr r
          else type_error not_exact
      | _ \<Rightarrow> type_error not_ordinary)"

text \<open>
  \<open>collaboratorOf\<close> of the ports: an ordinary object (an array is one here, the prototype rules it
  out) with one own key, holding a function.
\<close>

definition sole_function :: "heap \<Rightarrow> jsval \<Rightarrow> string \<Rightarrow> js_string \<Rightarrow> nat outcome" where
  "sole_function h options key refusal =
     (case options of
        VObj r \<Rightarrow>
          if obj_proto (h r) \<noteq> ObjectPrototype then type_error refusal
          else if own_keys h r \<noteq> [KStr (js key)] \<or> is_array h options then type_error refusal
          else (case own_property h r (KStr (js key)) of
            Some (Data (VFun f) True) \<Rightarrow> Inr f
          | _ \<Rightarrow> type_error refusal)
      | _ \<Rightarrow> type_error refusal)"

section \<open>What an accepted options object looks like\<close>

lemma exact_options_iff [result_simps]:
  "exact_options h v ks what = Inr r \<longleftrightarrow> v = VObj r \<and> \<not> is_array h v \<and> owns_exactly h r ks"
  by (cases v) (auto simp: exact_options_def root_is_object_def)

lemma check_option_keys_ok:
  "check_option_keys h r what ks = Inr u \<longleftrightarrow>
     (\<forall>k \<in> set ks. \<exists>s. k = KStr s \<and> enumerable_data (own_property h r k))"
  by (induction h r what ks rule: check_option_keys.induct)
    (auto split: option.splits property.splits)

lemma strict_options_iff [result_simps]:
  "strict_options h v ks what = Inr r \<longleftrightarrow> v = VObj r \<and> is_ordinary h v \<and> owns_exactly h r ks \<and>
     (\<forall>k \<in> set (own_keys h r). \<exists>s. k = KStr s \<and> enumerable_data (own_property h r k))"
  by (cases v)
    (auto simp: strict_options_def root_is_object_def is_ordinary_def result_simps check_option_keys_ok)

lemma data_options_iff [result_simps]:
  "data_options h v ks a b = Inr r \<longleftrightarrow> v = VObj r \<and> is_ordinary h v \<and> data_exactly h r ks"
  by (cases v) (auto simp: data_options_def)

lemma ordinary_options_iff [result_simps]:
  "ordinary_options h v ks a b = Inr r \<longleftrightarrow> v = VObj r \<and> is_ordinary h v \<and> owns_exactly h r ks"
  by (cases v) (auto simp: ordinary_options_def includes_exactly_owns)

lemma sole_function_iff [result_simps]:
  "sole_function h v k m = Inr f \<longleftrightarrow>
     (\<exists>r. v = VObj r \<and> is_ordinary h v \<and> own_keys h r = [KStr (js k)] \<and>
       own_property h r (KStr (js k)) = Some (Data (VFun f) True))"
  by (cases v)
    (auto simp: sole_function_def is_ordinary_def split: option.splits property.splits jsval.splits
      bool.splits)

text \<open>An option of an object literal reads as the value it was given.\<close>

lemma plain_object_property:
  "h r = plain_object ps \<Longrightarrow>
     own_property h r (KStr (js k)) = map_option (\<lambda>v. Data v True) (map_of ps k)"
  by (induction ps arbitrary: h) (auto simp: own_property_def plain_object_def)

lemma read_plain_object:
  "h r = plain_object ps \<Longrightarrow>
     read_key h r (js k) = Inr (case map_of ps k of Some v \<Rightarrow> v | None \<Rightarrow> VUndef)"
  by (simp add: read_key_def plain_object_property split: option.splits)

text \<open>An object literal owns exactly the keys it was written with, whatever their order.\<close>

lemma plain_object_keys:
  "h r = plain_object ps \<Longrightarrow> set (own_keys h r) = key_set (map fst ps)"
proof -
  assume h: "h r = plain_object ps"
  have "own_property h r k \<noteq> None \<longleftrightarrow> k \<in> key_set (map fst ps)" for k
    by (force simp: own_property_def h plain_object_def map_of_eq_None_iff key_set_def image_comp)
  then show ?thesis by (auto simp: set_own_keys)
qed

lemma key_set_inject: "key_set ks = key_set ls \<longleftrightarrow> set ks = set ls"
  by (simp add: key_set_def inj_image_eq_iff inj_on_def image_image inj_def
      inj_image_eq_iff [of "\<lambda>k. KStr (js k)"])

lemma plain_object_owns:
  "h r = plain_object ps \<Longrightarrow> distinct ks \<Longrightarrow> owns_exactly h r ks \<longleftrightarrow> set (map fst ps) = set ks"
  by (simp add: owns_exactly_iff plain_object_keys key_set_inject)

lemma plain_object_ordinary:
  "h r = plain_object ps \<Longrightarrow> is_ordinary h (VObj r) \<and> \<not> is_array h (VObj r)"
  by (simp add: is_ordinary_def is_array_def plain_object_def)

lemma plain_object_enumerable:
  "h r = plain_object ps \<Longrightarrow> s \<in> set (map fst ps) \<Longrightarrow>
     enumerable_data (own_property h r (KStr (js s)))"
proof -
  assume h: "h r = plain_object ps" and "s \<in> set (map fst ps)"
  then obtain v where "map_of ps s = Some v" by (metis list.set_map map_of_eq_None_iff not_None_eq)
  with h show ?thesis by (simp add: plain_object_property)
qed

lemma plain_object_data:
  "h r = plain_object ps \<Longrightarrow> distinct ks \<Longrightarrow> set (map fst ps) = set ks \<Longrightarrow> data_exactly h r ks"
  by (simp add: data_exactly_owns plain_object_owns list_all_iff plain_object_enumerable del: list.set_map)

lemma plain_object_strict:
  "h r = plain_object ps \<Longrightarrow> k \<in> set (own_keys h r) \<Longrightarrow>
     \<exists>s. k = KStr s \<and> enumerable_data (own_property h r k)"
  by (force simp: plain_object_keys key_set_def intro!: plain_object_enumerable)

lemmas plain_object_facts = plain_object_owns plain_object_ordinary plain_object_data read_plain_object

text \<open>An array literal is dense, and its elements are the ones it was written with.\<close>

lemma array_object_property:
  "h r = array_object vs \<Longrightarrow>
     own_property h r k = (case k of
       KStr s \<Rightarrow> if \<exists>i < length vs. s = dec_nat i then Some (Data (vs ! nat_of_dec s) True) else None
     | KSym _ \<Rightarrow> None)"
proof -
  assume h: "h r = array_object vs"
  have "map_of (map (\<lambda>(i, v). (KStr (dec_nat i), Data v True)) (List.enumerate n us)) k =
      (case k of
         KStr s \<Rightarrow> if \<exists>i < length us. s = dec_nat (n + i) then Some (Data (us ! (nat_of_dec s - n)) True) else None
       | KSym _ \<Rightarrow> None)" for n us
  proof (induction us arbitrary: n)
    case Nil
    then show ?case by (simp split: key.splits)
  next
    case (Cons u us)
    show ?case
    proof (cases k)
      case (KStr s)
      have "(\<exists>i < length (u # us). s = dec_nat (n + i)) \<longleftrightarrow>
          s = dec_nat n \<or> (\<exists>i < length us. s = dec_nat (Suc n + i))"
        by (auto simp: less_Suc_eq_0_disj)
      moreover have "(u # us) ! (nat_of_dec (dec_nat (Suc n + i)) - n) = us ! (nat_of_dec (dec_nat (Suc n + i)) - Suc n)"
        for i by simp
      ultimately show ?thesis using Cons [of "Suc n"] KStr by (auto simp: Suc_diff_Suc)
    qed (use Cons [of "Suc n"] in simp)
  qed
  from this [of 0 vs] show ?thesis
    by (cases k) (simp_all add: own_property_def h array_object_def)
qed

lemma array_object_facts:
  assumes h: "h r = array_object vs"
  shows "is_array h (VObj r)" "array_length h r = length vs" "dense_array h r"
    "i < length vs \<Longrightarrow> element_at h r i = vs ! i"
    "set (own_keys h r) = (\<lambda>i. KStr (dec_nat i)) ` {..<length vs}"
proof -
  show "is_array h (VObj r)" "array_length h r = length vs"
    by (simp_all add: is_array_def array_length_def h array_object_def)
  note len = this(2)
  have own: "own_property h r (KStr (dec_nat i)) = (if i < length vs then Some (Data (vs ! i) True) else None)" for i
    by (auto simp: array_object_property [where h = h and r = r and vs = vs, OF h])
  show "i < length vs \<Longrightarrow> element_at h r i = vs ! i"
    by (simp add: element_at_def own data_value_def)
  have "own_property h r k \<noteq> None \<longleftrightarrow> k \<in> (\<lambda>i. KStr (dec_nat i)) ` {..<length vs}" for k
    unfolding array_object_property [where h = h and r = r and vs = vs, OF h] by (cases k) auto
  then have "{k. own_property h r k \<noteq> None} = (\<lambda>i. KStr (dec_nat i)) ` {..<length vs}" by blast
  then show "set (own_keys h r) = (\<lambda>i. KStr (dec_nat i)) ` {..<length vs}" by (simp add: set_own_keys)
  note \<open>{k. own_property h r k \<noteq> None} = (\<lambda>i. KStr (dec_nat i)) ` {..<length vs}\<close>
  moreover have "inj_on (\<lambda>i. KStr (dec_nat i)) {..<length vs}" by (auto simp: inj_on_def)
  ultimately have "length (own_keys h r) = length vs" by (simp add: length_own_keys card_image)
  then show "dense_array h r" by (simp add: dense_array_def len own h array_object_def)
qed

lemma plain_object_key_count:
  "h r = plain_object ps \<Longrightarrow> distinct (map fst ps) \<Longrightarrow> length (own_keys h r) = length ps"
  using plain_object_keys [of h r ps] card_key_set [of "map fst ps"]
  by (metis distinct_card distinct_own_keys length_map)

end
