(* ===== verification/Json_Injective.thy ===== *)
theory Json_Injective
  imports Js_Json
begin

text \<open>
  Two canonical values with one rendering are one value. The kernel's \<open>equals\<close> compares
  renderings and the audit log hashes them, so both rest on this. The proof reads the text back:
  a string literal up to its closing quote, a number up to the next delimiter, and then the
  structure by induction.
\<close>

section \<open>Reading numbers back\<close>

definition all_digits :: "js_string \<Rightarrow> bool" where
  "all_digits s \<longleftrightarrow> list_all is_digit s"

text \<open>The digits ECMAScript prints: no leading and no trailing zero.\<close>

definition proper_digits :: "js_string \<Rightarrow> bool" where
  "proper_digits s \<longleftrightarrow> s \<noteq> [] \<and> all_digits s \<and> hd s \<noteq> 0x30 \<and> last s \<noteq> 0x30"

definition cp_e :: code_unit where "cp_e = 0x65"
definition cp_dot :: code_unit where "cp_dot = 0x2E"
definition cp_minus :: code_unit where "cp_minus = 0x2D"

definition read_digits :: "js_string \<Rightarrow> js_string \<times> int" where
  "read_digits t =
     (if cp_e \<in> set t then
        (let m = takeWhile (\<lambda>c. c \<noteq> cp_e) t; x = tl (dropWhile (\<lambda>c. c \<noteq> cp_e) t);
             e = int (nat_of_dec (tl x))
         in (filter (\<lambda>c. c \<noteq> cp_dot) m, (if hd x = cp_minus then - e else e) + 1))
      else if cp_dot \<in> set t then
        (let i = takeWhile (\<lambda>c. c \<noteq> cp_dot) t; f = tl (dropWhile (\<lambda>c. c \<noteq> cp_dot) t) in
         if i = [0x30] then (dropWhile (\<lambda>c. c = 0x30) f, - int (length (takeWhile (\<lambda>c. c = 0x30) f)))
         else (i @ f, int (length i)))
      else (strip_zeros t, int (length t)))"

lemma js_literals:
  "js ''e'' = [cp_e]" "js ''.'' = [cp_dot]" "js ''-'' = [cp_minus]" "js ''+'' = [0x2B]"
  "js ''0.'' = [0x30, cp_dot]" "js ''0'' = [0x30]"
  by (simp_all add: js_def cp_e_def cp_dot_def cp_minus_def)

lemma digit_not_mark: "is_digit c \<Longrightarrow> c \<noteq> cp_e \<and> c \<noteq> cp_dot \<and> c \<noteq> cp_minus"
  by (auto simp: is_digit_def cp_e_def cp_dot_def cp_minus_def)

lemma digits_no_mark:
  "all_digits s \<Longrightarrow> cp_e \<notin> set s" "all_digits s \<Longrightarrow> cp_dot \<notin> set s" "all_digits s \<Longrightarrow> cp_minus \<notin> set s"
  by (auto simp: all_digits_def list_all_iff dest: digit_not_mark)

lemma zeros_digits [simp]: "all_digits (zeros n)" "length (zeros n) = n"
  by (auto simp: zeros_def all_digits_def list_all_iff is_digit_def)

lemma all_digits_append [simp]: "all_digits (s @ t) \<longleftrightarrow> all_digits s \<and> all_digits t"
  by (simp add: all_digits_def)

lemma all_digits_sub:
  "all_digits s \<Longrightarrow> all_digits (take n s)" "all_digits s \<Longrightarrow> all_digits (drop n s)"
  by (auto simp: all_digits_def list_all_iff dest: in_set_takeD in_set_dropD)

lemma takeWhile_mark: "c \<notin> set s \<Longrightarrow> takeWhile (\<lambda>x. x \<noteq> c) (s @ c # t) = s"
  by (induction s) auto

lemma dropWhile_mark: "c \<notin> set s \<Longrightarrow> dropWhile (\<lambda>x. x \<noteq> c) (s @ c # t) = c # t"
  by (induction s) auto

lemma filter_no_dot: "all_digits s \<Longrightarrow> filter (\<lambda>c. c \<noteq> cp_dot) s = s"
  by (rule filter_True) (use digits_no_mark in blast)

lemma strip_zeros_append:
  assumes "s \<noteq> []" "last s \<noteq> 0x30" shows "strip_zeros (s @ zeros n) = s"
proof -
  obtain t c where s: "s = t @ [c]" "c \<noteq> 0x30" using assms by (cases s rule: rev_cases) auto
  have "dropWhile (\<lambda>c. c = 0x30) (replicate n 0x30 @ c # u) = c # u" for u
    using s by (induction n) auto
  with s show ?thesis by (simp add: strip_zeros_def zeros_def)
qed

lemma span_zeros:
  assumes "s \<noteq> []" "hd s \<noteq> 0x30"
  shows "dropWhile (\<lambda>c. c = 0x30) (zeros n @ s) = s"
    and "takeWhile (\<lambda>c. c = 0x30) (zeros n @ s) = zeros n"
proof -
  have "(\<forall>x \<in> set (zeros n). x = 0x30)" by (simp add: zeros_def)
  then show "dropWhile (\<lambda>c. c = 0x30) (zeros n @ s) = s"
    "takeWhile (\<lambda>c. c = 0x30) (zeros n @ s) = zeros n"
    using assms by (cases s; simp add: dropWhile_append takeWhile_append)+
qed

lemma read_exponent_form:
  assumes s: "all_digits s" "s \<noteq> []"
  defines "m \<equiv> (if length s = 1 then s else take 1 s @ [cp_dot] @ drop 1 s)"
  shows "read_digits (m @ [cp_e] @ [sg] @ dec_nat x) =
    (s, (if sg = cp_minus then - int x else int x) + 1)"
proof -
  have m_e: "cp_e \<notin> set m"
    using s digits_no_mark(1) [of s] all_digits_sub [of s 1]
    by (auto simp: m_def cp_e_def cp_dot_def dest: in_set_takeD in_set_dropD)
  have m_s: "filter (\<lambda>c. c \<noteq> cp_dot) m = s"
    using s all_digits_sub [of s 1] filter_no_dot [of "take 1 s"] filter_no_dot [of "drop 1 s"]
    by (auto simp: m_def filter_no_dot)
  show ?thesis
    using m_e m_s by (simp add: read_digits_def takeWhile_mark dropWhile_mark Let_def)
qed

lemma read_digits_text:
  assumes s: "proper_digits s"
  shows "read_digits (digits_text s n) = (s, n)"
proof -
  have d: "all_digits s" "s \<noteq> []" "hd s \<noteq> 0x30" "last s \<noteq> 0x30"
    using s by (auto simp: proper_digits_def)
  consider (whole) "int (length s) \<le> n" "n \<le> 21"
    | (point) "0 < n" "n < int (length s)" "n \<le> 21"
    | (small) "- 6 < n" "n \<le> 0"
    | (exp) "n > 21 \<or> n \<le> - 6"
    by linarith
  then show ?thesis
  proof cases
    case whole
    have "cp_e \<notin> set (s @ zeros k)" "cp_dot \<notin> set (s @ zeros k)" for k
      using d digits_no_mark [of "s @ zeros k"] by auto
    with whole d show ?thesis
      by (simp add: digits_text_def read_digits_def strip_zeros_append)
  next
    case point
    define i f where "i = take (nat n) s" and "f = drop (nat n) s"
    have if_digits: "all_digits i" "all_digits f" and s_eq: "s = i @ f" and li: "int (length i) = n"
      using d point by (auto simp: i_def f_def all_digits_sub)
    have "i \<noteq> []" using li point by auto
    then have "hd i = hd s" using s_eq by simp
    then have "i \<noteq> [0x30]" using d by auto
    moreover have "digits_text s n = i @ [cp_dot] @ f"
      using point by (simp add: digits_text_def i_def f_def js_literals)
    ultimately show ?thesis
      using digits_no_mark [OF if_digits(1)] digits_no_mark [OF if_digits(2)] s_eq li
      by (auto simp: read_digits_def takeWhile_mark dropWhile_mark Let_def cp_e_def cp_dot_def)
  next
    case small
    have z: "cp_e \<notin> set (zeros k @ s)" for k
      using d digits_no_mark [of "zeros k @ s"] by auto
    have "\<not> int (length s) \<le> n" using small d by (cases s) auto
    then have "digits_text s n = [0x30] @ [cp_dot] @ zeros (nat (- n)) @ s"
      using small by (simp add: digits_text_def js_literals)
    moreover have "cp_dot \<notin> set [0x30]" "cp_e \<notin> set [0x30, cp_dot]"
      by (simp_all add: cp_dot_def cp_e_def)
    ultimately show ?thesis
      using z [of "nat (- n)"] small span_zeros [OF d(2,3)]
      by (simp add: read_digits_def Let_def)
  next
    case exp
    define sg where "sg = (if 0 \<le> n - 1 then 0x2B else cp_minus)"
    have "digits_text s n =
        (if length s = 1 then s else take 1 s @ [cp_dot] @ drop 1 s) @ [cp_e] @ [sg] @ dec_nat (nat \<bar>n - 1\<bar>)"
      using exp d by (auto simp: digits_text_def js_literals sg_def)
    moreover have "sg = cp_minus \<longleftrightarrow> n - 1 < 0" by (simp add: sg_def cp_minus_def)
    ultimately show ?thesis using read_exponent_form [OF d(1,2)] by simp
  qed
qed

lemma digit_eq_iff: "a < 10 \<Longrightarrow> b < 10 \<Longrightarrow> digit a = digit b \<longleftrightarrow> a = b"
  by (metis digit_value_digit)

lemma hd_dec_nat: "0 < n \<Longrightarrow> hd (dec_nat n) \<noteq> 0x30"
proof (induction n rule: dec_nat.induct)
  case (1 n)
  have z: "(0x30 :: code_unit) = digit 0" by (simp add: digit_def)
  show ?case
  proof (cases "n < 10")
    case True
    then show ?thesis using 1 by (subst dec_nat.simps) (simp add: z digit_eq_iff)
  next
    case False
    then show ?thesis using 1 by (subst dec_nat.simps) simp
  qed
qed

lemma last_dec_nat: "last (dec_nat n) = digit (n mod 10)"
  by (subst dec_nat.simps) auto

lemma all_digits_dec_nat [simp]: "all_digits (dec_nat n)"
  using dec_nat_digits [of n] by (simp add: all_digits_def)

lemma strip_zeros_split: "\<exists>k. s = strip_zeros s @ zeros k"
proof -
  have "\<exists>k. takeWhile (\<lambda>c. c = 0x30) (rev s) = zeros k"
    by (metis (mono_tags, lifting) replicate_eqI set_takeWhileD zeros_def)
  then obtain k where k: "takeWhile (\<lambda>c. c = 0x30) (rev s) = zeros k" by blast
  have "rev s = zeros k @ dropWhile (\<lambda>c. c = 0x30) (rev s)"
    using takeWhile_dropWhile_id [of "\<lambda>c. c = 0x30" "rev s"] k by simp
  then have "rev (rev s) = rev (zeros k @ dropWhile (\<lambda>c. c = 0x30) (rev s))" by simp
  then have "s = strip_zeros s @ zeros k" by (simp add: strip_zeros_def zeros_def)
  then show ?thesis by blast
qed

lemma strip_zeros_dec_proper:
  assumes "0 < n" shows "proper_digits (strip_zeros (dec_nat n))"
proof -
  let ?s = "dec_nat n"
  obtain k where k: "?s = strip_zeros ?s @ zeros k" using strip_zeros_split by blast
  have ne: "strip_zeros ?s \<noteq> []"
  proof
    assume e: "strip_zeros ?s = []"
    with k have "?s = zeros k" by simp
    then have "hd ?s = 0x30" using dec_nat_not_Nil [of n] by (cases k) (auto simp: zeros_def)
    with hd_dec_nat [OF assms] show False by simp
  qed
  have "last (strip_zeros ?s) \<noteq> 0x30"
    using ne hd_dropWhile [of "\<lambda>c. c = 0x30" "rev ?s"] by (simp add: strip_zeros_def last_rev)
  moreover have "hd (strip_zeros ?s) = hd ?s" using k ne by (metis hd_append2)
  moreover have "all_digits (strip_zeros ?s)" using all_digits_dec_nat [of n] k by (metis all_digits_append)
  ultimately show ?thesis using ne hd_dec_nat [OF assms] by (simp add: proper_digits_def)
qed

lemma digit_nat_bounds: "1 \<le> digit_nat d" "digit_nat d \<le> 9"
  by (cases d; simp add: digit_nat_def)+

lemma digit_nat_inject [simp]: "digit_nat a = digit_nat b \<longleftrightarrow> a = b"
  by (cases a; cases b) (simp_all add: digit_nat_def)

lemma dec_fraction_proper: "proper_digits (dec_nat (10 * a + digit_nat d))"
proof -
  have "last (dec_nat (10 * a + digit_nat d)) = digit (digit_nat d)"
    using digit_nat_bounds [of d] by (simp add: last_dec_nat)
  moreover have "digit (digit_nat d) \<noteq> 0x30"
    using digit_eq_iff [of "digit_nat d" 0] digit_nat_bounds [of d] by (simp add: digit_def)
  moreover have "hd (dec_nat (10 * a + digit_nat d)) \<noteq> 0x30"
    using digit_nat_bounds [of d] by (intro hd_dec_nat) simp
  ultimately show ?thesis by (simp add: proper_digits_def)
qed

lemma digits_text_hd: "proper_digits s \<Longrightarrow> digits_text s n \<noteq> [] \<and> hd (digits_text s n) \<noteq> cp_minus"
  by (cases s) (auto simp: digits_text_def proper_digits_def all_digits_def js_literals cp_minus_def
      take_Cons is_digit_def split: nat.splits)

text \<open>What a finite number's text determines: its sign, digits and scale.\<close>

definition number_key :: "js_number \<Rightarrow> bool \<times> js_string \<times> int" where
  "number_key v = (case v of
     JInt i \<Rightarrow> (i < 0, if i = 0 then [] else strip_zeros (dec_nat (nat \<bar>i\<bar>)),
                int (length (dec_nat (nat \<bar>i\<bar>))))
   | JDec neg a d k \<Rightarrow> (neg, dec_nat (10 * a + digit_nat d),
                int (length (dec_nat (10 * a + digit_nat d))) - int k - 1)
   | _ \<Rightarrow> (False, [], 0))"

definition read_number :: "js_string \<Rightarrow> bool \<times> js_string \<times> int" where
  "read_number t = (if t \<noteq> [] \<and> hd t = cp_minus then (True, read_digits (tl t)) else (False, read_digits t))"

definition plain_number :: "js_number \<Rightarrow> bool" where
  "plain_number v \<longleftrightarrow> number_is_finite v \<and> v \<noteq> JNegZero"

lemma read_number_text:
  assumes "plain_number v" shows "read_number (number_text v) = number_key v"
proof (cases v)
  case (JInt i)
  show ?thesis
  proof (cases "i = 0")
    case True
    then show ?thesis
      by (simp add: JInt number_text_def read_number_def read_digits_def js_literals number_key_def
          cp_minus_def cp_e_def cp_dot_def strip_zeros_def dec_nat.simps)
  next
    case False
    then have p: "proper_digits (strip_zeros (dec_nat (nat \<bar>i\<bar>)))" by (intro strip_zeros_dec_proper) simp
    define s n where "s = strip_zeros (dec_nat (nat \<bar>i\<bar>))" and "n = int (length (dec_nat (nat \<bar>i\<bar>)))"
    have "number_text v = (if i < 0 then [cp_minus] else []) @ digits_text s n"
      using False by (simp add: JInt number_text_def js_literals sign_text_def Let_def s_def n_def)
    moreover have "number_key v = (i < 0, s, n)"
      using False by (simp add: JInt number_key_def s_def n_def)
    ultimately show ?thesis
      using digits_text_hd [OF p, folded s_def] read_digits_text [OF p, folded s_def]
      by (simp add: read_number_def)
  qed
next
  case (JDec neg a d k)
  show ?thesis
    using digits_text_hd [OF dec_fraction_proper] read_digits_text [OF dec_fraction_proper]
    by (simp add: JDec number_text_def read_number_def js_literals number_key_def Let_def)
qed (use assms in \<open>auto simp: plain_number_def number_is_finite_def\<close>)

lemma number_key_inject:
  assumes "plain_number v" "plain_number w" "number_key v = number_key w"
  shows "v = w"
proof -
  have int_case: "i = j" if "number_key (JInt i) = number_key (JInt j)" for i j
  proof -
    obtain k where k: "dec_nat (nat \<bar>i\<bar>) = strip_zeros (dec_nat (nat \<bar>i\<bar>)) @ zeros k"
      using strip_zeros_split by blast
    obtain l where l: "dec_nat (nat \<bar>j\<bar>) = strip_zeros (dec_nat (nat \<bar>j\<bar>)) @ zeros l"
      using strip_zeros_split by blast
    have ne: "strip_zeros (dec_nat (nat \<bar>x\<bar>)) \<noteq> []" if "x \<noteq> 0" for x :: int
      using strip_zeros_dec_proper [of "nat \<bar>x\<bar>"] that by (simp add: proper_digits_def)
    show "i = j"
    proof (cases "i = 0 \<or> j = 0")
      case True
      then show ?thesis using that ne [of i] ne [of j] by (auto simp: number_key_def split: if_splits)
    next
      case False
      with that have eqs: "strip_zeros (dec_nat (nat \<bar>i\<bar>)) = strip_zeros (dec_nat (nat \<bar>j\<bar>))"
        "length (dec_nat (nat \<bar>i\<bar>)) = length (dec_nat (nat \<bar>j\<bar>))" "i < 0 \<longleftrightarrow> j < 0"
        by (auto simp: number_key_def)
      then have "k = l"
        using arg_cong [OF k, of length] arg_cong [OF l, of length] by simp
      with eqs k l have "dec_nat (nat \<bar>i\<bar>) = dec_nat (nat \<bar>j\<bar>)" by metis
      then have "\<bar>i\<bar> = \<bar>j\<bar>" by simp
      with eqs(3) show ?thesis by linarith
    qed
  qed
  have mixed: False if "number_key (JInt i) = number_key (JDec neg a d k)" for i neg a d k
  proof -
    obtain l where l: "dec_nat (nat \<bar>i\<bar>) = strip_zeros (dec_nat (nat \<bar>i\<bar>)) @ zeros l"
      using strip_zeros_split by blast
    from that arg_cong [OF l, of length] show False
      by (auto simp: number_key_def split: if_splits)
  qed
  have dec_case: "JDec n1 a d k = JDec n2 b e l" if "number_key (JDec n1 a d k) = number_key (JDec n2 b e l)"
    for n1 a d k n2 b e l
  proof -
    have "10 * a + digit_nat d = 10 * b + digit_nat e" using that by (simp add: number_key_def)
    moreover from this have "a = b" using digit_nat_bounds [of d] digit_nat_bounds [of e] by linarith
    ultimately have "a = b" "digit_nat d = digit_nat e" by simp_all
    with that show ?thesis by (simp add: number_key_def)
  qed
  from assms show ?thesis
    by (cases v; cases w)
      (auto simp: plain_number_def number_is_finite_def dest: int_case mixed mixed [OF sym] dec_case)
qed

lemma number_text_inject:
  "plain_number v \<Longrightarrow> plain_number w \<Longrightarrow> number_text v = number_text w \<Longrightarrow> v = w"
  by (metis number_key_inject read_number_text)

section \<open>Reading strings back\<close>

definition hex_value :: "code_unit \<Rightarrow> nat" where
  "hex_value c = (if c \<le> 0x39 then unat c - 48 else unat c - 87)"

definition simple_escape :: "code_unit \<Rightarrow> code_unit" where
  "simple_escape c = (if c = 0x62 then 0x08 else if c = 0x66 then 0x0C else if c = 0x6E then 0x0A
     else if c = 0x72 then 0x0D else if c = 0x74 then 0x09 else c)"

text \<open>A string literal after its opening quote: its value and what follows it.\<close>

fun unquote :: "js_string \<Rightarrow> (js_string \<times> js_string) option" where
  "unquote [] = None"
| "unquote (c # s) =
     (if c = 0x22 then Some ([], s)
      else if c = 0x5C then
        (case s of
           e # a # b # x # y # t \<Rightarrow>
             if e = 0x75
             then map_option (\<lambda>(u, r). (word_of_nat (4096 * hex_value a + 256 * hex_value b
                    + 16 * hex_value x + hex_value y) # u, r)) (unquote t)
             else map_option (\<lambda>(u, r). (simple_escape e # u, r)) (unquote (a # b # x # y # t))
         | e # t \<Rightarrow> map_option (\<lambda>(u, r). (simple_escape e # u, r)) (unquote t)
         | [] \<Rightarrow> None)
      else map_option (\<lambda>(u, r). (c # u, r)) (unquote s))"

lemma hex_value_digit: "d < 16 \<Longrightarrow> hex_value (hex_digit d) = d"
proof -
  assume "d < 16"
  then have "d \<in> set [0..<16]" by simp
  then show ?thesis by (auto simp: upt_rec hex_value_def hex_digit_def)
qed

lemma base16_sum:
  "(n::nat) = 16 * p + d \<Longrightarrow> p = 16 * q + c \<Longrightarrow> q = 16 * r + b \<Longrightarrow> 4096 * r + 256 * b + 16 * c + d = n"
  by simp

lemma hex_digits_sum:
  "4096 * (n div 4096) + 256 * (n div 256 mod 16) + 16 * (n div 16 mod 16) + n mod 16 = (n::nat)"
proof -
  have e: "n div 256 = n div 16 div 16" "n div 4096 = n div 16 div 16 div 16"
    by (simp_all add: div_mult2_eq [symmetric])
  show ?thesis
    unfolding e by (rule base16_sum; rule mult_div_mod_eq [symmetric])
qed

lemma unquote_unicode: "unquote (unicode_escape c @ t) = map_option (\<lambda>(u, r). (c # u, r)) (unquote t)"
proof -
  have n: "unat c < 65536" using unsigned_less [of c] by simp
  then have "unat c div 4096 < 16" by simp
  then have hx: "hex_value (hex_digit (unat c div 4096)) = unat c div 4096"
    "hex_value (hex_digit (unat c div 256 mod 16)) = unat c div 256 mod 16"
    "hex_value (hex_digit (unat c div 16 mod 16)) = unat c div 16 mod 16"
    "hex_value (hex_digit (unat c mod 16)) = unat c mod 16"
    by (simp_all add: hex_value_digit)
  have "word_of_nat (4096 * hex_value (hex_digit (unat c div 4096))
      + 256 * hex_value (hex_digit (unat c div 256 mod 16))
      + 16 * hex_value (hex_digit (unat c div 16 mod 16)) + hex_value (hex_digit (unat c mod 16))) = c"
    unfolding hx hex_digits_sum by simp
  then show ?thesis by (simp add: unicode_escape_def Let_def del: of_nat_add of_nat_mult)
qed

lemma unquote_simple:
  "e \<noteq> 0x75 \<Longrightarrow> unquote (0x5C # e # t) = map_option (\<lambda>(u, r). (simple_escape e # u, r)) (unquote t)"
  by (auto split: list.splits)

lemma unquote_raw:
  "c \<noteq> 0x22 \<Longrightarrow> c \<noteq> 0x5C \<Longrightarrow> unquote (c # t) = map_option (\<lambda>(u, r). (c # u, r)) (unquote t)"
  by simp

declare unquote.simps(2) [simp del]

lemma unquote_escape_unit: "unquote (escape_unit c @ t) = map_option (\<lambda>(u, r). (c # u, r)) (unquote t)"
  by (auto simp: escape_unit_def unquote_unicode unquote_simple unquote_raw simple_escape_def)

lemma surrogate_raw:
  "is_high_surrogate c \<or> is_low_surrogate c \<Longrightarrow> c \<noteq> 0x22 \<and> c \<noteq> 0x5C"
  by (auto simp: is_high_surrogate_def is_low_surrogate_def)

lemma unquote_escape: "unquote (escape s @ 0x22 # r) = Some (s, r)"
proof (induction s rule: escape.induct)
  case 1
  then show ?case by (simp add: unquote.simps)
next
  case (2 a)
  then show ?case
    by (simp add: unquote_unicode unquote_escape_unit) (simp add: unquote.simps)
next
  case (3 a b s)
  then show ?case
    using surrogate_raw [of a] surrogate_raw [of b]
    by (auto simp: unquote_unicode unquote_escape_unit unquote_raw)
qed

lemma quote_cancel: "quote s @ r = quote t @ r' \<Longrightarrow> s = t \<and> r = r'"
proof -
  assume "quote s @ r = quote t @ r'"
  then have "unquote (escape s @ 0x22 # r) = unquote (escape t @ 0x22 # r')" by (simp add: quote_def)
  then show ?thesis by (simp add: unquote_escape)
qed

section \<open>Reading values back\<close>

text \<open>Rendering members in the order given; \<open>stringify\<close> renders the enumeration order.\<close>

fun render :: "json \<Rightarrow> js_string" where
  "render JsonNull = js ''null''"
| "render (JsonBool b) = (if b then js ''true'' else js ''false'')"
| "render (JsonNum n) = (if number_is_finite n then number_text n else js ''null'')"
| "render (JsonStr s) = quote s"
| "render (JsonArr vs) = js ''['' @ join (js '','') (map render vs) @ js '']''"
| "render (JsonObj ms) =
     js ''{'' @ join (js '','') (map (\<lambda>(k, v). quote k @ js '':'' @ render v) ms) @ js ''}''"

fun ordered :: "json \<Rightarrow> json" where
  "ordered (JsonArr vs) = JsonArr (map ordered vs)"
| "ordered (JsonObj ms) = JsonObj (own_members (map (\<lambda>(k, v). (k, ordered v)) ms))"
| "ordered v = v"

lemma stringify_render: "stringify v = render (ordered v)"
proof (induction v)
  case (JsonArr vs)
  have "map stringify vs = map (render \<circ> ordered) vs"
    by (rule map_cong) (use JsonArr in simp_all)
  then show ?case by (simp only: stringify.simps render.simps ordered.simps list.map_comp)
next
  case (JsonObj ms)
  have "map (\<lambda>(k, v). (k, stringify v)) ms = map (\<lambda>(k, v). (k, render (ordered v))) ms"
    by (rule map_cong) (use JsonObj in \<open>auto simp: snds.simps\<close>)
  then have "own_members (map (\<lambda>(k, v). (k, stringify v)) ms)
      = map (\<lambda>(k, v). (k, render (ordered v))) (own_members ms)"
    by (simp add: own_members_map)
  moreover have "own_members (map (\<lambda>(k, v). (k, ordered v)) ms)
      = map (\<lambda>(k, v). (k, ordered v)) (own_members ms)"
    by (rule own_members_map)
  ultimately show ?case by (simp add: comp_def case_prod_unfold)
qed simp_all

fun numbers_ok :: "json \<Rightarrow> bool" where
  "numbers_ok (JsonNum n) = plain_number n"
| "numbers_ok (JsonArr vs) = list_all numbers_ok vs"
| "numbers_ok (JsonObj ms) = list_all (\<lambda>(_, v). numbers_ok v) ms"
| "numbers_ok _ = True"

text \<open>What can follow a value inside a text: nothing, a comma or a closing bracket.\<close>

definition delimited :: "js_string \<Rightarrow> bool" where
  "delimited r \<longleftrightarrow> r = [] \<or> hd r \<in> {0x2C, 0x5D, 0x7D}"

definition number_unit :: "code_unit \<Rightarrow> bool" where
  "number_unit c \<longleftrightarrow> is_digit c \<or> c \<in> {cp_e, cp_dot, cp_minus, 0x2B}"

lemma number_unit_digits: "all_digits s \<Longrightarrow> list_all number_unit s"
  by (auto simp: all_digits_def list_all_iff number_unit_def)

lemma digits_text_units: "all_digits s \<Longrightarrow> list_all number_unit (digits_text s n)"
  using number_unit_digits [of s] number_unit_digits [of "take k s" for k]
    number_unit_digits [of "drop k s" for k] number_unit_digits [of "zeros k" for k]
    number_unit_digits [of "dec_nat k" for k]
  by (auto simp: digits_text_def js_literals all_digits_sub)
    (auto simp: number_unit_def cp_e_def is_digit_def)

lemma number_text_units:
  assumes "plain_number v" shows "list_all number_unit (number_text v)" and "number_text v \<noteq> []"
proof -
  have sub: "all_digits (strip_zeros (dec_nat n))" for n
    using strip_zeros_split [of "dec_nat n"] all_digits_dec_nat [of n] by (metis all_digits_append)
  have u: "number_unit cp_minus" "number_unit 0x30" by (simp_all add: number_unit_def is_digit_def)
  show "list_all number_unit (number_text v)"
    using assms digits_text_units sub u
    by (cases v) (auto simp: plain_number_def number_is_finite_def number_text_def js_literals
        sign_text_def Let_def)
  show "number_text v \<noteq> []"
  proof (cases v)
    case (JInt i)
    then show ?thesis
      using digits_text_hd [OF strip_zeros_dec_proper [of "nat \<bar>i\<bar>"]]
      by (auto simp: number_text_def js_literals Let_def)
  next
    case (JDec neg a d k)
    then show ?thesis
      using digits_text_hd [OF dec_fraction_proper [of a d]]
      by (auto simp: number_text_def js_literals Let_def)
  qed (use assms in \<open>auto simp: plain_number_def number_is_finite_def\<close>)
qed

lemma span_number:
  "list_all number_unit s \<Longrightarrow> delimited r \<Longrightarrow> takeWhile number_unit (s @ r) = s"
proof -
  assume s: "list_all number_unit s" and r: "delimited r"
  have "\<not> number_unit c" if "c \<in> {0x2C, 0x5D, 0x7D}" for c
    using that by (auto simp: number_unit_def is_digit_def cp_e_def cp_dot_def cp_minus_def)
  with r have "takeWhile number_unit r = []" by (cases r) (auto simp: delimited_def)
  with s show ?thesis by (simp add: takeWhile_append list_all_iff)
qed

lemma number_cancel:
  assumes "plain_number v" "plain_number w" "number_text v @ r = number_text w @ r'"
    "delimited r" "delimited r'"
  shows "v = w \<and> r = r'"
proof -
  have "number_text v = number_text w"
    using span_number [OF number_text_units(1) [OF assms(1)] assms(4)]
      span_number [OF number_text_units(1) [OF assms(2)] assms(5)] assms(3) by simp
  with assms show ?thesis by (auto dest: number_text_inject)
qed

text \<open>The first unit tells the constructor.\<close>

definition lead :: "json \<Rightarrow> code_unit set" where
  "lead v = (case v of
     JsonNull \<Rightarrow> {0x6E} | JsonBool b \<Rightarrow> (if b then {0x74} else {0x66}) | JsonStr _ \<Rightarrow> {0x22}
   | JsonArr _ \<Rightarrow> {0x5B} | JsonObj _ \<Rightarrow> {0x7B} | JsonNum _ \<Rightarrow> {c. number_unit c})"

lemma render_lead: "numbers_ok v \<Longrightarrow> \<exists>c t. render v = c # t \<and> c \<in> lead v"
proof (cases v)
  case (JsonNum n)
  assume "numbers_ok v"
  with JsonNum have "plain_number n" by simp
  with number_text_units [OF this] show ?thesis
    by (cases "number_text n") (auto simp: JsonNum lead_def plain_number_def)
qed (auto simp: lead_def js_def quote_def)

lemma number_unit_not_lead: "number_unit c \<Longrightarrow> c \<notin> {0x6E, 0x74, 0x66, 0x22, 0x5B, 0x7B, 0x5D, 0x7D}"
  by (auto simp: number_unit_def is_digit_def cp_e_def cp_dot_def cp_minus_def)

lemma lead_meet: "c \<in> lead v \<Longrightarrow> c \<in> lead w \<Longrightarrow>
    (\<exists>m n. v = JsonNum m \<and> w = JsonNum n) \<or> (v = JsonNull \<and> w = JsonNull)
    \<or> (\<exists>b. v = JsonBool b \<and> w = JsonBool b) \<or> (\<exists>s t. v = JsonStr s \<and> w = JsonStr t)
    \<or> (\<exists>xs ys. v = JsonArr xs \<and> w = JsonArr ys) \<or> (\<exists>ms ns. v = JsonObj ms \<and> w = JsonObj ns)"
  using number_unit_not_lead [of c]
  by (cases v; cases w) (auto simp: lead_def split: if_splits)

lemma lead_not_close: "c \<in> lead v \<Longrightarrow> c \<noteq> 0x5D \<and> c \<noteq> 0x7D \<and> c \<noteq> 0x2C"
  using number_unit_not_lead [of c]
  by (cases v) (auto simp: lead_def number_unit_def is_digit_def cp_e_def cp_dot_def cp_minus_def
      split: if_splits)

text \<open>Separated lists read back element by element, when each element does.\<close>

lemma join_Cons: "join sep (x # xs) = x @ (if xs = [] then [] else sep @ join sep xs)"
  by (cases xs) simp_all

lemma join_cancel:
  assumes el: "\<And>x y r r'. x \<in> set xs \<Longrightarrow> y \<in> set ys \<Longrightarrow> f x @ r = f y @ r' \<Longrightarrow>
      delimited r \<Longrightarrow> delimited r' \<Longrightarrow> x = y \<and> r = r'"
    and start: "\<And>x. x \<in> set xs \<union> set ys \<Longrightarrow> f x \<noteq> [] \<and> hd (f x) \<noteq> close"
    and close: "close \<in> {0x5D, 0x7D}"
    and eq: "join [0x2C] (map f xs) @ close # r = join [0x2C] (map f ys) @ close # r'"
  shows "xs = ys \<and> r = r'"
  using el start eq
proof (induction xs arbitrary: ys)
  case Nil
  then show ?case
  proof (cases ys)
    case (Cons y zs)
    with Nil.prems(2) [of y] obtain c t where "f y = c # t" "c \<noteq> close" by (cases "f y") auto
    with Nil.prems(3) Cons show ?thesis by (simp add: join_Cons)
  qed simp
next
  case (Cons x xs)
  show ?case
  proof (cases ys)
    case Nil
    from Cons.prems(2) [of x] obtain c t where "f x = c # t" "c \<noteq> close" by (cases "f x") auto
    with Cons.prems(3) Nil show ?thesis by (simp add: join_Cons)
  next
    case (Cons y zs)
    define p where "p us q = (if us = [] then [] else [0x2C] @ join [0x2C] (map f us)) @ close # q"
      for us q
    have d: "delimited (p us q)" for us q using close by (auto simp: delimited_def p_def)
    have "f x @ p xs r = f y @ p zs r'"
      using Cons.prems(3) Cons by (auto simp: join_Cons p_def)
    then have xy: "x = y" and pq: "p xs r = p zs r'"
      using Cons.prems(1) [of x y] Cons d by auto
    have c: "close \<noteq> 0x2C" using close by auto
    show ?thesis
    proof (cases "xs = [] \<or> zs = []")
      case True
      with pq c have "xs = []" "zs = []" "r = r'" by (auto simp: p_def split: if_splits)
      with xy Cons show ?thesis by simp
    next
      case False
      with pq have "join [0x2C] (map f xs) @ close # r = join [0x2C] (map f zs) @ close # r'"
        by (simp add: p_def)
      then have "xs = zs \<and> r = r'"
        using Cons.prems(1,2) Cons by (intro Cons.IH) auto
      with xy Cons show ?thesis by simp
    qed
  qed
qed

lemma brackets:
  "js ''['' = [0x5B]" "js '']'' = [0x5D]" "js ''{'' = [0x7B]" "js ''}'' = [0x7D]"
  "js '','' = [0x2C]" "js '':'' = [0x3A]"
  by (simp_all add: js_def)

lemma render_same_shape:
  assumes "numbers_ok v" "numbers_ok w" "render v @ r = render w @ r'"
  shows "(\<exists>m n. v = JsonNum m \<and> w = JsonNum n) \<or> (v = JsonNull \<and> w = JsonNull)
    \<or> (\<exists>b. v = JsonBool b \<and> w = JsonBool b) \<or> (\<exists>s t. v = JsonStr s \<and> w = JsonStr t)
    \<or> (\<exists>xs ys. v = JsonArr xs \<and> w = JsonArr ys) \<or> (\<exists>ms ns. v = JsonObj ms \<and> w = JsonObj ns)"
proof -
  obtain c t where c: "render v = c # t" "c \<in> lead v" using render_lead [OF assms(1)] by blast
  obtain d u where d: "render w = d # u" "d \<in> lead w" using render_lead [OF assms(2)] by blast
  from c(1) d(1) assms(3) have "c = d" by simp
  with c(2) d(2) show ?thesis using lead_meet [of c v w] by simp
qed

lemma render_cancel:
  "numbers_ok v \<Longrightarrow> numbers_ok w \<Longrightarrow> render v @ r = render w @ r' \<Longrightarrow>
     delimited r \<Longrightarrow> delimited r' \<Longrightarrow> v = w \<and> r = r'"
proof (induction v arbitrary: w r r')
  case JsonNull
  then show ?case using render_same_shape [OF JsonNull(1,2,3)] by auto
next
  case (JsonBool b)
  then show ?case using render_same_shape [OF JsonBool(1,2,3)] by auto
next
  case (JsonNum n)
  obtain m where "w = JsonNum m" using render_same_shape [OF JsonNum(1,2,3)] by auto
  with JsonNum show ?case using number_cancel [of n m r r'] by (auto simp: plain_number_def)
next
  case (JsonStr s)
  obtain t where "w = JsonStr t" using render_same_shape [OF JsonStr(1,2,3)] by auto
  with JsonStr show ?case by (auto dest: quote_cancel)
next
  case (JsonArr vs)
  obtain ws where w: "w = JsonArr ws" using render_same_shape [OF JsonArr.prems(1,2,3)] by auto
  have "vs = ws \<and> r = r'"
  proof (rule join_cancel [where f = render and close = "0x5D"])
    show "join [0x2C] (map render vs) @ 0x5D # r = join [0x2C] (map render ws) @ 0x5D # r'"
      using JsonArr.prems(3) w by (simp add: brackets)
    show "x = y \<and> q = q'" if "x \<in> set vs" "y \<in> set ws" "render x @ q = render y @ q'"
      "delimited q" "delimited q'" for x y q q'
      by (rule JsonArr.IH [OF that(1)]) (use that JsonArr.prems w in \<open>auto simp: list_all_iff\<close>)
    show "render x \<noteq> [] \<and> hd (render x) \<noteq> 0x5D" if "x \<in> set vs \<union> set ws" for x
    proof -
      have "numbers_ok x" using that JsonArr.prems w by (auto simp: list_all_iff)
      from render_lead [OF this] show ?thesis using lead_not_close by force
    qed
  qed simp
  with w show ?case by simp
next
  case (JsonObj ms)
  obtain ns where w: "w = JsonObj ns" using render_same_shape [OF JsonObj.prems(1,2,3)] by auto
  let ?f = "\<lambda>(k, v). quote k @ js '':'' @ render v"
  have "ms = ns \<and> r = r'"
  proof (rule join_cancel [where f = ?f and close = "0x7D"])
    show "join [0x2C] (map ?f ms) @ 0x7D # r = join [0x2C] (map ?f ns) @ 0x7D # r'"
      using JsonObj.prems(3) w by (simp add: brackets)
    show "x = y \<and> q = q'" if x: "x \<in> set ms" and y: "y \<in> set ns" and eq: "?f x @ q = ?f y @ q'"
      and q: "delimited q" "delimited q'" for x y q q'
    proof -
      obtain k a l b where xy: "x = (k, a)" "y = (l, b)" by (cases x; cases y)
      with eq have "quote k @ (js '':'' @ render a @ q) = quote l @ (js '':'' @ render b @ q')" by simp
      from quote_cancel [OF this] have kl: "k = l" and "render a @ q = render b @ q'" by auto
      moreover have "numbers_ok a" "numbers_ok b"
        using x y xy JsonObj.prems w by (auto simp: list_all_iff)
      ultimately have "a = b \<and> q = q'"
        using JsonObj.IH [of x a b q q'] x xy q by (auto simp: snds.simps)
      with kl xy show ?thesis by simp
    qed
    show "?f x \<noteq> [] \<and> hd (?f x) \<noteq> 0x7D" if "x \<in> set ms \<union> set ns" for x
      by (cases x) (simp add: quote_def)
  qed simp
  with w show ?case by simp
qed

lemma ordered_numbers_ok: "numbers_ok v \<Longrightarrow> numbers_ok (ordered v)"
  by (induction v) (auto simp: list_all_iff snds.simps)

lemma stringify_ordered:
  "numbers_ok v \<Longrightarrow> numbers_ok w \<Longrightarrow> stringify v = stringify w \<Longrightarrow> ordered v = ordered w"
  using render_cancel [of "ordered v" "ordered w" "[]" "[]"] ordered_numbers_ok
  by (simp add: stringify_render delimited_def)

lemma canonical_numbers_ok: "canonical n v \<Longrightarrow> numbers_ok v"
  by (induction n v rule: canonical.induct) (auto simp: list_all_iff plain_number_def)

lemma ordered_inject:
  "canonical n v \<Longrightarrow> canonical m w \<Longrightarrow> ordered v = ordered w \<Longrightarrow> v = w"
proof (induction n v arbitrary: m w rule: canonical.induct)
  case (7 n vs)
  then obtain ws where w: "w = JsonArr ws" and eq: "map ordered vs = map ordered ws"
    by (cases w) auto
  from 7 w obtain k where "list_all (canonical k) ws" by (cases m) auto
  with 7 eq have "vs = ws"
    by (intro list.inj_map_strong [OF _ eq]) (auto simp: list_all_iff)
  with w show ?case by simp
next
  case (8 n ms)
  then obtain ns where w: "w = JsonObj ns"
    and eq: "own_members (map (\<lambda>(k, v). (k, ordered v)) ms) = own_members (map (\<lambda>(k, v). (k, ordered v)) ns)"
    by (cases w) auto
  from 8 w obtain k where ns: "sorted (map fst ns)" "distinct (map fst ns)"
    "\<And>x. x \<in> set ns \<Longrightarrow> canonical k (snd x)"
    by (cases m) (simp, fastforce simp: list_all_iff case_prod_unfold)
  let ?g = "\<lambda>(k :: js_string, v). (k, ordered v)"
  have sets: "set (map ?g ms) = set (map ?g ns)" using arg_cong [OF eq, of set] by simp
  have keys: "fst \<circ> ?g = fst" by auto
  have "map fst ms = map fst ns"
  proof (rule sorted_distinct_set_unique)
    show "set (map fst ms) = set (map fst ns)"
      using arg_cong [OF sets, of "\<lambda>s. fst ` s"] by (simp add: image_comp comp_def case_prod_unfold)
  qed (use 8 ns in auto)
  moreover have "map ?g ms = map ?g ns"
  proof (rule map_sorted_distinct_set_unique [where f = fst])
    show "inj_on fst (set (map ?g ms) \<union> set (map ?g ns))"
    proof -
      have "distinct (map fst (map ?g ms))" using 8 keys by auto
      then have "inj_on fst (set (map ?g ms))" using distinct_map by blast
      then show ?thesis using sets by (simp only: Un_absorb)
    qed
    show "set (map ?g ms) = set (map ?g ns)" by (rule sets)
  qed (use 8 ns keys in auto)
  ultimately have "ms = ns"
  proof (intro list.inj_map_strong [OF _ \<open>map ?g ms = map ?g ns\<close>])
    fix x y assume x: "x \<in> set ms" and y: "y \<in> set ns" and e: "?g x = ?g y"
    obtain k1 a k2 b where xy: "x = (k1, a)" "y = (k2, b)" by (cases x; cases y)
    have "a = b"
      by (rule "8.IH" [OF x xy(1) [symmetric]])
        (use 8 x y xy ns(3) [OF y] e in \<open>auto simp: list_all_iff\<close>)
    with e xy show "x = y" by simp
  qed
  with w show ?case by simp
qed (case_tac w; simp)+

text \<open>On canonical values \<open>JSON.stringify\<close> is injective.\<close>

lemma stringify_inject:
  "canonical n v \<Longrightarrow> canonical m w \<Longrightarrow> stringify v = stringify w \<Longrightarrow> v = w"
  using stringify_ordered canonical_numbers_ok ordered_inject by blast

text \<open>
  Records render their members in the order the code lists them: no member name is an array
  index, so the rendering of two records with the same member names determines their members.
\<close>

definition record_keys :: "js_string list \<Rightarrow> bool" where
  "record_keys ks \<longleftrightarrow> list_all (\<lambda>k. \<not> is_index k) ks"

lemma own_members_record:
  assumes "record_keys (map fst ms)" shows "own_members ms = ms"
proof -
  from assms have "\<forall>x \<in> set ms. \<not> is_index (fst x)" by (auto simp: record_keys_def list_all_iff)
  then have "filter (\<lambda>(k, _). is_index k) ms = []" "filter (\<lambda>(k, _). \<not> is_index k) ms = ms"
    by (auto simp: filter_empty_conv filter_id_conv)
  then show ?thesis by (simp add: own_members_def)
qed

lemma ordered_record:
  assumes "record_keys (map fst ms)"
  shows "ordered (JsonObj ms) = JsonObj (map (\<lambda>(k, v). (k, ordered v)) ms)"
proof -
  have "map fst (map (\<lambda>(k, v). (k, ordered v)) ms) = map fst ms" by (induction ms) auto
  with assms have "record_keys (map fst (map (\<lambda>(k, v). (k, ordered v)) ms))" by (simp only:)
  from own_members_record [OF this] show ?thesis by simp
qed

lemma stringify_record:
  assumes "numbers_ok (JsonObj ms)" "numbers_ok (JsonObj ns)"
    and "record_keys (map fst ms)" "map fst ms = map fst ns"
  shows "stringify (JsonObj ms) = stringify (JsonObj ns) \<longleftrightarrow>
    map (\<lambda>m. ordered (snd m)) ms = map (\<lambda>m. ordered (snd m)) ns"
proof -
  have "stringify (JsonObj ms) = stringify (JsonObj ns) \<longleftrightarrow> ordered (JsonObj ms) = ordered (JsonObj ns)"
    using stringify_ordered [OF assms(1,2)] by (auto simp: stringify_render)
  also have "\<dots> \<longleftrightarrow> map (\<lambda>(k, v). (k, ordered v)) ms = map (\<lambda>(k, v). (k, ordered v)) ns"
    using assms(3,4) by (simp add: ordered_record del: ordered.simps)
  also have "\<dots> \<longleftrightarrow> map (\<lambda>m. ordered (snd m)) ms = map (\<lambda>m. ordered (snd m)) ns"
    using assms(4)
  proof (induction ms arbitrary: ns)
    case (Cons m ms)
    then show ?case by (cases ns) (auto simp: case_prod_unfold)
  qed auto
  finally show ?thesis .
qed

lemma ordered_canonical_iff:
  "canonical n v \<Longrightarrow> canonical m w \<Longrightarrow> ordered v = ordered w \<longleftrightarrow> v = w"
  using ordered_inject by blast

end
