(* ===== verification/Action_Primitives.thy ===== *)
theory Action_Primitives
  imports Option_Shapes Json_Injective
begin

text \<open>
  \<^verbatim>\<open>src/src/application/action-primitives.mjs\<close>: Command, Query, KernelError and Result. A
  constructor reads its options in the order of the source, and each read may run a getter; the
  first refusal ends it. Rendering (\<open>toJSON\<close>) is fallible because a hollow principal or key
  throws when its private state is read.
\<close>

section \<open>Coordinates\<close>

text \<open>\<open>exactly(value, type, ...)\<close>, on the outcome of the exact-class test\<close>

definition exactly :: "'a exact option \<Rightarrow> string \<Rightarrow> js_string \<Rightarrow> 'a exact outcome" where
  "exactly e type_name what = (case e of
     Some x \<Rightarrow> Inr x
   | None \<Rightarrow> type_error (what @ js '' needs an exact '' @ js type_name
       @ js '' instance, already validated by the domain ring''))"

definition name_segment :: regex where
  "name_segment = Seq (Class [(0x61, 0x7A)]) (Star (Class [(0x61, 0x7A), (0x30, 0x39)]))"

definition action_name_form :: regex where
  "action_name_form = Seq name_segment (plus (Seq (lit ''.'') name_segment))"

definition action_name_max :: nat where "action_name_max = 128"

definition action_name :: "jsval \<Rightarrow> js_string \<Rightarrow> js_string outcome" where
  "action_name value what = (case value of
     VStr s \<Rightarrow>
       if length s > action_name_max
       then range_error (what @ js '' needs a name of at most 128 characters'')
       else if \<not> re_test action_name_form s
       then type_error (what @ js '' needs a dotted lowercase name of at least two segments'')
       else Inr s
   | _ \<Rightarrow> type_error (what @ js '' needs a primitive string name, not '' @ kind_name value))"

definition safe_version :: "jsval \<Rightarrow> int option" where
  "safe_version value = (case value of
     VNum n \<Rightarrow> (case number_to_safe_int n of Some i \<Rightarrow> if i < 1 then None else Some i | None \<Rightarrow> None)
   | _ \<Rightarrow> None)"

definition action_version :: "jsval \<Rightarrow> js_string \<Rightarrow> int outcome" where
  "action_version value what = (case safe_version value of
     Some i \<Rightarrow> Inr i
   | None \<Rightarrow> type_error (what @ js '' needs a safe integer version of at least 1''))"

definition optional_causation :: "jsval \<Rightarrow> js_string \<Rightarrow> causation_id exact option outcome" where
  "optional_causation value what =
     (if value = VNull then Inr None
      else rbind (exactly (exact_causation value) ''CausationId'' (what @ js '' causationId''))
             (\<lambda>c. Inr (Some c)))"

section \<open>Command\<close>

definition command_options :: "string list" where
  "command_options = [''name'', ''version'', ''principal'', ''correlationId'', ''causationId'',
     ''idempotencyKey'', ''payload'']"

text \<open>The constructor's body, on the values its options were read to.\<close>

definition command_of ::
    "heap \<Rightarrow> jsval outcome \<Rightarrow> jsval outcome \<Rightarrow> jsval outcome \<Rightarrow> jsval outcome \<Rightarrow> jsval outcome
     \<Rightarrow> jsval outcome \<Rightarrow> jsval outcome \<Rightarrow> command outcome" where
  "command_of h name version subject correlation causation key payload =
     rbind name (\<lambda>v. rbind (action_name v (js ''Command'')) (\<lambda>n.
     rbind version (\<lambda>v. rbind (action_version v (js ''Command'')) (\<lambda>ver.
     rbind subject (\<lambda>v. rbind (exactly (exact_principal v) ''Principal'' (js ''Command principal'')) (\<lambda>p.
     rbind correlation (\<lambda>v.
       rbind (exactly (exact_correlation v) ''CorrelationId'' (js ''Command correlationId'')) (\<lambda>c.
     rbind causation (\<lambda>v. rbind (optional_causation v (js ''Command'')) (\<lambda>ca.
     rbind key (\<lambda>v.
       rbind (exactly (exact_idempotency_key v) ''IdempotencyKey'' (js ''Command idempotencyKey'')) (\<lambda>k.
     rbind payload (\<lambda>v. rbind (canonical_object h v (js ''a Command payload'')) (\<lambda>j.
     Inr \<lparr>command_name = n, command_version = ver, command_principal = p, command_correlation = c,
          command_causation = ca, command_key = k, command_payload = j\<rparr>))))))))))))))"

definition command_new :: "heap \<Rightarrow> jsval \<Rightarrow> command outcome" where
  "command_new h options = rbind (exact_options h options command_options (js ''Command'')) (\<lambda>r.
     command_of h (read_key h r (js ''name'')) (read_key h r (js ''version''))
       (read_key h r (js ''principal'')) (read_key h r (js ''correlationId''))
       (read_key h r (js ''causationId'')) (read_key h r (js ''idempotencyKey''))
       (read_key h r (js ''payload'')))"

definition causation_json :: "causation_id exact option \<Rightarrow> json" where
  "causation_json c = (case c of None \<Rightarrow> JsonNull | Some x \<Rightarrow> JsonStr (causation_id_to_string x))"

definition version_json :: "int \<Rightarrow> json" where
  "version_json i = JsonNum (JInt i)"

definition command_to_json :: "command \<Rightarrow> json outcome" where
  "command_to_json c = rbind (principal_to_json (command_principal c)) (\<lambda>p.
     rbind (private_read ''fingerprint'' (command_key c)) (\<lambda>k.
     Inr (JsonObj
       [(js ''kind'', JsonStr (js ''command'')),
        (js ''name'', JsonStr (command_name c)),
        (js ''version'', version_json (command_version c)),
        (js ''principal'', p),
        (js ''correlationId'', JsonStr (correlation_id_to_string (command_correlation c))),
        (js ''causationId'', causation_json (command_causation c)),
        (js ''idempotencyKey'', JsonStr (fingerprint k)),
        (js ''payload'', command_payload c)])))"

definition command_to_string :: "command \<Rightarrow> js_string outcome" where
  "command_to_string c = rbind (command_to_json c) (\<lambda>j. Inr (stringify j))"

text \<open>
  \<open>equals\<close> of the rendered types: exact class, then private state on both sides, then the
  argument's rendering against the receiver's.
\<close>

definition rendered_equals ::
    "('a \<Rightarrow> js_string outcome) \<Rightarrow> 'a exact option \<Rightarrow> 'a exact option \<Rightarrow> bool outcome" where
  "rendered_equals text_of this other = (case (this, other) of
     (Some (Genuine x), Some (Genuine y)) \<Rightarrow>
       rbind (text_of y) (\<lambda>t. rbind (text_of x) (\<lambda>s. Inr (t = s)))
   | _ \<Rightarrow> Inr False)"

definition exact_command :: "jsval \<Rightarrow> command exact option" where
  "exact_command v = (case v of VInst (ICommand e) \<Rightarrow> Some e | _ \<Rightarrow> None)"

definition command_equals :: "jsval \<Rightarrow> jsval \<Rightarrow> bool outcome" where
  "command_equals this other = rendered_equals command_to_string (exact_command this) (exact_command other)"

section \<open>Query\<close>

definition query_options :: "string list" where
  "query_options = [''name'', ''version'', ''principal'', ''correlationId'', ''causationId'', ''payload'']"

definition query_new :: "heap \<Rightarrow> jsval \<Rightarrow> query outcome" where
  "query_new h options = rbind (exact_options h options query_options (js ''Query'')) (\<lambda>r.
     rbind (read_key h r (js ''name'')) (\<lambda>v. rbind (action_name v (js ''Query'')) (\<lambda>n.
     rbind (read_key h r (js ''version'')) (\<lambda>v. rbind (action_version v (js ''Query'')) (\<lambda>ver.
     rbind (read_key h r (js ''principal'')) (\<lambda>v.
       rbind (exactly (exact_principal v) ''Principal'' (js ''Query principal'')) (\<lambda>p.
     rbind (read_key h r (js ''correlationId'')) (\<lambda>v.
       rbind (exactly (exact_correlation v) ''CorrelationId'' (js ''Query correlationId'')) (\<lambda>c.
     rbind (read_key h r (js ''causationId'')) (\<lambda>v. rbind (optional_causation v (js ''Query'')) (\<lambda>ca.
     rbind (read_key h r (js ''payload'')) (\<lambda>v. rbind (canonical_object h v (js ''a Query payload'')) (\<lambda>j.
     Inr \<lparr>query_name = n, query_version = ver, query_principal = p, query_correlation = c,
          query_causation = ca, query_payload = j\<rparr>)))))))))))))"

definition query_to_json :: "query \<Rightarrow> json outcome" where
  "query_to_json q = rbind (principal_to_json (query_principal q)) (\<lambda>p.
     Inr (JsonObj
       [(js ''kind'', JsonStr (js ''query'')),
        (js ''name'', JsonStr (query_name q)),
        (js ''version'', version_json (query_version q)),
        (js ''principal'', p),
        (js ''correlationId'', JsonStr (correlation_id_to_string (query_correlation q))),
        (js ''causationId'', causation_json (query_causation q)),
        (js ''payload'', query_payload q)]))"

definition query_to_string :: "query \<Rightarrow> js_string outcome" where
  "query_to_string q = rbind (query_to_json q) (\<lambda>j. Inr (stringify j))"

definition exact_query :: "jsval \<Rightarrow> query exact option" where
  "exact_query v = (case v of VInst (IQuery e) \<Rightarrow> Some e | _ \<Rightarrow> None)"

definition query_equals :: "jsval \<Rightarrow> jsval \<Rightarrow> bool outcome" where
  "query_equals this other = rendered_equals query_to_string (exact_query this) (exact_query other)"

section \<open>KernelError\<close>

definition error_options :: "string list" where
  "error_options = [''code'', ''details'', ''cause'']"

definition error_code_form :: regex where
  "error_code_form =
     Seq (Class [(0x41, 0x5A)]) (Seq (Star (Class [(0x41, 0x5A), (0x30, 0x39)]))
       (Star (Seq (lit ''_'') (plus (Class [(0x41, 0x5A), (0x30, 0x39)])))))"

definition error_code_max :: nat where "error_code_max = 64"
definition max_cause_depth :: nat where "max_cause_depth = 8"

definition exact_kernel_error :: "jsval \<Rightarrow> kernel_error exact option" where
  "exact_kernel_error v = (case v of VInst (IKernelError e) \<Rightarrow> Some e | _ \<Rightarrow> None)"

definition checked_error_code :: "jsval \<Rightarrow> js_string outcome" where
  "checked_error_code value = (case value of
     VStr s \<Rightarrow>
       if length s > error_code_max
       then range_error (js ''KernelError needs a code of at most 64 characters'')
       else if \<not> re_test error_code_form s
       then type_error (js ''KernelError needs an uppercase underscore-separated code'')
       else Inr s
   | _ \<Rightarrow> type_error (js ''KernelError needs a primitive string code, not '' @ kind_name value))"

text \<open>The constructor's body, after \<open>const { code, details, cause } = options\<close>.\<close>

definition kernel_error_of :: "heap \<Rightarrow> jsval \<Rightarrow> jsval \<Rightarrow> jsval \<Rightarrow> kernel_error outcome" where
  "kernel_error_of h code details cause =
     rbind (checked_error_code code) (\<lambda>c.
     rbind (if details = VNull then Inr None
            else rbind (canonical_object h details (js ''KernelError details'')) (\<lambda>j. Inr (Some j))) (\<lambda>d.
     if cause = VNull then Inr (KernelError c d None 1)
     else
       rbind (exactly (exact_kernel_error cause) ''KernelError'' (js ''KernelError cause'')) (\<lambda>e.
       rbind (private_read ''depth'' e) (\<lambda>inner.
       if error_depth inner \<ge> max_cause_depth
       then range_error (js ''a KernelError cause chain is at most 8 deep'')
       else Inr (KernelError c d (Some inner) (error_depth inner + 1))))))"

definition kernel_error_new :: "heap \<Rightarrow> jsval \<Rightarrow> kernel_error outcome" where
  "kernel_error_new h options = rbind (exact_options h options error_options (js ''KernelError'')) (\<lambda>r.
     rbind (read_key h r (js ''code'')) (\<lambda>code.
     rbind (read_key h r (js ''details'')) (\<lambda>details.
     rbind (read_key h r (js ''cause'')) (\<lambda>cause.
     kernel_error_of h code details cause))))"

fun kernel_error_to_json :: "kernel_error \<Rightarrow> json" where
  "kernel_error_to_json (KernelError code details cause depth) = JsonObj
     [(js ''code'', JsonStr code),
      (js ''details'', case details of None \<Rightarrow> JsonNull | Some d \<Rightarrow> d),
      (js ''cause'', case cause of None \<Rightarrow> JsonNull | Some e \<Rightarrow> kernel_error_to_json e)]"

definition kernel_error_to_string :: "kernel_error \<Rightarrow> js_string" where
  "kernel_error_to_string e = stringify (kernel_error_to_json e)"

definition kernel_error_equals :: "jsval \<Rightarrow> jsval \<Rightarrow> bool outcome" where
  "kernel_error_equals this other = rendered_equals (\<lambda>e. Inr (kernel_error_to_string e))
     (exact_kernel_error this) (exact_kernel_error other)"

text \<open>The length of the chain of causes, the error itself included.\<close>

fun chain_length :: "kernel_error \<Rightarrow> nat" where
  "chain_length (KernelError _ _ cause _) = (case cause of None \<Rightarrow> 1 | Some e \<Rightarrow> Suc (chain_length e))"

section \<open>Result\<close>

text \<open>
  The constructor is closed by an admission symbol that never leaves the module: a Result comes
  from \<open>Result.ok\<close> or \<open>Result.failure\<close> and no other way.
\<close>

definition result_ok :: "heap \<Rightarrow> jsval \<Rightarrow> result outcome" where
  "result_ok h value = rbind (canonical_anything h value (js ''a Result value'')) (\<lambda>j. Inr (ResultOk j))"

definition result_failure :: "jsval \<Rightarrow> result outcome" where
  "result_failure error =
     rbind (exactly (exact_kernel_error error) ''KernelError'' (js ''Result.failure'')) (\<lambda>e.
     Inr (ResultFailure e))"

definition result_is_ok :: "result \<Rightarrow> bool" where
  "result_is_ok r = (case r of ResultOk _ \<Rightarrow> True | ResultFailure _ \<Rightarrow> False)"

definition result_value :: "result \<Rightarrow> json outcome" where
  "result_value r = (case r of
     ResultOk j \<Rightarrow> Inr j
   | ResultFailure _ \<Rightarrow> type_error (js ''this Result is a failure and carries no value''))"

definition result_error :: "result \<Rightarrow> kernel_error exact outcome" where
  "result_error r = (case r of
     ResultFailure e \<Rightarrow> Inr e
   | ResultOk _ \<Rightarrow> type_error (js ''this Result is ok and carries no error''))"

definition result_to_json :: "result \<Rightarrow> json outcome" where
  "result_to_json r = (case r of
     ResultOk j \<Rightarrow> Inr (JsonObj [(js ''ok'', JsonBool True), (js ''value'', j)])
   | ResultFailure e \<Rightarrow> rbind (private_read ''code'' e) (\<lambda>k.
       Inr (JsonObj [(js ''ok'', JsonBool False), (js ''error'', kernel_error_to_json k)])))"

definition result_to_string :: "result \<Rightarrow> js_string outcome" where
  "result_to_string r = rbind (result_to_json r) (\<lambda>j. Inr (stringify j))"

definition exact_result :: "jsval \<Rightarrow> result exact option" where
  "exact_result v = (case v of VInst (IResult e) \<Rightarrow> Some e | _ \<Rightarrow> None)"

definition result_equals :: "jsval \<Rightarrow> jsval \<Rightarrow> bool outcome" where
  "result_equals this other = rendered_equals result_to_string (exact_result this) (exact_result other)"

section \<open>What the constructors promise\<close>

lemma exactly_iff [result_simps]: "exactly e t w = Inr x \<longleftrightarrow> e = Some x"
  by (cases e) (auto simp: exactly_def)

lemma action_name_iff [result_simps]:
  "action_name v w = Inr n \<longleftrightarrow> v = VStr n \<and> length n \<le> 128 \<and> n \<in> lang action_name_form"
  by (cases v) (auto simp: action_name_def action_name_max_def re_test_lang)

lemma safe_version_iff:
  "safe_version v = Some i \<longleftrightarrow> v = VNum (JInt i) \<and> 1 \<le> i \<and> i \<le> max_safe_integer"
  by (cases v)
    (auto simp: safe_version_def number_to_safe_int_def number_to_int_def max_safe_integer_def
      split: js_number.splits if_splits)

lemma action_version_iff [result_simps]:
  "action_version v w = Inr i \<longleftrightarrow> v = VNum (JInt i) \<and> 1 \<le> i \<and> i \<le> max_safe_integer"
  using safe_version_iff [of v i]
  by (cases "safe_version v") (auto simp: action_version_def type_error_def)

lemma optional_causation_iff [result_simps]:
  "optional_causation v w = Inr c \<longleftrightarrow>
     (v = VNull \<and> c = None) \<or> (\<exists>x. v = VInst (ICausationId x) \<and> c = Some x)"
  by (cases v)
    (auto simp: optional_causation_def result_simps exact_causation_def split: kernel_instance.splits)

lemma checked_error_code_iff [result_simps]:
  "checked_error_code v = Inr c \<longleftrightarrow> v = VStr c \<and> length c \<le> 64 \<and> c \<in> lang error_code_form"
  by (cases v) (auto simp: checked_error_code_def error_code_max_def re_test_lang)

text \<open>The type invariant of each class, true of every instance its constructor answers.\<close>

definition payload_wf :: "json \<Rightarrow> bool" where
  "payload_wf j \<longleftrightarrow> canonical max_depth j \<and> (\<exists>ms. j = JsonObj ms)"

definition command_wf :: "command \<Rightarrow> bool" where
  "command_wf c \<longleftrightarrow> length (command_name c) \<le> 128 \<and> command_name c \<in> lang action_name_form \<and>
     1 \<le> command_version c \<and> command_version c \<le> max_safe_integer \<and> payload_wf (command_payload c)"

definition query_wf :: "query \<Rightarrow> bool" where
  "query_wf q \<longleftrightarrow> length (query_name q) \<le> 128 \<and> query_name q \<in> lang action_name_form \<and>
     1 \<le> query_version q \<and> query_version q \<le> max_safe_integer \<and> payload_wf (query_payload q)"

fun kernel_error_wf :: "kernel_error \<Rightarrow> bool" where
  "kernel_error_wf (KernelError code details cause depth) \<longleftrightarrow>
     length code \<le> 64 \<and> code \<in> lang error_code_form \<and>
     (case details of None \<Rightarrow> True | Some d \<Rightarrow> payload_wf d) \<and>
     depth \<le> max_cause_depth \<and>
     (case cause of None \<Rightarrow> depth = 1
      | Some e \<Rightarrow> kernel_error_wf e \<and> depth = Suc (error_depth e))"

lemma canonical_object_wf: "canonical_object h v w = Inr j \<Longrightarrow> payload_wf j"
  by (auto simp: result_simps payload_wf_def plain_tree_def denoted_canonical dest: denoted_object)

lemma denoted_payload_wf: "plain_tree h v \<Longrightarrow> root_is_object h v \<Longrightarrow> payload_wf (denoted h max_depth v)"
  by (rule canonical_object_wf [of h v "[]"]) (simp add: canonical_object_iff)

lemma command_of_wf: "command_of h a b c d e f g = Inr x \<Longrightarrow> command_wf x"
  by (auto simp: command_of_def rbind_eq_Inr action_name_iff action_version_iff command_wf_def
      dest: canonical_object_wf)

lemma command_new_wf: "command_new h v = Inr c \<Longrightarrow> command_wf c"
  by (auto simp: command_new_def rbind_eq_Inr dest: command_of_wf)

lemma query_new_wf: "query_new h v = Inr q \<Longrightarrow> query_wf q"
  by (auto simp: query_new_def rbind_eq_Inr action_name_iff action_version_iff query_wf_def
      dest: canonical_object_wf)

lemma kernel_error_depth: "kernel_error_wf e \<Longrightarrow> chain_length e = error_depth e"
  by (induction e) (auto split: option.splits)

lemma kernel_error_of_wf:
  assumes "kernel_error_of h code details cause = Inr e"
    and "\<And>inner. cause = VInst (IKernelError (Genuine inner)) \<Longrightarrow> kernel_error_wf inner"
  shows "kernel_error_wf e"
  using assms
  by (auto simp: kernel_error_of_def result_simps exact_kernel_error_def private_read_def
      max_cause_depth_def split: if_splits jsval.splits kernel_instance.splits exact.splits
      intro: denoted_payload_wf)

section \<open>Properties\<close>

subsection \<open>Canonical payloads render injectively\<close>

text \<open>
  C27. On what the canonical rule answers, one rendering is one value: two payloads whose JSON
  texts agree are the same value, so the structural equality and the audit hash, which read the
  text, read the value.
\<close>

theorem payload_text_injective:
  assumes "canonical_object h v what = Inr j" and "canonical_object g w what2 = Inr k"
  shows "stringify j = stringify k \<longleftrightarrow> j = k"
  using assms canonical_object_wf stringify_inject unfolding payload_wf_def by blast

definition sample_object :: "jsval \<Rightarrow> heap" where
  "sample_object v r = plain_object [(''k'', v)]"

theorem payload_text_injective_witness:
  "stringify (JsonObj [(js ''k'', JsonBool True)]) = stringify (JsonObj [(js ''k'', JsonNull)]) \<longleftrightarrow>
   JsonObj [(js ''k'', JsonBool True)] = JsonObj [(js ''k'', JsonNull)]"
proof (rule payload_text_injective)
  show "canonical_object (sample_object (VBool True)) (VObj 0) [] = Inr (JsonObj [(js ''k'', JsonBool True)])"
    by code_simp
  show "canonical_object (sample_object VNull) (VObj 0) [] = Inr (JsonObj [(js ''k'', JsonNull)])"
    by code_simp
qed

subsection \<open>Commands\<close>

text \<open>
  Every command the constructor answers is well-formed: a dotted lowercase name of at most 128
  units, a safe positive version, and a canonical object payload at most sixteen containers deep.
\<close>

theorem command_constructor_wf:
  assumes "command_new h options = Inr c"
  shows "command_wf c \<and> json_depth (command_payload c) \<le> 16"
  using command_new_wf [OF assms] canonical_depth [of 16]
  by (auto simp: command_wf_def payload_wf_def max_depth_def)

definition sample_principal :: principal where
  "sample_principal = \<lparr>principal_tenant = Genuine (TenantId sample_tenant),
     principal_actor = Genuine (ActorId (js ''user:1''))\<rparr>"

definition sample_correlation :: correlation_id where
  "sample_correlation = \<lparr>correlation_ref = 1, correlation_value = other_tenant\<rparr>"

definition sample_command :: command where
  "sample_command = \<lparr>command_name = js ''customer.create'', command_version = 1,
     command_principal = Genuine sample_principal, command_correlation = Genuine sample_correlation,
     command_causation = None, command_key = Genuine (IdempotencyKey (js ''f'')),
     command_payload = JsonObj [(js ''name'', JsonStr (js ''Ada''))]\<rparr>"

definition sample_command_heap :: heap where
  "sample_command_heap r =
     (if r = 0 then plain_object
        [(''name'', VStr (js ''customer.create'')), (''version'', VNum (JInt 1)),
         (''principal'', VInst (IPrincipal (Genuine sample_principal))),
         (''correlationId'', VInst (ICorrelationId (Genuine sample_correlation))),
         (''causationId'', VNull),
         (''idempotencyKey'', VInst (IIdempotencyKey (Genuine (IdempotencyKey (js ''f''))))),
         (''payload'', VObj 1)]
      else plain_object [(''name'', VStr (js ''Ada''))])"

lemma sample_command_parts:
  "re_test action_name_form (js ''customer.create'')"
  "canonical_object sample_command_heap (VObj 1) w = Inr (JsonObj [(js ''name'', JsonStr (js ''Ada''))])"
proof -
  show "re_test action_name_form (js ''customer.create'')" by code_simp
  have "canonical_object sample_command_heap (VObj 1) [] = Inr (JsonObj [(js ''name'', JsonStr (js ''Ada''))])"
    by code_simp
  then show "canonical_object sample_command_heap (VObj 1) w = Inr (JsonObj [(js ''name'', JsonStr (js ''Ada''))])"
    by (simp add: canonical_object_iff)
qed

lemma sample_command_new: "command_new sample_command_heap (VObj 0) = Inr sample_command"
proof -
  let ?ps = "[(''name'', VStr (js ''customer.create'')), (''version'', VNum (JInt 1)),
     (''principal'', VInst (IPrincipal (Genuine sample_principal))),
     (''correlationId'', VInst (ICorrelationId (Genuine sample_correlation))), (''causationId'', VNull),
     (''idempotencyKey'', VInst (IIdempotencyKey (Genuine (IdempotencyKey (js ''f''))))), (''payload'', VObj 1)]"
  have "sample_command_heap 0 = plain_object ?ps" by (simp add: sample_command_heap_def)
  note reads = plain_object_facts [where h = sample_command_heap and r = 0 and ps = ?ps, OF this]
  have "exact_options sample_command_heap (VObj 0) command_options (js ''Command'') = Inr 0"
    using reads(1) [of command_options] reads(2) by (auto simp: exact_options_iff command_options_def)
  then show ?thesis
    by (simp add: command_new_def command_of_def reads(4) action_name_def action_name_max_def
        sample_command_parts sample_command_parts [unfolded One_nat_def] action_version_def safe_version_def exactly_def
        exact_principal_def exact_correlation_def exact_idempotency_key_def optional_causation_def
        max_safe_integer_def sample_command_def)
qed

theorem command_constructor_wf_witness:
  "command_wf sample_command \<and> json_depth (command_payload sample_command) \<le> 16"
  by (rule command_constructor_wf [OF sample_command_new])

text \<open>A command all of whose identities carry their private state.\<close>

definition command_genuine :: "command \<Rightarrow> bool" where
  "command_genuine c \<longleftrightarrow> command_wf c \<and>
     (\<exists>t a. command_principal c = Genuine \<lparr>principal_tenant = Genuine t, principal_actor = Genuine a\<rparr>) \<and>
     (\<exists>x. command_correlation c = Genuine x) \<and> command_causation c \<noteq> Some Hollow \<and>
     (\<exists>k. command_key c = Genuine k)"

text \<open>The coordinates of a command: everything but which correlation object it holds.\<close>

definition forget_ref :: "correlation_id exact \<Rightarrow> correlation_id exact" where
  "forget_ref e = (case e of Genuine c \<Rightarrow> Genuine (c\<lparr>correlation_ref := 0\<rparr>) | Hollow \<Rightarrow> Hollow)"

definition command_coordinates :: "command \<Rightarrow> command" where
  "command_coordinates c = c\<lparr>command_correlation := forget_ref (command_correlation c)\<rparr>"

lemma command_record_keys:
  "record_keys [js ''kind'', js ''name'', js ''version'', js ''principal'', js ''correlationId'',
     js ''causationId'', js ''idempotencyKey'', js ''payload'']"
  "record_keys [js ''tenantId'', js ''actorId'']"
  by code_simp+

lemma causation_json_iff:
  "c \<noteq> Some Hollow \<Longrightarrow> d \<noteq> Some Hollow \<Longrightarrow> causation_json c = causation_json d \<longleftrightarrow> c = d"
  by (cases c; cases d)
    (auto simp: causation_json_def causation_id_to_string_def split: option.splits exact.splits
      intro: causation_id.expand)

lemma causation_json_atom [simp]:
  "numbers_ok (causation_json c)" "ordered (causation_json c) = causation_json c"
  by (simp_all add: causation_json_def split: option.splits)

lemma version_json_simps [simp]:
  "numbers_ok (version_json i)" "ordered (version_json i) = version_json i"
  "version_json i = version_json j \<longleftrightarrow> i = j"
  by (simp_all add: version_json_def plain_number_def number_is_finite_def)

lemma payload_wf_numbers: "payload_wf j \<Longrightarrow> numbers_ok j"
  by (auto simp: payload_wf_def intro: canonical_numbers_ok)

lemma payload_ordered_iff: "payload_wf j \<Longrightarrow> payload_wf k \<Longrightarrow> ordered j = ordered k \<longleftrightarrow> j = k"
  by (auto simp: payload_wf_def dest: ordered_canonical_iff)

lemma command_text:
  assumes "command_genuine c"
  shows "\<exists>t a x k. command_principal c = Genuine \<lparr>principal_tenant = Genuine t, principal_actor = Genuine a\<rparr> \<and>
    command_correlation c = Genuine x \<and> command_key c = Genuine k \<and>
    command_to_string c = Inr (stringify (JsonObj
       [(js ''kind'', JsonStr (js ''command'')),
        (js ''name'', JsonStr (command_name c)),
        (js ''version'', version_json (command_version c)),
        (js ''principal'', JsonObj [(js ''tenantId'', JsonStr (tenant_value t)),
           (js ''actorId'', JsonStr (actor_value a))]),
        (js ''correlationId'', JsonStr (correlation_value x)),
        (js ''causationId'', causation_json (command_causation c)),
        (js ''idempotencyKey'', JsonStr (fingerprint k)),
        (js ''payload'', command_payload c)]))"
  using assms
  by (auto simp: command_genuine_def command_to_string_def command_to_json_def principal_to_json_def
      tenant_id_to_string_def actor_id_to_string_def correlation_id_to_string_def)

text \<open>
  Two commands compare equal exactly when their coordinates are the same - name, version,
  principal, correlation, causation, fingerprint and payload - whichever objects they hold.
\<close>

theorem command_equals_coordinates:
  assumes "command_genuine c" and "command_genuine d"
  shows "command_equals (VInst (ICommand (Genuine c))) (VInst (ICommand (Genuine d)))
    = Inr (command_coordinates c = command_coordinates d)"
proof -
  obtain t a x k where c: "command_principal c = Genuine \<lparr>principal_tenant = Genuine t, principal_actor = Genuine a\<rparr>"
    "command_correlation c = Genuine x" "command_key c = Genuine k"
    and tc: "command_to_string c = Inr (stringify (JsonObj
       [(js ''kind'', JsonStr (js ''command'')), (js ''name'', JsonStr (command_name c)),
        (js ''version'', version_json (command_version c)),
        (js ''principal'', JsonObj [(js ''tenantId'', JsonStr (tenant_value t)),
           (js ''actorId'', JsonStr (actor_value a))]),
        (js ''correlationId'', JsonStr (correlation_value x)),
        (js ''causationId'', causation_json (command_causation c)),
        (js ''idempotencyKey'', JsonStr (fingerprint k)), (js ''payload'', command_payload c)]))"
    using command_text [OF assms(1)] by blast
  obtain u b y l where d: "command_principal d = Genuine \<lparr>principal_tenant = Genuine u, principal_actor = Genuine b\<rparr>"
    "command_correlation d = Genuine y" "command_key d = Genuine l"
    and td: "command_to_string d = Inr (stringify (JsonObj
       [(js ''kind'', JsonStr (js ''command'')), (js ''name'', JsonStr (command_name d)),
        (js ''version'', version_json (command_version d)),
        (js ''principal'', JsonObj [(js ''tenantId'', JsonStr (tenant_value u)),
           (js ''actorId'', JsonStr (actor_value b))]),
        (js ''correlationId'', JsonStr (correlation_value y)),
        (js ''causationId'', causation_json (command_causation d)),
        (js ''idempotencyKey'', JsonStr (fingerprint l)), (js ''payload'', command_payload d)]))"
    using command_text [OF assms(2)] by blast
  have wf: "payload_wf (command_payload c)" "payload_wf (command_payload d)"
    "command_causation c \<noteq> Some Hollow" "command_causation d \<noteq> Some Hollow"
    using assms by (auto simp: command_genuine_def command_wf_def)
  have "command_equals (VInst (ICommand (Genuine c))) (VInst (ICommand (Genuine d))) = Inr
      (command_name d = command_name c \<and> command_version d = command_version c \<and>
       tenant_value u = tenant_value t \<and> actor_value b = actor_value a \<and>
       correlation_value y = correlation_value x \<and> command_causation d = command_causation c \<and>
       fingerprint l = fingerprint k \<and> command_payload d = command_payload c)"
    using wf
    by (simp add: command_equals_def rendered_equals_def exact_command_def tc td stringify_record
        command_record_keys payload_wf_numbers payload_ordered_iff ordered_record causation_json_iff
        del: stringify.simps ordered.simps(2) own_members_record)
  also have "\<dots> = Inr (command_coordinates c = command_coordinates d)"
    using c d by (cases c; cases d; cases x; cases y)
      (auto simp: command_coordinates_def forget_ref_def intro: tenant_id.expand actor_id.expand
        idempotency_key.expand)
  finally show ?thesis .
qed

lemma sample_command_genuine: "command_genuine sample_command"
proof -
  have "command_wf sample_command" using sample_command_new by (rule command_new_wf)
  then show ?thesis by (simp add: command_genuine_def sample_command_def sample_principal_def)
qed

theorem command_equals_coordinates_witness:
  "command_equals (VInst (ICommand (Genuine sample_command))) (VInst (ICommand (Genuine sample_command)))
    = Inr (command_coordinates sample_command = command_coordinates sample_command)"
  by (rule command_equals_coordinates [OF sample_command_genuine sample_command_genuine])

subsection \<open>Errors and results\<close>

text \<open>The kernel errors that can come to exist: each answered by the constructor, from causes made before it.\<close>

inductive kernel_error_made :: "kernel_error \<Rightarrow> bool" where
  made: "kernel_error_new h options = Inr e \<Longrightarrow>
    (\<And>r inner. options = VObj r \<Longrightarrow>
       read_key h r (js ''cause'') = Inr (VInst (IKernelError (Genuine inner))) \<Longrightarrow>
       kernel_error_made inner) \<Longrightarrow> kernel_error_made e"

lemma kernel_error_made_wf: "kernel_error_made e \<Longrightarrow> kernel_error_wf e"
proof (induction rule: kernel_error_made.induct)
  case (made h options e)
  then obtain r code details cause where "options = VObj r"
    "read_key h r (js ''cause'') = Inr cause" "kernel_error_of h code details cause = Inr e"
    by (auto simp: kernel_error_new_def result_simps)
  with made.IH show ?case by (auto intro: kernel_error_of_wf)
qed

text \<open>
  A chain of causes is never more than eight errors long: however errors are wrapped, the
  recorded depth of every error the constructor answers is the length of its chain, and at most 8.
\<close>

theorem error_chain_bounded:
  assumes "kernel_error_made e"
  shows "chain_length e = error_depth e \<and> chain_length e \<le> 8"
  using kernel_error_made_wf [OF assms] kernel_error_depth [of e]
  by (cases e) (auto simp: max_cause_depth_def)

definition sample_error :: kernel_error where
  "sample_error = KernelError (js ''DENIED'') None None 1"

definition sample_error_heap :: heap where
  "sample_error_heap r = plain_object [(''code'', VStr (js ''DENIED'')), (''details'', VNull), (''cause'', VNull)]"

lemma sample_error_made: "kernel_error_made sample_error"
proof (rule kernel_error_made.intros)
  let ?ps = "[(''code'', VStr (js ''DENIED'')), (''details'', VNull), (''cause'', VNull)]"
  have h: "sample_error_heap 0 = plain_object ?ps" by (simp add: sample_error_heap_def)
  note reads = plain_object_facts [where h = sample_error_heap and r = 0 and ps = ?ps, OF h]
  have code: "re_test error_code_form (js ''DENIED'')" by code_simp
  have "exact_options sample_error_heap (VObj 0) error_options (js ''KernelError'') = Inr 0"
    using reads(1) [of error_options] reads(2) by (auto simp: exact_options_iff error_options_def)
  then show "kernel_error_new sample_error_heap (VObj 0) = Inr sample_error"
    by (simp add: kernel_error_new_def reads(4) kernel_error_of_def checked_error_code_def
        error_code_max_def code sample_error_def)
  show "kernel_error_made inner" if "VObj 0 = VObj r"
    "read_key sample_error_heap r (js ''cause'') = Inr (VInst (IKernelError (Genuine inner)))" for r inner
    using that reads(4) [of "''cause''"] by simp
qed

theorem error_chain_bounded_witness:
  "chain_length sample_error = error_depth sample_error \<and> chain_length sample_error \<le> 8"
  by (rule error_chain_bounded [OF sample_error_made])

text \<open>
  A result is one branch or the other: its value can be read exactly when it is ok, its error
  exactly when it is not, and the reading the other branch would answer is refused.
\<close>

lemma result_branches:
  "(case r of
      ResultOk j \<Rightarrow> result_is_ok r \<and> result_value r = Inr j \<and> \<not> is_ok (result_error r)
        \<and> result_to_json r = Inr (JsonObj [(js ''ok'', JsonBool True), (js ''value'', j)])
    | ResultFailure e \<Rightarrow> \<not> result_is_ok r \<and> result_error r = Inr e \<and> \<not> is_ok (result_value r))"
  by (cases r) (simp_all add: result_is_ok_def result_value_def result_error_def result_to_json_def)

end
