(* ===== verification/Policy_Model.thy ===== *)
theory Policy_Model
  imports Action_Primitives
begin

text \<open>
  \<^verbatim>\<open>src/src/application/policy-decision.mjs\<close> and \<^verbatim>\<open>policy-statement.mjs\<close>: what is asked of the
  policy engine, what it answers, and the statements it holds. Brand checks (\<open>isExactly\<close> and a
  getter that runs) tell a genuine instance from a hollow one and answer the genuine one here.
\<close>

section \<open>PolicyRequest\<close>

definition genuine :: "'a exact option \<Rightarrow> 'a option" where
  "genuine e = (case e of Some (Genuine x) \<Rightarrow> Some x | _ \<Rightarrow> None)"

lemma genuine_iff: "genuine e = Some x \<longleftrightarrow> e = Some (Genuine x)"
  by (auto simp: genuine_def split: option.splits exact.splits)

definition genuine_action :: "jsval \<Rightarrow> action option" where
  "genuine_action v = (case genuine (exact_command v) of
     Some c \<Rightarrow> Some (ACommand c)
   | None \<Rightarrow> map_option AQuery (genuine (exact_query v)))"

definition genuine_correlation :: "jsval \<Rightarrow> correlation_id option" where
  "genuine_correlation v = (case exact_correlation v of
     Some e \<Rightarrow> if re_test uuid_form (correlation_id_to_string e) then genuine (Some e) else None
   | None \<Rightarrow> None)"

definition request_options :: "string list" where
  "request_options = [''action'', ''resource'', ''context'']"

definition action_value :: "jsval \<Rightarrow> action outcome" where
  "action_value v = (case genuine_action v of
     None \<Rightarrow> type_error (js ''PolicyRequest action needs an exact genuine Command or Query instance'')
   | Some a \<Rightarrow> Inr a)"

definition policy_request_new :: "heap \<Rightarrow> jsval \<Rightarrow> policy_request outcome" where
  "policy_request_new h options =
     rbind (exact_options h options request_options (js ''PolicyRequest'')) (\<lambda>r.
     rbind (read_key h r (js ''action'')) (\<lambda>v. rbind (action_value v) (\<lambda>a.
     rbind (read_key h r (js ''resource'')) (\<lambda>v.
       rbind (policy_canonical_root h v (js ''a PolicyRequest resource'')) (\<lambda>res.
     rbind (read_key h r (js ''context'')) (\<lambda>v.
       rbind (policy_canonical_root h v (js ''a PolicyRequest context'')) (\<lambda>ctx.
     Inr \<lparr>request_action = a, request_resource = res, request_context = ctx\<rparr>)))))))"

definition action_principal :: "action \<Rightarrow> principal exact" where
  "action_principal a = (case a of ACommand c \<Rightarrow> command_principal c | AQuery q \<Rightarrow> query_principal q)"

definition action_correlation :: "action \<Rightarrow> correlation_id exact" where
  "action_correlation a = (case a of ACommand c \<Rightarrow> command_correlation c | AQuery q \<Rightarrow> query_correlation q)"

definition action_name_of :: "action \<Rightarrow> js_string" where
  "action_name_of a = (case a of ACommand c \<Rightarrow> command_name c | AQuery q \<Rightarrow> query_name q)"

definition action_to_json :: "action \<Rightarrow> json outcome" where
  "action_to_json a = (case a of ACommand c \<Rightarrow> command_to_json c | AQuery q \<Rightarrow> query_to_json q)"

definition request_tenant :: "policy_request \<Rightarrow> tenant_id exact outcome" where
  "request_tenant r = rbind (private_read ''tenantId'' (action_principal (request_action r)))
     (\<lambda>p. Inr (principal_tenant p))"

definition request_actor :: "policy_request \<Rightarrow> actor_id exact outcome" where
  "request_actor r = rbind (private_read ''actorId'' (action_principal (request_action r)))
     (\<lambda>p. Inr (principal_actor p))"

definition policy_request_to_json :: "policy_request \<Rightarrow> json outcome" where
  "policy_request_to_json r =
     rbind (action_to_json (request_action r)) (\<lambda>a.
     rbind (request_tenant r) (\<lambda>t.
     rbind (request_actor r) (\<lambda>u.
     Inr (JsonObj
       [(js ''action'', a),
        (js ''tenantId'', JsonStr (tenant_id_to_string t)),
        (js ''actorId'', JsonStr (actor_id_to_string u)),
        (js ''resource'', request_resource r),
        (js ''context'', request_context r)]))))"

definition exact_policy_request :: "jsval \<Rightarrow> policy_request exact option" where
  "exact_policy_request v = (case v of VInst (IPolicyRequest e) \<Rightarrow> Some e | _ \<Rightarrow> None)"

definition genuine_policy_request :: "jsval \<Rightarrow> policy_request option" where
  "genuine_policy_request v = genuine (exact_policy_request v)"

definition policy_request_equals :: "jsval \<Rightarrow> jsval \<Rightarrow> bool outcome" where
  "policy_request_equals this other =
     rendered_equals (\<lambda>r. rbind (policy_request_to_json r) (\<lambda>j. Inr (stringify j)))
       (exact_policy_request this) (exact_policy_request other)"

section \<open>PolicyDecision\<close>

definition decision_options :: "string list" where
  "decision_options = [''effect'', ''reason'', ''matchedPolicyId'', ''traceId'']"

definition effect_text :: "effect \<Rightarrow> js_string" where
  "effect_text e = (case e of Allow \<Rightarrow> js ''allow'' | Deny \<Rightarrow> js ''deny'')"

definition effect_of_text :: "js_string \<Rightarrow> effect option" where
  "effect_of_text s = (if s = js ''allow'' then Some Allow else if s = js ''deny'' then Some Deny else None)"

definition effect_of :: "jsval \<Rightarrow> effect option" where
  "effect_of v = (case v of VStr s \<Rightarrow> effect_of_text s | _ \<Rightarrow> None)"

definition effect_value :: "jsval \<Rightarrow> effect outcome" where
  "effect_value v = (case effect_of v of
     Some e \<Rightarrow> Inr e
   | None \<Rightarrow> type_error (js ''PolicyDecision effect needs exactly \"allow\" or \"deny\"''))"

definition reason_max :: nat where "reason_max = 512"

definition reason_control :: "(code_unit \<times> code_unit) list" where
  "reason_control = [(0x00, 0x1F), (0x7F, 0x9F)]"

definition reason_value :: "jsval \<Rightarrow> js_string outcome" where
  "reason_value v = (case v of
     VStr s \<Rightarrow>
       if length s > reason_max
       then range_error (js ''PolicyDecision reason is bounded to 512 characters'')
       else if length (js_trim s) = 0
       then range_error (js ''PolicyDecision reason must not be empty once trimmed'')
       else if js_trim s \<noteq> s
       then type_error (js ''PolicyDecision reason must carry no leading or trailing whitespace'')
       else if re_search reason_control s
       then range_error (js ''PolicyDecision reason admits no C0 or C1 control character'')
       else Inr s
   | _ \<Rightarrow> type_error (js ''PolicyDecision reason needs a primitive string''))"

definition policy_id_max :: nat where "policy_id_max = 128"

definition policy_id_form :: regex where
  "policy_id_form = Seq (plus (Class [(0x61, 0x7A), (0x30, 0x39)]))
     (Star (Seq (Class [(0x2E, 0x2E), (0x2D, 0x2D)]) (plus (Class [(0x61, 0x7A), (0x30, 0x39)]))))"

definition matched_policy_id_value :: "jsval \<Rightarrow> effect \<Rightarrow> js_string option outcome" where
  "matched_policy_id_value v e = (case v of
     VNull \<Rightarrow>
       if e \<noteq> Deny then type_error (js ''PolicyDecision matchedPolicyId may be null only when effect is deny'')
       else Inr None
   | VStr s \<Rightarrow>
       if length s = 0 \<or> length s > policy_id_max
       then range_error (js ''PolicyDecision matchedPolicyId is bounded to 1 to 128 characters'')
       else if \<not> re_test policy_id_form s
       then type_error (js ''PolicyDecision matchedPolicyId needs a lowercase canonical id of letters, digits, dot or hyphen'')
       else Inr (Some s)
   | _ \<Rightarrow> type_error (js ''PolicyDecision matchedPolicyId needs a primitive string or null''))"

definition trace_value :: "jsval \<Rightarrow> correlation_id outcome" where
  "trace_value v = (case genuine_correlation v of
     None \<Rightarrow> type_error (js ''PolicyDecision traceId needs an exact genuine CorrelationId instance'')
   | Some c \<Rightarrow> Inr c)"

text \<open>The constructor's body, on the values its options were read to.\<close>

definition policy_decision_of ::
    "jsval outcome \<Rightarrow> jsval outcome \<Rightarrow> jsval outcome \<Rightarrow> jsval outcome \<Rightarrow> policy_decision outcome" where
  "policy_decision_of effect reason matched trace =
     rbind effect (\<lambda>v. rbind (effect_value v) (\<lambda>e.
     rbind reason (\<lambda>v. rbind (reason_value v) (\<lambda>why.
     rbind matched (\<lambda>v. rbind (matched_policy_id_value v e) (\<lambda>m.
     rbind trace (\<lambda>v. rbind (trace_value v) (\<lambda>c.
     Inr \<lparr>decision_effect = e, decision_reason = why, decision_matched = m,
          decision_trace = c\<rparr>))))))))"

definition policy_decision_new :: "heap \<Rightarrow> jsval \<Rightarrow> policy_decision outcome" where
  "policy_decision_new h options =
     rbind (exact_options h options decision_options (js ''PolicyDecision'')) (\<lambda>r.
     policy_decision_of (read_key h r (js ''effect'')) (read_key h r (js ''reason''))
       (read_key h r (js ''matchedPolicyId'')) (read_key h r (js ''traceId'')))"

definition matched_json :: "js_string option \<Rightarrow> json" where
  "matched_json m = (case m of None \<Rightarrow> JsonNull | Some s \<Rightarrow> JsonStr s)"

definition policy_decision_to_json :: "policy_decision \<Rightarrow> json" where
  "policy_decision_to_json d = JsonObj
     [(js ''effect'', JsonStr (effect_text (decision_effect d))),
      (js ''reason'', JsonStr (decision_reason d)),
      (js ''matchedPolicyId'', matched_json (decision_matched d)),
      (js ''traceId'', JsonStr (correlation_value (decision_trace d)))]"

definition exact_policy_decision :: "jsval \<Rightarrow> policy_decision exact option" where
  "exact_policy_decision v = (case v of VInst (IPolicyDecision e) \<Rightarrow> Some e | _ \<Rightarrow> None)"

definition genuine_policy_decision :: "jsval \<Rightarrow> policy_decision option" where
  "genuine_policy_decision v = genuine (exact_policy_decision v)"

definition policy_decision_equals :: "jsval \<Rightarrow> jsval \<Rightarrow> bool outcome" where
  "policy_decision_equals this other = rendered_equals (\<lambda>d. Inr (stringify (policy_decision_to_json d)))
     (exact_policy_decision this) (exact_policy_decision other)"

section \<open>PolicyStatement\<close>

definition statement_effect_value :: "jsval \<Rightarrow> js_string \<Rightarrow> effect outcome" where
  "statement_effect_value v what = (case effect_of v of
     Some e \<Rightarrow> Inr e
   | None \<Rightarrow> type_error (what @ js '' effect must be exactly \"allow\" or \"deny\"''))"

definition layer_text :: "layer \<Rightarrow> js_string" where
  "layer_text l = (case l of System \<Rightarrow> js ''system'' | Platform \<Rightarrow> js ''platform'' | Tenant \<Rightarrow> js ''tenant'')"

definition layer_of_text :: "js_string \<Rightarrow> layer option" where
  "layer_of_text s =
     (if s = js ''system'' then Some System else if s = js ''platform'' then Some Platform
      else if s = js ''tenant'' then Some Tenant else None)"

definition layer_of :: "jsval \<Rightarrow> layer option" where
  "layer_of v = (case v of VStr s \<Rightarrow> layer_of_text s | _ \<Rightarrow> None)"

definition layer_value :: "jsval \<Rightarrow> js_string \<Rightarrow> layer outcome" where
  "layer_value v what = (case layer_of v of
     Some l \<Rightarrow> Inr l
   | None \<Rightarrow> type_error (what @ js '' layer must be exactly \"system\", \"platform\" or \"tenant\"''))"

definition safe_integer :: "jsval \<Rightarrow> int option" where
  "safe_integer v = (case v of VNum n \<Rightarrow> number_to_safe_int n | _ \<Rightarrow> None)"

definition priority_value :: "jsval \<Rightarrow> js_string \<Rightarrow> int outcome" where
  "priority_value v what = (case safe_integer v of
     Some i \<Rightarrow> Inr i | None \<Rightarrow> type_error (what @ js '' priority needs a safe integer''))"

definition enabled_value :: "jsval \<Rightarrow> js_string \<Rightarrow> bool outcome" where
  "enabled_value v what = (case v of
     VBool b \<Rightarrow> Inr b | _ \<Rightarrow> type_error (what @ js '' enabled needs a primitive boolean''))"

definition semver_number :: regex where
  "semver_number = Alt (lit ''0'') (Seq (Class [(0x31, 0x39)]) (Star (Class [(0x30, 0x39)])))"

definition semver_word :: regex where
  "semver_word = Class [(0x30, 0x39), (0x61, 0x7A), (0x41, 0x5A), (0x2D, 0x2D)]"

definition semver_prerelease_part :: regex where
  "semver_prerelease_part = Alt (lit ''0'') (Alt (Seq (Class [(0x31, 0x39)]) (Star (Class [(0x30, 0x39)])))
     (Seq (Star (Class [(0x30, 0x39)]))
       (Seq (Class [(0x61, 0x7A), (0x41, 0x5A), (0x2D, 0x2D)]) (Star semver_word))))"

definition semver_form :: regex where
  "semver_form = seqs
     [semver_number, lit ''.'', semver_number, lit ''.'', semver_number,
      opt (seqs [lit ''-'', semver_prerelease_part, Star (Seq (lit ''.'') semver_prerelease_part)]),
      opt (seqs [lit ''+'', plus semver_word, Star (Seq (lit ''.'') (plus semver_word))])]"

definition semver_value :: "jsval \<Rightarrow> js_string \<Rightarrow> js_string outcome" where
  "semver_value v what = (case v of
     VStr s \<Rightarrow>
       if \<not> re_test semver_form s then type_error (what @ js '' version needs an exact SemVer 2.0.0 string'')
       else Inr s
   | _ \<Rightarrow> type_error (what @ js '' version needs an exact SemVer 2.0.0 string''))"

definition canonical_id :: "jsval \<Rightarrow> js_string \<Rightarrow> js_string outcome" where
  "canonical_id v what = (case v of
     VStr s \<Rightarrow>
       if length s = 0 \<or> length s > policy_id_max
       then range_error (what @ js '' is bounded to 1 to 128 characters'')
       else if \<not> re_test policy_id_form s
       then type_error (what @ js '' needs a lowercase canonical id of letters, digits, dot or hyphen'')
       else Inr s
   | _ \<Rightarrow> type_error (what @ js '' needs a primitive string''))"

definition target_action_value :: "jsval \<Rightarrow> js_string \<Rightarrow> js_string outcome" where
  "target_action_value v what = (case v of
     VStr s \<Rightarrow>
       if length s > action_name_max
       then range_error (what @ js '' needs a name of at most 128 characters'')
       else if \<not> re_test action_name_form s
       then type_error (what @ js '' needs a dotted lowercase name of at least two segments'')
       else Inr s
   | _ \<Rightarrow> type_error (what @ js '' needs a primitive string''))"

definition resource_type_form :: regex where
  "resource_type_form = Seq name_segment (Star (Seq (lit ''.'') name_segment))"

definition target_resource_type_value :: "jsval \<Rightarrow> js_string \<Rightarrow> js_string outcome" where
  "target_resource_type_value v what = (case v of
     VStr s \<Rightarrow>
       if length s = 0 \<or> length s > policy_id_max
       then range_error (what @ js '' is bounded to 1 to 128 characters'')
       else if \<not> re_test resource_type_form s
       then type_error (what @ js '' needs a dotted lowercase resource-type token'')
       else Inr s
   | _ \<Rightarrow> type_error (what @ js '' needs a primitive string''))"

definition statement_options :: "string list" where
  "statement_options = [''id'', ''effect'', ''targetActor'', ''targetAction'', ''targetResourceType'',
     ''condition'', ''priority'', ''layer'', ''version'', ''enabled'']"

definition policy_statement_new :: "heap \<Rightarrow> jsval \<Rightarrow> policy_statement outcome" where
  "policy_statement_new h options = (let what = js ''PolicyStatement'' in
     rbind (strict_options h options statement_options what) (\<lambda>r.
     rbind (read_key h r (js ''id'')) (\<lambda>v. rbind (canonical_id v (what @ js '' id'')) (\<lambda>i.
     rbind (read_key h r (js ''effect'')) (\<lambda>v. rbind (statement_effect_value v what) (\<lambda>e.
     rbind (read_key h r (js ''targetActor'')) (\<lambda>v.
       rbind (statement_canonical_root h v (what @ js '' targetActor'')) (\<lambda>who.
     rbind (read_key h r (js ''targetAction'')) (\<lambda>v.
       rbind (target_action_value v (what @ js '' targetAction'')) (\<lambda>act.
     rbind (read_key h r (js ''targetResourceType'')) (\<lambda>v.
       rbind (target_resource_type_value v (what @ js '' targetResourceType'')) (\<lambda>ty.
     rbind (read_key h r (js ''condition'')) (\<lambda>v.
       rbind (statement_canonical_root h v (what @ js '' condition'')) (\<lambda>cond.
     rbind (read_key h r (js ''priority'')) (\<lambda>v. rbind (priority_value v what) (\<lambda>p.
     rbind (read_key h r (js ''layer'')) (\<lambda>v. rbind (layer_value v what) (\<lambda>l.
     rbind (read_key h r (js ''version'')) (\<lambda>v. rbind (semver_value v what) (\<lambda>ver.
     rbind (read_key h r (js ''enabled'')) (\<lambda>v. rbind (enabled_value v what) (\<lambda>on.
     Inr \<lparr>statement_id = i, statement_effect = e, statement_actor = who, statement_action = act,
          statement_resource_type = ty, statement_condition = cond, statement_priority = p,
          statement_layer = l, statement_version = ver, statement_enabled = on\<rparr>))))))))))))))))))))))"

definition policy_statement_to_json :: "policy_statement \<Rightarrow> json" where
  "policy_statement_to_json s = JsonObj
     [(js ''id'', JsonStr (statement_id s)),
      (js ''effect'', JsonStr (effect_text (statement_effect s))),
      (js ''targetActor'', statement_actor s),
      (js ''targetAction'', JsonStr (statement_action s)),
      (js ''targetResourceType'', JsonStr (statement_resource_type s)),
      (js ''condition'', statement_condition s),
      (js ''priority'', version_json (statement_priority s)),
      (js ''layer'', JsonStr (layer_text (statement_layer s))),
      (js ''version'', JsonStr (statement_version s)),
      (js ''enabled'', JsonBool (statement_enabled s))]"

definition exact_policy_statement :: "jsval \<Rightarrow> policy_statement exact option" where
  "exact_policy_statement v = (case v of VInst (IPolicyStatement e) \<Rightarrow> Some e | _ \<Rightarrow> None)"

definition genuine_policy_statement :: "jsval \<Rightarrow> policy_statement option" where
  "genuine_policy_statement v = genuine (exact_policy_statement v)"

definition policy_statement_equals :: "jsval \<Rightarrow> jsval \<Rightarrow> bool outcome" where
  "policy_statement_equals this other = rendered_equals (\<lambda>s. Inr (stringify (policy_statement_to_json s)))
     (exact_policy_statement this) (exact_policy_statement other)"

section \<open>What the constructors admit\<close>

lemma effect_text_inverse [simp]: "effect_of_text (effect_text e) = Some e"
  by (cases e) (simp_all add: effect_text_def effect_of_text_def)

lemma effect_text_inject [simp]: "effect_text a = effect_text b \<longleftrightarrow> a = b"
  by (cases a; cases b) (simp_all add: effect_text_def)

lemma layer_text_inject [simp]: "layer_text a = layer_text b \<longleftrightarrow> a = b"
  by (cases a; cases b) (simp_all add: layer_text_def)

lemma effect_of_text_iff: "effect_of_text s = Some e \<longleftrightarrow> s = effect_text e"
  by (cases e) (auto simp: effect_of_text_def effect_text_def)

lemma effect_of_iff: "effect_of v = Some e \<longleftrightarrow> v = VStr (effect_text e)"
  by (cases v) (auto simp: effect_of_def effect_of_text_iff)

lemma layer_of_text_iff: "layer_of_text s = Some l \<longleftrightarrow> s = layer_text l"
  by (cases l) (auto simp: layer_of_text_def layer_text_def)

lemma layer_of_iff: "layer_of v = Some l \<longleftrightarrow> v = VStr (layer_text l)"
  by (cases v) (auto simp: layer_of_def layer_of_text_iff)

lemma effect_value_iff [result_simps]: "effect_value v = Inr e \<longleftrightarrow> v = VStr (effect_text e)"
  using effect_of_iff [of v e] by (auto simp: effect_value_def split: option.splits)

lemma statement_effect_value_iff [result_simps]:
  "statement_effect_value v w = Inr e \<longleftrightarrow> v = VStr (effect_text e)"
  using effect_of_iff [of v e] by (auto simp: statement_effect_value_def split: option.splits)

lemma layer_value_iff [result_simps]: "layer_value v w = Inr l \<longleftrightarrow> v = VStr (layer_text l)"
  using layer_of_iff [of v l] by (auto simp: layer_value_def split: option.splits)

definition policy_id_ok :: "js_string \<Rightarrow> bool" where
  "policy_id_ok s \<longleftrightarrow> 1 \<le> length s \<and> length s \<le> 128 \<and> s \<in> lang policy_id_form"

lemma canonical_id_iff [result_simps]: "canonical_id v w = Inr s \<longleftrightarrow> v = VStr s \<and> policy_id_ok s"
  by (cases v) (auto simp: canonical_id_def policy_id_ok_def policy_id_max_def re_test_lang Suc_le_eq)

definition reason_ok :: "js_string \<Rightarrow> bool" where
  "reason_ok s \<longleftrightarrow> s \<noteq> [] \<and> length s \<le> 512 \<and> js_trim s = s \<and> \<not> re_search reason_control s"

lemma reason_value_iff [result_simps]: "reason_value v = Inr s \<longleftrightarrow> v = VStr s \<and> reason_ok s"
  by (cases v) (auto simp: reason_value_def reason_ok_def reason_max_def)

lemma matched_policy_id_value_iff [result_simps]:
  "matched_policy_id_value v e = Inr m \<longleftrightarrow>
     (v = VNull \<and> e = Deny \<and> m = None) \<or> (\<exists>s. v = VStr s \<and> m = Some s \<and> policy_id_ok s)"
  by (cases v)
    (auto simp: matched_policy_id_value_def policy_id_ok_def policy_id_max_def re_test_lang Suc_le_eq)

lemma genuine_correlation_iff:
  "genuine_correlation v = Some c \<longleftrightarrow> v = VInst (ICorrelationId (Genuine c)) \<and> correlation_value c \<in> lang uuid_form"
  by (cases v)
    (auto simp: genuine_correlation_def exact_correlation_def genuine_def correlation_id_to_string_def
      re_test_lang split: kernel_instance.splits exact.splits)

lemma trace_value_iff [result_simps]:
  "trace_value v = Inr c \<longleftrightarrow> v = VInst (ICorrelationId (Genuine c)) \<and> correlation_value c \<in> lang uuid_form"
  using genuine_correlation_iff [of v c] by (auto simp: trace_value_def split: option.splits)

lemma action_value_iff [result_simps]:
  "action_value v = Inr a \<longleftrightarrow> v = (case a of
     ACommand c \<Rightarrow> VInst (ICommand (Genuine c)) | AQuery q \<Rightarrow> VInst (IQuery (Genuine q)))"
  by (cases v)
    (auto simp: action_value_def genuine_action_def genuine_def exact_command_def exact_query_def
      split: kernel_instance.splits exact.splits action.splits option.splits)

lemma genuine_request_iff [simp]:
  "genuine_policy_request v = Some r \<longleftrightarrow> v = VInst (IPolicyRequest (Genuine r))"
  by (cases v)
    (auto simp: genuine_policy_request_def exact_policy_request_def genuine_def
      split: kernel_instance.splits exact.splits)

lemma genuine_decision_iff [simp]:
  "genuine_policy_decision v = Some d \<longleftrightarrow> v = VInst (IPolicyDecision (Genuine d))"
  by (cases v)
    (auto simp: genuine_policy_decision_def exact_policy_decision_def genuine_def
      split: kernel_instance.splits exact.splits)

lemma genuine_statement_iff [simp]:
  "genuine_policy_statement v = Some s \<longleftrightarrow> v = VInst (IPolicyStatement (Genuine s))"
  by (cases v)
    (auto simp: genuine_policy_statement_def exact_policy_statement_def genuine_def
      split: kernel_instance.splits exact.splits)

lemma genuine_instances [simp]:
  "genuine_policy_request (VInst (IPolicyRequest (Genuine r))) = Some r"
  "genuine_policy_decision (VInst (IPolicyDecision (Genuine d))) = Some d"
  "genuine_policy_statement (VInst (IPolicyStatement (Genuine s))) = Some s"
  by (simp_all only: genuine_request_iff genuine_decision_iff genuine_statement_iff)

definition policy_decision_wf :: "policy_decision \<Rightarrow> bool" where
  "policy_decision_wf d \<longleftrightarrow> reason_ok (decision_reason d) \<and>
     (case decision_matched d of None \<Rightarrow> decision_effect d = Deny | Some i \<Rightarrow> policy_id_ok i) \<and>
     correlation_value (decision_trace d) \<in> lang uuid_form"

lemma policy_decision_of_iff:
  "policy_decision_of a b c t = Inr d \<longleftrightarrow>
     a = Inr (VStr (effect_text (decision_effect d))) \<and> b = Inr (VStr (decision_reason d)) \<and>
     c = Inr (case decision_matched d of None \<Rightarrow> VNull | Some i \<Rightarrow> VStr i) \<and>
     t = Inr (VInst (ICorrelationId (Genuine (decision_trace d)))) \<and> policy_decision_wf d"
  by (cases d)
    (auto simp: policy_decision_of_def rbind_eq_Inr effect_value_iff reason_value_iff
      matched_policy_id_value_iff policy_decision_wf_def trace_value_iff
      split: option.splits)

definition policy_statement_wf :: "policy_statement \<Rightarrow> bool" where
  "policy_statement_wf s \<longleftrightarrow> policy_id_ok (statement_id s) \<and> payload_wf (statement_actor s) \<and>
     length (statement_action s) \<le> 128 \<and> statement_action s \<in> lang action_name_form \<and>
     statement_resource_type s \<noteq> [] \<and> length (statement_resource_type s) \<le> 128 \<and>
     statement_resource_type s \<in> lang resource_type_form \<and> payload_wf (statement_condition s) \<and>
     - max_safe_integer \<le> statement_priority s \<and> statement_priority s \<le> max_safe_integer \<and>
     statement_version s \<in> lang semver_form"

lemma target_action_value_iff [result_simps]:
  "target_action_value v w = Inr s \<longleftrightarrow> v = VStr s \<and> length s \<le> 128 \<and> s \<in> lang action_name_form"
  by (cases v) (auto simp: target_action_value_def action_name_max_def re_test_lang)

lemma target_resource_type_value_iff [result_simps]:
  "target_resource_type_value v w = Inr s \<longleftrightarrow>
     v = VStr s \<and> s \<noteq> [] \<and> length s \<le> 128 \<and> s \<in> lang resource_type_form"
  by (cases v) (auto simp: target_resource_type_value_def policy_id_max_def re_test_lang)

lemma semver_value_iff [result_simps]:
  "semver_value v w = Inr s \<longleftrightarrow> v = VStr s \<and> s \<in> lang semver_form"
  by (cases v) (auto simp: semver_value_def re_test_lang)

lemma priority_value_iff [result_simps]: "priority_value v w = Inr i \<longleftrightarrow> safe_integer v = Some i"
  by (auto simp: priority_value_def split: option.splits)

lemma safe_integer_bound:
  "safe_integer v = Some i \<Longrightarrow> - max_safe_integer \<le> i \<and> i \<le> max_safe_integer"
  by (cases v) (auto simp: safe_integer_def dest: number_to_safe_int_bound)

lemma statement_canonical_root_wf: "statement_canonical_root h v w = Inr j \<Longrightarrow> payload_wf j"
  by (auto simp: statement_canonical_root_iff intro: denoted_payload_wf)

lemma policy_canonical_root_wf: "policy_canonical_root h v w = Inr j \<Longrightarrow> payload_wf j"
  by (auto simp: policy_canonical_root_iff intro: denoted_payload_wf)

lemma policy_statement_new_wf: "policy_statement_new h v = Inr s \<Longrightarrow> policy_statement_wf s"
  by (auto simp: policy_statement_new_def Let_def rbind_eq_Inr canonical_id_iff target_action_value_iff
      target_resource_type_value_iff semver_value_iff priority_value_iff policy_statement_wf_def
      dest: statement_canonical_root_wf safe_integer_bound)

definition policy_request_wf :: "policy_request \<Rightarrow> bool" where
  "policy_request_wf r \<longleftrightarrow> payload_wf (request_resource r) \<and> payload_wf (request_context r)"

lemma policy_request_new_wf: "policy_request_new h v = Inr r \<Longrightarrow> policy_request_wf r"
  by (auto simp: policy_request_new_def rbind_eq_Inr policy_request_wf_def dest: policy_canonical_root_wf)

end
