(* ===== verification/Instants.thy ===== *)
theory Instants
  imports Kernel_Values
begin

text \<open>
  Canonical UTC instants. Three modules carry their own copy of the rule that a text spells a
  real calendar instant: the clock port (a predicate), the decision log entry and the commit
  receipt (a validator each). The section after them gives the calendar they mean, and shows
  that the accepted texts are exactly the spellings of its moments, in time order.
\<close>

section \<open>The code\<close>

definition digit_class :: regex where
  "digit_class = Class [(0x30, 0x39)]"

definition ts_form :: regex where
  "ts_form = seqs [rep 4 digit_class, lit ''-'', rep 2 digit_class, lit ''-'', rep 2 digit_class,
     lit ''T'', rep 2 digit_class, lit '':'', rep 2 digit_class, lit '':'', rep 2 digit_class,
     lit ''.'', rep 3 digit_class, lit ''Z'']"

definition month_lengths :: "nat list" where
  "month_lengths = [31, 28, 31, 30, 31, 30, 31, 31, 30, 31, 30, 31]"

definition is_leap_year :: "nat \<Rightarrow> bool" where
  "is_leap_year year = ((year mod 4 = 0 \<and> year mod 100 \<noteq> 0) \<or> year mod 400 = 0)"

definition length_of_month :: "nat \<Rightarrow> nat \<Rightarrow> nat" where
  "length_of_month year month =
     (if month = 2 \<and> is_leap_year year then 29 else month_lengths ! (month - 1))"

text \<open>\<open>s.slice(i, j)\<close>, and the number a slice of digits spells\<close>

definition slice :: "nat \<Rightarrow> nat \<Rightarrow> js_string \<Rightarrow> js_string" where
  "slice i j s = take (j - i) (drop i s)"

definition number_at :: "nat \<Rightarrow> nat \<Rightarrow> js_string \<Rightarrow> nat" where
  "number_at i j s = nat_of_dec (slice i j s)"

definition names_a_real_instant :: "js_string \<Rightarrow> bool" where
  "names_a_real_instant s =
     (if length s \<noteq> 24 \<or> \<not> re_test ts_form s then False
      else let year = number_at 0 4 s; month = number_at 5 7 s; day = number_at 8 10 s;
               hour = number_at 11 13 s; minute = number_at 14 16 s; second = number_at 17 19 s in
        if year < 1 then False
        else if month < 1 \<or> month > 12 then False
        else if day < 1 \<or> day > length_of_month year month then False
        else if hour > 23 \<or> minute > 59 \<or> second > 59 then False
        else True)"

text \<open>\<open>timestampValue\<close> of the decision log entry; the groups of its pattern are the slices.\<close>

definition entry_timestamp :: "jsval \<Rightarrow> js_string outcome" where
  "entry_timestamp value = (case value of
     VStr s \<Rightarrow>
       if \<not> re_test ts_form s
       then type_error (js ''DecisionLogEntry ts needs a canonical UTC millisecond ISO instant'')
       else let year = number_at 0 4 s; month = number_at 5 7 s; day = number_at 8 10 s;
                hour = number_at 11 13 s; minute = number_at 14 16 s; second = number_at 17 19 s in
         if year < 1 then range_error (js ''DecisionLogEntry ts year 0000 is below the floor'')
         else if month < 1 \<or> month > 12 then range_error (js ''DecisionLogEntry ts month must be 01 to 12'')
         else if day < 1 \<or> day > length_of_month year month
         then range_error (js ''DecisionLogEntry ts day must name a real calendar day'')
         else if hour > 23 \<or> minute > 59 \<or> second > 59
         then range_error (js ''DecisionLogEntry ts time of day must be a real time'')
         else Inr s
   | _ \<Rightarrow> type_error (js ''DecisionLogEntry ts needs a primitive string''))"

text \<open>\<open>committedAtValue\<close> of the commit receipt\<close>

definition committed_at_value :: "jsval \<Rightarrow> js_string outcome" where
  "committed_at_value value = (case value of
     VStr s \<Rightarrow>
       if \<not> re_test ts_form s
       then type_error (js ''CommitReceipt committedAt needs a canonical UTC millisecond ISO instant'')
       else let year = number_at 0 4 s; month = number_at 5 7 s; day = number_at 8 10 s;
                hour = number_at 11 13 s; minute = number_at 14 16 s; second = number_at 17 19 s in
         if year < 1 then range_error (js ''CommitReceipt committedAt year 0000 is below the floor'')
         else if month < 1 \<or> month > 12 then range_error (js ''CommitReceipt committedAt month must be 01 to 12'')
         else if day < 1 \<or> day > length_of_month year month
         then range_error (js ''CommitReceipt committedAt day must name a real calendar day'')
         else if hour > 23 \<or> minute > 59 \<or> second > 59
         then range_error (js ''CommitReceipt committedAt time of day must be a real time'')
         else Inr s
   | _ \<Rightarrow> type_error (js ''CommitReceipt committedAt needs a primitive string''))"

section \<open>Digits of a fixed width\<close>

fun pad :: "nat \<Rightarrow> nat \<Rightarrow> js_string" where
  "pad 0 n = []"
| "pad (Suc k) n = pad k (n div 10) @ [digit (n mod 10)]"

lemma length_pad [simp]: "length (pad k n) = k"
  by (induction k arbitrary: n) auto

lemma pad_digits [simp]: "list_all is_digit (pad k n)"
  by (induction k arbitrary: n) (auto simp: is_digit_digit)

lemma nat_of_dec_snoc: "nat_of_dec (s @ [c]) = 10 * nat_of_dec s + digit_value c"
  by (simp add: nat_of_dec_def)

lemma nat_of_dec_pad: "n < 10 ^ k \<Longrightarrow> nat_of_dec (pad k n) = n"
proof (induction k arbitrary: n)
  case 0
  then show ?case by (simp add: nat_of_dec_def)
next
  case (Suc k)
  then have "n div 10 < 10 ^ k" by (simp add: less_mult_imp_div_less mult.commute)
  with Suc.IH show ?case by (simp add: nat_of_dec_snoc)
qed

lemma digit_of_value: "is_digit c \<Longrightarrow> digit_value c < 10 \<and> digit (digit_value c) = c"
proof -
  assume "is_digit c"
  then have c: "48 \<le> unat c" "unat c \<le> 57" by (simp_all add: is_digit_def word_le_nat_alt)
  then have "digit_value c = unat c - 48"
    by (simp add: digit_value_def unat_sub word_le_nat_alt)
  with c show ?thesis by (simp add: digit_def)
qed

lemma pad_nat_of_dec: "list_all is_digit s \<Longrightarrow> pad (length s) (nat_of_dec s) = s"
  by (induction s rule: rev_induct) (simp_all add: nat_of_dec_snoc digit_of_value)

lemma nat_of_dec_bound: "list_all is_digit s \<Longrightarrow> nat_of_dec s < 10 ^ length s"
proof (induction s rule: rev_induct)
  case (snoc c s)
  then show ?case using digit_of_value [of c] by (simp add: nat_of_dec_snoc)
qed (simp add: nat_of_dec_def)

lemma append_less_iff:
  fixes a b x y :: "'a :: linorder list"
  shows "length a = length b \<Longrightarrow> a @ x < b @ y \<longleftrightarrow> a < b \<or> (a = b \<and> x < y)"
  by (induction a b rule: list_induct2) auto

lemma unat_digit: "d < 10 \<Longrightarrow> unat (digit d) = 48 + d"
proof -
  assume "d < 10"
  then have "d \<in> set [0..<10]" by simp
  then show ?thesis by (auto simp: upt_rec digit_def)
qed

lemma digit_less_iff: "a < 10 \<Longrightarrow> b < 10 \<Longrightarrow> digit a < digit b \<longleftrightarrow> a < b"
  by (simp add: word_less_nat_alt unat_digit)

lemma decimal_less:
  "(m :: nat) = 10 * a + b \<Longrightarrow> n = 10 * c + d \<Longrightarrow> b < 10 \<Longrightarrow> d < 10 \<Longrightarrow> m < n \<longleftrightarrow> a < c \<or> (a = c \<and> b < d)"
  by arith

lemma pad_less_iff: "m < 10 ^ k \<Longrightarrow> n < 10 ^ k \<Longrightarrow> pad k m < pad k n \<longleftrightarrow> m < n"
proof (induction k arbitrary: m n)
  case 0
  then show ?case by simp
next
  case (Suc k)
  then have lt: "m div 10 < 10 ^ k" "n div 10 < 10 ^ k"
    by (simp_all add: less_mult_imp_div_less mult.commute)
  have inj: "pad k (m div 10) = pad k (n div 10) \<longleftrightarrow> m div 10 = n div 10"
    using nat_of_dec_pad [OF lt(1)] nat_of_dec_pad [OF lt(2)] by metis
  have "m < n \<longleftrightarrow> m div 10 < n div 10 \<or> (m div 10 = n div 10 \<and> m mod 10 < n mod 10)"
    by (rule decimal_less) simp_all
  with Suc.IH [OF lt] inj show ?case by (simp add: append_less_iff digit_less_iff)
qed

lemma pad_eq_iff: "m < 10 ^ k \<Longrightarrow> n < 10 ^ k \<Longrightarrow> pad k m = pad k n \<longleftrightarrow> m = n"
  by (metis nat_of_dec_pad)

section \<open>The calendar\<close>

text \<open>Year, month, day, hour, minute, second, millisecond\<close>

datatype moment = Moment (m_year: nat) (m_month: nat) (m_day: nat) (m_hour: nat) (m_minute: nat)
  (m_second: nat) (m_milli: nat)

definition gregorian_days :: "nat \<Rightarrow> nat \<Rightarrow> nat" where
  "gregorian_days y m =
     (if m \<in> {4, 6, 9, 11} then 30
      else if m \<noteq> 2 then 31
      else if 4 dvd y \<and> (100 dvd y \<longrightarrow> 400 dvd y) then 29 else 28)"

definition calendar_moment :: "moment \<Rightarrow> bool" where
  "calendar_moment t \<longleftrightarrow> m_year t \<in> {1..9999} \<and> m_month t \<in> {1..12} \<and>
     m_day t \<in> {1..gregorian_days (m_year t) (m_month t)} \<and>
     m_hour t < 24 \<and> m_minute t < 60 \<and> m_second t < 60 \<and> m_milli t < 1000"

definition spell :: "moment \<Rightarrow> js_string" where
  "spell t = pad 4 (m_year t) @ 0x2D # pad 2 (m_month t) @ 0x2D # pad 2 (m_day t) @ 0x54 #
     pad 2 (m_hour t) @ 0x3A # pad 2 (m_minute t) @ 0x3A # pad 2 (m_second t) @ 0x2E #
     pad 3 (m_milli t) @ [0x5A]"

definition moment_fields :: "moment \<Rightarrow> nat list" where
  "moment_fields t = [m_year t, m_month t, m_day t, m_hour t, m_minute t, m_second t, m_milli t]"

definition moment_of :: "js_string \<Rightarrow> moment" where
  "moment_of s = Moment (number_at 0 4 s) (number_at 5 7 s) (number_at 8 10 s) (number_at 11 13 s)
     (number_at 14 16 s) (number_at 17 19 s) (number_at 20 23 s)"

lemma length_of_month_gregorian:
  "m \<in> {1..12} \<Longrightarrow> length_of_month y m = gregorian_days y m"
proof -
  assume "m \<in> {1..12}"
  then have "m \<in> set [1..<13]" by auto
  then have "m = 1 \<or> m = 2 \<or> m = 3 \<or> m = 4 \<or> m = 5 \<or> m = 6 \<or> m = 7 \<or> m = 8 \<or> m = 9 \<or> m = 10
      \<or> m = 11 \<or> m = 12" by (simp add: upt_rec) arith
  moreover have "is_leap_year y \<longleftrightarrow> 4 dvd y \<and> (100 dvd y \<longrightarrow> 400 dvd y)"
    using dvd_trans [of 4 400 y] by (auto simp: is_leap_year_def dvd_eq_mod_eq_0 [symmetric])
  ultimately show ?thesis
    by (elim disjE) (simp_all add: length_of_month_def month_lengths_def gregorian_days_def)
qed

section \<open>Properties\<close>

lemma digit_class_iff: "in_class [(0x30, 0x39)] = is_digit"
  by (auto simp: is_digit_def fun_eq_iff)

lemma lang_digits: "s \<in> lang (rep n digit_class) \<longleftrightarrow> length s = n \<and> list_all is_digit s"
  by (simp add: digit_class_def lang_rep_Class digit_class_iff)

lemma lang_unit: "s \<in> lang (lit [c]) \<longleftrightarrow> s = js [c]"
  by (auto simp: lit_def js_def)

lemma conc_unit:
  "s \<in> conc A (conc (lang (lit [c])) B) \<longleftrightarrow> (\<exists>a b. s = a @ js [c] @ b \<and> a \<in> A \<and> b \<in> B)"
  by (fastforce simp: conc_def lang_unit)

lemma conc_last: "s \<in> conc A (lang (lit [c])) \<longleftrightarrow> (\<exists>a. s = a @ js [c] \<and> a \<in> A)"
  by (fastforce simp: conc_def lang_unit)

lemma marks: "js ''-'' = [0x2D]" "js ''T'' = [0x54]" "js '':'' = [0x3A]" "js ''.'' = [0x2E]" "js ''Z'' = [0x5A]"
  by (simp_all add: js_def)

text \<open>The pattern admits the seven fixed-width fields between their marks, and nothing else.\<close>

lemma ts_form_fields:
  "s \<in> lang ts_form \<longleftrightarrow> (\<exists>t. s = spell t \<and> m_year t < 10000 \<and> m_month t < 100 \<and> m_day t < 100 \<and>
     m_hour t < 100 \<and> m_minute t < 100 \<and> m_second t < 100 \<and> m_milli t < 1000)" (is "_ = ?R")
proof -
  have fields: "s \<in> lang ts_form \<longleftrightarrow> (\<exists>Y M D h m x f. s = Y @ 0x2D # M @ 0x2D # D @ 0x54 # h @ 0x3A # m @ 0x3A # x @ 0x2E # f @ [0x5A]
      \<and> map length [Y, M, D, h, m, x, f] = [4, 2, 2, 2, 2, 2, 3] \<and> list_all (list_all is_digit) [Y, M, D, h, m, x, f])"
    unfolding ts_form_def seqs.simps lang.simps conc_unit conc_last lang_digits marks by fastforce
  show ?thesis
  proof
    assume "s \<in> lang ts_form"
    then obtain Y M D h m x f where s: "s = Y @ 0x2D # M @ 0x2D # D @ 0x54 # h @ 0x3A # m @ 0x3A # x @ 0x2E # f @ [0x5A]"
      and len: "length Y = 4" "length M = 2" "length D = 2" "length h = 2" "length m = 2" "length x = 2" "length f = 3"
      and dig: "list_all is_digit Y" "list_all is_digit M" "list_all is_digit D" "list_all is_digit h"
        "list_all is_digit m" "list_all is_digit x" "list_all is_digit f"
      using fields by auto
    let ?t = "Moment (nat_of_dec Y) (nat_of_dec M) (nat_of_dec D) (nat_of_dec h) (nat_of_dec m)
      (nat_of_dec x) (nat_of_dec f)"
    have "s = spell ?t"
      using dig [THEN pad_nat_of_dec] by (simp add: s len spell_def)
    moreover note dig [THEN nat_of_dec_bound]
    ultimately show ?R by (intro exI [of _ ?t]) (simp add: len)
  next
    assume ?R
    then show "s \<in> lang ts_form" unfolding fields by (fastforce simp: spell_def)
  qed
qed

lemma moment_of_spell:
  "m_year t < 10000 \<Longrightarrow> m_month t < 100 \<Longrightarrow> m_day t < 100 \<Longrightarrow> m_hour t < 100 \<Longrightarrow> m_minute t < 100 \<Longrightarrow>
   m_second t < 100 \<Longrightarrow> m_milli t < 1000 \<Longrightarrow> moment_of (spell t) = t"
  by (cases t) (simp add: moment_of_def number_at_def slice_def spell_def nat_of_dec_pad)

lemma calendar_bounds:
  "calendar_moment t \<Longrightarrow> m_year t < 10000 \<and> m_month t < 100 \<and> m_day t < 100 \<and> m_hour t < 100 \<and>
     m_minute t < 100 \<and> m_second t < 100 \<and> m_milli t < 1000"
  by (auto simp: calendar_moment_def gregorian_days_def split: if_splits)

definition instant_check :: "js_string \<Rightarrow> bool" where
  "instant_check s \<longleftrightarrow> s \<in> lang ts_form \<and> calendar_moment (moment_of s)"

lemma instant_check_spells: "instant_check s \<longleftrightarrow> (\<exists>t. calendar_moment t \<and> s = spell t)"
  using calendar_bounds ts_form_fields [of s] moment_of_spell by (auto simp: instant_check_def)

lemma spell_length: "length (spell t) = 24"
  by (simp add: spell_def)

lemma calendar_moment_of:
  "calendar_moment (moment_of s) \<longleftrightarrow> \<not> number_at 0 4 s < 1 \<and> number_at 0 4 s < 10000 \<and>
     \<not> (number_at 5 7 s < 1 \<or> number_at 5 7 s > 12) \<and>
     \<not> (number_at 8 10 s < 1 \<or> number_at 8 10 s > length_of_month (number_at 0 4 s) (number_at 5 7 s)) \<and>
     \<not> (number_at 11 13 s > 23 \<or> number_at 14 16 s > 59 \<or> number_at 17 19 s > 59) \<and>
     number_at 20 23 s < 1000"
  using length_of_month_gregorian [of "number_at 5 7 s" "number_at 0 4 s"]
  by (cases "number_at 5 7 s \<in> {1..12}") (auto simp: calendar_moment_def moment_of_def)

lemma ts_form_numbers:
  "s \<in> lang ts_form \<Longrightarrow> length s = 24 \<and> number_at 0 4 s < 10000 \<and> number_at 20 23 s < 1000"
proof -
  assume "s \<in> lang ts_form"
  then obtain t where t: "s = spell t" "m_year t < 10000" "m_milli t < 1000" "moment_of (spell t) = t"
    using ts_form_fields [of s] moment_of_spell by blast
  have "number_at 0 4 s = m_year (moment_of s)" "number_at 20 23 s = m_milli (moment_of s)"
    by (simp_all add: moment_of_def)
  with t show ?thesis by (simp add: spell_length)
qed

lemma names_a_real_instant_iff: "names_a_real_instant s \<longleftrightarrow> instant_check s"
  using ts_form_numbers [of s]
  by (cases "s \<in> lang ts_form")
    (simp_all add: names_a_real_instant_def Let_def instant_check_def calendar_moment_of re_test_lang)

lemma entry_timestamp_iff [result_simps]:
  "entry_timestamp v = Inr s \<longleftrightarrow> v = VStr s \<and> instant_check s"
  using ts_form_numbers [of s]
  by (cases v) (auto simp: entry_timestamp_def Let_def instant_check_def calendar_moment_of re_test_lang)

lemma committed_at_iff [result_simps]:
  "committed_at_value v = Inr s \<longleftrightarrow> v = VStr s \<and> instant_check s"
  using ts_form_numbers [of s]
  by (cases v) (auto simp: committed_at_value_def Let_def instant_check_def calendar_moment_of re_test_lang)

text \<open>
  C29. The three copies of the instant rule - the clock's, the decision log entry's and the commit
  receipt's - accept the same texts, and those are exactly the spellings of the moments of the
  proleptic Gregorian calendar from year 1 to 9999, to the millisecond; no leap second, no month
  13, no 29 February outside a leap year.
\<close>

theorem instant_rules_agree:
  "(entry_timestamp (VStr s) = Inr s \<longleftrightarrow> names_a_real_instant s)
   \<and> (committed_at_value (VStr s) = Inr s \<longleftrightarrow> names_a_real_instant s)
   \<and> (names_a_real_instant s \<longleftrightarrow> (\<exists>t. calendar_moment t \<and> s = spell t))"
  by (simp add: entry_timestamp_iff committed_at_iff names_a_real_instant_iff instant_check_spells)

lemma spell_less_iff:
  "calendar_moment t \<Longrightarrow> calendar_moment u \<Longrightarrow> spell t < spell u \<longleftrightarrow> moment_fields t < moment_fields u"
  using calendar_bounds [of t] calendar_bounds [of u]
  by (simp add: spell_def append_less_iff pad_less_iff pad_eq_iff moment_fields_def)

text \<open>
  Accepted instants compare as text in the order of time: comparing two readings as
  strings compares the moments field by field, year first.
\<close>

theorem instant_text_order:
  assumes "names_a_real_instant s" and "names_a_real_instant u"
  shows "s < u \<longleftrightarrow> moment_fields (moment_of s) < moment_fields (moment_of u)"
proof -
  from assms obtain a b where "calendar_moment a" "s = spell a" "calendar_moment b" "u = spell b"
    by (auto simp: names_a_real_instant_iff instant_check_spells)
  then show ?thesis
    using calendar_bounds [of a] calendar_bounds [of b] by (simp add: spell_less_iff moment_of_spell)
qed

definition leap_day :: js_string where
  "leap_day = js ''2024-02-29T23:59:59.999Z''"

definition next_day :: js_string where
  "next_day = js ''2024-03-01T00:00:00.000Z''"

theorem instant_text_order_witness:
  "leap_day < next_day \<longleftrightarrow> moment_fields (moment_of leap_day) < moment_fields (moment_of next_day)"
proof (rule instant_text_order)
  show "names_a_real_instant leap_day" by code_simp
  show "names_a_real_instant next_day" by code_simp
qed

end
