(* ===== verification/Ports.thy ===== *)
theory Ports
  imports Policy_Model Instants
begin

text \<open>
  The ports of \<^verbatim>\<open>src/src/application\<close>: Clock, Identity, Policy and UseCase. Each holds one
  collaborator, asks it once per call, and either passes its answer on unchanged or refuses it.
  That contract is the locale \<open>gate\<close>, and every port is an instance of it.
\<close>

section \<open>Clock\<close>

definition clock_refused_options :: js_string where
  "clock_refused_options = js ''Clock needs an ordinary object holding exactly one own enumerable now function''"

definition clock_refused_reading :: js_string where
  "clock_refused_reading = js ''Clock.now needs a canonical UTC instant spelled YYYY-MM-DDTHH:MM:SS.sssZ''"

definition clock_new :: "heap \<Rightarrow> jsval \<Rightarrow> nat outcome" where
  "clock_new h options = sole_function h options ''now'' clock_refused_options"

definition instant_of :: "jsval \<Rightarrow> js_string option" where
  "instant_of v = (case v of VStr s \<Rightarrow> if \<not> names_a_real_instant s then None else Some s | _ \<Rightarrow> None)"

definition clock_now :: "(unit \<Rightarrow> ('w, thrown, jsval) eff) \<Rightarrow> unit \<Rightarrow> ('w, thrown, js_string) eff" where
  "clock_now read u = ebind (read ()) (\<lambda>reading. case instant_of reading of
     None \<Rightarrow> ethrow (TypeError clock_refused_reading) | Some s \<Rightarrow> eret s)"

section \<open>Identity\<close>

definition identity_refused_options :: js_string where
  "identity_refused_options = js ''Identity needs an ordinary object holding exactly one own enumerable current function''"

definition identity_refused_principal :: js_string where
  "identity_refused_principal = js ''Identity.current needs a genuine Principal instance from its collaborator''"

definition identity_new :: "heap \<Rightarrow> jsval \<Rightarrow> nat outcome" where
  "identity_new h options = sole_function h options ''current'' identity_refused_options"

definition genuine_principal :: "jsval \<Rightarrow> principal option" where
  "genuine_principal v = genuine (exact_principal v)"

definition identity_current :: "(unit \<Rightarrow> ('w, thrown, jsval) eff) \<Rightarrow> unit \<Rightarrow> ('w, thrown, principal) eff" where
  "identity_current ask u = ebind (ask ()) (\<lambda>found. case genuine_principal found of
     None \<Rightarrow> ethrow (TypeError identity_refused_principal) | Some p \<Rightarrow> eret p)"

section \<open>Policy\<close>

definition policy_options_message :: js_string where
  "policy_options_message = js ''Policy needs an ordinary object holding exactly one own enumerable consult function''"

definition policy_action_message :: js_string where
  "policy_action_message = js ''Policy.consult needs an exact Command or Query instance''"

definition policy_result_message :: js_string where
  "policy_result_message = js ''Policy.consult needs a genuine Result instance from its collaborator''"

definition policy_new :: "heap \<Rightarrow> jsval \<Rightarrow> nat outcome" where
  "policy_new h options = sole_function h options ''consult'' policy_options_message"

definition genuine_result :: "jsval \<Rightarrow> result option" where
  "genuine_result v = genuine (exact_result v)"

definition policy_consult :: "(jsval \<Rightarrow> ('w, thrown, jsval) eff) \<Rightarrow> jsval \<Rightarrow> ('w, thrown, result) eff" where
  "policy_consult collaborator act = (case genuine_action act of
     None \<Rightarrow> ethrow (TypeError policy_action_message)
   | Some _ \<Rightarrow> ebind (collaborator act) (\<lambda>answer. case genuine_result answer of
       None \<Rightarrow> ethrow (TypeError policy_result_message) | Some r \<Rightarrow> eret r))"

section \<open>UseCase\<close>

record use_case =
  uc_kind :: action_kind
  uc_name :: js_string
  uc_version :: int
  uc_handler :: nat

definition declaration_keys :: "string list" where
  "declaration_keys = [''kind'', ''name'', ''version'', ''handler'']"

definition declaration_of :: "heap \<Rightarrow> jsval \<Rightarrow> nat outcome" where
  "declaration_of h v =
     (if \<not> root_is_object h v then type_error (js ''UseCase needs a declaration object'')
      else case v of
        VObj r \<Rightarrow> if owns_exactly h r declaration_keys then Inr r
          else type_error (js ''UseCase takes exactly these declaration keys: '' @ comma_list declaration_keys)
      | _ \<Rightarrow> type_error (js ''UseCase takes exactly these declaration keys: '' @ comma_list declaration_keys))"

definition declared_kind :: "jsval \<Rightarrow> action_kind outcome" where
  "declared_kind v =
     (if v = VStr (js ''command'') then Inr KCommand
      else if v = VStr (js ''query'') then Inr KQuery
      else type_error (js ''UseCase needs a kind of exactly \"command\" or \"query\"''))"

definition declared_name :: "jsval \<Rightarrow> js_string outcome" where
  "declared_name v = (case v of
     VStr s \<Rightarrow> if length s = 0 then type_error (js ''UseCase needs a non-empty primitive string name'') else Inr s
   | _ \<Rightarrow> type_error (js ''UseCase needs a non-empty primitive string name''))"

definition declared_version :: "jsval \<Rightarrow> int outcome" where
  "declared_version v = (case safe_version v of
     Some i \<Rightarrow> Inr i | None \<Rightarrow> type_error (js ''UseCase needs a safe integer version of at least 1''))"

definition declared_handler :: "jsval \<Rightarrow> nat outcome" where
  "declared_handler v = (case v of
     VFun f \<Rightarrow> Inr f | _ \<Rightarrow> type_error (js ''UseCase needs a function handler''))"

definition use_case_new :: "heap \<Rightarrow> jsval \<Rightarrow> use_case outcome" where
  "use_case_new h v = rbind (declaration_of h v) (\<lambda>r.
     rbind (read_key h r (js ''kind'')) (\<lambda>x. rbind (declared_kind x) (\<lambda>k.
     rbind (read_key h r (js ''name'')) (\<lambda>x. rbind (declared_name x) (\<lambda>n.
     rbind (read_key h r (js ''version'')) (\<lambda>x. rbind (declared_version x) (\<lambda>ver.
     rbind (read_key h r (js ''handler'')) (\<lambda>x. rbind (declared_handler x) (\<lambda>f.
     Inr \<lparr>uc_kind = k, uc_name = n, uc_version = ver, uc_handler = f\<rparr>)))))))))"

definition use_case_kind_text :: "action_kind \<Rightarrow> js_string" where
  "use_case_kind_text k = (case k of KCommand \<Rightarrow> js ''command'' | KQuery \<Rightarrow> js ''query'')"

text \<open>The exact action of the declared kind, as the pair of coordinates the guard compares.\<close>

definition exact_action :: "action_kind \<Rightarrow> jsval \<Rightarrow> (js_string \<times> int) exact option" where
  "exact_action k v = (case k of
     KCommand \<Rightarrow> (case exact_command v of
         None \<Rightarrow> None
       | Some (Genuine c) \<Rightarrow> Some (Genuine (command_name c, command_version c))
       | Some Hollow \<Rightarrow> Some Hollow)
   | KQuery \<Rightarrow> (case exact_query v of
         None \<Rightarrow> None
       | Some (Genuine q) \<Rightarrow> Some (Genuine (query_name q, query_version q))
       | Some Hollow \<Rightarrow> Some Hollow))"

definition use_case_guard :: "use_case \<Rightarrow> jsval \<Rightarrow> unit outcome" where
  "use_case_guard u act = (case exact_action (uc_kind u) act of
     None \<Rightarrow> type_error (js ''this UseCase admits only an exact '' @ use_case_kind_text (uc_kind u) @ js '' action'')
   | Some e \<Rightarrow> rbind (private_read ''name'' e) (\<lambda>(n, ver).
       if n \<noteq> uc_name u \<or> ver \<noteq> uc_version u
       then type_error (js ''this UseCase admits only '' @ uc_name u @ js ''@'' @ dec_nat (nat (uc_version u)))
       else Inr ()))"

definition use_case_execute ::
    "use_case \<Rightarrow> (jsval \<Rightarrow> ('w, thrown, jsval) eff) \<Rightarrow> jsval \<Rightarrow> ('w, thrown, result) eff" where
  "use_case_execute u handler act = ebind (elift (use_case_guard u act)) (\<lambda>_.
     ebind (handler act) (\<lambda>answer. case genuine_result answer of
       None \<Rightarrow> ethrow (TypeError (js ''a UseCase handler must return a Result'')) | Some r \<Rightarrow> eret r))"

section \<open>The contract of a port\<close>

text \<open>
  A gate admits some inputs, asks its collaborator exactly once for each of them and never for
  another, and recognises some answers. \<open>call\<close> is the port's operation on a collaborator.
\<close>

locale gate =
  fixes admits :: "'i \<Rightarrow> bool"
    and recognise :: "jsval \<Rightarrow> 'b option"
    and call :: "('i \<Rightarrow> ('w, thrown, jsval) eff) \<Rightarrow> 'i \<Rightarrow> ('w, thrown, 'b) eff"
  assumes refused_input: "\<not> admits i \<Longrightarrow> \<exists>m. call ask i w = (Inl m, w)"
    and failed: "admits i \<Longrightarrow> ask i w = (Inl e, w1) \<Longrightarrow> call ask i w = (Inl e, w1)"
    and answered: "admits i \<Longrightarrow> ask i w = (Inr v, w1) \<Longrightarrow> recognise v = Some x \<Longrightarrow> call ask i w = (Inr x, w1)"
    and refused_answer: "admits i \<Longrightarrow> ask i w = (Inr v, w1) \<Longrightarrow> recognise v = None \<Longrightarrow>
      \<exists>m. call ask i w = (Inl (TypeError m), w1)"
begin

lemma call_cases:
  assumes "admits i"
  obtains (fails) e w1 where "ask i w = (Inl e, w1)" "call ask i w = (Inl e, w1)"
    | (passes) v x w1 where "ask i w = (Inr v, w1)" "recognise v = Some x" "call ask i w = (Inr x, w1)"
    | (refuses) v m w1 where "ask i w = (Inr v, w1)" "recognise v = None" "call ask i w = (Inl (TypeError m), w1)"
proof (cases rule: eff_cases [of "ask i" w])
  case (throws e w1)
  with failed [OF assms, of ask w e w1] that(1) show ?thesis by blast
next
  case (answers v w1)
  show ?thesis
  proof (cases "recognise v")
    case None
    with refused_answer [OF assms, of ask w v w1] answers that(3) show ?thesis by blast
  next
    case (Some x)
    with answered [OF assms, of ask w v w1 x] answers that(2) show ?thesis by blast
  qed
qed

lemma call_world: "admits i \<Longrightarrow> snd (call ask i w) = snd (ask i w)"
  by (cases rule: call_cases [of i ask w]) auto

lemma call_untouched: "\<not> admits i \<Longrightarrow> snd (call ask i w) = w"
  using refused_input [of i ask w] by auto

lemma call_ok:
  "call ask i w = (Inr x, w1) \<longleftrightarrow> admits i \<and> (\<exists>v. ask i w = (Inr v, w1) \<and> recognise v = Some x)"
proof (cases "admits i")
  case True
  show ?thesis by (cases rule: call_cases [OF True, of ask w]) (auto simp: True)
next
  case False
  then show ?thesis using refused_input [of i ask w] by auto
qed

end

interpretation clock_gate: gate "\<lambda>_ :: unit. True" instant_of clock_now
  by unfold_locales (auto simp: clock_now_def ebind_apply)

interpretation identity_gate: gate "\<lambda>_ :: unit. True" genuine_principal identity_current
  by unfold_locales (auto simp: identity_current_def ebind_apply)

interpretation policy_gate: gate "\<lambda>a. genuine_action a \<noteq> None" genuine_result policy_consult
  by unfold_locales (auto simp: policy_consult_def ebind_apply)

interpretation use_case_gate: gate "\<lambda>a. is_ok (use_case_guard u a)" genuine_result "use_case_execute u" for u
proof unfold_locales
  fix i and ask :: "jsval \<Rightarrow> ('w, thrown, jsval) eff" and w :: 'w
  show "\<exists>m. use_case_execute u ask i w = (Inl m, w)" if "\<not> is_ok (use_case_guard u i)"
    using that by (cases "use_case_guard u i") (auto simp: use_case_execute_def)
next
  fix i and ask :: "jsval \<Rightarrow> ('w, thrown, jsval) eff" and w w1 :: 'w and e
  show "use_case_execute u ask i w = (Inl e, w1)" if "is_ok (use_case_guard u i)" "ask i w = (Inl e, w1)"
    using that by (cases "use_case_guard u i") (auto simp: use_case_execute_def ebind_apply)
next
  fix i and ask :: "jsval \<Rightarrow> ('w, thrown, jsval) eff" and w w1 :: 'w and v x
  show "use_case_execute u ask i w = (Inr x, w1)"
    if "is_ok (use_case_guard u i)" "ask i w = (Inr v, w1)" "genuine_result v = Some x"
    using that by (cases "use_case_guard u i") (auto simp: use_case_execute_def ebind_apply)
next
  fix i and ask :: "jsval \<Rightarrow> ('w, thrown, jsval) eff" and w w1 :: 'w and v
  show "\<exists>m. use_case_execute u ask i w = (Inl (TypeError m), w1)"
    if "is_ok (use_case_guard u i)" "ask i w = (Inr v, w1)" "genuine_result v = None"
    using that by (cases "use_case_guard u i") (auto simp: use_case_execute_def ebind_apply)
qed

section \<open>Properties\<close>

lemma instant_of_iff: "instant_of v = Some s \<longleftrightarrow> v = VStr s \<and> names_a_real_instant s"
  by (cases v) (auto simp: instant_of_def)

lemma genuine_principal_iff: "genuine_principal v = Some p \<longleftrightarrow> v = VInst (IPrincipal (Genuine p))"
  by (cases v) (auto simp: genuine_principal_def exact_principal_def genuine_def
      split: kernel_instance.splits exact.splits)

lemma genuine_result_iff: "genuine_result v = Some r \<longleftrightarrow> v = VInst (IResult (Genuine r))"
  by (cases v) (auto simp: genuine_result_def exact_result_def genuine_def
      split: kernel_instance.splits exact.splits)

text \<open>
  No port invents an answer: the clock answers only a real instant its collaborator read, the
  identity port only a genuine principal its collaborator named, the policy port only a genuine
  result for a genuine action, each in the world the one call of the collaborator left.
\<close>

theorem ports_pass_through:
  "(clock_now read () w = (Inr s, w1) \<longleftrightarrow> read () w = (Inr (VStr s), w1) \<and> names_a_real_instant s) \<and>
   (identity_current ask () w = (Inr p, w1) \<longleftrightarrow> ask () w = (Inr (VInst (IPrincipal (Genuine p))), w1)) \<and>
   (policy_consult consult a w = (Inr r, w1) \<longleftrightarrow>
      genuine_action a \<noteq> None \<and> consult a w = (Inr (VInst (IResult (Genuine r))), w1))"
  by (auto simp: clock_gate.call_ok identity_gate.call_ok policy_gate.call_ok instant_of_iff
      genuine_principal_iff genuine_result_iff)

lemma use_case_guard_ok:
  "is_ok (use_case_guard u a) \<longleftrightarrow> (case uc_kind u of
     KCommand \<Rightarrow> (\<exists>c. a = VInst (ICommand (Genuine c)) \<and> command_name c = uc_name u \<and> command_version c = uc_version u)
   | KQuery \<Rightarrow> (\<exists>q. a = VInst (IQuery (Genuine q)) \<and> query_name q = uc_name u \<and> query_version q = uc_version u))"
  by (cases a; cases "uc_kind u")
    (auto simp: use_case_guard_def exact_action_def exact_command_def exact_query_def
      split: kernel_instance.splits exact.splits if_splits)

text \<open>
  A use case runs its handler for exactly the genuine actions of its declared kind, name and
  version: for any other input the world is untouched, and for those it is what the one call of
  the handler left, whatever the handler answers.
\<close>

theorem use_case_dispatch:
  "snd (use_case_execute u handler a w) =
     (if (case uc_kind u of
            KCommand \<Rightarrow> (\<exists>c. a = VInst (ICommand (Genuine c)) \<and> command_name c = uc_name u \<and> command_version c = uc_version u)
          | KQuery \<Rightarrow> (\<exists>q. a = VInst (IQuery (Genuine q)) \<and> query_name q = uc_name u \<and> query_version q = uc_version u))
      then snd (handler a w) else w)"
  using use_case_gate.call_world [of u a handler w] use_case_gate.call_untouched [of u a handler w]
  unfolding use_case_guard_ok by auto

end
