(* ===== verification/Authorization.thy ===== *)
theory Authorization
  imports Policy_Model
begin

text \<open>
  \<^verbatim>\<open>src/src/application/authorization-evaluator.mjs\<close>, \<^verbatim>\<open>policy-candidate-resolver.mjs\<close>,
  \<^verbatim>\<open>policy-decision-point.mjs\<close> and \<^verbatim>\<open>policy-batch-evaluator.mjs\<close>: statements become candidates,
  candidates become one decision. The lookup of candidates is an awaited collaborator; what it
  answers is a JavaScript value in whatever objects it made, so the model takes it with the heap
  it is read in.
\<close>

section \<open>The evaluator\<close>

record candidate =
  cand_id :: js_string
  cand_effect :: effect
  cand_applies :: bool
  cand_priority :: int
  cand_layer :: layer

definition has_exact_enumerable_data_keys :: "heap \<Rightarrow> nat \<Rightarrow> string list \<Rightarrow> bool" where
  "has_exact_enumerable_data_keys h r expected \<longleftrightarrow>
     length (own_keys h r) = length expected \<and>
     list_all (\<lambda>k. enumerable_data (own_property h r (KStr (js k)))) expected \<and>
     list_all (\<lambda>k. k \<in> set (map (\<lambda>e. KStr (js e)) expected)) (own_keys h r)"

definition decide_options :: "string list" where
  "decide_options = [''request'', ''candidates'']"

definition check_decide_options :: "heap \<Rightarrow> jsval \<Rightarrow> nat outcome" where
  "check_decide_options h options = (let refused = type_error
       (js ''AuthorizationEvaluator.decide takes exactly these options: '' @ comma_list decide_options) in
     case options of
       VObj r \<Rightarrow> if is_ordinary h options \<and> has_exact_enumerable_data_keys h r decide_options
                 then Inr r else refused
     | _ \<Rightarrow> refused)"

definition is_ordinary_dense_array :: "heap \<Rightarrow> jsval \<Rightarrow> bool" where
  "is_ordinary_dense_array h v = (case v of
     VObj r \<Rightarrow> is_array h v \<and> obj_proto (h r) = ArrayPrototype \<and>
       list_all (\<lambda>i. enumerable_data (own_property h r (KStr (dec_nat i)))) [0..<array_length h r] \<and>
       length (own_keys h r) + 1 = array_length h r + 1
   | _ \<Rightarrow> False)"

definition legacy_candidate_keys :: "string list" where
  "legacy_candidate_keys = [''policyId'', ''effect'', ''applies'']"

definition v2_candidate_keys :: "string list" where
  "v2_candidate_keys = [''policyId'', ''effect'', ''applies'', ''priority'', ''layer'']"

definition candidate_shape_error :: js_string where
  "candidate_shape_error = js ''an authorization candidate takes exactly these keys: ''
     @ comma_list legacy_candidate_keys @ js '' or these keys: '' @ comma_list v2_candidate_keys"

definition legacy_priority :: int where "legacy_priority = 0"
definition legacy_layer :: layer where "legacy_layer = Tenant"

text \<open>\<open>checkCandidate\<close>, after its shape: the fields in the order they are checked.\<close>

definition candidate_policy_id :: "jsval \<Rightarrow> js_string outcome" where
  "candidate_policy_id v = (let refused = type_error
       (js ''an authorization candidate policyId needs a lowercase canonical id of letters, digits, dot or hyphen'') in
     case v of
       VStr s \<Rightarrow> if length s = 0 \<or> length s > policy_id_max \<or> \<not> re_test policy_id_form s
                 then refused else Inr s
     | _ \<Rightarrow> refused)"

definition candidate_effect :: "jsval \<Rightarrow> effect outcome" where
  "candidate_effect v = (case effect_of v of
     Some e \<Rightarrow> Inr e
   | None \<Rightarrow> type_error (js ''an authorization candidate effect needs exactly \"allow\" or \"deny\"''))"

definition candidate_applies :: "jsval \<Rightarrow> bool outcome" where
  "candidate_applies v = (case v of
     VBool b \<Rightarrow> Inr b | _ \<Rightarrow> type_error (js ''an authorization candidate applies needs a primitive boolean''))"

definition candidate_priority :: "jsval \<Rightarrow> int outcome" where
  "candidate_priority v = (case safe_integer v of
     Some i \<Rightarrow> Inr i
   | None \<Rightarrow> type_error (js ''a v2 authorization candidate priority needs a safe integer''))"

definition candidate_layer :: "jsval \<Rightarrow> layer outcome" where
  "candidate_layer v = (case layer_of v of
     Some l \<Rightarrow> Inr l
   | None \<Rightarrow> type_error (js ''a v2 authorization candidate layer needs exactly \"system\", \"platform\" or \"tenant\"''))"

definition check_candidate :: "heap \<Rightarrow> jsval \<Rightarrow> candidate outcome" where
  "check_candidate h v = (case v of
     VObj r \<Rightarrow>
       if \<not> is_ordinary h v then type_error candidate_shape_error
       else let is_legacy = has_exact_enumerable_data_keys h r legacy_candidate_keys;
                is_v2 = has_exact_enumerable_data_keys h r v2_candidate_keys in
         if \<not> is_legacy \<and> \<not> is_v2 then type_error candidate_shape_error
         else
           rbind (read_key h r (js ''policyId'')) (\<lambda>pv.
           rbind (read_key h r (js ''effect'')) (\<lambda>ev.
           rbind (read_key h r (js ''applies'')) (\<lambda>av.
           rbind (candidate_policy_id pv) (\<lambda>i.
           rbind (candidate_effect ev) (\<lambda>e.
           rbind (candidate_applies av) (\<lambda>a.
           if is_legacy
           then Inr \<lparr>cand_id = i, cand_effect = e, cand_applies = a,
                     cand_priority = legacy_priority, cand_layer = legacy_layer\<rparr>
           else
             rbind (read_key h r (js ''priority'')) (\<lambda>nv.
             rbind (read_key h r (js ''layer'')) (\<lambda>lv.
             rbind (candidate_priority nv) (\<lambda>p.
             rbind (candidate_layer lv) (\<lambda>l.
             Inr \<lparr>cand_id = i, cand_effect = e, cand_applies = a, cand_priority = p, cand_layer = l\<rparr>))))))))))
   | _ \<Rightarrow> type_error candidate_shape_error)"

text \<open>The loop of \<open>checkCandidates\<close>: each entry is checked before the next is looked at.\<close>

fun check_candidate_list :: "heap \<Rightarrow> js_string set \<Rightarrow> jsval list \<Rightarrow> candidate list outcome" where
  "check_candidate_list h seen [] = Inr []"
| "check_candidate_list h seen (v # vs) =
     rbind (check_candidate h v) (\<lambda>c.
     if cand_id c \<in> seen
     then type_error (js ''authorization candidate policyId '' @ cand_id c @ js '' is duplicated'')
     else rbind (check_candidate_list h (insert (cand_id c) seen) vs) (\<lambda>cs. Inr (c # cs)))"

definition check_candidates :: "heap \<Rightarrow> jsval \<Rightarrow> candidate list outcome" where
  "check_candidates h v = (case v of
     VObj r \<Rightarrow>
       if \<not> is_ordinary_dense_array h v
       then type_error (js ''authorization candidates needs an ordinary array carrying only its elements'')
       else check_candidate_list h {} (map (element_at h r) [0..<array_length h r])
   | _ \<Rightarrow> type_error (js ''authorization candidates needs an ordinary array carrying only its elements''))"

definition decision_reason_text :: js_string where
  "decision_reason_text = js ''authorization decision combined from the given candidate outcomes''"

definition layer_rank :: "layer \<Rightarrow> nat" where
  "layer_rank l = (case l of System \<Rightarrow> 2 | Platform \<Rightarrow> 1 | Tenant \<Rightarrow> 0)"

text \<open>One round of the loop of \<open>winningPolicyId\<close>.\<close>

definition better :: "candidate \<Rightarrow> candidate \<Rightarrow> candidate" where
  "better entry winner =
     (if cand_priority entry \<noteq> cand_priority winner
      then if cand_priority entry > cand_priority winner then entry else winner
      else if layer_rank (cand_layer entry) \<noteq> layer_rank (cand_layer winner)
      then if layer_rank (cand_layer entry) > layer_rank (cand_layer winner) then entry else winner
      else if cand_id entry < cand_id winner then entry else winner)"

definition winning_policy_id :: "candidate list \<Rightarrow> js_string outcome" where
  "winning_policy_id entries = (case entries of
     [] \<Rightarrow> type_error (js ''Cannot read properties of undefined (reading 'policyId')'')
   | c # cs \<Rightarrow> Inr (cand_id (fold better cs c)))"

definition new_decision :: "effect \<Rightarrow> js_string option \<Rightarrow> correlation_id exact \<Rightarrow> policy_decision outcome" where
  "new_decision e matched trace =
     policy_decision_of (Inr (VStr (effect_text e))) (Inr (VStr decision_reason_text))
       (Inr (case matched of None \<Rightarrow> VNull | Some i \<Rightarrow> VStr i)) (Inr (VInst (ICorrelationId trace)))"

definition combine :: "policy_request \<Rightarrow> candidate list \<Rightarrow> policy_decision outcome" where
  "combine request checked =
     (let applicable = filter cand_applies checked;
          denies = filter (\<lambda>c. cand_effect c = Deny) applicable;
          allows = filter (\<lambda>c. cand_effect c = Allow) applicable;
          trace = action_correlation (request_action request)
      in if length denies > 0
         then rbind (winning_policy_id denies) (\<lambda>i. new_decision Deny (Some i) trace)
         else if length allows > 0
         then rbind (winning_policy_id allows) (\<lambda>i. new_decision Allow (Some i) trace)
         else new_decision Deny None trace)"

text \<open>\<open>decide\<close>, once its options are known to be the two it takes\<close>

definition evaluator_decide_of :: "heap \<Rightarrow> jsval \<Rightarrow> jsval \<Rightarrow> policy_decision outcome" where
  "evaluator_decide_of h request candidates = (case genuine_policy_request request of
     None \<Rightarrow> type_error (js ''AuthorizationEvaluator.decide request needs an exact genuine PolicyRequest instance'')
   | Some q \<Rightarrow> rbind (check_candidates h candidates) (\<lambda>checked. combine q checked))"

definition evaluator_decide :: "heap \<Rightarrow> jsval \<Rightarrow> policy_decision outcome" where
  "evaluator_decide h options =
     rbind (check_decide_options h options) (\<lambda>r.
     rbind (read_key h r (js ''request'')) (\<lambda>request.
     rbind (read_key h r (js ''candidates'')) (\<lambda>candidates.
     evaluator_decide_of h request candidates)))"

section \<open>The resolver\<close>

definition target_actor_keys :: "js_string set" where
  "target_actor_keys = {js ''tenantId'', js ''actorId''}"

definition target_actor_matches :: "json \<Rightarrow> policy_request \<Rightarrow> bool outcome" where
  "target_actor_matches target request = (case target of
     JsonObj ms \<Rightarrow>
       if list_ex (\<lambda>(k, _). k \<notin> target_actor_keys) ms then Inr False
       else
         rbind (case map_of ms (js ''tenantId'') of
            None \<Rightarrow> Inr True
          | Some v \<Rightarrow> rbind (request_tenant request) (\<lambda>t. Inr (v = JsonStr (tenant_id_to_string t)))) (\<lambda>tenant_ok.
         if \<not> tenant_ok then Inr False
         else case map_of ms (js ''actorId'') of
            None \<Rightarrow> Inr True
          | Some v \<Rightarrow> rbind (request_actor request) (\<lambda>a. Inr (v = JsonStr (actor_id_to_string a))))
   | _ \<Rightarrow> Inr False)"

definition condition_matches :: "json \<Rightarrow> bool" where
  "condition_matches c = (case c of JsonObj ms \<Rightarrow> ms = [] | _ \<Rightarrow> False)"

text \<open>\<open>request.resource.type\<close>\<close>

definition resource_type :: "policy_request \<Rightarrow> json option" where
  "resource_type r = (case request_resource r of JsonObj ms \<Rightarrow> map_of ms (js ''type'') | _ \<Rightarrow> None)"

definition statement_applies :: "policy_statement \<Rightarrow> policy_request \<Rightarrow> bool outcome" where
  "statement_applies s request =
     (if \<not> statement_enabled s then Inr False
      else if statement_action s \<noteq> action_name_of (request_action request) then Inr False
      else if resource_type request \<noteq> Some (JsonStr (statement_resource_type s)) then Inr False
      else rbind (target_actor_matches (statement_actor s) request) (\<lambda>m.
        if \<not> m then Inr False else Inr (condition_matches (statement_condition s))))"

definition candidate_for :: "policy_statement \<Rightarrow> policy_request \<Rightarrow> candidate outcome" where
  "candidate_for s request = rbind (statement_applies s request) (\<lambda>applies.
     Inr \<lparr>cand_id = statement_id s, cand_effect = statement_effect s, cand_applies = applies,
          cand_priority = statement_priority s, cand_layer = statement_layer s\<rparr>)"

text \<open>\<open>new PolicyCandidateResolver({ statements })\<close>: a copy of a dense array of genuine statements.\<close>

definition resolver_new :: "heap \<Rightarrow> jsval \<Rightarrow> policy_statement list outcome" where
  "resolver_new h options =
     rbind (case options of
         VObj r \<Rightarrow> read_key h r (js ''statements'')
       | VUndef \<Rightarrow> type_error (js ''Cannot destructure property 'statements' of undefined'')
       | VNull \<Rightarrow> type_error (js ''Cannot destructure property 'statements' of null'')
       | _ \<Rightarrow> Inr VUndef) (\<lambda>statements.
     case statements of
       VObj r \<Rightarrow>
         if \<not> is_ordinary_dense_array h statements
         then type_error (js ''PolicyCandidateResolver statements needs an ordinary dense array'')
         else let found = map (\<lambda>i. genuine_policy_statement (element_at h r i)) [0..<array_length h r] in
           if list_ex (\<lambda>s. s = None) found
           then type_error (js ''PolicyCandidateResolver statements needs an array of genuine PolicyStatement instances'')
           else Inr (map the found)
     | _ \<Rightarrow> type_error (js ''PolicyCandidateResolver statements needs an ordinary dense array''))"

text \<open>The array of candidate literals \<open>candidatesFor\<close> answers, as the objects it allocates.\<close>

definition candidate_literal :: "candidate \<Rightarrow> js_object" where
  "candidate_literal c = plain_object
     [(''policyId'', VStr (cand_id c)), (''effect'', VStr (effect_text (cand_effect c))),
      (''applies'', VBool (cand_applies c)), (''priority'', VNum (JInt (cand_priority c))),
      (''layer'', VStr (layer_text (cand_layer c)))]"

definition candidates_heap :: "candidate list \<Rightarrow> heap" where
  "candidates_heap cs r =
     (if r = 0 then array_object (map VObj [1..<length cs + 1])
      else if r \<le> length cs then candidate_literal (cs ! (r - 1)) else plain_object [])"

definition resolver_candidates_for :: "policy_statement list \<Rightarrow> jsval \<Rightarrow> candidate list outcome" where
  "resolver_candidates_for statements request = (case genuine_policy_request request of
     None \<Rightarrow> type_error (js ''PolicyCandidateResolver.candidatesFor needs a genuine PolicyRequest instance'')
   | Some q \<Rightarrow> rmap (\<lambda>s. candidate_for s q) statements)"

section \<open>The decision point and the batch evaluator\<close>

type_synonym 'w candidate_source = "jsval \<Rightarrow> ('w, thrown, heap \<times> jsval) eff"

definition decision_point_new :: "heap \<Rightarrow> jsval \<Rightarrow> nat outcome" where
  "decision_point_new h options = (case options of
     VObj r \<Rightarrow>
       if \<not> is_ordinary h options then type_error (js ''PolicyDecisionPoint needs exactly one ordinary options object'')
       else if own_keys h r \<noteq> [KStr (js ''candidatesFor'')]
       then type_error (js ''PolicyDecisionPoint options must carry exactly one key: candidatesFor'')
       else (case own_property h r (KStr (js ''candidatesFor'')) of
         Some (Data v True) \<Rightarrow>
           (case v of VFun f \<Rightarrow> Inr f
            | _ \<Rightarrow> type_error (js ''PolicyDecisionPoint candidatesFor must hold a function''))
       | _ \<Rightarrow> type_error (js ''PolicyDecisionPoint candidatesFor must be an enumerable data property''))
   | _ \<Rightarrow> type_error (js ''PolicyDecisionPoint needs exactly one ordinary options object''))"

definition decision_point_decide :: "'w candidate_source \<Rightarrow> jsval \<Rightarrow> ('w, thrown, policy_decision) eff" where
  "decision_point_decide candidates_for request = (case genuine_policy_request request of
     None \<Rightarrow> ethrow (TypeError (js ''PolicyDecisionPoint.decide request needs an exact genuine PolicyRequest instance''))
   | Some _ \<Rightarrow> ebind (candidates_for request) (\<lambda>(h, candidates).
       elift (evaluator_decide_of h request candidates)))"

text \<open>A resolver as the collaborator of a decision point, the way the composition wires it.\<close>

definition resolver_source :: "policy_statement list \<Rightarrow> 'w candidate_source" where
  "resolver_source statements request =
     elift (rbind (resolver_candidates_for statements request) (\<lambda>cs. Inr (candidates_heap cs, VObj 0)))"

fun check_batch_keys :: "nat \<Rightarrow> key list \<Rightarrow> unit outcome" where
  "check_batch_keys n [] = Inr ()"
| "check_batch_keys n (k # ks) = (case k of
     KStr s \<Rightarrow> if \<not> re_test index_form s \<or> nat_of_dec s \<ge> n
       then type_error (js ''PolicyBatchEvaluator.decideAll requests must carry no own property beyond its dense indices and length'')
       else check_batch_keys n ks
   | KSym _ \<Rightarrow> type_error (js ''PolicyBatchEvaluator.decideAll requests must carry no own property beyond its dense indices and length''))"

definition check_batch_element :: "heap \<Rightarrow> nat \<Rightarrow> nat \<Rightarrow> policy_request outcome" where
  "check_batch_element h r i = (case own_property h r (KStr (dec_nat i)) of
     Some (Data v True) \<Rightarrow>
       (case genuine_policy_request v of
          None \<Rightarrow> type_error (js ''PolicyBatchEvaluator.decideAll requests['' @ dec_nat i
            @ js ''] must be an exact genuine PolicyRequest'')
        | Some q \<Rightarrow> Inr q)
   | _ \<Rightarrow> type_error (js ''PolicyBatchEvaluator.decideAll requests must be a dense array of own enumerable data properties''))"

definition check_requests :: "heap \<Rightarrow> jsval \<Rightarrow> policy_request list outcome" where
  "check_requests h v = (case v of
     VObj r \<Rightarrow>
       if \<not> is_array h v \<or> obj_proto (h r) \<noteq> ArrayPrototype
       then type_error (js ''PolicyBatchEvaluator.decideAll requests must be an ordinary Array'')
       else let n = array_length h r in
         if length (own_keys h r) + 1 \<noteq> n + 1
         then type_error (js ''PolicyBatchEvaluator.decideAll requests must carry no own property beyond its dense indices and length'')
         else rbind (check_batch_keys n (own_keys h r)) (\<lambda>_. rmap (check_batch_element h r) [0..<n])
   | _ \<Rightarrow> type_error (js ''PolicyBatchEvaluator.decideAll requests must be an ordinary Array''))"

definition batch_decide_all ::
    "'w candidate_source \<Rightarrow> heap \<Rightarrow> jsval \<Rightarrow> ('w, thrown, policy_decision list) eff" where
  "batch_decide_all candidates_for h requests = ebind (elift (check_requests h requests)) (\<lambda>snapshot.
     emap (\<lambda>q. decision_point_decide candidates_for (VInst (IPolicyRequest (Genuine q)))) snapshot)"

end
