(* ===== verification/Decision_Log.thy ===== *)
theory Decision_Log
  imports Ports Authorization
begin

text \<open>
  \<^verbatim>\<open>src/src/application/decision-log-entry.mjs\<close>, \<^verbatim>\<open>decision-log-port.mjs\<close>,
  \<^verbatim>\<open>decision-logging-policy-decision-point.mjs\<close> and the row verification of
  \<^verbatim>\<open>src/src/adapters/postgres-decision-log-adapter.mjs\<close>. The digest of \<open>node:crypto\<close> is the
  parameter \<open>sha\<close>, from the text that is hashed to its hexadecimal digest.
\<close>

section \<open>Fields of an entry\<close>

definition ulid_form :: regex where
  "ulid_form = Seq (Class [(0x30, 0x37)])
     (rep 25 (Class [(0x30, 0x39), (0x41, 0x48), (0x4A, 0x4B), (0x4D, 0x4E), (0x50, 0x54), (0x56, 0x5A)]))"

definition hex64_form :: regex where
  "hex64_form = rep 64 hex_class"

definition ulid_value :: "jsval \<Rightarrow> js_string outcome" where
  "ulid_value v = (case v of
     VStr s \<Rightarrow> if \<not> re_test ulid_form s
       then type_error (js ''DecisionLogEntry id needs a canonical uppercase 26-character ULID'') else Inr s
   | _ \<Rightarrow> type_error (js ''DecisionLogEntry id needs a canonical uppercase 26-character ULID''))"

definition prev_hash_value :: "jsval \<Rightarrow> js_string option outcome" where
  "prev_hash_value v = (case v of
     VNull \<Rightarrow> Inr None
   | VStr s \<Rightarrow> if \<not> re_test hex64_form s
       then type_error (js ''DecisionLogEntry prevHash needs null or a lowercase 64-hex string'') else Inr (Some s)
   | _ \<Rightarrow> type_error (js ''DecisionLogEntry prevHash needs null or a lowercase 64-hex string''))"

definition request_value :: "jsval \<Rightarrow> policy_request outcome" where
  "request_value v = (case genuine_policy_request v of
     None \<Rightarrow> type_error (js ''DecisionLogEntry request needs an exact genuine PolicyRequest instance'')
   | Some q \<Rightarrow> Inr q)"

definition decision_value :: "jsval \<Rightarrow> policy_decision outcome" where
  "decision_value v = (case genuine_policy_decision v of
     None \<Rightarrow> type_error (js ''DecisionLogEntry decision needs an exact genuine PolicyDecision instance'')
   | Some d \<Rightarrow> Inr d)"

definition layer_resolved_value :: "jsval \<Rightarrow> policy_decision \<Rightarrow> layer option outcome" where
  "layer_resolved_value v d =
     (if decision_matched d = None
      then if v \<noteq> VNull
        then type_error (js ''DecisionLogEntry layerResolved must be null for a default-deny decision'')
        else Inr None
      else case layer_of v of
        None \<Rightarrow> type_error (js ''DecisionLogEntry layerResolved needs \"system\", \"platform\" or \"tenant\" when matchedPolicyId is non-null'')
      | Some l \<Rightarrow> Inr (Some l))"

text \<open>\<open>decision.traceId !== request.action.correlationId\<close>: which object it is, not what it spells\<close>

definition same_correlation :: "policy_decision \<Rightarrow> policy_request \<Rightarrow> bool" where
  "same_correlation d q = (case action_correlation (request_action q) of
     Genuine c \<Rightarrow> correlation_ref c = correlation_ref (decision_trace d) | Hollow \<Rightarrow> False)"

section \<open>The hashed payload\<close>

text \<open>
  \<open>descendingKeyOrder\<close>: a copy whose objects are created with their keys in descending order. The
  assignment \<open>out["__proto__"] = ...\<close> creates no property: it sets the prototype of the copy or, for
  a primitive, does nothing.
\<close>

definition proto_key :: js_string where
  "proto_key = js ''__proto__''"

fun descending_key_order :: "json \<Rightarrow> json" where
  "descending_key_order (JsonArr vs) = JsonArr (map descending_key_order vs)"
| "descending_key_order (JsonObj ms) = JsonObj (filter (\<lambda>(k, _). k \<noteq> proto_key)
     (rev (sort_key fst (map (\<lambda>(k, v). (k, descending_key_order v)) ms))))"
| "descending_key_order v = v"

definition option_json :: "js_string option \<Rightarrow> json" where
  "option_json x = (case x of None \<Rightarrow> JsonNull | Some s \<Rightarrow> JsonStr s)"

definition layer_json :: "layer option \<Rightarrow> json" where
  "layer_json l = option_json (map_option layer_text l)"

text \<open>The payload literal both modules write out, from the values of its fields.\<close>

definition payload_record ::
    "js_string \<Rightarrow> js_string \<Rightarrow> js_string \<Rightarrow> js_string \<Rightarrow> json \<Rightarrow> json \<Rightarrow> js_string \<Rightarrow> js_string
     \<Rightarrow> json \<Rightarrow> json \<Rightarrow> js_string \<Rightarrow> js_string \<Rightarrow> json \<Rightarrow> json" where
  "payload_record i tenant actor act resource context decided reason matched layer trace ts prev = JsonObj
     [(js ''id'', JsonStr i),
      (js ''requestActor'', JsonObj [(js ''tenantId'', JsonStr tenant), (js ''actorId'', JsonStr actor)]),
      (js ''requestAction'', JsonStr act),
      (js ''requestResource'', descending_key_order resource),
      (js ''requestContext'', descending_key_order context),
      (js ''decision'', JsonStr decided),
      (js ''reason'', JsonStr reason),
      (js ''matchedPolicyId'', matched),
      (js ''layerResolved'', layer),
      (js ''traceId'', JsonStr trace),
      (js ''ts'', JsonStr ts),
      (js ''prevHash'', prev)]"

definition plain_payload ::
    "js_string \<Rightarrow> policy_request \<Rightarrow> policy_decision \<Rightarrow> layer option \<Rightarrow> js_string \<Rightarrow> js_string option \<Rightarrow> json outcome" where
  "plain_payload i q d l ts prev =
     rbind (request_tenant q) (\<lambda>t.
     rbind (request_actor q) (\<lambda>a.
     Inr (payload_record i (tenant_id_to_string t) (actor_id_to_string a)
       (action_name_of (request_action q)) (request_resource q) (request_context q)
       (effect_text (decision_effect d)) (decision_reason d) (matched_json (decision_matched d))
       (layer_json l) (correlation_value (decision_trace d)) ts (option_json prev))))"

section \<open>DecisionLogEntry\<close>

definition entry_options :: "string list" where
  "entry_options = [''id'', ''request'', ''decision'', ''layerResolved'', ''ts'', ''prevHash'']"

text \<open>The constructor's body, on the values of its options.\<close>

definition entry_of ::
    "(js_string \<Rightarrow> js_string) \<Rightarrow> jsval \<Rightarrow> jsval \<Rightarrow> jsval \<Rightarrow> jsval \<Rightarrow> jsval \<Rightarrow> jsval \<Rightarrow> decision_log_entry outcome" where
  "entry_of sha idv requestv decisionv layerv tsv prevv =
     rbind (ulid_value idv) (\<lambda>i.
     rbind (request_value requestv) (\<lambda>q.
     rbind (decision_value decisionv) (\<lambda>d.
     if \<not> same_correlation d q
     then type_error (js ''DecisionLogEntry decision.traceId must be the exact same CorrelationId instance as request.action.correlationId'')
     else
     rbind (layer_resolved_value layerv d) (\<lambda>l.
     rbind (entry_timestamp tsv) (\<lambda>ts.
     rbind (prev_hash_value prevv) (\<lambda>prev.
     rbind (plain_payload i q d l ts prev) (\<lambda>payload.
     Inr \<lparr>entry_id = i, entry_request = q, entry_decision = d, entry_layer = l, entry_ts = ts,
          entry_prev = prev, entry_hash = sha (stringify payload)\<rparr>)))))))"

definition entry_new :: "(js_string \<Rightarrow> js_string) \<Rightarrow> heap \<Rightarrow> jsval \<Rightarrow> decision_log_entry outcome" where
  "entry_new sha h options =
     rbind (data_options h options entry_options (js ''DecisionLogEntry needs an ordinary options object'')
       (js ''DecisionLogEntry takes exactly these options: '' @ comma_list entry_options)) (\<lambda>r.
     rbind (read_key h r (js ''id'')) (\<lambda>idv.
     rbind (read_key h r (js ''request'')) (\<lambda>qv.
     rbind (read_key h r (js ''decision'')) (\<lambda>dv.
     rbind (read_key h r (js ''layerResolved'')) (\<lambda>lv.
     rbind (read_key h r (js ''ts'')) (\<lambda>tv.
     rbind (read_key h r (js ''prevHash'')) (\<lambda>pv.
     entry_of sha idv qv dv lv tv pv)))))))"

definition entry_payload :: "decision_log_entry \<Rightarrow> json outcome" where
  "entry_payload e = plain_payload (entry_id e) (entry_request e) (entry_decision e) (entry_layer e)
     (entry_ts e) (entry_prev e)"

definition entry_to_json :: "decision_log_entry \<Rightarrow> json outcome" where
  "entry_to_json e = rbind (entry_payload e) (\<lambda>p. case p of
     JsonObj ms \<Rightarrow> Inr (JsonObj (ms @ [(js ''entryHash'', JsonStr (entry_hash e))]))
   | _ \<Rightarrow> Inr p)"

definition exact_entry :: "jsval \<Rightarrow> decision_log_entry exact option" where
  "exact_entry v = (case v of VInst (IDecisionLogEntry e) \<Rightarrow> Some e | _ \<Rightarrow> None)"

definition genuine_entry :: "jsval \<Rightarrow> decision_log_entry option" where
  "genuine_entry v = genuine (exact_entry v)"

definition entry_equals :: "jsval \<Rightarrow> jsval \<Rightarrow> bool outcome" where
  "entry_equals this other = rendered_equals (\<lambda>e. rbind (entry_to_json e) (\<lambda>j. Inr (stringify j)))
     (exact_entry this) (exact_entry other)"

section \<open>DecisionLogPort\<close>

definition log_port_options :: "string list" where
  "log_port_options = [''append'']"

definition log_port_new :: "heap \<Rightarrow> jsval \<Rightarrow> nat outcome" where
  "log_port_new h options =
     rbind (data_options h options log_port_options (js ''DecisionLogPort needs an ordinary options object'')
       (js ''DecisionLogPort takes exactly these options: '' @ comma_list log_port_options)) (\<lambda>r.
     rbind (read_key h r (js ''append'')) (\<lambda>v. case v of
       VFun f \<Rightarrow> Inr f
     | _ \<Rightarrow> type_error (js ''DecisionLogPort append needs a function collaborator'')))"

definition log_port_append ::
    "(jsval \<Rightarrow> ('w, thrown, jsval) eff) \<Rightarrow> jsval \<Rightarrow> ('w, thrown, jsval) eff" where
  "log_port_append collaborator entry = (case genuine_entry entry of
     None \<Rightarrow> ethrow (TypeError (js ''DecisionLogPort append needs an exact genuine DecisionLogEntry instance''))
   | Some _ \<Rightarrow> collaborator entry)"

interpretation log_gate: gate "\<lambda>v. genuine_entry v \<noteq> None" Some log_port_append
  by unfold_locales (auto simp: log_port_append_def)

section \<open>The logging decision point\<close>

text \<open>
  The constructor: three functions and the genuine instances of two ports, read in this order. The
  answer is the identities of the five collaborators.
\<close>

definition logging_point_options :: "string list" where
  "logging_point_options = [''candidatesFor'', ''decisionLog'', ''idGenerator'', ''clock'', ''chainHead'']"

definition function_of :: "jsval \<Rightarrow> string \<Rightarrow> nat outcome" where
  "function_of v what = (case v of
     VFun f \<Rightarrow> Inr f | _ \<Rightarrow> type_error (js what @ js '' needs a function collaborator''))"

definition service_of :: "service_class \<Rightarrow> jsval \<Rightarrow> string \<Rightarrow> nat outcome" where
  "service_of c v message = (case v of
     VInst (IService d (Genuine s)) \<Rightarrow> if d = c then Inr s else type_error (js message)
   | _ \<Rightarrow> type_error (js message))"

definition logging_point_new :: "heap \<Rightarrow> jsval \<Rightarrow> (nat \<times> nat \<times> nat \<times> nat \<times> nat) outcome" where
  "logging_point_new h options =
     rbind (data_options h options logging_point_options
       (js ''DecisionLoggingPolicyDecisionPoint needs an ordinary options object'')
       (js ''DecisionLoggingPolicyDecisionPoint takes exactly these options: '' @ comma_list logging_point_options)) (\<lambda>r.
     rbind (read_key h r (js ''candidatesFor'')) (\<lambda>v.
     rbind (function_of v ''DecisionLoggingPolicyDecisionPoint candidatesFor'') (\<lambda>candidates.
     rbind (read_key h r (js ''decisionLog'')) (\<lambda>v.
     rbind (service_of SvcDecisionLogPort v
       ''DecisionLoggingPolicyDecisionPoint decisionLog needs an exact genuine DecisionLogPort instance'') (\<lambda>port.
     rbind (read_key h r (js ''idGenerator'')) (\<lambda>v.
     rbind (function_of v ''DecisionLoggingPolicyDecisionPoint idGenerator'') (\<lambda>ids.
     rbind (read_key h r (js ''clock'')) (\<lambda>v.
     rbind (service_of SvcClock v
       ''DecisionLoggingPolicyDecisionPoint clock needs an exact genuine Clock instance'') (\<lambda>clock.
     rbind (read_key h r (js ''chainHead'')) (\<lambda>v.
     rbind (function_of v ''DecisionLoggingPolicyDecisionPoint chainHead'') (\<lambda>chain.
     Inr (candidates, port, ids, clock, chain))))))))))))"

text \<open>Its collaborators, as functions of the world they run in.\<close>

record 'w log_services =
  svc_candidates :: "'w candidate_source"
  svc_append :: "jsval \<Rightarrow> ('w, thrown, jsval) eff"
  svc_id :: "('w, thrown, jsval) eff"
  svc_read_clock :: "unit \<Rightarrow> ('w, thrown, jsval) eff"
  svc_chain_head :: "tenant_id exact \<Rightarrow> ('w, thrown, jsval) eff"

text \<open>\<open>candidates.find(...)\<close>, and the layer of what it finds.\<close>

fun find_candidate :: "heap \<Rightarrow> js_string \<Rightarrow> jsval list \<Rightarrow> nat option" where
  "find_candidate h i [] = None"
| "find_candidate h i (v # vs) = (case v of
     VObj r \<Rightarrow> if read_key h r (js ''policyId'') = Inr (VStr i) then Some r else find_candidate h i vs
   | _ \<Rightarrow> find_candidate h i vs)"

definition layer_resolved :: "heap \<Rightarrow> jsval \<Rightarrow> js_string option \<Rightarrow> jsval outcome" where
  "layer_resolved h candidates matched = (case matched of
     None \<Rightarrow> Inr VNull
   | Some i \<Rightarrow> (case candidates of
       VObj a \<Rightarrow>
         (case find_candidate h i (map (element_at h a) [0..<array_length h a]) of
            Some r \<Rightarrow> if own_property h r (KStr (js ''layer'')) \<noteq> None then read_key h r (js ''layer'')
                      else Inr (VStr (js ''tenant''))
          | None \<Rightarrow> type_error (js ''Cannot convert undefined or null to object''))
     | _ \<Rightarrow> type_error (js ''candidates.find is not a function'')))"

definition log_one ::
    "(js_string \<Rightarrow> js_string) \<Rightarrow> 'w log_services \<Rightarrow> policy_request \<Rightarrow> ('w, thrown, jsval) eff
     \<Rightarrow> ('w, thrown, policy_decision \<times> decision_log_entry) eff" where
  "log_one sha svc q resolve_prev = (let request = VInst (IPolicyRequest (Genuine q)) in
     ebind (svc_candidates svc request) (\<lambda>(h, candidates).
     ebind (elift (evaluator_decide_of h request candidates)) (\<lambda>d.
     ebind (elift (layer_resolved h candidates (decision_matched d))) (\<lambda>layer.
     ebind resolve_prev (\<lambda>prev.
     ebind (svc_id svc) (\<lambda>i.
     ebind (clock_now (svc_read_clock svc) ()) (\<lambda>ts.
     ebind (elift (entry_of sha i request (VInst (IPolicyDecision (Genuine d))) layer (VStr ts) prev)) (\<lambda>e.
     ebind (log_port_append (svc_append svc) (VInst (IDecisionLogEntry (Genuine e)))) (\<lambda>_.
     eret (d, e))))))))))"

definition chain_head_of :: "'w log_services \<Rightarrow> policy_request \<Rightarrow> ('w, thrown, jsval) eff" where
  "chain_head_of svc q = ebind (elift (request_tenant q)) (svc_chain_head svc)"

definition logging_decide ::
    "(js_string \<Rightarrow> js_string) \<Rightarrow> 'w log_services \<Rightarrow> jsval \<Rightarrow> ('w, thrown, policy_decision) eff" where
  "logging_decide sha svc request = (case genuine_policy_request request of
     None \<Rightarrow> ethrow (TypeError (js ''DecisionLoggingPolicyDecisionPoint needs an exact genuine PolicyRequest instance''))
   | Some q \<Rightarrow> ebind (log_one sha svc q (chain_head_of svc q)) (\<lambda>(d, _). eret d))"

text \<open>
  The loop of \<open>decideAll\<close>: the head of a tenant's chain is asked for once and carried from then on.
\<close>

type_synonym heads = "js_string \<Rightarrow> js_string option"

definition resolve_prev :: "'w log_services \<Rightarrow> heads \<Rightarrow> js_string \<Rightarrow> policy_request \<Rightarrow> ('w, thrown, jsval) eff" where
  "resolve_prev svc heads tenant q = (case heads tenant of
     Some hash \<Rightarrow> eret (VStr hash) | None \<Rightarrow> chain_head_of svc q)"

fun log_all ::
    "(js_string \<Rightarrow> js_string) \<Rightarrow> 'w log_services \<Rightarrow> heads \<Rightarrow> policy_request list
     \<Rightarrow> ('w, thrown, (policy_decision \<times> decision_log_entry) list) eff" where
  "log_all sha svc heads [] = eret []"
| "log_all sha svc heads (q # qs) =
     ebind (elift (request_tenant q)) (\<lambda>t. let tenant = tenant_id_to_string t in
     ebind (log_one sha svc q (resolve_prev svc heads tenant q)) (\<lambda>(d, e).
     ebind (log_all sha svc (heads(tenant \<mapsto> entry_hash e)) qs) (\<lambda>rest.
     eret ((d, e) # rest))))"

definition log_batch_element :: "heap \<Rightarrow> nat \<Rightarrow> nat \<Rightarrow> policy_request outcome" where
  "log_batch_element h r i = (case own_property h r (KStr (dec_nat i)) of
     Some (Data v True) \<Rightarrow>
       (case genuine_policy_request v of
          None \<Rightarrow> type_error (js ''DecisionLoggingPolicyDecisionPoint needs an exact genuine PolicyRequest instance'')
        | Some q \<Rightarrow> Inr q)
   | _ \<Rightarrow> type_error (js ''DecisionLoggingPolicyDecisionPoint.decideAll requests must be a dense array of own enumerable data properties''))"

fun log_batch_keys :: "nat \<Rightarrow> key list \<Rightarrow> unit outcome" where
  "log_batch_keys n [] = Inr ()"
| "log_batch_keys n (k # ks) = (case k of
     KStr s \<Rightarrow> if \<not> re_test index_form s \<or> nat_of_dec s \<ge> n
       then type_error (js ''DecisionLoggingPolicyDecisionPoint.decideAll requests must carry no own property beyond its dense indices and length'')
       else log_batch_keys n ks
   | KSym _ \<Rightarrow> type_error (js ''DecisionLoggingPolicyDecisionPoint.decideAll requests must carry no own property beyond its dense indices and length''))"

definition require_request_array :: "heap \<Rightarrow> jsval \<Rightarrow> policy_request list outcome" where
  "require_request_array h v = (case v of
     VObj r \<Rightarrow>
       if \<not> is_array h v \<or> obj_proto (h r) \<noteq> ArrayPrototype
       then type_error (js ''DecisionLoggingPolicyDecisionPoint.decideAll needs an ordinary array of requests'')
       else let n = array_length h r in
         if length (own_keys h r) + 1 \<noteq> n + 1
         then type_error (js ''DecisionLoggingPolicyDecisionPoint.decideAll requests must carry no own property beyond its dense indices and length'')
         else rbind (log_batch_keys n (own_keys h r)) (\<lambda>_. rmap (log_batch_element h r) [0..<n])
   | _ \<Rightarrow> type_error (js ''DecisionLoggingPolicyDecisionPoint.decideAll needs an ordinary array of requests''))"

definition logging_decide_all ::
    "(js_string \<Rightarrow> js_string) \<Rightarrow> 'w log_services \<Rightarrow> heap \<Rightarrow> jsval \<Rightarrow> ('w, thrown, policy_decision list) eff" where
  "logging_decide_all sha svc h requests =
     ebind (elift (require_request_array h requests)) (\<lambda>snapshot.
     if snapshot = [] then eret []
     else ebind (log_all sha svc (\<lambda>_. None) snapshot) (\<lambda>pairs. eret (map fst pairs)))"

section \<open>Verifying a persisted row\<close>

text \<open>
  A row is what the driver parsed, so it is JSON-native here and \<open>demandJsonShape\<close> holds of it by
  construction.
\<close>

definition demand :: "bool \<Rightarrow> string \<Rightarrow> unit outcome" where
  "demand b m = require b (IntegrityViolation (js m))"

definition members :: "json \<Rightarrow> (js_string \<times> json) list" where
  "members j = (case j of JsonObj ms \<Rightarrow> ms | _ \<Rightarrow> [])"

definition member :: "json \<Rightarrow> string \<Rightarrow> json option" where
  "member j k = map_of (members j) (js k)"

definition exact_keys :: "json \<Rightarrow> string list \<Rightarrow> js_string \<Rightarrow> unit outcome" where
  "exact_keys j ks what = (case j of
     JsonObj ms \<Rightarrow>
       require (length ms = length ks \<and> list_all (\<lambda>k. js k \<in> set (map fst ms)) ks)
         (IntegrityViolation (what @ js '' must carry exactly these keys: '' @ comma_list ks))
   | _ \<Rightarrow> Inl (IntegrityViolation (what @ js '' must be an ordinary object'')))"

definition text_of :: "json option \<Rightarrow> js_string option" where
  "text_of j = (case j of Some (JsonStr s) \<Rightarrow> Some s | _ \<Rightarrow> None)"

definition matches_form :: "regex \<Rightarrow> json option \<Rightarrow> bool" where
  "matches_form r j = (case text_of j of Some s \<Rightarrow> re_test r s | None \<Rightarrow> False)"

definition is_text :: "json option \<Rightarrow> bool" where
  "is_text j \<longleftrightarrow> text_of j \<noteq> None"

definition null_or :: "(json option \<Rightarrow> bool) \<Rightarrow> json option \<Rightarrow> bool" where
  "null_or p j \<longleftrightarrow> j = Some JsonNull \<or> p j"

definition row_keys :: "string list" where
  "row_keys = [''id'', ''tenant_id'', ''entry_hash'', ''prev_hash'', ''payload'']"

definition payload_keys :: "string list" where
  "payload_keys = [''id'', ''requestActor'', ''requestAction'', ''requestResource'', ''requestContext'',
     ''decision'', ''reason'', ''matchedPolicyId'', ''layerResolved'', ''traceId'', ''ts'', ''prevHash'']"

definition the_text :: "json option \<Rightarrow> js_string" where
  "the_text j = (case text_of j of Some s \<Rightarrow> s | None \<Rightarrow> [])"

definition the_json :: "json option \<Rightarrow> json" where
  "the_json j = (case j of Some v \<Rightarrow> v | None \<Rightarrow> JsonNull)"

text \<open>The payload a row is hashed over.\<close>

definition row_canonical :: "json \<Rightarrow> json" where
  "row_canonical payload = (let actor = the_json (member payload ''requestActor'') in
     payload_record (the_text (member payload ''id''))
       (the_text (member actor ''tenantId'')) (the_text (member actor ''actorId''))
       (the_text (member payload ''requestAction'')) (the_json (member payload ''requestResource''))
       (the_json (member payload ''requestContext'')) (the_text (member payload ''decision''))
       (the_text (member payload ''reason'')) (the_json (member payload ''matchedPolicyId''))
       (the_json (member payload ''layerResolved'')) (the_text (member payload ''traceId''))
       (the_text (member payload ''ts'')) (the_json (member payload ''prevHash'')))"

record append_receipt =
  receipt_entry :: js_string
  receipt_tenant :: js_string
  receipt_hash :: js_string
  receipt_prev :: "js_string option"

definition verify_row :: "(js_string \<Rightarrow> js_string) \<Rightarrow> json \<Rightarrow> append_receipt outcome" where
  "verify_row sha row =
     rbind (exact_keys row row_keys (js ''row'')) (\<lambda>_.
     rbind (demand (matches_form ulid_form (member row ''id'')) ''row.id must be a canonical ULID'') (\<lambda>_.
     rbind (demand (matches_form uuid_form (member row ''tenant_id'')) ''row.tenant_id must be a canonical UUID'') (\<lambda>_.
     rbind (demand (matches_form hex64_form (member row ''entry_hash'')) ''row.entry_hash must be a lowercase 64-hex string'') (\<lambda>_.
     rbind (demand (null_or (matches_form hex64_form) (member row ''prev_hash''))
       ''row.prev_hash must be null or a lowercase 64-hex string'') (\<lambda>_.
     let payload = the_json (member row ''payload'') in
     rbind (exact_keys payload payload_keys (js ''row.payload'')) (\<lambda>_.
     rbind (demand (matches_form ulid_form (member payload ''id'')) ''row.payload.id must be a canonical ULID'') (\<lambda>_.
     let actor = the_json (member payload ''requestActor'') in
     rbind (exact_keys actor [''tenantId'', ''actorId''] (js ''row.payload.requestActor'')) (\<lambda>_.
     rbind (demand (matches_form uuid_form (member actor ''tenantId''))
       ''row.payload.requestActor.tenantId must be a canonical UUID'') (\<lambda>_.
     rbind (demand (is_text (member actor ''actorId'')) ''row.payload.requestActor.actorId must be a string'') (\<lambda>_.
     rbind (demand (is_text (member payload ''requestAction'')) ''row.payload.requestAction must be a string'') (\<lambda>_.
     rbind (demand (is_text (member payload ''decision'')) ''row.payload.decision must be a string'') (\<lambda>_.
     rbind (demand (is_text (member payload ''reason'')) ''row.payload.reason must be a string'') (\<lambda>_.
     rbind (demand (null_or is_text (member payload ''matchedPolicyId'')) ''row.payload.matchedPolicyId must be null or a string'') (\<lambda>_.
     rbind (demand (null_or is_text (member payload ''layerResolved'')) ''row.payload.layerResolved must be null or a string'') (\<lambda>_.
     rbind (demand (matches_form uuid_form (member payload ''traceId'')) ''row.payload.traceId must be a canonical UUID'') (\<lambda>_.
     rbind (demand (matches_form ts_form (member payload ''ts'')) ''row.payload.ts must be a canonical UTC millisecond ISO instant'') (\<lambda>_.
     rbind (demand (null_or (matches_form hex64_form) (member payload ''prevHash''))
       ''row.payload.prevHash must be null or a lowercase 64-hex string'') (\<lambda>_.
     rbind (demand (member payload ''id'' = member row ''id'') ''row.payload.id must bind to row.id'') (\<lambda>_.
     rbind (demand (member actor ''tenantId'' = member row ''tenant_id'')
       ''row.payload.requestActor.tenantId must bind to row.tenant_id'') (\<lambda>_.
     rbind (demand (member payload ''prevHash'' = member row ''prev_hash'') ''row.payload.prevHash must bind to row.prev_hash'') (\<lambda>_.
     rbind (demand (sha (stringify (row_canonical payload)) = the_text (member row ''entry_hash''))
       ''recomputed hash does not match row.entry_hash'') (\<lambda>_.
     Inr \<lparr>receipt_entry = the_text (member row ''id''), receipt_tenant = the_text (member row ''tenant_id''),
          receipt_hash = the_text (member row ''entry_hash''), receipt_prev = text_of (member row ''prev_hash'')\<rparr>
     ))))))))))))))))))))))"

end
