(* ===== verification/Authorization_Facts.thy ===== *)
theory Authorization_Facts
  imports Authorization
begin

text \<open>
  What the authorization engine promises. Candidates are ranked by a strict order; the decision
  combines them deny-first; and seen from the statements, an allow names an enabled statement that
  matches the request, while statements addressed to another tenant change nothing.
\<close>

section \<open>The rank of a candidate\<close>

definition outranks :: "candidate \<Rightarrow> candidate \<Rightarrow> bool" where
  "outranks a b \<longleftrightarrow> cand_priority b < cand_priority a \<or>
     (cand_priority a = cand_priority b \<and>
       (layer_rank (cand_layer b) < layer_rank (cand_layer a) \<or>
        (layer_rank (cand_layer a) = layer_rank (cand_layer b) \<and> cand_id a < cand_id b)))"

lemma better_outranks: "better a b = (if outranks a b then a else b)"
  by (auto simp: better_def outranks_def)

lemma outranks_trans: "outranks a b \<Longrightarrow> outranks b c \<Longrightarrow> outranks a c"
  by (auto simp: outranks_def)

lemma outranks_irrefl: "\<not> outranks a a"
  by (simp add: outranks_def)

lemma outranks_total: "outranks a b \<or> outranks b a \<or> cand_id a = cand_id b"
  by (auto simp: outranks_def)

lemma better_cases: "better a b = a \<or> better a b = b"
  by (simp add: better_outranks)

definition leads :: "candidate set \<Rightarrow> candidate \<Rightarrow> bool" where
  "leads C w \<longleftrightarrow> w \<in> C \<and> (\<forall>x \<in> C. x = w \<or> outranks w x)"

lemma leadsD: "leads C w \<Longrightarrow> x \<in> C \<Longrightarrow> x = w \<or> outranks w x"
  by (simp add: leads_def)

lemma leads_unique: assumes "leads C v" "leads C w" shows "v = w"
proof (rule ccontr)
  assume "v \<noteq> w"
  moreover have "v \<in> C" "w \<in> C" using assms by (simp_all add: leads_def)
  ultimately have "outranks v w" "outranks w v" using leadsD [OF assms(1)] leadsD [OF assms(2)] by metis+
  with outranks_trans outranks_irrefl show False by blast
qed

lemma better_beats: "cand_id c \<noteq> cand_id d \<Longrightarrow> x = c \<or> x = d \<Longrightarrow> x = better d c \<or> outranks (better d c) x"
  using outranks_total [of c d] by (cases "outranks d c") (auto simp: better_outranks)

lemma fold_better: "distinct (map cand_id (c # cs)) \<Longrightarrow> leads (set (c # cs)) (fold better cs c)"
proof (induction cs arbitrary: c)
  case Nil
  then show ?case by (simp add: leads_def)
next
  case (Cons d cs)
  let ?b = "better d c" and ?w = "fold better cs (better d c)"
  have "distinct (map cand_id (?b # cs))" using Cons.prems better_cases [of d c] by auto
  from Cons.IH [OF this] have w: "?w \<in> set (?b # cs)" "\<And>x. x \<in> set (?b # cs) \<Longrightarrow> x = ?w \<or> outranks ?w x"
    by (auto simp: leads_def)
  have "x = ?w \<or> outranks ?w x" if "x \<in> set (c # d # cs)" for x
  proof (cases "x \<in> set cs")
    case False
    with that have "x = ?b \<or> outranks ?b x" using better_beats [of c d x] Cons.prems by auto
    with w(2) [of ?b] outranks_trans [of ?w ?b x] show ?thesis by auto
  qed (use w(2) in auto)
  moreover have "?w \<in> set (c # d # cs)" using w(1) better_cases [of d c] by auto
  ultimately show ?case by (simp add: leads_def)
qed

lemma winning_leads:
  assumes "distinct (map cand_id cs)" "cs \<noteq> []"
  shows "\<exists>w. leads (set cs) w \<and> winning_policy_id cs = Inr (cand_id w)"
  using assms fold_better by (cases cs) (auto simp: winning_policy_id_def)

section \<open>Reading candidates\<close>

definition candidate_ok :: "candidate \<Rightarrow> bool" where
  "candidate_ok c \<longleftrightarrow> policy_id_ok (cand_id c) \<and>
     - max_safe_integer \<le> cand_priority c \<and> cand_priority c \<le> max_safe_integer"

lemma candidate_policy_id_iff [result_simps]:
  "candidate_policy_id v = Inr s \<longleftrightarrow> v = VStr s \<and> policy_id_ok s"
  by (cases v)
    (auto simp: candidate_policy_id_def policy_id_ok_def policy_id_max_def re_test_lang Let_def Suc_le_eq)

lemma candidate_effect_iff [result_simps]: "candidate_effect v = Inr e \<longleftrightarrow> v = VStr (effect_text e)"
  using effect_of_iff [of v e] by (auto simp: candidate_effect_def split: option.splits)

lemma candidate_applies_iff [result_simps]: "candidate_applies v = Inr b \<longleftrightarrow> v = VBool b"
  by (cases v) (auto simp: candidate_applies_def)

lemma candidate_priority_iff [result_simps]: "candidate_priority v = Inr i \<longleftrightarrow> safe_integer v = Some i"
  by (auto simp: candidate_priority_def split: option.splits)

lemma candidate_layer_iff [result_simps]: "candidate_layer v = Inr l \<longleftrightarrow> v = VStr (layer_text l)"
  using layer_of_iff [of v l] by (auto simp: candidate_layer_def split: option.splits)

lemma check_candidate_ok: "check_candidate h v = Inr c \<Longrightarrow> candidate_ok c"
  by (cases v)
    (auto simp: check_candidate_def result_simps Let_def candidate_ok_def legacy_priority_def
      max_safe_integer_def split: if_splits dest: safe_integer_bound [unfolded max_safe_integer_def])

lemma has_exact_plain:
  assumes "h r = plain_object ps" "distinct (map fst ps)" "distinct ks"
  shows "has_exact_enumerable_data_keys h r ks \<longleftrightarrow> set (map fst ps) = set ks"
proof
  assume "has_exact_enumerable_data_keys h r ks"
  then have "data_exactly h r ks" by (simp add: has_exact_enumerable_data_keys_def data_exactly_def)
  with assms show "set (map fst ps) = set ks" by (simp add: data_exactly_owns plain_object_owns)
next
  assume eq: "set (map fst ps) = set ks"
  then have "set (own_keys h r) = key_set ks"
    using plain_object_keys [of h r, OF assms(1)] by (simp add: key_set_def)
  with plain_object_data [of h r, OF assms(1,3) eq] show "has_exact_enumerable_data_keys h r ks"
    by (auto simp: has_exact_enumerable_data_keys_def data_exactly_def list_all_iff key_set_def)
qed

lemma check_candidate_literal:
  assumes h: "h r = candidate_literal c" and ok: "candidate_ok c"
  shows "check_candidate h (VObj r) = Inr c"
proof -
  let ?ps = "[(''policyId'', VStr (cand_id c)), (''effect'', VStr (effect_text (cand_effect c))),
      (''applies'', VBool (cand_applies c)), (''priority'', VNum (JInt (cand_priority c))),
      (''layer'', VStr (layer_text (cand_layer c)))]"
  have h: "h r = plain_object ?ps" using h by (simp add: candidate_literal_def)
  have keys: "map fst ?ps = v2_candidate_keys" "distinct v2_candidate_keys"
    by (simp_all add: v2_candidate_keys_def)
  have "length (own_keys h r) = 5"
    using plain_object_key_count [of h r, OF h] keys by (simp add: v2_candidate_keys_def)
  then have shape: "\<not> has_exact_enumerable_data_keys h r legacy_candidate_keys"
    "has_exact_enumerable_data_keys h r v2_candidate_keys"
    using has_exact_plain [of h r ?ps v2_candidate_keys, OF h] keys(2) arg_cong [OF keys(1), of set]
    by (simp_all add: keys(1) has_exact_enumerable_data_keys_def legacy_candidate_keys_def)
  have "candidate_policy_id (VStr (cand_id c)) = Inr (cand_id c)"
    "candidate_effect (VStr (effect_text (cand_effect c))) = Inr (cand_effect c)"
    "candidate_applies (VBool (cand_applies c)) = Inr (cand_applies c)"
    "candidate_priority (VNum (JInt (cand_priority c))) = Inr (cand_priority c)"
    "candidate_layer (VStr (layer_text (cand_layer c))) = Inr (cand_layer c)"
    using ok by (auto simp: result_simps candidate_ok_def safe_integer_def abs_le_iff)
  then show ?thesis
    using shape plain_object_ordinary [of h r, OF h]
    by (simp add: check_candidate_def Let_def read_plain_object [of h r, OF h])
qed

lemma check_candidate_list_iff [result_simps]:
  "check_candidate_list h seen vs = Inr cs \<longleftrightarrow>
     list_all2 (\<lambda>v c. check_candidate h v = Inr c) vs cs \<and>
     distinct (map cand_id cs) \<and> set (map cand_id cs) \<inter> seen = {}"
proof (induction vs arbitrary: seen cs)
  case (Cons v vs)
  then show ?case by (cases cs) (auto simp: result_simps)
qed auto

lemma check_candidates_facts:
  "check_candidates h v = Inr cs \<Longrightarrow> distinct (map cand_id cs) \<and> list_all candidate_ok cs"
  by (cases v)
    (auto simp: check_candidates_def result_simps list_all2_conv_all_nth list_all_length
      dest: check_candidate_ok split: if_splits)

lemma dense_iff: "is_ordinary_dense_array h (VObj r) \<longleftrightarrow> is_array h (VObj r) \<and> dense_array h r"
  by (auto simp: is_ordinary_dense_array_def dense_array_def list_all_iff)

lemma check_candidates_heap:
  assumes "distinct (map cand_id cs)" "list_all candidate_ok cs"
  shows "check_candidates (candidates_heap cs) (VObj 0) = Inr cs"
proof -
  let ?h = "candidates_heap cs" and ?vs = "map VObj [1..<length cs + 1]"
  have h: "?h 0 = array_object ?vs" by (simp add: candidates_heap_def)
  note arr = array_object_facts [where h = ?h and r = 0 and vs = ?vs, OF h]
  have el: "map (element_at ?h 0) [0..<array_length ?h 0] = ?vs"
    by (rule nth_equalityI) (simp_all add: arr(2,4) del: upt_Suc)
  have "list_all2 (\<lambda>v c. check_candidate ?h v = Inr c) ?vs cs"
    using assms(2)
    by (auto simp: list_all2_conv_all_nth list_all_length candidates_heap_def simp del: upt_Suc
        intro!: check_candidate_literal)
  with assms show ?thesis
    unfolding check_candidates_def jsval.simps el by (simp add: dense_iff arr(1,3) result_simps)
qed

section \<open>The decision\<close>

definition applying :: "candidate set \<Rightarrow> effect \<Rightarrow> candidate set" where
  "applying C e = {c \<in> C. cand_applies c \<and> cand_effect c = e}"

text \<open>
  The rule the decision follows: deny if any applying candidate denies, else allow if any allows,
  else deny by default; the policy named is the leads applying candidate of the effect decided.
\<close>

definition decision_rule :: "candidate set \<Rightarrow> effect \<Rightarrow> js_string option \<Rightarrow> bool" where
  "decision_rule C e matched \<longleftrightarrow> (case matched of
     None \<Rightarrow> e = Deny \<and> applying C Deny = {} \<and> applying C Allow = {}
   | Some i \<Rightarrow> (e = Allow \<longrightarrow> applying C Deny = {}) \<and>
       (\<exists>w. leads (applying C e) w \<and> cand_id w = i))"

lemma decision_rule_unique:
  assumes "decision_rule C e m" "decision_rule C f n" shows "e = f \<and> m = n"
proof -
  have none: "\<not> leads {} w" for w by (simp add: leads_def)
  from assms have "e = f"
    by (cases e; cases f) (auto simp: decision_rule_def none split: option.splits)
  moreover from this assms have "m = n"
    by (cases e) (auto simp: decision_rule_def none dest: leads_unique split: option.splits)
  ultimately show ?thesis by simp
qed

definition trace_genuine :: "policy_request \<Rightarrow> correlation_id \<Rightarrow> bool" where
  "trace_genuine q c \<longleftrightarrow> action_correlation (request_action q) = Genuine c \<and>
     correlation_value c \<in> lang uuid_form"

lemma reason_text_ok: "reason_ok decision_reason_text"
proof -
  have "js_trim decision_reason_text = decision_reason_text" "\<not> re_search reason_control decision_reason_text"
    "length decision_reason_text = 65" by code_simp+
  then show ?thesis by (auto simp: reason_ok_def)
qed

lemma new_decision_total:
  assumes "trace_genuine q c" "case m of None \<Rightarrow> e = Deny | Some i \<Rightarrow> policy_id_ok i"
  shows "new_decision e m (action_correlation (request_action q)) =
    Inr \<lparr>decision_effect = e, decision_reason = decision_reason_text, decision_matched = m, decision_trace = c\<rparr>"
  using assms reason_text_ok
  by (simp add: new_decision_def policy_decision_of_iff policy_decision_wf_def trace_genuine_def
      split: option.splits)

lemma applying_filter:
  "set (filter (\<lambda>c. cand_effect c = e) (filter cand_applies cs)) = applying (set cs) e"
  by (auto simp: applying_def)

lemma combine_follows_rule:
  assumes "distinct (map cand_id cs)" "list_all candidate_ok cs" "trace_genuine q c"
  shows "\<exists>e m. combine q cs = Inr \<lparr>decision_effect = e, decision_reason = decision_reason_text,
      decision_matched = m, decision_trace = c\<rparr> \<and> decision_rule (set cs) e m"
proof -
  let ?part = "\<lambda>e. filter (\<lambda>c. cand_effect c = e) (filter cand_applies cs)"
  have dist: "distinct (map cand_id (?part e))" for e
    using assms(1) by (simp add: distinct_map_filter)
  have win: "\<exists>w. leads (applying (set cs) e) w \<and> winning_policy_id (?part e) = Inr (cand_id w) \<and> policy_id_ok (cand_id w)"
    if "?part e \<noteq> []" for e
  proof -
    from winning_leads [OF dist that] obtain w where
      w: "leads (applying (set cs) e) w" "winning_policy_id (?part e) = Inr (cand_id w)"
      unfolding applying_filter by blast
    then have "w \<in> set cs" by (auto simp: leads_def applying_def)
    with assms(2) w show ?thesis by (auto simp: list_all_iff candidate_ok_def)
  qed
  have empty: "?part e = [] \<longleftrightarrow> applying (set cs) e = {}" for e
    by (metis applying_filter set_empty)
  consider "?part Deny \<noteq> []" | "?part Deny = []" "?part Allow \<noteq> []" | "?part Deny = []" "?part Allow = []"
    by blast
  then show ?thesis
  proof cases
    case 1
    from win [OF this] obtain w where "leads (applying (set cs) Deny) w"
      "winning_policy_id (?part Deny) = Inr (cand_id w)" "policy_id_ok (cand_id w)" by blast
    with 1 new_decision_total [OF assms(3), of Deny "Some (cand_id w)"] show ?thesis
      by (intro exI [of _ Deny] exI [of _ "Some (cand_id w)"]) (auto simp: combine_def Let_def decision_rule_def)
  next
    case 2
    from win [OF 2(2)] obtain w where "leads (applying (set cs) Allow) w"
      "winning_policy_id (?part Allow) = Inr (cand_id w)" "policy_id_ok (cand_id w)" by blast
    with 2 new_decision_total [OF assms(3), of Allow "Some (cand_id w)"] empty [of Deny] show ?thesis
      by (intro exI [of _ Allow] exI [of _ "Some (cand_id w)"])
        (auto simp: combine_def Let_def decision_rule_def simp del: filter_filter)
  next
    case 3
    with new_decision_total [OF assms(3), of Deny None] empty [of Deny] empty [of Allow] show ?thesis
      by (intro exI [of _ Deny] exI [of _ None])
        (simp add: combine_def Let_def decision_rule_def del: filter_filter)
  qed
qed

lemma evaluator_follows_rule:
  assumes "check_candidates h v = Inr cs" "trace_genuine q c"
  shows "\<exists>e m. evaluator_decide_of h (VInst (IPolicyRequest (Genuine q))) v =
      Inr \<lparr>decision_effect = e, decision_reason = decision_reason_text, decision_matched = m, decision_trace = c\<rparr>
    \<and> decision_rule (set cs) e m"
proof -
  note combine_follows_rule [of cs q c] check_candidates_facts [OF assms(1)]
  then show ?thesis using assms by (simp add: evaluator_decide_of_def)
qed

section \<open>From statements to a decision\<close>

definition statement_matches :: "tenant_id \<Rightarrow> actor_id \<Rightarrow> policy_request \<Rightarrow> policy_statement \<Rightarrow> bool" where
  "statement_matches t a q s \<longleftrightarrow> statement_enabled s \<and>
     statement_action s = action_name_of (request_action q) \<and>
     resource_type q = Some (JsonStr (statement_resource_type s)) \<and>
     (\<exists>ms. statement_actor s = JsonObj ms \<and> fst ` set ms \<subseteq> target_actor_keys \<and>
        map_of ms (js ''tenantId'') \<in> {None, Some (JsonStr (tenant_value t))} \<and>
        map_of ms (js ''actorId'') \<in> {None, Some (JsonStr (actor_value a))}) \<and>
     statement_condition s = JsonObj []"

definition asks_as :: "policy_request \<Rightarrow> tenant_id \<Rightarrow> actor_id \<Rightarrow> correlation_id \<Rightarrow> bool" where
  "asks_as q t a c \<longleftrightarrow> trace_genuine q c \<and>
     action_principal (request_action q) = Genuine \<lparr>principal_tenant = Genuine t, principal_actor = Genuine a\<rparr>"

definition statement_candidate :: "tenant_id \<Rightarrow> actor_id \<Rightarrow> policy_request \<Rightarrow> policy_statement \<Rightarrow> candidate" where
  "statement_candidate t a q s = \<lparr>cand_id = statement_id s, cand_effect = statement_effect s,
     cand_applies = statement_matches t a q s, cand_priority = statement_priority s,
     cand_layer = statement_layer s\<rparr>"

lemma target_actor_matches_genuine:
  assumes "asks_as q t a c"
  shows "target_actor_matches target q = Inr (\<exists>ms. target = JsonObj ms \<and> fst ` set ms \<subseteq> target_actor_keys \<and>
        map_of ms (js ''tenantId'') \<in> {None, Some (JsonStr (tenant_value t))} \<and>
        map_of ms (js ''actorId'') \<in> {None, Some (JsonStr (actor_value a))})"
proof (cases target)
  case (JsonObj ms)
  have keys: "list_ex (\<lambda>(k, _). k \<notin> target_actor_keys) ms \<longleftrightarrow> \<not> fst ` set ms \<subseteq> target_actor_keys"
    by (auto simp: list_ex_iff)
  show ?thesis
    using assms
    by (auto simp: JsonObj target_actor_matches_def keys asks_as_def request_tenant_def request_actor_def
        tenant_id_to_string_def actor_id_to_string_def split: option.splits)
qed (simp_all add: target_actor_matches_def)

lemma candidate_for_genuine:
  assumes "asks_as q t a c" shows "candidate_for s q = Inr (statement_candidate t a q s)"
proof -
  have "statement_applies s q = Inr (statement_matches t a q s)"
    by (auto simp: statement_applies_def statement_matches_def target_actor_matches_genuine [OF assms]
        condition_matches_def split: json.splits)
  then show ?thesis by (simp add: candidate_for_def statement_candidate_def)
qed

lemma resolver_answers:
  assumes "asks_as q t a c"
  shows "resolver_source ss (VInst (IPolicyRequest (Genuine q))) w =
    (Inr (candidates_heap (map (statement_candidate t a q) ss), VObj 0), w)"
proof -
  have "rmap (\<lambda>s. candidate_for s q) ss = Inr (map (statement_candidate t a q) ss)"
    by (rule rmap_total) (rule candidate_for_genuine [OF assms])
  then show ?thesis by (simp add: resolver_source_def resolver_candidates_for_def)
qed

definition statements_wf :: "policy_statement list \<Rightarrow> bool" where
  "statements_wf ss \<longleftrightarrow> list_all policy_statement_wf ss \<and> distinct (map statement_id ss)"

lemma statement_candidates_readable:
  assumes "statements_wf ss"
  shows "check_candidates (candidates_heap (map (statement_candidate t a q) ss)) (VObj 0)
    = Inr (map (statement_candidate t a q) ss)"
  using assms
  by (intro check_candidates_heap)
    (auto simp: statements_wf_def statement_candidate_def comp_def list_all_iff candidate_ok_def
      policy_statement_wf_def)

lemma decision_point_answers:
  assumes "asks_as q t a c" "statements_wf ss"
  shows "\<exists>e m. decision_point_decide (resolver_source ss) (VInst (IPolicyRequest (Genuine q))) w =
      (Inr \<lparr>decision_effect = e, decision_reason = decision_reason_text, decision_matched = m,
            decision_trace = c\<rparr>, w)
    \<and> decision_rule (statement_candidate t a q ` set ss) e m"
proof -
  note evaluator_follows_rule [OF statement_candidates_readable [OF assms(2), of t a q], of q c]
    resolver_answers [OF assms(1), of ss w]
  then show ?thesis
    using assms(1) by (auto simp: decision_point_decide_def ebind_apply asks_as_def)
qed

lemma applying_statements:
  "applying (statement_candidate t a q ` set ss) e =
     statement_candidate t a q ` {s \<in> set ss. statement_matches t a q s \<and> statement_effect s = e}"
  by (auto simp: applying_def statement_candidate_def)

definition matching :: "tenant_id \<Rightarrow> actor_id \<Rightarrow> policy_request \<Rightarrow> policy_statement list \<Rightarrow> effect \<Rightarrow> policy_statement set" where
  "matching t a q ss e = {s \<in> set ss. statement_matches t a q s \<and> statement_effect s = e}"

lemma matching_nonempty:
  "matching t a q ss e \<noteq> {} \<longleftrightarrow> (\<exists>s \<in> set ss. statement_matches t a q s \<and> statement_effect s = e)"
  by (auto simp: matching_def)

lemma matching_none:
  "matching t a q ss Allow = {} \<and> matching t a q ss Deny = {} \<Longrightarrow> \<not> (\<exists>s \<in> set ss. statement_matches t a q s)"
proof
  assume none: "matching t a q ss Allow = {} \<and> matching t a q ss Deny = {}"
    and "\<exists>s \<in> set ss. statement_matches t a q s"
  then obtain s where "s \<in> matching t a q ss (statement_effect s)" by (auto simp: matching_def)
  with none show False by (cases "statement_effect s") auto
qed

lemma leads_statement:
  "leads (statement_candidate t a q ` A) w \<Longrightarrow> \<exists>s \<in> A. cand_id w = statement_id s"
  by (auto simp: leads_def statement_candidate_def)

lemma rule_over_statements:
  assumes "decision_rule (statement_candidate t a q ` set ss) e m"
  shows "(e = Allow \<longleftrightarrow> matching t a q ss Allow \<noteq> {} \<and> matching t a q ss Deny = {}) \<and>
    (case m of None \<Rightarrow> matching t a q ss Allow = {} \<and> matching t a q ss Deny = {}
     | Some i \<Rightarrow> i \<in> statement_id ` matching t a q ss e)"
proof (cases m)
  case None
  with assms show ?thesis
    by (simp add: decision_rule_def applying_statements matching_def [symmetric])
next
  case (Some i)
  with assms obtain w where "leads (statement_candidate t a q ` matching t a q ss e) w" "cand_id w = i"
    and no_deny: "e = Allow \<longrightarrow> matching t a q ss Deny = {}"
    by (auto simp: decision_rule_def applying_statements matching_def [symmetric])
  with leads_statement have i: "i \<in> statement_id ` matching t a q ss e" by blast
  then show ?thesis using no_deny Some by (cases e) auto
qed

lemma rule_effect:
  assumes "decision_rule (statement_candidate t a q ` set ss) e m"
  shows "(e = Allow \<longleftrightarrow>
      (\<exists>s \<in> set ss. statement_matches t a q s \<and> statement_effect s = Allow) \<and>
      \<not> (\<exists>s \<in> set ss. statement_matches t a q s \<and> statement_effect s = Deny))"
  using conjunct1 [OF rule_over_statements [OF assms]] unfolding matching_nonempty [symmetric] by simp

lemma rule_named:
  assumes "decision_rule (statement_candidate t a q ` set ss) e m"
  shows "case m of None \<Rightarrow> \<not> (\<exists>s \<in> set ss. statement_matches t a q s)
     | Some i \<Rightarrow> \<exists>s \<in> set ss. statement_id s = i \<and> statement_matches t a q s \<and> statement_effect s = e"
proof (cases m)
  case None
  with conjunct2 [OF rule_over_statements [OF assms]] matching_none show ?thesis by simp
next
  case (Some i)
  with conjunct2 [OF rule_over_statements [OF assms]] show ?thesis by (auto simp: matching_def)
qed

lemma decision_point_rule:
  assumes "asks_as q t a c" and "statements_wf ss"
  shows "\<exists>d. decision_point_decide (resolver_source ss) (VInst (IPolicyRequest (Genuine q))) w = (Inr d, w) \<and>
    decision_rule (statement_candidate t a q ` set ss) (decision_effect d) (decision_matched d)"
  using decision_point_answers [OF assms, of w] by fastforce

section \<open>Properties\<close>

text \<open>
  C25. The evaluator follows deny-overrides with default deny: over any candidates it can read, it
  answers a decision that denies if an applying candidate denies, allows if one allows and none
  denies, and denies naming no policy otherwise; the policy it names is the applying candidate of
  that effect with the highest priority, then the highest layer, then the least id; and it carries
  the correlation of the action asked about.
\<close>

theorem evaluator_deny_overrides:
  assumes "check_candidates h v = Inr cs" and "trace_genuine q c"
  shows "\<exists>d. evaluator_decide_of h (VInst (IPolicyRequest (Genuine q))) v = Inr d \<and>
    decision_rule (set cs) (decision_effect d) (decision_matched d) \<and> decision_trace d = c"
  using evaluator_follows_rule [OF assms] by fastforce

text \<open>
  The order in which candidates are listed does not matter: the same set of candidates gets the
  same decision, whichever objects carry them.
\<close>

theorem evaluator_order_free:
  assumes "check_candidates h v = Inr cs" and "check_candidates g u = Inr ds"
    and "set cs = set ds" and "trace_genuine q c"
  shows "evaluator_decide_of h (VInst (IPolicyRequest (Genuine q))) v =
    evaluator_decide_of g (VInst (IPolicyRequest (Genuine q))) u"
  using evaluator_follows_rule [OF assms(1,4)] evaluator_follows_rule [OF assms(2,4)] assms(3)
    decision_rule_unique by metis

text \<open>
  C23. Seen from the statements a decision point holds, it always answers, leaves the world as it
  was, and allows exactly when some enabled statement matches the request's action, resource type,
  tenant and actor and allows it, and no matching one denies it; the policy it names is a matching
  statement of the effect it decided, and it names none only when no statement matches.
\<close>

theorem decision_point_allow_iff:
  assumes "asks_as q t a c" and "statements_wf ss"
  shows "\<exists>d. decision_point_decide (resolver_source ss) (VInst (IPolicyRequest (Genuine q))) w = (Inr d, w) \<and>
    (decision_effect d = Allow \<longleftrightarrow>
      (\<exists>s \<in> set ss. statement_matches t a q s \<and> statement_effect s = Allow) \<and>
      \<not> (\<exists>s \<in> set ss. statement_matches t a q s \<and> statement_effect s = Deny)) \<and>
    (case decision_matched d of
       None \<Rightarrow> \<not> (\<exists>s \<in> set ss. statement_matches t a q s)
     | Some i \<Rightarrow> \<exists>s \<in> set ss. statement_id s = i \<and> statement_matches t a q s \<and>
         statement_effect s = decision_effect d)"
proof -
  obtain d where "decision_point_decide (resolver_source ss) (VInst (IPolicyRequest (Genuine q))) w = (Inr d, w)"
    and "decision_rule (statement_candidate t a q ` set ss) (decision_effect d) (decision_matched d)"
    using decision_point_rule [OF assms, of w] by (elim exE conjE)
  moreover note rule_effect [OF this(2)] rule_named [OF this(2)]
  ultimately show ?thesis by (intro exI [of _ d] conjI)
qed

definition addresses_tenant :: "tenant_id \<Rightarrow> policy_statement \<Rightarrow> bool" where
  "addresses_tenant t s \<longleftrightarrow> (case statement_actor s of
     JsonObj ms \<Rightarrow> (case map_of ms (js ''tenantId'') of None \<Rightarrow> True | Some v \<Rightarrow> v = JsonStr (tenant_value t))
   | _ \<Rightarrow> False)"

lemma decision_point_depends:
  assumes "asks_as q t a c" "statements_wf ss" "statements_wf rs"
    and "\<And>e. matching t a q ss e = matching t a q rs e"
  shows "decision_point_decide (resolver_source ss) (VInst (IPolicyRequest (Genuine q))) w =
    decision_point_decide (resolver_source rs) (VInst (IPolicyRequest (Genuine q))) w"
proof -
  have "decision_rule (statement_candidate t a q ` set ss) e m = decision_rule (statement_candidate t a q ` set rs) e m" for e m
    unfolding decision_rule_def applying_statements matching_def [symmetric] assms(4) by (rule refl)
  moreover obtain e m where "decision_point_decide (resolver_source ss) (VInst (IPolicyRequest (Genuine q))) w =
      (Inr \<lparr>decision_effect = e, decision_reason = decision_reason_text, decision_matched = m, decision_trace = c\<rparr>, w)"
    "decision_rule (statement_candidate t a q ` set ss) e m"
    using decision_point_answers [OF assms(1,2), of w] by (elim exE conjE)
  moreover obtain f n where "decision_point_decide (resolver_source rs) (VInst (IPolicyRequest (Genuine q))) w =
      (Inr \<lparr>decision_effect = f, decision_reason = decision_reason_text, decision_matched = n, decision_trace = c\<rparr>, w)"
    "decision_rule (statement_candidate t a q ` set rs) f n"
    using decision_point_answers [OF assms(1,3), of w] by (elim exE conjE)
  ultimately show ?thesis
    using decision_rule_unique [of "statement_candidate t a q ` set rs" e m f n] by simp
qed

lemma matching_filter:
  "(\<And>s. statement_matches t a q s \<Longrightarrow> P s) \<Longrightarrow> matching t a q (filter P ss) e = matching t a q ss e"
  by (auto simp: matching_def)

text \<open>
  C24. Tenants are isolated: statements addressed to another tenant than the one the request acts
  in change neither the effect, nor the policy named, nor anything else of the answer.
\<close>

theorem decision_point_tenant_isolation:
  assumes "asks_as q t a c" and "statements_wf ss"
  shows "decision_point_decide (resolver_source (filter (addresses_tenant t) ss))
      (VInst (IPolicyRequest (Genuine q))) w =
    decision_point_decide (resolver_source ss) (VInst (IPolicyRequest (Genuine q))) w"
proof (rule decision_point_depends [OF assms(1) _ assms(2)])
  show "statements_wf (filter (addresses_tenant t) ss)"
    using assms(2) by (auto simp: statements_wf_def list_all_iff distinct_map_filter)
  show "matching t a q (filter (addresses_tenant t) ss) e = matching t a q ss e" for e
    by (rule matching_filter)
      (auto simp: statement_matches_def addresses_tenant_def split: option.splits)
qed

text \<open>A concrete request, and a statement that allows it beside one addressed elsewhere.\<close>

definition sample_request :: policy_request where
  "sample_request = \<lparr>request_action = ACommand sample_command,
     request_resource = JsonObj [(js ''type'', JsonStr (js ''customer''))], request_context = JsonObj []\<rparr>"

definition sample_statement :: "string \<Rightarrow> effect \<Rightarrow> js_string \<Rightarrow> policy_statement" where
  "sample_statement i e t = \<lparr>statement_id = js i, statement_effect = e,
     statement_actor = JsonObj [(js ''tenantId'', JsonStr t)], statement_action = js ''customer.create'',
     statement_resource_type = js ''customer'', statement_condition = JsonObj [], statement_priority = 0,
     statement_layer = Tenant, statement_version = js ''1.0.0'', statement_enabled = True\<rparr>"

definition sample_statements :: "policy_statement list" where
  "sample_statements = [sample_statement ''grant'' Allow sample_tenant, sample_statement ''ban'' Deny other_tenant]"

lemma sample_asks:
  "asks_as sample_request (TenantId sample_tenant) (ActorId (js ''user:1'')) sample_correlation"
proof -
  have "re_test uuid_form (correlation_value sample_correlation)" by code_simp
  then show ?thesis
    by (simp add: asks_as_def trace_genuine_def sample_request_def sample_command_def
        sample_principal_def action_correlation_def action_principal_def re_test_lang)
qed

lemma sample_statements_wf: "statements_wf sample_statements"
proof -
  have form: "re_test policy_id_form (js ''grant'')" "re_test policy_id_form (js ''ban'')"
    "re_test action_name_form (js ''customer.create'')" "re_test resource_type_form (js ''customer'')"
    "re_test semver_form (js ''1.0.0'')" by code_simp+
  have "\<not> js ''tenantId'' \<in> set refused_keys" by code_simp
  with form show ?thesis
    by (simp add: statements_wf_def sample_statements_def sample_statement_def policy_statement_wf_def
        policy_id_ok_def re_test_lang payload_wf_def max_depth_def max_safe_integer_def eval_nat_numeral)
qed

theorem decision_point_tenant_isolation_witness:
  "decision_point_decide (resolver_source (filter (addresses_tenant (TenantId sample_tenant)) sample_statements))
      (VInst (IPolicyRequest (Genuine sample_request))) (0 :: nat) =
    decision_point_decide (resolver_source sample_statements) (VInst (IPolicyRequest (Genuine sample_request))) 0"
  by (rule decision_point_tenant_isolation [OF sample_asks sample_statements_wf])

theorem decision_point_allow_iff_witness:
  "\<exists>d. decision_point_decide (resolver_source sample_statements)
      (VInst (IPolicyRequest (Genuine sample_request))) (0 :: nat) = (Inr d, 0) \<and>
    (decision_effect d = Allow \<longleftrightarrow>
      (\<exists>s \<in> set sample_statements. statement_matches (TenantId sample_tenant) (ActorId (js ''user:1'')) sample_request s
         \<and> statement_effect s = Allow) \<and>
      \<not> (\<exists>s \<in> set sample_statements. statement_matches (TenantId sample_tenant) (ActorId (js ''user:1'')) sample_request s
         \<and> statement_effect s = Deny)) \<and>
    (case decision_matched d of
       None \<Rightarrow> \<not> (\<exists>s \<in> set sample_statements. statement_matches (TenantId sample_tenant) (ActorId (js ''user:1'')) sample_request s)
     | Some i \<Rightarrow> \<exists>s \<in> set sample_statements. statement_id s = i \<and>
         statement_matches (TenantId sample_tenant) (ActorId (js ''user:1'')) sample_request s \<and>
         statement_effect s = decision_effect d)"
  by (rule decision_point_allow_iff [OF sample_asks sample_statements_wf])

definition sample_candidates :: "candidate list" where
  "sample_candidates = map (statement_candidate (TenantId sample_tenant) (ActorId (js ''user:1'')) sample_request)
     sample_statements"

lemma sample_candidates_read:
  "check_candidates (candidates_heap sample_candidates) (VObj 0) = Inr sample_candidates"
  unfolding sample_candidates_def by (rule statement_candidates_readable [OF sample_statements_wf])

theorem evaluator_deny_overrides_witness:
  "\<exists>d. evaluator_decide_of (candidates_heap sample_candidates) (VInst (IPolicyRequest (Genuine sample_request))) (VObj 0)
      = Inr d \<and>
    decision_rule (set sample_candidates) (decision_effect d) (decision_matched d) \<and>
    decision_trace d = sample_correlation"
  using evaluator_deny_overrides [OF sample_candidates_read, of sample_request sample_correlation] sample_asks
  by (simp add: asks_as_def)

theorem evaluator_order_free_witness:
  "evaluator_decide_of (candidates_heap sample_candidates) (VInst (IPolicyRequest (Genuine sample_request))) (VObj 0) =
   evaluator_decide_of (candidates_heap (rev sample_candidates)) (VInst (IPolicyRequest (Genuine sample_request))) (VObj 0)"
proof (rule evaluator_order_free [OF sample_candidates_read])
  have "distinct (map cand_id (rev sample_candidates))" "list_all candidate_ok (rev sample_candidates)"
    using check_candidates_facts [OF sample_candidates_read] by (simp_all add: rev_map [symmetric])
  then show "check_candidates (candidates_heap (rev sample_candidates)) (VObj 0) = Inr (rev sample_candidates)"
    by (rule check_candidates_heap)
  show "trace_genuine sample_request sample_correlation" using sample_asks by (simp add: asks_as_def)
qed simp

section \<open>The batch\<close>

lemma emap_pointwise:
  assumes "list_all2 (\<lambda>x y. f x w = (Inr y, w)) xs ys"
  shows "emap f xs w = (Inr ys, w)"
  using assms
proof (induction xs arbitrary: ys)
  case (Cons x xs)
  then show ?case by (cases ys) (auto simp: ebind_apply)
qed simp

lemma list_all2_choice: "(\<And>x. x \<in> set xs \<Longrightarrow> \<exists>y. R x y) \<Longrightarrow> \<exists>ys. list_all2 R xs ys"
proof (induction xs)
  case (Cons x xs)
  then obtain y ys where "R x y" "list_all2 R xs ys" by (metis list.set_intros)
  then have "list_all2 R (x # xs) (y # ys)" by simp
  then show ?case by blast
qed auto

text \<open>What a batch may be: a dense ordinary array, every element a genuine request.\<close>

lemma check_batch_element_iff [result_simps]:
  "check_batch_element h r i = Inr q \<longleftrightarrow>
     own_property h r (KStr (dec_nat i)) = Some (Data (VInst (IPolicyRequest (Genuine q))) True)"
  by (auto simp: check_batch_element_def split: option.splits property.splits bool.splits)

lemma check_requests_elements:
  "check_requests h v = Inr qs \<Longrightarrow> \<exists>r. v = VObj r \<and> is_array h v \<and> length qs = array_length h r \<and>
     (\<forall>i < length qs. element_at h r i = VInst (IPolicyRequest (Genuine (qs ! i))))"
  by (cases v)
    (auto simp: check_requests_def Let_def result_simps list_all2_conv_all_nth element_at_def data_value_def
      split: if_splits)

text \<open>
  A batch is decided request by request, in order: over a decision point holding well-formed
  statements, every batch the check admits gets one decision per request, each the decision the
  request gets alone.
\<close>

theorem batch_is_pointwise:
  assumes "check_requests h v = Inr qs" and "statements_wf ss"
    and "\<And>q. q \<in> set qs \<Longrightarrow> \<exists>t a c. asks_as q t a c"
  shows "\<exists>ds. batch_decide_all (resolver_source ss) h v w = (Inr ds, w) \<and>
    list_all2 (\<lambda>q d. decision_point_decide (resolver_source ss) (VInst (IPolicyRequest (Genuine q))) w = (Inr d, w)) qs ds"
proof -
  have "\<exists>ds. list_all2 (\<lambda>q d. decision_point_decide (resolver_source ss) (VInst (IPolicyRequest (Genuine q))) w = (Inr d, w)) qs ds"
  proof (rule list_all2_choice)
    fix q assume "q \<in> set qs"
    with assms(3) obtain t a c where "asks_as q t a c" by blast
    from decision_point_rule [OF this assms(2), of w]
    show "\<exists>d. decision_point_decide (resolver_source ss) (VInst (IPolicyRequest (Genuine q))) w = (Inr d, w)"
      by (elim exE conjE) (rule exI)
  qed
  then obtain ds where ds: "list_all2 (\<lambda>q d. decision_point_decide (resolver_source ss)
      (VInst (IPolicyRequest (Genuine q))) w = (Inr d, w)) qs ds" ..
  have "batch_decide_all (resolver_source ss) h v w = (Inr ds, w)"
    using emap_pointwise [where f = "\<lambda>q. decision_point_decide (resolver_source ss) (VInst (IPolicyRequest (Genuine q)))"
        and w = w, OF ds] assms(1) by (simp add: batch_decide_all_def)
  with ds show ?thesis by (intro exI [of _ ds] conjI)
qed

definition sample_batch :: heap where
  "sample_batch r = array_object [VInst (IPolicyRequest (Genuine sample_request)),
     VInst (IPolicyRequest (Genuine sample_request))]"

lemma index_dec_nat: "re_test index_form (dec_nat n)"
proof -
  have "dec_nat n \<in> lang index_form"
  proof (cases "n = 0")
    case True
    then show ?thesis by (simp add: index_form_def dec_nat.simps lit_def js_def digit_def)
  next
    case False
    obtain c s where s: "dec_nat n = c # s" by (cases "dec_nat n") auto
    have "list_all is_digit (c # s)" using dec_nat_digits [of n] s by simp
    moreover have "c \<noteq> 0x30" using hd_dec_nat [of n] False s by simp
    ultimately have "in_class [(0x31, 0x39)] c" "list_all (in_class [(0x30, 0x39)]) s"
      by (auto simp: is_digit_def list_all_iff word_le_nat_alt word_unat_eq_iff)
    then have "dec_nat n \<in> conc (lang (Class [(0x31, 0x39)])) (lang (Star (Class [(0x30, 0x39)])))"
      unfolding conc_Class lang_Star_Class using s by blast
    then show ?thesis by (simp add: index_form_def)
  qed
  then show ?thesis by (simp add: re_test_lang)
qed

lemma check_batch_keys_indices:
  "(\<And>k. k \<in> set ks \<Longrightarrow> \<exists>i < n. k = KStr (dec_nat i)) \<Longrightarrow> check_batch_keys n ks = Inr ()"
proof (induction ks)
  case (Cons k ks)
  then obtain i where "i < n" "k = KStr (dec_nat i)" by (metis list.set_intros(1))
  with Cons show ?case by (simp add: index_dec_nat)
qed simp

lemma check_requests_array:
  assumes "h r = array_object (map (\<lambda>q. VInst (IPolicyRequest (Genuine q))) qs)"
  shows "check_requests h (VObj r) = Inr qs"
proof -
  let ?vs = "map (\<lambda>q. VInst (IPolicyRequest (Genuine q))) qs"
  note arr = array_object_facts [where h = h and r = r and vs = ?vs, OF assms]
  have "own_property h r (KStr (dec_nat i)) = Some (Data (?vs ! i) True)" if "i < length qs" for i
    using that by (auto simp: array_object_property [where h = h and r = r and vs = ?vs, OF assms])
  then have "rmap (check_batch_element h r) [0..<length qs] = Inr qs"
    by (simp add: rmap_eq_Inr list_all2_conv_all_nth check_batch_element_iff)
  moreover have "check_batch_keys (length qs) (own_keys h r) = Inr ()"
    using arr(5) by (intro check_batch_keys_indices) auto
  moreover have "length (own_keys h r) = length qs" "obj_proto (h r) = ArrayPrototype"
    using arr(2,3) by (simp_all add: dense_array_def)
  ultimately show ?thesis using arr(1,2) by (simp add: check_requests_def Let_def)
qed

lemma sample_batch_checked: "check_requests sample_batch (VObj 0) = Inr [sample_request, sample_request]"
  by (rule check_requests_array) (simp add: sample_batch_def)

theorem batch_is_pointwise_witness:
  "\<exists>ds. batch_decide_all (resolver_source sample_statements) sample_batch (VObj 0) (0 :: nat) = (Inr ds, 0) \<and>
    list_all2 (\<lambda>q d. decision_point_decide (resolver_source sample_statements)
      (VInst (IPolicyRequest (Genuine q))) (0 :: nat) = (Inr d, 0)) [sample_request, sample_request] ds"
proof (rule batch_is_pointwise [OF sample_batch_checked sample_statements_wf])
  show "\<exists>t a c. asks_as q t a c" if "q \<in> set [sample_request, sample_request]" for q
    using that sample_asks by auto
qed

end
