(* ===== verification/Decision_Log_Facts.thy ===== *)
theory Decision_Log_Facts
  imports Decision_Log Authorization_Facts "HOL-Library.Multiset"
begin

text \<open>
  What the audit log promises of one entry: its hash does not depend on the order in which a
  database gives object members back, a row written from an entry verifies, and two rows that
  verify under one hash carry one payload unless they collide the digest.
\<close>

section \<open>Content: a value up to the order of its members\<close>

fun content :: "json \<Rightarrow> json" where
  "content (JsonArr vs) = JsonArr (map content vs)"
| "content (JsonObj ms) = JsonObj (sort_key fst (map (\<lambda>(k, v). (k, content v)) ms))"
| "content v = v"

fun descend :: "json \<Rightarrow> json" where
  "descend (JsonArr vs) = JsonArr (map descend vs)"
| "descend (JsonObj ms) = JsonObj (filter (\<lambda>(k, _). k \<noteq> proto_key) (rev (map (\<lambda>(k, v). (k, descend v)) ms)))"
| "descend v = v"

lemma sort_key_fst_map:
  fixes ms :: "('k :: linorder \<times> 'b) list"
  shows "sort_key fst (map (\<lambda>(k, v). (k, f v)) ms) = map (\<lambda>(k, v). (k, f v)) (sort_key fst ms)"
proof -
  have ins: "insort_key fst ((\<lambda>(k, v). (k, f v)) x) (map (\<lambda>(k, v). (k, f v)) xs)
      = map (\<lambda>(k, v). (k, f v)) (insort_key fst x xs)" for x :: "'k \<times> 'b" and xs
    by (induction xs) (auto split: prod.splits)
  show ?thesis by (induction ms) (simp_all add: ins)
qed

lemma descending_descend: "descending_key_order v = descend (content v)"
proof (induction v)
  case (JsonObj ms)
  let ?both = "\<lambda>(k, v). (k, descend (content v))"
  have "map (\<lambda>(k, v). (k, descending_key_order v)) ms = map ?both ms"
    by (rule map_cong) (use JsonObj in \<open>auto simp: snds.simps\<close>)
  moreover have "map (\<lambda>(k, v). (k, descend v)) (map (\<lambda>(k, v). (k, content v)) xs) = map ?both xs"
    for xs :: "(js_string \<times> json) list"
    by (induction xs) auto
  ultimately show ?case
    by (simp only: descending_key_order.simps content.simps descend.simps sort_key_fst_map)
qed (simp_all add: comp_def)

text \<open>The hashed form reads the content only.\<close>

lemma descending_content: "content v = content w \<Longrightarrow> descending_key_order v = descending_key_order w"
  by (simp add: descending_descend)

fun tidy :: "json \<Rightarrow> bool" where
  "tidy (JsonArr vs) = list_all tidy vs"
| "tidy (JsonObj ms) = (distinct (map fst ms) \<and> list_all (\<lambda>(k, v). k \<noteq> proto_key \<and> tidy v) ms)"
| "tidy v = True"

lemma canonical_tidy: "canonical n v \<Longrightarrow> tidy v"
  by (induction n v rule: canonical.induct)
    (auto simp: list_all_iff refused_keys_def proto_key_def split: prod.splits)

lemma sort_key_fst_unique:
  fixes xs ys :: "('k :: linorder \<times> 'b) list"
  assumes "distinct (map fst xs)" "mset xs = mset ys"
  shows "sort_key fst xs = sort_key fst ys"
proof (rule map_sorted_distinct_set_unique)
  have sets: "set xs = set ys" using assms(2) by (metis set_mset_mset)
  have "mset (map fst xs) = mset (map fst ys)" using assms(2) by simp
  then have "distinct (map fst ys)" using assms(1) by (metis mset_eq_imp_distinct_iff)
  then show "distinct (map fst (sort_key fst ys))" by (simp add: distinct_map)
  show "distinct (map fst (sort_key fst xs))" using assms(1) by (simp add: distinct_map)
  show "inj_on fst (set (sort_key fst xs) \<union> set (sort_key fst ys))"
    using assms(1) sets by (simp add: distinct_map)
qed (use assms in \<open>auto dest: mset_eq_setD\<close>)

lemma distinct_fst_sort [simp]: "distinct (map fst (sort_key fst xs)) \<longleftrightarrow> distinct (map fst xs)"
  by (metis mset_eq_imp_distinct_iff mset_map mset_sort)

lemma content_descending: "tidy v \<Longrightarrow> content (descending_key_order v) = content v"
proof (induction v)
  case (JsonArr vs)
  then show ?case by (auto simp: list_all_iff)
next
  case (JsonObj ms)
  let ?d = "\<lambda>(k :: js_string, v). (k, descending_key_order v)" and ?c = "\<lambda>(k :: js_string, v). (k, content v)"
  have keep: "filter (\<lambda>(k, _). k \<noteq> proto_key) (rev (sort_key fst (map ?d ms))) = rev (sort_key fst (map ?d ms))"
    using JsonObj.prems by (intro filter_True) (auto simp: list_all_iff)
  have keys: "fst \<circ> ?d = fst" "fst \<circ> ?c = fst" by auto
  have "map ?c (map ?d ms) = map ?c ms"
    using JsonObj by (auto simp: list_all_iff snds.simps split: prod.splits)
  moreover have "sort_key fst (map ?c (rev (sort_key fst (map ?d ms)))) = sort_key fst (map ?c (map ?d ms))"
    by (rule sort_key_fst_unique) (use JsonObj.prems keys in \<open>simp_all add: rev_map [symmetric] multiset.map_comp\<close>)
  ultimately show ?case by (simp only: descending_key_order.simps content.simps keep)
qed simp_all

lemma descending_idem: "tidy v \<Longrightarrow> descending_key_order (descending_key_order v) = descending_key_order v"
  by (rule descending_content) (rule content_descending)

section \<open>Looking members up through a reordering\<close>

lemma content_text [simp]:
  "content v = JsonStr s \<longleftrightarrow> v = JsonStr s" "JsonStr s = content v \<longleftrightarrow> v = JsonStr s"
  "content v = JsonNull \<longleftrightarrow> v = JsonNull" "JsonNull = content v \<longleftrightarrow> v = JsonNull"
  by (cases v; auto)+

lemma content_object:
  assumes "content (JsonObj ms) = content w" "distinct (map fst ms)"
  shows "\<exists>ns. w = JsonObj ns \<and> length ns = length ms \<and> set (map fst ns) = set (map fst ms) \<and>
    (\<forall>k. map_option content (map_of ns k) = map_option content (map_of ms k))"
proof -
  let ?c = "\<lambda>(k :: js_string, v). (k, content v)"
  have keys: "fst \<circ> ?c = fst" by auto
  obtain ns where w: "w = JsonObj ns" using assms(1) by (cases w) auto
  have sorted: "sort_key fst (map ?c ms) = sort_key fst (map ?c ns)" using assms(1) w by simp
  have perm: "mset (map ?c ns) = mset (map ?c ms)"
    using arg_cong [OF sorted, of mset] by (simp only: mset_sort)
  have fsts: "mset (map fst ns) = mset (map fst ms)"
    using arg_cong [OF perm, of "image_mset fst"] by (simp only: mset_map [symmetric] list.map_comp keys)
  have dist: "distinct (map fst ns)" using assms(2) fsts by (metis mset_eq_imp_distinct_iff)
  have "map_of (map ?c ns) = map_of (map ?c ms)"
    using map_of_inject_set [of "map ?c ns" "map ?c ms"] mset_eq_setD [OF perm] dist assms(2)
    by (simp only: list.map_comp keys)
  then have "map_option content \<circ> map_of ns = map_option content \<circ> map_of ms" by (simp only: map_of_map)
  then have "map_option content (map_of ns k) = map_option content (map_of ms k)" for k
    by (metis comp_apply)
  moreover have "length ns = length ms" using fsts by (metis length_map size_mset)
  moreover have "set (map fst ns) = set (map fst ms)" using fsts by (rule mset_eq_setD)
  ultimately show ?thesis using w by blast
qed

lemma member_content:
  assumes "content p = content w" "p = JsonObj ms" "distinct (map fst ms)"
  shows "map_option content (member w k) = map_option content (member p k)"
  using content_object [of ms w] assms by (auto simp: member_def members_def)

lemma text_of_by_content:
  "text_of x = (case map_option content x of Some (JsonStr s) \<Rightarrow> Some s | _ \<Rightarrow> None)"
proof (cases x)
  case (Some v)
  then show ?thesis by (cases v) (simp_all add: text_of_def)
qed (simp add: text_of_def)

lemma text_of_content:
  "map_option content x = map_option content y \<Longrightarrow> text_of x = text_of y"
  by (simp only: text_of_by_content)

section \<open>The payload record\<close>

lemma payload_members:
  "member (payload_record i t a act res ctx de why ma la tr ts pv) ''id'' = Some (JsonStr i)"
  "member (payload_record i t a act res ctx de why ma la tr ts pv) ''requestActor'' =
     Some (JsonObj [(js ''tenantId'', JsonStr t), (js ''actorId'', JsonStr a)])"
  "member (payload_record i t a act res ctx de why ma la tr ts pv) ''requestAction'' = Some (JsonStr act)"
  "member (payload_record i t a act res ctx de why ma la tr ts pv) ''requestResource'' = Some (descending_key_order res)"
  "member (payload_record i t a act res ctx de why ma la tr ts pv) ''requestContext'' = Some (descending_key_order ctx)"
  "member (payload_record i t a act res ctx de why ma la tr ts pv) ''decision'' = Some (JsonStr de)"
  "member (payload_record i t a act res ctx de why ma la tr ts pv) ''reason'' = Some (JsonStr why)"
  "member (payload_record i t a act res ctx de why ma la tr ts pv) ''matchedPolicyId'' = Some ma"
  "member (payload_record i t a act res ctx de why ma la tr ts pv) ''layerResolved'' = Some la"
  "member (payload_record i t a act res ctx de why ma la tr ts pv) ''traceId'' = Some (JsonStr tr)"
  "member (payload_record i t a act res ctx de why ma la tr ts pv) ''ts'' = Some (JsonStr ts)"
  "member (payload_record i t a act res ctx de why ma la tr ts pv) ''prevHash'' = Some pv"
  by (simp_all add: member_def members_def payload_record_def)

lemma payload_record_object:
  "\<exists>ms. payload_record i t a act res ctx de why ma la tr ts pv = JsonObj ms \<and> map fst ms = map js payload_keys"
  by (simp add: payload_record_def payload_keys_def)

lemma distinct_js_keys [simp]: "distinct (map js ks) \<longleftrightarrow> distinct ks"
  by (simp add: distinct_map inj_on_def)

definition atomic :: "json \<Rightarrow> bool" where
  "atomic v \<longleftrightarrow> v = JsonNull \<or> (\<exists>s. v = JsonStr s)"

lemma atomic_content: "atomic v \<Longrightarrow> map_option content x = Some (content v) \<Longrightarrow> x = Some v"
  by (cases x) (auto simp: atomic_def)

lemma atomic_simps [simp]: "atomic (JsonStr s)" "atomic (option_json x)" "atomic (matched_json m)" "atomic (layer_json l)"
  by (auto simp: atomic_def option_json_def matched_json_def layer_json_def split: option.splits)

text \<open>Any value with the content of a payload record has its members, the two free ones up to order.\<close>

lemma payload_reordered:
  assumes w: "content w = content (payload_record i t a act res ctx de why ma la tr ts pv)"
    and at: "atomic ma" "atomic la" "atomic pv"
  shows "exact_keys w payload_keys what = Inr ()"
    and "member w ''id'' = Some (JsonStr i)" "member w ''requestAction'' = Some (JsonStr act)"
    "member w ''decision'' = Some (JsonStr de)" "member w ''reason'' = Some (JsonStr why)"
    "member w ''matchedPolicyId'' = Some ma" "member w ''layerResolved'' = Some la"
    "member w ''traceId'' = Some (JsonStr tr)" "member w ''ts'' = Some (JsonStr ts)"
    "member w ''prevHash'' = Some pv"
    "map_option content (member w ''requestResource'') = Some (content (descending_key_order res))"
    "map_option content (member w ''requestContext'') = Some (content (descending_key_order ctx))"
    "map_option content (member w ''requestActor'') =
       Some (content (JsonObj [(js ''tenantId'', JsonStr t), (js ''actorId'', JsonStr a)]))"
proof -
  let ?p = "payload_record i t a act res ctx de why ma la tr ts pv"
  obtain ms where ms: "?p = JsonObj ms" "map fst ms = map js payload_keys"
    using payload_record_object by blast
  have dist: "distinct (map fst ms)" by (simp add: ms(2) payload_keys_def)
  have m: "map_option content (member w k) = map_option content (member ?p k)" for k
    using member_content [OF w [symmetric] ms(1) dist] .
  obtain ns where ns: "w = JsonObj ns" "length ns = length ms" "set (map fst ns) = set (map fst ms)"
    using content_object [of ms w] w ms(1) dist by auto
  have "length ms = length payload_keys" using ms(2) by (metis length_map)
  with ns ms(2) show "exact_keys w payload_keys what = Inr ()"
    by (simp add: exact_keys_def list_all_iff)
  show "member w ''id'' = Some (JsonStr i)" "member w ''requestAction'' = Some (JsonStr act)"
    "member w ''decision'' = Some (JsonStr de)" "member w ''reason'' = Some (JsonStr why)"
    "member w ''matchedPolicyId'' = Some ma" "member w ''layerResolved'' = Some la"
    "member w ''traceId'' = Some (JsonStr tr)" "member w ''ts'' = Some (JsonStr ts)"
    "member w ''prevHash'' = Some pv"
    by (rule atomic_content; simp add: m payload_members at)+
  show "map_option content (member w ''requestResource'') = Some (content (descending_key_order res))"
    "map_option content (member w ''requestContext'') = Some (content (descending_key_order ctx))"
    "map_option content (member w ''requestActor'') =
       Some (content (JsonObj [(js ''tenantId'', JsonStr t), (js ''actorId'', JsonStr a)]))"
    by (simp_all only: m payload_members option.map)
qed

lemma actor_reordered:
  assumes "content w = content (JsonObj [(js ''tenantId'', JsonStr t), (js ''actorId'', JsonStr a)])"
  shows "exact_keys w [''tenantId'', ''actorId''] what = Inr ()"
    "member w ''tenantId'' = Some (JsonStr t)" "member w ''actorId'' = Some (JsonStr a)"
proof -
  let ?ms = "[(js ''tenantId'', JsonStr t), (js ''actorId'', JsonStr a)]"
  have dist: "distinct (map fst ?ms)" by simp
  obtain ns where ns: "w = JsonObj ns" "length ns = length ?ms" "set (map fst ns) = set (map fst ?ms)"
    using content_object [of ?ms w] assms dist by auto
  then show "exact_keys w [''tenantId'', ''actorId''] what = Inr ()" by (simp add: exact_keys_def)
  have m: "map_option content (member w k) = map_option content (member (JsonObj ?ms) k)" for k
    using member_content [OF assms [symmetric] refl dist] .
  show "member w ''tenantId'' = Some (JsonStr t)" "member w ''actorId'' = Some (JsonStr a)"
    by (rule atomic_content; simp add: m; simp add: member_def members_def)+
qed

lemma row_canonical_reordered:
  assumes w: "content w = content (payload_record i t a act res ctx de why ma la tr ts pv)"
    and at: "atomic ma" "atomic la" "atomic pv" and tidy: "tidy res" "tidy ctx"
  shows "row_canonical w = payload_record i t a act res ctx de why ma la tr ts pv"
proof -
  note m = payload_reordered [OF w at]
  obtain res' where res: "member w ''requestResource'' = Some res'" "content res' = content (descending_key_order res)"
    using m(11) by auto
  obtain ctx' where ctx: "member w ''requestContext'' = Some ctx'" "content ctx' = content (descending_key_order ctx)"
    using m(12) by auto
  obtain actor where actor: "member w ''requestActor'' = Some actor"
    "content actor = content (JsonObj [(js ''tenantId'', JsonStr t), (js ''actorId'', JsonStr a)])"
    using m(13) by auto
  note am = actor_reordered [OF actor(2)]
  have "descending_key_order res' = descending_key_order res" "descending_key_order ctx' = descending_key_order ctx"
    using descending_content [OF res(2)] descending_content [OF ctx(2)] descending_idem tidy by simp_all
  then show ?thesis
    by (simp add: row_canonical_def Let_def m res(1) ctx(1) actor(1) am the_json_def the_text_def text_of_def
        payload_record_def)
qed

section \<open>Entries and rows\<close>

lemma ulid_value_iff [result_simps]: "ulid_value v = Inr s \<longleftrightarrow> v = VStr s \<and> s \<in> lang ulid_form"
  by (cases v) (auto simp: ulid_value_def re_test_lang)

lemma prev_hash_value_iff [result_simps]:
  "prev_hash_value v = Inr p \<longleftrightarrow> (v = VNull \<and> p = None) \<or> (\<exists>s. v = VStr s \<and> s \<in> lang hex64_form \<and> p = Some s)"
  by (cases v) (auto simp: prev_hash_value_def re_test_lang)

lemma request_value_iff [result_simps]: "request_value v = Inr q \<longleftrightarrow> v = VInst (IPolicyRequest (Genuine q))"
  using genuine_request_iff [of v q] by (auto simp: request_value_def split: option.splits)

lemma decision_value_iff [result_simps]: "decision_value v = Inr d \<longleftrightarrow> v = VInst (IPolicyDecision (Genuine d))"
  using genuine_decision_iff [of v d] by (auto simp: decision_value_def split: option.splits)

definition entry_sound :: "(js_string \<Rightarrow> js_string) \<Rightarrow> decision_log_entry \<Rightarrow> bool" where
  "entry_sound sha e \<longleftrightarrow> entry_id e \<in> lang ulid_form \<and> instant_check (entry_ts e) \<and>
     (case entry_prev e of None \<Rightarrow> True | Some s \<Rightarrow> s \<in> lang hex64_form) \<and>
     same_correlation (entry_decision e) (entry_request e) \<and>
     (case entry_payload e of Inl _ \<Rightarrow> False | Inr p \<Rightarrow> entry_hash e = sha (stringify p))"

lemma entry_of_sound: "entry_of sha iv qv dv lv tv pv = Inr e \<Longrightarrow> entry_sound sha e"
  by (auto simp: entry_of_def rbind_eq_Inr ulid_value_iff request_value_iff decision_value_iff
      entry_timestamp_iff prev_hash_value_iff entry_sound_def entry_payload_def split: if_splits)

definition persisted_row :: "decision_log_entry \<Rightarrow> tenant_id \<Rightarrow> json \<Rightarrow> json" where
  "persisted_row e t payload = JsonObj
     [(js ''id'', JsonStr (entry_id e)), (js ''tenant_id'', JsonStr (tenant_value t)),
      (js ''entry_hash'', JsonStr (entry_hash e)), (js ''prev_hash'', option_json (entry_prev e)),
      (js ''payload'', payload)]"

lemma row_members:
  "member (persisted_row e t w) ''id'' = Some (JsonStr (entry_id e))"
  "member (persisted_row e t w) ''tenant_id'' = Some (JsonStr (tenant_value t))"
  "member (persisted_row e t w) ''entry_hash'' = Some (JsonStr (entry_hash e))"
  "member (persisted_row e t w) ''prev_hash'' = Some (option_json (entry_prev e))"
  "member (persisted_row e t w) ''payload'' = Some w"
  "exact_keys (persisted_row e t w) row_keys what = Inr ()"
  by (simp_all add: member_def members_def persisted_row_def exact_keys_def row_keys_def)

lemma matches_text [simp]: "matches_form r (Some (JsonStr s)) \<longleftrightarrow> s \<in> lang r"
  by (simp add: matches_form_def text_of_def re_test_lang)

lemma null_or_option [simp]:
  "null_or (matches_form r) (Some (option_json x)) \<longleftrightarrow> (case x of None \<Rightarrow> True | Some s \<Rightarrow> s \<in> lang r)"
  by (simp add: null_or_def option_json_def split: option.splits)

lemma is_text_str [simp]: "is_text (Some (JsonStr s))"
  by (simp add: is_text_def text_of_def)

lemma null_or_atomic: "atomic v \<Longrightarrow> null_or is_text (Some v)"
  by (auto simp: atomic_def null_or_def is_text_def text_of_def)

lemma text_of_atoms [simp]:
  "text_of (Some (JsonStr s)) = Some s" "text_of (Some (option_json x)) = x" "the_text (Some (JsonStr s)) = s"
  "the_json (Some v) = v"
  by (simp_all add: text_of_def option_json_def the_text_def the_json_def split: option.splits)

lemma demand_True [simp]: "demand True m = Inr ()" "demand False m = Inl (IntegrityViolation (js m))"
  by (simp_all add: demand_def)

text \<open>An entry about a request that acts as tenant \<open>t\<close> and actor \<open>a\<close>, all parts well-formed.\<close>

definition entry_about :: "(js_string \<Rightarrow> js_string) \<Rightarrow> decision_log_entry \<Rightarrow> tenant_id \<Rightarrow> actor_id \<Rightarrow> correlation_id \<Rightarrow> bool" where
  "entry_about sha e t a c \<longleftrightarrow> entry_sound sha e \<and> asks_as (entry_request e) t a c \<and>
     policy_request_wf (entry_request e) \<and> policy_decision_wf (entry_decision e) \<and>
     tenant_value t \<in> lang uuid_form"

lemma entry_about_payload:
  assumes "entry_about sha e t a c"
  shows "entry_payload e = Inr (payload_record (entry_id e) (tenant_value t) (actor_value a)
    (action_name_of (request_action (entry_request e))) (request_resource (entry_request e))
    (request_context (entry_request e)) (effect_text (decision_effect (entry_decision e)))
    (decision_reason (entry_decision e)) (matched_json (decision_matched (entry_decision e)))
    (layer_json (entry_layer e)) (correlation_value (decision_trace (entry_decision e))) (entry_ts e)
    (option_json (entry_prev e)))"
  using assms
  by (simp add: entry_about_def asks_as_def entry_payload_def plain_payload_def request_tenant_def
      request_actor_def tenant_id_to_string_def actor_id_to_string_def)

lemma payload_wf_tidy: "payload_wf j \<Longrightarrow> tidy j"
  by (auto simp: payload_wf_def intro: canonical_tidy)

section \<open>Properties\<close>

lemma row_verifies:
  assumes "entry_about sha e t a c" and "entry_payload e = Inr p" and "content w = content p"
    and "\<And>s. sha s \<in> lang hex64_form"
  shows "verify_row sha (persisted_row e t w) = Inr \<lparr>receipt_entry = entry_id e,
    receipt_tenant = tenant_value t, receipt_hash = entry_hash e, receipt_prev = entry_prev e\<rparr>"
proof -
  let ?q = "entry_request e" and ?d = "entry_decision e"
  note p = entry_about_payload [OF assms(1)]
  have w: "content w = content (payload_record (entry_id e) (tenant_value t) (actor_value a)
    (action_name_of (request_action ?q)) (request_resource ?q) (request_context ?q) (effect_text (decision_effect ?d))
    (decision_reason ?d) (matched_json (decision_matched ?d)) (layer_json (entry_layer e))
    (correlation_value (decision_trace ?d)) (entry_ts e) (option_json (entry_prev e)))"
    using assms(2,3) p by simp
  note m = payload_reordered [OF w atomic_simps(3,4,2)]
  obtain actor where actor: "member w ''requestActor'' = Some actor"
    "content actor = content (JsonObj [(js ''tenantId'', JsonStr (tenant_value t)), (js ''actorId'', JsonStr (actor_value a))])"
    using m(13) by auto
  note am = actor_reordered [OF actor(2)]
  have tidy: "tidy (request_resource ?q)" "tidy (request_context ?q)"
    using assms(1) by (auto simp: entry_about_def policy_request_wf_def payload_wf_tidy)
  have hash: "sha (stringify (row_canonical w)) = entry_hash e"
    using row_canonical_reordered [OF w atomic_simps(3,4,2) tidy] assms(1) p
    by (simp add: entry_about_def entry_sound_def)
  have forms: "entry_id e \<in> lang ulid_form" "entry_ts e \<in> lang ts_form" "tenant_value t \<in> lang uuid_form"
    "entry_hash e \<in> lang hex64_form" "correlation_value (decision_trace ?d) \<in> lang uuid_form"
    "case entry_prev e of None \<Rightarrow> True | Some s \<Rightarrow> s \<in> lang hex64_form"
    using assms(1,4) p by (auto simp: entry_about_def entry_sound_def instant_check_def policy_decision_wf_def)
  show ?thesis
    unfolding verify_row_def
    by (simp add: row_members m actor(1) am hash forms null_or_atomic)
qed

text \<open>
  C30. A row written from an entry verifies: whatever order the database gives the members of the
  stored payload back in, at any depth, the verification recomputes the hash the entry was
  minted with and answers the receipt of that entry.
\<close>

theorem appended_row_verifies:
  assumes "entry_about sha e t a c" and "entry_payload e = Inr p" and "content w = content p"
    and "\<And>s. sha s \<in> lang hex64_form"
  shows "verify_row sha (persisted_row e t w) = Inr \<lparr>receipt_entry = entry_id e,
    receipt_tenant = tenant_value t, receipt_hash = entry_hash e, receipt_prev = entry_prev e\<rparr>"
  by (rule row_verifies [OF assms])


lemma payload_record_keys:
  "record_keys (map js payload_keys)" "record_keys [js ''tenantId'', js ''actorId'']"
  by code_simp+




text \<open>
  One member escapes the hash: a member called \<open>__proto__\<close> added to a stored resource or context is
  dropped by the copy that is hashed, so the row verifies as before.
\<close>

lemma proto_member_unhashed:
  "descending_key_order (JsonObj (ms @ [(proto_key, v)])) = descending_key_order (JsonObj ms)"
  by (simp add: rev_filter [symmetric] filter_sort)

section \<open>The logging decision point\<close>

text \<open>A decision that is answered was minted into an entry, and the entry was appended last.\<close>

lemma log_one_ok:
  assumes "log_one sha svc q rp w = (Inr (d, e), w')"
  shows "entry_sound sha e \<and> entry_request e = q \<and> entry_decision e = d \<and>
    (\<exists>w1 w2 prev. rp w1 = (Inr prev, w2) \<and> prev_hash_value prev = Inr (entry_prev e)) \<and>
    (\<exists>w3 v. svc_append svc (VInst (IDecisionLogEntry (Genuine e))) w3 = (Inr v, w'))"
proof -
  obtain h c layer prev w1 w2 i ts w3 v where
    prev: "rp w1 = (Inr prev, w2)"
    and e: "entry_of sha i (VInst (IPolicyRequest (Genuine q))) (VInst (IPolicyDecision (Genuine d))) layer (VStr ts) prev = Inr e"
    and app: "log_port_append (svc_append svc) (VInst (IDecisionLogEntry (Genuine e))) w3 = (Inr v, w')"
    using assms unfolding log_one_def Let_def
    by (auto simp: ebind_Inr_iff split: prod.splits)
  have "entry_request e = q" "entry_decision e = d" "prev_hash_value prev = Inr (entry_prev e)"
    using e by (auto simp: entry_of_def rbind_eq_Inr request_value_iff decision_value_iff split: if_splits)
  moreover have "svc_append svc (VInst (IDecisionLogEntry (Genuine e))) w3 = (Inr v, w')"
    using app by (simp add: log_port_append_def genuine_entry_def exact_entry_def genuine_def)
  ultimately show ?thesis using entry_of_sound [OF e] prev by blast
qed

text \<open>
  No decision leaves the logging decision point unlogged: whatever the collaborators do, a
  decision is answered only after an entry minted for that request and that decision was accepted
  by the append collaborator, as the last thing that happened.
\<close>

theorem answered_means_logged:
  assumes "logging_decide sha svc (VInst (IPolicyRequest (Genuine q))) w = (Inr d, w')"
  shows "\<exists>e w1 v. svc_append svc (VInst (IDecisionLogEntry (Genuine e))) w1 = (Inr v, w') \<and>
    entry_sound sha e \<and> entry_request e = q \<and> entry_decision e = d"
proof -
  from assms obtain e where "log_one sha svc q (chain_head_of svc q) w = (Inr (d, e), w')"
    by (auto simp: logging_decide_def ebind_Inr_iff)
  from log_one_ok [OF this] show ?thesis by blast
qed






section \<open>Witnesses\<close>

lemma content_idem: "content (content v) = content v"
proof (induction v)
  case (JsonObj ms)
  let ?c = "\<lambda>(k :: js_string, v). (k, content v)"
  have "map ?c (map ?c ms) = map ?c ms" using JsonObj by (auto simp: snds.simps)
  then have twice: "map ?c (sort_key fst (map ?c ms)) = sort_key fst (map ?c ms)"
    by (simp only: sort_key_fst_map [symmetric])
  have "sort_key fst (sort_key fst (map ?c ms)) = sort_key fst (map ?c ms)"
    by (rule sort_key_id_if_sorted) (rule sorted_sort_key)
  then show ?case by (simp only: content.simps twice)
qed (auto simp: comp_def)

definition sample_sha :: "js_string \<Rightarrow> js_string" where
  "sample_sha s = replicate 64 0x61"

lemma sample_sha_hex: "sample_sha s \<in> lang hex64_form"
  by (simp add: sample_sha_def hex64_form_def lang_hex is_hex_def list_all_iff)

definition sample_ulid :: js_string where
  "sample_ulid = js ''01ARZ3NDEKTSV4RRFFQ69G5FAV''"

lemma sample_ulid_ok: "sample_ulid \<in> lang ulid_form"
proof -
  have "re_test ulid_form sample_ulid" by code_simp
  then show ?thesis by (simp add: re_test_lang)
qed

lemma leap_day_ok: "instant_check leap_day"
proof -
  have "names_a_real_instant leap_day" by code_simp
  then show ?thesis by (simp add: names_a_real_instant_iff)
qed

definition sample_denial :: policy_decision where
  "sample_denial = \<lparr>decision_effect = Deny, decision_reason = decision_reason_text, decision_matched = None,
     decision_trace = sample_correlation\<rparr>"

definition sample_entry :: "js_string option \<Rightarrow> decision_log_entry" where
  "sample_entry prev = \<lparr>entry_id = sample_ulid, entry_request = sample_request, entry_decision = sample_denial,
     entry_layer = None, entry_ts = leap_day, entry_prev = prev, entry_hash = replicate 64 0x61\<rparr>"

lemma sample_payload:
  "\<exists>p. plain_payload sample_ulid sample_request sample_denial None leap_day prev = Inr p"
  by (simp add: plain_payload_def sample_request_def sample_command_def sample_principal_def request_tenant_def
      request_actor_def action_principal_def)

lemma sample_entry_of:
  assumes "prev_hash_value pv = Inr prev"
  shows "entry_of sample_sha (VStr sample_ulid) (VInst (IPolicyRequest (Genuine sample_request)))
    (VInst (IPolicyDecision (Genuine sample_denial))) VNull (VStr leap_day) pv = Inr (sample_entry prev)"
proof -
  have vals: "ulid_value (VStr sample_ulid) = Inr sample_ulid" "entry_timestamp (VStr leap_day) = Inr leap_day"
    "request_value (VInst (IPolicyRequest (Genuine sample_request))) = Inr sample_request"
    "decision_value (VInst (IPolicyDecision (Genuine sample_denial))) = Inr sample_denial"
    using sample_ulid_ok leap_day_ok
    by (simp_all add: ulid_value_iff entry_timestamp_iff request_value_iff decision_value_iff)
  have "same_correlation sample_denial sample_request"
    by (simp add: same_correlation_def sample_request_def sample_command_def action_correlation_def sample_denial_def)
  moreover have "layer_resolved_value VNull sample_denial = Inr None"
    by (simp add: layer_resolved_value_def sample_denial_def)
  moreover obtain p where "plain_payload sample_ulid sample_request sample_denial None leap_day prev = Inr p"
    using sample_payload by blast
  ultimately show ?thesis
    using assms by (simp add: entry_of_def vals sample_entry_def sample_sha_def)
qed

lemma sample_entry_about:
  "entry_about sample_sha (sample_entry None) (TenantId sample_tenant) (ActorId (js ''user:1'')) sample_correlation"
proof -
  have "entry_sound sample_sha (sample_entry None)"
    by (rule entry_of_sound [OF sample_entry_of [of VNull]]) (simp add: prev_hash_value_def)
  moreover have "re_test uuid_form sample_tenant" "re_test uuid_form (correlation_value sample_correlation)" by code_simp+
  moreover have "js ''type'' \<notin> set refused_keys" by code_simp
  ultimately show ?thesis
    using sample_asks reason_text_ok
    by (simp add: entry_about_def sample_entry_def policy_request_wf_def sample_request_def payload_wf_def
        max_depth_def eval_nat_numeral policy_decision_wf_def sample_denial_def re_test_lang)
qed

definition sample_row_payload :: json where
  "sample_row_payload = (case entry_payload (sample_entry None) of Inr p \<Rightarrow> content p | Inl _ \<Rightarrow> JsonNull)"

lemma sample_row_payload:
  "\<exists>p. entry_payload (sample_entry None) = Inr p \<and> content sample_row_payload = content p"
  using entry_about_payload [OF sample_entry_about] by (simp add: sample_row_payload_def content_idem)

theorem appended_row_verifies_witness:
  "verify_row sample_sha (persisted_row (sample_entry None) (TenantId sample_tenant) sample_row_payload) =
    Inr \<lparr>receipt_entry = entry_id (sample_entry None), receipt_tenant = tenant_value (TenantId sample_tenant),
      receipt_hash = entry_hash (sample_entry None), receipt_prev = entry_prev (sample_entry None)\<rparr>"
proof -
  obtain p where "entry_payload (sample_entry None) = Inr p" "content sample_row_payload = content p"
    using sample_row_payload by blast
  then show ?thesis by (rule appended_row_verifies [OF sample_entry_about _ _ sample_sha_hex])
qed







text \<open>A world that counts the appends: every collaborator answers, no statement applies.\<close>

definition sample_services :: "nat log_services" where
  "sample_services = \<lparr>svc_candidates = \<lambda>_. eret (candidates_heap [], VObj 0),
     svc_append = \<lambda>_ n. (Inr VNull, n + 1), svc_id = eret (VStr sample_ulid),
     svc_read_clock = \<lambda>_. eret (VStr leap_day), svc_chain_head = \<lambda>_. eret VNull\<rparr>"

lemma sample_evaluation:
  "evaluator_decide_of (candidates_heap []) (VInst (IPolicyRequest (Genuine sample_request))) (VObj 0) = Inr sample_denial"
proof -
  have "check_candidates (candidates_heap []) (VObj 0) = Inr []" by (rule check_candidates_heap) simp_all
  moreover have "trace_genuine sample_request sample_correlation" using sample_asks by (simp add: asks_as_def)
  ultimately show ?thesis
    using new_decision_total [of sample_request sample_correlation Deny None]
    by (simp add: evaluator_decide_of_def combine_def sample_denial_def)
qed

lemma sample_log_one:
  assumes "rp w = (Inr pv, w)" "prev_hash_value pv = Inr prev"
  shows "log_one sample_sha sample_services sample_request rp w = (Inr (sample_denial, sample_entry prev), w + 1)"
proof -
  have "names_a_real_instant leap_day" using leap_day_ok by (simp add: names_a_real_instant_iff)
  then have "clock_now (svc_read_clock sample_services) () w = (Inr leap_day, w)"
    by (simp add: clock_now_def sample_services_def instant_of_def)
  moreover have "layer_resolved (candidates_heap []) (VObj 0) (decision_matched sample_denial) = Inr VNull"
    by (simp add: layer_resolved_def sample_denial_def)
  moreover have "log_port_append (svc_append sample_services) (VInst (IDecisionLogEntry (Genuine (sample_entry prev)))) w
      = (Inr VNull, w + 1)"
    by (simp add: log_port_append_def genuine_entry_def exact_entry_def genuine_def sample_services_def)
  moreover have "svc_candidates sample_services v w = (Inr (candidates_heap [], VObj 0), w)"
    "svc_id sample_services w = (Inr (VStr sample_ulid), w)" for v
    by (simp_all add: sample_services_def)
  ultimately show ?thesis
    using assms by (simp add: log_one_def Let_def ebind_apply sample_evaluation sample_entry_of)
qed

lemma sample_heads:
  "chain_head_of sample_services sample_request w = (Inr VNull, w)"
  "request_tenant sample_request = Inr (Genuine (TenantId sample_tenant))"
  by (simp_all add: chain_head_of_def request_tenant_def sample_request_def sample_command_def
      sample_principal_def action_principal_def sample_services_def ebind_apply)

theorem answered_means_logged_witness:
  "\<exists>e w1 v. svc_append sample_services (VInst (IDecisionLogEntry (Genuine e))) w1 = (Inr v, 1) \<and>
    entry_sound sample_sha e \<and> entry_request e = sample_request \<and> entry_decision e = sample_denial"
proof (rule answered_means_logged [where w = 0])
  show "logging_decide sample_sha sample_services (VInst (IPolicyRequest (Genuine sample_request))) 0 = (Inr sample_denial, 1)"
    using sample_log_one [of "chain_head_of sample_services sample_request" 0 VNull None] sample_heads
    by (simp add: logging_decide_def ebind_apply prev_hash_value_def)
qed


end
