(* ===== verification/Transactions.thy ===== *)
theory Transactions
  imports Kernel_Values
begin

text \<open>
  The part of a \<^verbatim>\<open>pg\<close> client both adapters drive: one connection taken from a pool, BEGIN, COMMIT,
  ROLLBACK, and the release of the connection. The client is code outside the repository; its contract
  is the locale \<open>transactional\<close>, which the adapters' own contracts extend.
\<close>

record 'w txn =
  txn_connect :: "('w, thrown, unit) eff"
  txn_begin :: "('w, thrown, unit) eff"
  txn_commit :: "('w, thrown, unit) eff"
  txn_rollback :: "('w, thrown, unit) eff"
  txn_release :: "('w, thrown, unit) eff"

text \<open>\<open>client.query("ROLLBACK").catch(() => {})\<close>\<close>

definition quietly :: "('w, thrown, unit) eff \<Rightarrow> ('w, thrown, unit) eff" where
  "quietly m = ecatch m (\<lambda>_. eret ())"

lemma rethrow_Inr_iff [result_simps]:
  "ecatch m (\<lambda>e. ethrow (f e)) w = (Inr x, w1) \<longleftrightarrow> m w = (Inr x, w1)"
  by (auto simp: ecatch_apply split: prod.splits sum.splits)

text \<open>
  \<open>stored\<close> is what other transactions can see, \<open>pending\<close> what this one would see if it read, \<open>held\<close>
  the number of connections taken from the pool. Only a successful COMMIT changes what is stored, and
  it stores what is pending. A COMMIT whose acknowledgement is lost after the server stored its work
  is outside this contract.
\<close>

locale transactional =
  fixes tx :: "'w txn" and stored :: "'w \<Rightarrow> 's" and pending :: "'w \<Rightarrow> 's" and held :: "'w \<Rightarrow> nat"
  assumes connects: "txn_connect tx w = (Inr (), w1) \<Longrightarrow> stored w1 = stored w \<and> held w1 = Suc (held w)"
    and connect_fails: "txn_connect tx w = (Inl e, w1) \<Longrightarrow> stored w1 = stored w \<and> held w1 = held w"
    and begin_keeps: "txn_begin tx w = (r, w1) \<Longrightarrow> stored w1 = stored w \<and> held w1 = held w"
    and begin_opens: "txn_begin tx w = (Inr (), w1) \<Longrightarrow> pending w1 = stored w"
    and commit_stores: "txn_commit tx w = (Inr (), w1) \<Longrightarrow> stored w1 = pending w \<and> held w1 = held w"
    and commit_fails: "txn_commit tx w = (Inl e, w1) \<Longrightarrow> stored w1 = stored w \<and> held w1 = held w"
    and rollback_keeps: "txn_rollback tx w = (r, w1) \<Longrightarrow> stored w1 = stored w \<and> held w1 = held w"
    and releases: "\<exists>w1. txn_release tx w = (Inr (), w1) \<and> stored w1 = stored w \<and> held w1 = held w - 1"
begin

lemma quiet_rollback:
  obtains w1 where "quietly (txn_rollback tx) w = (Inr (), w1)" "stored w1 = stored w" "held w1 = held w"
proof (cases rule: eff_cases [of "txn_rollback tx" w])
  case (throws e w1)
  with rollback_keeps [OF throws] that show thesis by (simp add: quietly_def ecatch_apply)
next
  case (answers u w1)
  with rollback_keeps [OF answers] that show thesis by (simp add: quietly_def ecatch_apply)
qed

lemma rolled_back:
  assumes "ebind (quietly (txn_rollback tx)) (\<lambda>_. ethrow e) w = (r, w1)"
  shows "r = Inl e \<and> stored w1 = stored w \<and> held w1 = held w"
proof -
  obtain u where "quietly (txn_rollback tx) w = (Inr (), u)" "stored u = stored w" "held u = held w"
    by (rule quiet_rollback)
  with assms show ?thesis by (auto simp: ebind_apply)
qed

lemma released:
  obtains w1 where "txn_release tx w = (Inr (), w1)" "stored w1 = stored w" "held w1 = held w - 1"
  using releases [of w] by blast

end

section \<open>Statements that may fail\<close>

text \<open>
  A concrete client keeps, in its world, what each statement to come fails with, if it does. The
  statement of a faulty step does nothing.
\<close>

definition faulty ::
    "('w \<Rightarrow> thrown option list) \<Rightarrow> (thrown option list \<Rightarrow> 'w \<Rightarrow> 'w) \<Rightarrow> ('w \<Rightarrow> 'a outcome \<times> 'w) \<Rightarrow> ('w, thrown, 'a) eff" where
  "faulty get put f w = (case get w of
     [] \<Rightarrow> f w
   | None # xs \<Rightarrow> f (put xs w)
   | Some e # xs \<Rightarrow> (Inl e, put xs w))"

lemma faulty_cases:
  assumes "faulty get put f w = (res, w1)" and "put (get w) w = w"
  obtains (fault) e xs where "get w = Some e # xs" "res = Inl e" "w1 = put xs w"
  | (runs) xs where "f (put xs w) = (res, w1)"
proof (cases "get w")
  case Nil
  with assms runs [of "[]"] show thesis by (simp add: faulty_def)
next
  case (Cons a xs)
  then show thesis using assms fault runs [of xs] by (cases a) (auto simp: faulty_def)
qed

lemma faulty_clear [simp]: "get w = [] \<Longrightarrow> faulty get put f w = f w"
  by (simp add: faulty_def)

end
