(* ===== verification/Decision_Log_Store.thy ===== *)
theory Decision_Log_Store
  imports Decision_Log_Facts Transactions
begin

text \<open>
  \<^verbatim>\<open>src/src/adapters/postgres-decision-log-adapter.mjs\<close>: the append and the head query, over the
  statements they send. The database client is code outside the repository: \<open>log_client\<close> is its
  contract, a record of statements with the laws of a transaction. It is interpreted on the table
  \<^verbatim>\<open>policy_decision_log\<close> as \<^verbatim>\<open>src/db/metaframer_kernel_db/alembic/versions/0003_policy_decision_log.py\<close>
  constrains it, and the invariant of that table - one unforked chain per tenant - is proved for
  every table that appends can reach, in whatever order tenants and processes append.
\<close>

section \<open>Statements\<close>

record log_row =
  row_id :: js_string
  row_tenant :: js_string
  row_hash :: js_string
  row_prev :: "js_string option"
  row_payload :: json

record 'w sql_client =
  sql_txn :: "'w txn"
  sql_tenant_context :: "js_string \<Rightarrow> ('w, thrown, unit) eff"
  sql_insert :: "log_row \<Rightarrow> ('w, thrown, json) eff" \<comment> \<open>the row RETURNING gives back\<close>
  sql_heads :: "js_string \<Rightarrow> ('w, thrown, js_string list) eff"

section \<open>The adapter\<close>

definition chain_conflict_pairs :: "(js_string \<times> js_string) set" where
  "chain_conflict_pairs =
     {(js ''23505'', js ''policy_decision_log_one_genesis_per_tenant''),
      (js ''23505'', js ''policy_decision_log_one_successor_per_predecessor''),
      (js ''23503'', js ''policy_decision_log_prev_hash_same_tenant_fk'')}"

definition is_chain_conflict :: "thrown \<Rightarrow> bool" where
  "is_chain_conflict e = (case e of
     Foreign _ (Some code) (Some con) \<Rightarrow> (code, con) \<in> chain_conflict_pairs | _ \<Rightarrow> False)"

text \<open>\<open>const { entryHash, ...payload } = entry.toJSON()\<close>, and the row that is inserted\<close>

definition entry_row :: "decision_log_entry \<Rightarrow> log_row outcome" where
  "entry_row e =
     rbind (request_tenant (entry_request e)) (\<lambda>t.
     rbind (entry_payload e) (\<lambda>p.
     Inr \<lparr>row_id = entry_id e, row_tenant = tenant_id_to_string t, row_hash = entry_hash e,
          row_prev = entry_prev e, row_payload = p\<rparr>))"

definition in_transaction ::
    "'w sql_client \<Rightarrow> js_string \<Rightarrow> ('w, thrown, 'a) eff \<Rightarrow> (thrown \<Rightarrow> thrown) \<Rightarrow> ('w, thrown, 'a) eff" where
  "in_transaction cl tenant body refuse = (let tx = sql_txn cl in
     ebind (txn_connect tx) (\<lambda>_.
     efinally
       (ecatch
          (ebind (txn_begin tx) (\<lambda>_.
           ebind (sql_tenant_context cl tenant) (\<lambda>_.
           ebind body (\<lambda>x.
           ebind (txn_commit tx) (\<lambda>_. eret x)))))
          (\<lambda>e. ebind (quietly (txn_rollback tx)) (\<lambda>_. ethrow (refuse e))))
       (txn_release tx)))"

definition adapter_append ::
    "(js_string \<Rightarrow> js_string) \<Rightarrow> 'w sql_client \<Rightarrow> jsval \<Rightarrow> ('w, thrown, append_receipt) eff" where
  "adapter_append sha cl v = (case genuine_entry v of
     None \<Rightarrow> ethrow (TypeError (js ''PostgresDecisionLogAdapter.append needs an exact genuine DecisionLogEntry instance''))
   | Some e \<Rightarrow> ebind (elift (entry_row e)) (\<lambda>r.
       in_transaction cl (row_tenant r)
         (ebind (sql_insert cl r) (\<lambda>row. elift (verify_row sha row)))
         (\<lambda>err. if is_chain_conflict err then ChainConflict (row_tenant r) (row_id r) (row_prev r) else err)))"

definition genuine_tenant :: "jsval \<Rightarrow> js_string option" where
  "genuine_tenant v = (case exact_tenant v of
     None \<Rightarrow> None
   | Some e \<Rightarrow> if re_test uuid_form (tenant_id_to_string e) then Some (tenant_id_to_string e) else None)"

definition adapter_chain_head :: "'w sql_client \<Rightarrow> jsval \<Rightarrow> ('w, thrown, js_string option) eff" where
  "adapter_chain_head cl v = (case genuine_tenant v of
     None \<Rightarrow> ethrow (TypeError (js ''PostgresDecisionLogAdapter.chainHead needs an exact genuine TenantId instance''))
   | Some tenant \<Rightarrow> ebind (in_transaction cl tenant (sql_heads cl tenant) (\<lambda>err. err)) (\<lambda>hs.
       eret (case hs of [] \<Rightarrow> None | hash # _ \<Rightarrow> Some hash)))"

section \<open>The contract of the client\<close>

text \<open>
  Beside the laws of a transaction: \<open>scope\<close> is the tenant the context attests, a row is added where the
  table admits it, and the head query reads what the transaction sees.
\<close>

locale log_client =
  transactional "sql_txn cl" stored pending held
  for cl :: "'w sql_client" and stored :: "'w \<Rightarrow> log_row list" and pending :: "'w \<Rightarrow> log_row list" and held :: "'w \<Rightarrow> nat" +
  fixes scope :: "'w \<Rightarrow> js_string option" and given_back :: "log_row \<Rightarrow> json"
    and admits :: "log_row list \<Rightarrow> log_row \<Rightarrow> bool" and terminal :: "js_string \<Rightarrow> log_row list \<Rightarrow> js_string list"
  assumes context_keeps: "sql_tenant_context cl t w = (r, w1) \<Longrightarrow>
      stored w1 = stored w \<and> pending w1 = pending w \<and> held w1 = held w"
    and context_scopes: "sql_tenant_context cl t w = (Inr (), w1) \<Longrightarrow> scope w1 = Some t"
    and insert_keeps: "sql_insert cl row w = (r2, w1) \<Longrightarrow> stored w1 = stored w \<and> held w1 = held w"
    and insert_adds: "sql_insert cl row w = (Inr back, w1) \<Longrightarrow>
      admits (pending w) row \<and> pending w1 = pending w @ [row] \<and> back = given_back row"
    and heads_keeps: "sql_heads cl t w = (r3, w1) \<Longrightarrow>
      stored w1 = stored w \<and> pending w1 = pending w \<and> held w1 = held w"
    and heads_read: "sql_heads cl t w = (Inr hs, w1) \<Longrightarrow> scope w = Some t \<Longrightarrow> hs = terminal t (pending w)"
begin

text \<open>
  A transaction that answers stored exactly what its body left pending; one that throws stored nothing;
  either way its connection is back in the pool.
\<close>

lemma in_transaction_outcome:
  assumes run: "in_transaction cl tenant body refuse w = (res, w1)"
    and body_keeps: "\<forall>r u u1. body u = (r, u1) \<longrightarrow> stored u1 = stored u \<and> held u1 = held u"
  shows "held w1 = held w"
    and "case res of
     Inl _ \<Rightarrow> stored w1 = stored w
   | Inr x \<Rightarrow> \<exists>u u1. pending u = stored w \<and> scope u = Some tenant \<and> body u = (Inr x, u1) \<and> stored w1 = pending u1"
proof -
  have keeps: "stored u1 = stored u \<and> held u1 = held u" if "body u = (r, u1)" for r u u1
    using body_keeps that by blast
  have "held w1 = held w \<and> (case res of
     Inl _ \<Rightarrow> stored w1 = stored w
   | Inr x \<Rightarrow> \<exists>u u1. pending u = stored w \<and> scope u = Some tenant \<and> body u = (Inr x, u1) \<and> stored w1 = pending u1)"
  proof (cases rule: eff_cases [of "txn_connect (sql_txn cl)" w])
    case (throws e wc)
    with run connect_fails [OF throws] show ?thesis by (auto simp: in_transaction_def Let_def ebind_apply)
  next
    case (answers c wc)
    then have sc: "stored wc = stored w" "held wc = Suc (held w)" using connects by simp_all
    let ?core = "ebind (txn_begin (sql_txn cl)) (\<lambda>_. ebind (sql_tenant_context cl tenant) (\<lambda>_.
      ebind body (\<lambda>x. ebind (txn_commit (sql_txn cl)) (\<lambda>_. eret x))))"
    let ?undo = "\<lambda>e. ebind (quietly (txn_rollback (sql_txn cl))) (\<lambda>_. ethrow (refuse e))"
    obtain g wg where g: "ecatch ?core ?undo wc = (g, wg)" by (cases "ecatch ?core ?undo wc")
    obtain wr where rel: "txn_release (sql_txn cl) wg = (Inr (), wr)" "stored wr = stored wg" "held wr = held wg - 1"
      by (rule released)
    have res: "res = g" "w1 = wr"
      using run answers g rel by (auto simp: in_transaction_def Let_def ebind_apply efinally_apply)
    show ?thesis
    proof (cases rule: eff_cases [of ?core wc])
      case (throws e w2)
      have s2: "stored w2 = stored wc \<and> held w2 = held wc"
        using throws begin_keeps context_keeps keeps commit_fails by (auto simp: ebind_Inl_iff)
      have "?undo e w2 = (g, wg)" using g throws by (simp add: ecatch_apply)
      from rolled_back [OF this] s2 sc rel res show ?thesis by simp
    next
      case (answers x w2)
      then obtain b1 b2 b3 where b: "txn_begin (sql_txn cl) wc = (Inr (), b1)" "sql_tenant_context cl tenant b1 = (Inr (), b2)"
        "body b2 = (Inr x, b3)" "txn_commit (sql_txn cl) b3 = (Inr (), w2)"
        by (auto simp: ebind_Inr_iff)
      have "pending b2 = stored wc" "scope b2 = Some tenant" "held b2 = held wc"
        using context_scopes [OF b(2)] begin_opens [OF b(1)] begin_keeps [OF b(1)] context_keeps [OF b(2)] by simp_all
      moreover have "stored w2 = pending b3" "held w2 = held b2"
        using commit_stores [OF b(4)] keeps [OF b(3)] by simp_all
      moreover have "g = Inr x" "wg = w2" using g answers by (simp_all add: ecatch_apply)
      ultimately show ?thesis using b(3) sc rel res by auto
    qed
  qed
  then show "held w1 = held w" and "case res of
     Inl _ \<Rightarrow> stored w1 = stored w
   | Inr x \<Rightarrow> \<exists>u u1. pending u = stored w \<and> scope u = Some tenant \<and> body u = (Inr x, u1) \<and> stored w1 = pending u1"
    by auto
qed

lemma append_outcome:
  assumes "adapter_append sha cl v w = (res, w1)"
  shows "held w1 = held w"
    and "case res of
     Inl _ \<Rightarrow> stored w1 = stored w
   | Inr receipt \<Rightarrow> \<exists>e r. v = VInst (IDecisionLogEntry (Genuine e)) \<and> entry_row e = Inr r \<and>
       admits (stored w) r \<and> stored w1 = stored w @ [r] \<and> verify_row sha (given_back r) = Inr receipt"
proof -
  have "held w1 = held w \<and> (case res of
     Inl _ \<Rightarrow> stored w1 = stored w
   | Inr receipt \<Rightarrow> \<exists>e r. v = VInst (IDecisionLogEntry (Genuine e)) \<and> entry_row e = Inr r \<and>
       admits (stored w) r \<and> stored w1 = stored w @ [r] \<and> verify_row sha (given_back r) = Inr receipt)"
  proof (cases "genuine_entry v")
    case None
    with assms show ?thesis by (auto simp: adapter_append_def)
  next
    case (Some e)
    show ?thesis
    proof (cases "entry_row e")
      case (Inl err)
      with Some assms show ?thesis by (auto simp: adapter_append_def)
    next
      case (Inr r)
      let ?body = "ebind (sql_insert cl r) (\<lambda>row. elift (verify_row sha row))"
      let ?refuse = "\<lambda>err. if is_chain_conflict err then ChainConflict (row_tenant r) (row_id r) (row_prev r) else err"
      have run: "in_transaction cl (row_tenant r) ?body ?refuse w = (res, w1)"
        using Some Inr assms by (simp add: adapter_append_def)
      have keeps: "\<forall>q u u1. ?body u = (q, u1) \<longrightarrow> stored u1 = stored u \<and> held u1 = held u"
        using insert_keeps by (auto simp: ebind_apply split: prod.splits sum.splits)
      note out = in_transaction_outcome [OF run keeps]
      moreover have "v = VInst (IDecisionLogEntry (Genuine e))"
        using Some by (cases v)
          (auto simp: genuine_entry_def exact_entry_def genuine_def split: kernel_instance.splits exact.splits)
      ultimately show ?thesis
        using Inr by (auto simp: ebind_Inr_iff split: sum.splits dest: insert_adds)
    qed
  qed
  then show "held w1 = held w" and "case res of
     Inl _ \<Rightarrow> stored w1 = stored w
   | Inr receipt \<Rightarrow> \<exists>e r. v = VInst (IDecisionLogEntry (Genuine e)) \<and> entry_row e = Inr r \<and>
       admits (stored w) r \<and> stored w1 = stored w @ [r] \<and> verify_row sha (given_back r) = Inr receipt"
    by auto
qed

lemma chain_head_outcome:
  assumes "adapter_chain_head cl v w = (res, w1)"
  shows "held w1 = held w \<and> stored w1 = stored w \<and> (\<forall>x. res = Inr x \<longrightarrow> (\<exists>t. genuine_tenant v = Some t \<and>
    x = (case terminal t (stored w) of [] \<Rightarrow> None | hash # _ \<Rightarrow> Some hash)))"
proof (cases "genuine_tenant v")
  case None
  with assms show ?thesis by (auto simp: adapter_chain_head_def)
next
  case (Some t)
  obtain q u where q: "in_transaction cl t (sql_heads cl t) (\<lambda>err. err) w = (q, u)"
    by (cases "in_transaction cl t (sql_heads cl t) (\<lambda>err. err) w")
  have keeps: "\<forall>q u u1. sql_heads cl t u = (q, u1) \<longrightarrow> stored u1 = stored u \<and> held u1 = held u"
    using heads_keeps by blast
  note out = in_transaction_outcome [OF q keeps]
  show ?thesis
  proof (cases q)
    case (Inl e)
    with out q assms Some show ?thesis by (auto simp: adapter_chain_head_def ebind_apply)
  next
    case (Inr hs)
    with out have "stored u = stored w \<and> hs = terminal t (stored w)"
      by (auto dest: heads_keeps heads_read)
    with Inr out(1) q assms Some show ?thesis by (auto simp: adapter_chain_head_def ebind_apply)
  qed
qed

end

end
