(* ===== verification/Decision_Log_Table.thy ===== *)
theory Decision_Log_Table
  imports Decision_Log_Store
begin

text \<open>
  The table \<^verbatim>\<open>policy_decision_log\<close> as
  \<^verbatim>\<open>src/db/metaframer_kernel_db/alembic/versions/0003_policy_decision_log.py\<close> constrains it, and a
  client over it that \<open>log_client\<close> is interpreted on. What \<open>jsonb\<close> keeps of a payload is a parameter:
  it may refuse a text, and what it accepts it gives back up to the order of members.
\<close>

section \<open>Constraints\<close>

definition constraint_name :: "string \<Rightarrow> js_string" where
  "constraint_name s = js (''policy_decision_log_'' @ s)"

text \<open>The CHECK constraints, in the order the database evaluates them: by name.\<close>

definition row_checks :: "log_row \<Rightarrow> (string \<times> bool) list" where
  "row_checks r = (let p = row_payload r in
     [(''entry_hash_is_hex64'', re_test hex64_form (row_hash r)),
      (''id_is_ulid'', re_test ulid_form (row_id r)),
      (''no_self_link'', row_prev r \<noteq> Some (row_hash r)),
      (''payload_id_matches'', text_of (member p ''id'') = Some (row_id r)),
      (''payload_is_object'', (case p of JsonObj _ \<Rightarrow> True | _ \<Rightarrow> False)),
      (''payload_prev_hash_matches'', (case row_prev r of
          None \<Rightarrow> member p ''prevHash'' = Some JsonNull
        | Some h \<Rightarrow> text_of (member p ''prevHash'') = Some h)),
      (''payload_tenant_matches'', (case member p ''requestActor'' of
          Some a \<Rightarrow> text_of (member a ''tenantId'') = Some (row_tenant r) | None \<Rightarrow> False)),
      (''prev_hash_is_hex64'', (case row_prev r of None \<Rightarrow> True | Some h \<Rightarrow> re_test hex64_form h))])"

definition failed_check :: "log_row \<Rightarrow> string option" where
  "failed_check r = map_option fst (find (\<lambda>(_, ok). \<not> ok) (row_checks r))"

text \<open>
  What an INSERT is refused for: row-level security, the checks, the unique indexes in the order they
  were created, and the foreign key. A unique index sees every row there is, \<open>taken\<close>, also one a
  concurrent transaction has not committed; the foreign key sees the rows \<open>visible\<close> to this one.
\<close>

definition insert_violation ::
    "js_string option \<Rightarrow> log_row list \<Rightarrow> log_row list \<Rightarrow> log_row \<Rightarrow> (js_string \<times> js_string option) option" where
  "insert_violation tenant taken visible r =
     (let mine = (\<lambda>s. row_tenant s = row_tenant r);
          unique = (\<lambda>name. Some (js ''23505'', Some (constraint_name name))) in
      if tenant \<noteq> Some (row_tenant r) then Some (js ''42501'', None)
      else case failed_check r of Some name \<Rightarrow> Some (js ''23514'', Some (constraint_name name)) | None \<Rightarrow>
      if list_ex (\<lambda>s. row_id s = row_id r) taken then unique ''pkey''
      else if list_ex (\<lambda>s. mine s \<and> row_hash s = row_hash r) taken then unique ''tenant_entry_hash_unique''
      else if row_prev r = None \<and> list_ex (\<lambda>s. mine s \<and> row_prev s = None) taken
        then unique ''one_genesis_per_tenant''
      else if row_prev r \<noteq> None \<and> list_ex (\<lambda>s. mine s \<and> row_prev s = row_prev r) taken
        then unique ''one_successor_per_predecessor''
      else if row_prev r \<noteq> None \<and> \<not> list_ex (\<lambda>s. mine s \<and> Some (row_hash s) = row_prev r) visible
        then Some (js ''23503'', Some (constraint_name ''prev_hash_same_tenant_fk''))
      else None)"

section \<open>The chain of a tenant\<close>

definition rows_of :: "js_string \<Rightarrow> log_row list \<Rightarrow> log_row list" where
  "rows_of t rows = filter (\<lambda>r. row_tenant r = t) rows"

definition linked :: "log_row list \<Rightarrow> bool" where
  "linked rs \<longleftrightarrow> (rs \<noteq> [] \<longrightarrow> row_prev (hd rs) = None) \<and>
     successively (\<lambda>a b. row_prev b = Some (row_hash a)) rs \<and> distinct (map row_hash rs)"

definition head_of :: "log_row list \<Rightarrow> js_string option" where
  "head_of rs = (if rs = [] then None else Some (row_hash (last rs)))"

definition one_chain :: "log_row list \<Rightarrow> bool" where
  "one_chain rows \<longleftrightarrow> (\<forall>t. linked (rows_of t rows)) \<and> distinct (map row_id rows)"

lemma rows_of_append [simp]:
  "rows_of t (rows @ [r]) = (if row_tenant r = t then rows_of t rows @ [r] else rows_of t rows)"
  by (simp add: rows_of_def)

lemma set_rows_of [simp]: "set (rows_of t rows) = {r \<in> set rows. row_tenant r = t}"
  by (auto simp: rows_of_def)

lemma one_chain_empty [simp]: "one_chain []"
  by (simp add: one_chain_def rows_of_def linked_def)

lemma linked_snoc:
  "linked (rs @ [r]) \<longleftrightarrow> linked rs \<and> row_prev r = head_of rs \<and> (\<forall>s \<in> set rs. row_hash s \<noteq> row_hash r)"
proof (cases rs rule: rev_cases)
  case (snoc ys y)
  have "row_hash x \<notin> row_hash ` S \<longleftrightarrow> (\<forall>s \<in> S. row_hash s \<noteq> row_hash x)" for x :: log_row and S by force
  with snoc show ?thesis by (auto simp: linked_def head_of_def successively_append_iff hd_append)
qed (simp add: linked_def head_of_def)

lemma linked_prevs: "linked rs \<Longrightarrow> u \<in> set rs \<Longrightarrow> row_prev u = None \<or> row_prev u \<in> Some ` row_hash ` set rs"
proof (induction rs rule: rev_induct)
  case (snoc r rs)
  then show ?case by (cases "rs = []") (auto simp: linked_def head_of_def successively_append_iff)
qed simp

text \<open>In a chain every row but the last is some row's predecessor, and the last is nobody's.\<close>

lemma linked_predecessors:
  "linked rs \<Longrightarrow> s \<in> set rs \<Longrightarrow>
     (\<exists>u \<in> set rs. row_prev u = Some (row_hash s)) \<longleftrightarrow> Some (row_hash s) \<noteq> head_of rs"
proof (induction rs rule: rev_induct)
  case (snoc r rs)
  note l = snoc.prems(1) [unfolded linked_snoc]
  show ?case
  proof (cases "s \<in> set rs")
    case True
    with l have "row_hash s \<noteq> row_hash r" by auto
    moreover have "row_prev r = Some (row_hash s) \<or> (\<exists>u \<in> set rs. row_prev u = Some (row_hash s))"
      using snoc.IH True l by metis
    ultimately show ?thesis by (auto simp: head_of_def)
  next
    case False
    with snoc.prems(2) have s: "s = r" by simp
    have prevs: "row_prev u \<noteq> Some (row_hash r)" if "u \<in> set rs" for u
    proof -
      have "row_prev u = None \<or> row_prev u \<in> Some ` row_hash ` set rs"
        using linked_prevs [of rs u] l that by blast
      with l that show ?thesis by auto
    qed
    moreover have "row_prev r \<noteq> Some (row_hash r)" using l by (auto simp: head_of_def split: if_splits)
    ultimately show ?thesis by (auto simp: s head_of_def)
  qed
qed simp

text \<open>The rows of the head query: those no row of the tenant names.\<close>

definition terminal_hashes :: "js_string \<Rightarrow> log_row list \<Rightarrow> js_string list" where
  "terminal_hashes t rows = map row_hash (filter (\<lambda>r. row_tenant r = t \<and>
     \<not> list_ex (\<lambda>s. row_tenant s = t \<and> row_prev s = Some (row_hash r)) rows) rows)"

lemma terminal_of_linked:
  assumes "linked (rows_of t rows)"
  shows "terminal_hashes t rows = (case head_of (rows_of t rows) of None \<Rightarrow> [] | Some h \<Rightarrow> [h])"
proof -
  let ?rs = "rows_of t rows"
  have "terminal_hashes t rows =
    map row_hash (filter (\<lambda>r. \<not> (\<exists>u \<in> set ?rs. row_prev u = Some (row_hash r))) ?rs)"
    unfolding terminal_hashes_def rows_of_def filter_filter
    by (rule arg_cong [of _ _ "map row_hash"], rule filter_cong) (auto simp: list_ex_iff)
  also have "filter (\<lambda>r. \<not> (\<exists>u \<in> set ?rs. row_prev u = Some (row_hash r))) ?rs =
    filter (\<lambda>r. Some (row_hash r) = head_of ?rs) ?rs"
    by (rule filter_cong) (use linked_predecessors [OF assms] in auto)
  also have "map row_hash (filter (\<lambda>r. Some (row_hash r) = head_of ?rs) ?rs) =
    (case head_of ?rs of None \<Rightarrow> [] | Some h \<Rightarrow> [h])"
  proof (cases ?rs rule: rev_cases)
    case (snoc rs r)
    have "row_hash s \<noteq> row_hash r" if "s \<in> set rs" for s
      using assms that by (auto simp: snoc linked_snoc)
    then show ?thesis by (auto simp: snoc head_of_def filter_empty_conv)
  qed (simp add: head_of_def)
  finally show ?thesis .
qed

section \<open>Insertion keeps the chain\<close>

lemma insert_admitted_iff:
  "insert_violation ten taken visible r = None \<longleftrightarrow>
     ten = Some (row_tenant r) \<and> failed_check r = None \<and>
     (\<forall>s \<in> set taken. row_id s \<noteq> row_id r \<and>
        (row_tenant s = row_tenant r \<longrightarrow> row_hash s \<noteq> row_hash r \<and> row_prev s \<noteq> row_prev r)) \<and>
     (row_prev r \<noteq> None \<longrightarrow> (\<exists>s \<in> set visible. row_tenant s = row_tenant r \<and> Some (row_hash s) = row_prev r))"
  by (cases "row_prev r"; cases "failed_check r") (auto simp: insert_violation_def Let_def list_ex_iff)

lemma insert_admitted:
  assumes "insert_violation ten taken visible r = None"
  shows "ten = Some (row_tenant r)" "failed_check r = None" "row_id r \<notin> row_id ` set taken"
    "\<And>s. s \<in> set taken \<Longrightarrow> row_tenant s = row_tenant r \<Longrightarrow> row_hash s \<noteq> row_hash r \<and> row_prev s \<noteq> row_prev r"
    "\<And>h. row_prev r = Some h \<Longrightarrow> \<exists>s \<in> set visible. row_tenant s = row_tenant r \<and> row_hash s = h"
  using assms by (force simp: insert_admitted_iff)+

lemma admitted_at_head:
  assumes "linked (rows_of (row_tenant r) rows)" and "insert_violation ten taken rows r = None"
    and "set rows \<subseteq> set taken"
  shows "row_prev r = head_of (rows_of (row_tenant r) rows)"
proof (cases "row_prev r")
  case None
  show ?thesis
  proof (cases "rows_of (row_tenant r) rows")
    case (Cons s ss)
    then have "s \<in> set (rows_of (row_tenant r) rows)" by simp
    then have "s \<in> set rows" "row_tenant s = row_tenant r" by auto
    moreover have "row_prev s = None" using assms(1) Cons by (simp add: linked_def)
    ultimately show ?thesis using insert_admitted(4) [OF assms(2), of s] assms(3) None by auto
  qed (simp add: None head_of_def)
next
  case (Some h)
  obtain s where s: "s \<in> set rows" "row_tenant s = row_tenant r" "row_hash s = h"
    using insert_admitted(5) [OF assms(2) Some] by blast
  have "\<not> (\<exists>u \<in> set (rows_of (row_tenant r) rows). row_prev u = Some (row_hash s))"
    using insert_admitted(4) [OF assms(2)] assms(3) Some s(3) by auto
  with linked_predecessors [OF assms(1), of s] s Some show ?thesis by auto
qed

lemma insert_one_chain:
  assumes "one_chain rows" "insert_violation ten taken rows r = None" "set rows \<subseteq> set taken"
  shows "one_chain (rows @ [r])"
proof -
  have "row_id r \<notin> row_id ` set rows" using insert_admitted(3) [OF assms(2)] assms(3) by auto
  moreover have "linked (rows_of t (rows @ [r]))" for t
    using assms(1) admitted_at_head [OF _ assms(2,3)] insert_admitted(4) [OF assms(2)] assms(3)
    by (auto simp: one_chain_def linked_snoc)
  ultimately show ?thesis using assms(1) by (simp add: one_chain_def)
qed

end
