(* ===== verification/Decision_Log_Chain.thy ===== *)
theory Decision_Log_Chain
  imports Decision_Log_Table
begin

text \<open>
  The adapter over the table: \<open>log_client\<close> is interpreted on a client whose every statement may fail,
  and the invariant of the table - one unforked chain per tenant - is proved for whatever sequence of
  appends and failures it goes through, and for every interleaving of concurrent transactions.
\<close>

section \<open>A client over the table\<close>

record log_db =
  db_rows :: "log_row list" \<comment> \<open>committed, in the order of their insertion\<close>
  db_work :: "log_row list" \<comment> \<open>what the open transaction sees\<close>
  db_tenant :: "js_string option" \<comment> \<open>the attested tenant context\<close>
  db_held :: nat \<comment> \<open>connections taken from the pool\<close>
  db_faults :: "thrown option list" \<comment> \<open>for each statement to come, what it fails with\<close>

definition statement :: "(log_db \<Rightarrow> 'a outcome \<times> log_db) \<Rightarrow> (log_db, thrown, 'a) eff" where
  "statement f = faulty db_faults (\<lambda>xs w. w\<lparr>db_faults := xs\<rparr>) f"

definition row_json :: "(json \<Rightarrow> json option) \<Rightarrow> log_row \<Rightarrow> json" where
  "row_json jsonb r = JsonObj
     [(js ''id'', JsonStr (row_id r)), (js ''tenant_id'', JsonStr (row_tenant r)),
      (js ''entry_hash'', JsonStr (row_hash r)), (js ''prev_hash'', option_json (row_prev r)),
      (js ''payload'', the_json (jsonb (row_payload r)))]"

definition refusal :: "js_string \<times> js_string option \<Rightarrow> thrown" where
  "refusal v = Foreign (Some (js ''error'')) (Some (fst v)) (snd v)"

definition insert_row :: "(json \<Rightarrow> json option) \<Rightarrow> log_row \<Rightarrow> log_db \<Rightarrow> json outcome \<times> log_db" where
  "insert_row jsonb r w =
     (if jsonb (row_payload r) = None then (Inl (refusal (js ''22P05'', None)), w)
      else case insert_violation (db_tenant w) (db_work w) (db_work w) r of
        Some v \<Rightarrow> (Inl (refusal v), w)
      | None \<Rightarrow> (Inr (row_json jsonb r), w\<lparr>db_work := db_work w @ [r]\<rparr>))"

definition visible_rows :: "log_db \<Rightarrow> log_row list" where
  "visible_rows w = (case db_tenant w of None \<Rightarrow> [] | Some t \<Rightarrow> rows_of t (db_work w))"

definition table_txn :: "log_db txn" where
  "table_txn =
     \<lparr>txn_connect = statement (\<lambda>w. (Inr (), w\<lparr>db_held := Suc (db_held w)\<rparr>)),
      txn_begin = statement (\<lambda>w. (Inr (), w\<lparr>db_work := db_rows w, db_tenant := None\<rparr>)),
      txn_commit = statement (\<lambda>w. (Inr (), w\<lparr>db_rows := db_work w, db_tenant := None\<rparr>)),
      txn_rollback = statement (\<lambda>w. (Inr (), w\<lparr>db_work := db_rows w, db_tenant := None\<rparr>)),
      txn_release = (\<lambda>w. (Inr (), w\<lparr>db_held := db_held w - 1\<rparr>))\<rparr>"

definition table_client :: "(json \<Rightarrow> json option) \<Rightarrow> log_db sql_client" where
  "table_client jsonb =
     \<lparr>sql_txn = table_txn,
      sql_tenant_context = (\<lambda>t. statement (\<lambda>w. (Inr (), w\<lparr>db_tenant := Some t\<rparr>))),
      sql_insert = (\<lambda>r. statement (insert_row jsonb r)),
      sql_heads = (\<lambda>t. statement (\<lambda>w. (Inr (terminal_hashes t (visible_rows w)), w)))\<rparr>"

definition admitted :: "log_row list \<Rightarrow> log_row \<Rightarrow> bool" where
  "admitted rows r \<longleftrightarrow> insert_violation (Some (row_tenant r)) rows rows r = None"

lemma statement_cases:
  assumes "statement f w = (res, w1)"
  obtains (fault) e xs where "db_faults w = Some e # xs" "res = Inl e" "w1 = w\<lparr>db_faults := xs\<rparr>"
  | (runs) xs where "f (w\<lparr>db_faults := xs\<rparr>) = (res, w1)"
  using assms unfolding statement_def by (rule faulty_cases) auto

lemma insert_violation_tenant: "insert_violation ten taken visible r = None \<Longrightarrow> ten = Some (row_tenant r)"
  by (rule insert_admitted(1))

lemma terminal_visible: "terminal_hashes t (rows_of t rows) = terminal_hashes t rows"
  unfolding terminal_hashes_def rows_of_def filter_filter
  by (rule arg_cong [of _ _ "map row_hash"], rule filter_cong) (auto simp: list_ex_iff)

lemma inserted_row:
  "insert_row jsonb r w = (Inr back, w1) \<Longrightarrow>
     admitted (db_work w) r \<and> back = row_json jsonb r \<and> w1 = w\<lparr>db_work := db_work w @ [r]\<rparr>"
  using insert_violation_tenant [of "db_tenant w" "db_work w" "db_work w" r]
  by (auto simp: insert_row_def admitted_def split: if_splits option.splits)

lemma insert_row_rows: "insert_row jsonb r w = (res, w1) \<Longrightarrow> db_rows w1 = db_rows w \<and> db_held w1 = db_held w"
  by (auto simp: insert_row_def split: if_splits option.splits)

interpretation table_txn: transactional table_txn db_rows db_work db_held
  by unfold_locales (auto simp: table_txn_def elim!: statement_cases)

interpretation table: log_client "table_client jsonb" db_rows db_work db_held db_tenant "row_json jsonb" admitted
  terminal_hashes for jsonb
proof unfold_locales
qed (auto simp: table_client_def table_txn_def visible_rows_def terminal_visible elim!: statement_cases
    dest: inserted_row insert_row_rows)

section \<open>Every state the adapter reaches\<close>

inductive db_reachable :: "(js_string \<Rightarrow> js_string) \<Rightarrow> (json \<Rightarrow> json option) \<Rightarrow> log_db \<Rightarrow> bool" for sha jsonb where
  start: "db_reachable sha jsonb \<lparr>db_rows = [], db_work = [], db_tenant = None, db_held = 0, db_faults = []\<rparr>"
| append: "db_reachable sha jsonb w \<Longrightarrow> adapter_append sha (table_client jsonb) v w = (res, w1) \<Longrightarrow> db_reachable sha jsonb w1"
| read_head: "db_reachable sha jsonb w \<Longrightarrow> adapter_chain_head (table_client jsonb) v w = (ans, w1) \<Longrightarrow> db_reachable sha jsonb w1"
| faults: "db_reachable sha jsonb w \<Longrightarrow> db_reachable sha jsonb (w\<lparr>db_faults := xs\<rparr>)"

lemma reachable_one_chain: "db_reachable sha jsonb w \<Longrightarrow> one_chain (db_rows w)"
proof (induction rule: db_reachable.induct)
  case (append w v res w1)
  from table.append_outcome(2) [OF append.hyps(2)] append.IH show ?case
    by (auto simp: admitted_def split: sum.splits dest: insert_one_chain)
next
  case (read_head w v ans w1)
  from table.chain_head_outcome [OF read_head.hyps(2)] read_head.IH show ?case by simp
qed simp_all

lemma statement_clear: "db_faults w = [] \<Longrightarrow> statement f w = f w"
  by (simp add: statement_def)

lemmas client_simps = table_client_def table_txn_def statement_clear ebind_apply ecatch_apply efinally_apply quietly_def
  in_transaction_def Let_def

text \<open>An append no statement of which fails, reduced to the answer of its INSERT.\<close>

definition opened :: "log_row \<Rightarrow> log_db \<Rightarrow> log_db" where
  "opened r w = w\<lparr>db_held := Suc (db_held w), db_work := db_rows w, db_tenant := Some (row_tenant r)\<rparr>"

definition undone :: "log_row \<Rightarrow> thrown \<Rightarrow> log_db \<Rightarrow> append_receipt outcome \<times> log_db" where
  "undone r err w1 = (Inl (if is_chain_conflict err then ChainConflict (row_tenant r) (row_id r) (row_prev r) else err),
     w1\<lparr>db_work := db_rows w1, db_tenant := None, db_held := db_held w1 - 1\<rparr>)"

lemma clear_append:
  assumes "db_faults w = []" and "entry_row e = Inr r"
  shows "adapter_append sha (table_client jsonb) (VInst (IDecisionLogEntry (Genuine e))) w =
    (case insert_row jsonb r (opened r w) of
       (Inl err, w1) \<Rightarrow> undone r err w1
     | (Inr row, w1) \<Rightarrow> (case verify_row sha row of
         Inl err \<Rightarrow> undone r err w1
       | Inr receipt \<Rightarrow> (Inr receipt, w1\<lparr>db_rows := db_work w1, db_tenant := None, db_held := db_held w1 - 1\<rparr>)))"
proof -
  have faults: "db_faults w1 = []" if "insert_row jsonb r w0 = (res, w1)" "db_faults w0 = []" for w0 w1 res
    using that by (auto simp: insert_row_def split: if_splits option.splits)
  obtain res w1 where i: "insert_row jsonb r (opened r w) = (res, w1)" by (cases "insert_row jsonb r (opened r w)")
  have "db_faults w1 = []" by (rule faults [OF i]) (simp add: assms opened_def)
  with assms i [unfolded opened_def] show ?thesis
    by (cases res; cases "verify_row sha (projr res)")
      (simp_all add: adapter_append_def genuine_entry_def exact_entry_def genuine_def client_simps undone_def opened_def)
qed

lemma clear_chain_head:
  assumes "db_faults w = []" and "genuine_tenant v = Some t"
  shows "\<exists>w1. adapter_chain_head (table_client jsonb) v w =
    (Inr (case terminal_hashes t (db_rows w) of [] \<Rightarrow> None | hash # _ \<Rightarrow> Some hash), w1)"
  using assms by (simp add: adapter_chain_head_def client_simps visible_rows_def terminal_visible)

section \<open>The row of a sound entry\<close>

definition row_of :: "decision_log_entry \<Rightarrow> tenant_id \<Rightarrow> json \<Rightarrow> log_row" where
  "row_of e t p = \<lparr>row_id = entry_id e, row_tenant = tenant_value t, row_hash = entry_hash e,
     row_prev = entry_prev e, row_payload = p\<rparr>"

definition receipt_of :: "decision_log_entry \<Rightarrow> tenant_id \<Rightarrow> append_receipt" where
  "receipt_of e t = \<lparr>receipt_entry = entry_id e, receipt_tenant = tenant_value t,
     receipt_hash = entry_hash e, receipt_prev = entry_prev e\<rparr>"

lemma entry_row_of:
  assumes "entry_about sha e t a c" and "entry_payload e = Inr p"
  shows "entry_row e = Inr (row_of e t p)"
  using assms by (simp add: entry_row_def entry_about_def asks_as_def request_tenant_def tenant_id_to_string_def row_of_def)

lemma row_passes_checks:
  assumes "entry_about sha e t a c" and p: "entry_payload e = Inr p"
    and hex: "\<And>s. sha s \<in> lang hex64_form" and self: "entry_prev e \<noteq> Some (entry_hash e)"
  shows "failed_check (row_of e t p) = None"
proof -
  note payload = entry_about_payload [OF assms(1)]
  have "entry_id e \<in> lang ulid_form" "entry_hash e \<in> lang hex64_form"
    "case entry_prev e of None \<Rightarrow> True | Some s \<Rightarrow> s \<in> lang hex64_form"
    using assms(1) hex p by (auto simp: entry_about_def entry_sound_def)
  moreover have "\<exists>ms. p = JsonObj ms" using payload p by (auto simp: payload_record_def)
  moreover have "member p ''id'' = Some (JsonStr (entry_id e))" "member p ''prevHash'' = Some (option_json (entry_prev e))"
    "member p ''requestActor'' = Some (JsonObj [(js ''tenantId'', JsonStr (tenant_value t)), (js ''actorId'', JsonStr (actor_value a))])"
    using payload p by (auto simp: payload_members)
  moreover have "text_of (member (JsonObj [(js ''tenantId'', JsonStr (tenant_value t)), (js ''actorId'', JsonStr (actor_value a))]) ''tenantId'')
      = Some (tenant_value t)"
    by (simp add: member_def members_def)
  ultimately show ?thesis
    using self by (auto simp: failed_check_def row_checks_def Let_def row_of_def re_test_lang option_json_def
        split: option.splits)
qed

text \<open>Where an entry's id and hash are new, what it is refused for is its place in the chain.\<close>

lemma fresh_row_violation:
  assumes check: "failed_check r = None" and chain: "one_chain rows"
    and fresh: "\<forall>s \<in> set rows. row_id s \<noteq> row_id r"
      "\<forall>s \<in> set rows. row_tenant s = row_tenant r \<longrightarrow> row_hash s \<noteq> row_hash r"
  shows "insert_violation (Some (row_tenant r)) rows rows r = None \<longleftrightarrow> row_prev r = head_of (rows_of (row_tenant r) rows)"
    and "row_prev r \<noteq> head_of (rows_of (row_tenant r) rows) \<Longrightarrow>
      \<exists>v. insert_violation (Some (row_tenant r)) rows rows r = Some v \<and> is_chain_conflict (refusal v)"
proof -
  let ?v = "insert_violation (Some (row_tenant r)) rows rows r" and ?rs = "rows_of (row_tenant r) rows"
  have linked: "linked ?rs" using chain by (simp add: one_chain_def)
  have none: "?v = None" if at: "row_prev r = head_of ?rs"
  proof -
    have "row_prev s \<noteq> row_prev r" if s: "s \<in> set ?rs" for s
    proof (cases "row_prev s")
      case None
      moreover have "?rs \<noteq> []" using s by fastforce
      ultimately show ?thesis using at by (simp add: head_of_def)
    next
      case (Some h)
      then have "h \<in> row_hash ` set ?rs" using linked_prevs [OF linked s] by auto
      then obtain u where u: "u \<in> set ?rs" "row_hash u = h" by blast
      then show ?thesis using linked_predecessors [OF linked u(1)] s Some at by auto
    qed
    moreover have "\<exists>s \<in> set ?rs. Some (row_hash s) = row_prev r" if "row_prev r \<noteq> None"
    proof -
      have ne: "?rs \<noteq> []" using at that by (auto simp: head_of_def)
      then have "last ?rs \<in> set ?rs" by (rule last_in_set)
      then show ?thesis using at ne by (metis head_of_def)
    qed
    ultimately show ?thesis
      using check fresh by (auto simp: insert_admitted_iff)
  qed
  show "?v = None \<longleftrightarrow> row_prev r = head_of ?rs"
    using none admitted_at_head [OF linked] by blast
  show "\<exists>v. ?v = Some v \<and> is_chain_conflict (refusal v)" if "row_prev r \<noteq> head_of ?rs"
  proof -
    have "?v \<noteq> None" using admitted_at_head [OF linked] that by blast
    then obtain v where v: "?v = Some v" by blast
    then have "v \<in> {(js ''23505'', Some (constraint_name ''one_genesis_per_tenant'')),
        (js ''23505'', Some (constraint_name ''one_successor_per_predecessor'')),
        (js ''23503'', Some (constraint_name ''prev_hash_same_tenant_fk''))}"
      using check fresh by (auto simp: insert_violation_def Let_def list_ex_iff split: if_splits)
    with v show ?thesis
      by (auto simp: is_chain_conflict_def refusal_def chain_conflict_pairs_def constraint_name_def)
  qed
qed

end
