(* ===== verification/Decision_Log_Claims.thy ===== *)
theory Decision_Log_Claims
  imports Decision_Log_Chain
begin

text \<open>
  What the decision log promises as a whole: every append extends its tenant's chain or changes
  nothing, the head query answers the end of the chain, a writer with the current head succeeds and a
  stale one is told so, and concurrent transactions never fork a chain.
\<close>

section \<open>The abstract log\<close>

text \<open>Per tenant the hashes of its chain, oldest first; an entry is taken only at the end.\<close>

type_synonym chains = "js_string \<Rightarrow> js_string list"

definition chain_end :: "js_string list \<Rightarrow> js_string option" where
  "chain_end hs = (if hs = [] then None else Some (last hs))"

definition extend_chain :: "js_string \<Rightarrow> js_string \<Rightarrow> js_string option \<Rightarrow> chains \<Rightarrow> chains option" where
  "extend_chain t hash prev cs =
     (if prev = chain_end (cs t) \<and> hash \<notin> set (cs t) then Some (cs(t := cs t @ [hash])) else None)"

definition chains_of :: "log_row list \<Rightarrow> chains" where
  "chains_of rows t = map row_hash (rows_of t rows)"

lemma chain_end_of: "chain_end (chains_of rows t) = head_of (rows_of t rows)"
  by (simp add: chain_end_def chains_of_def head_of_def last_map)

lemma chains_of_append: "chains_of (rows @ [r]) = (chains_of rows)(row_tenant r := chains_of rows (row_tenant r) @ [row_hash r])"
  by (rule ext) (simp add: chains_of_def)

lemma admitted_extends:
  assumes "one_chain rows" "admitted rows r"
  shows "extend_chain (row_tenant r) (row_hash r) (row_prev r) (chains_of rows) = Some (chains_of (rows @ [r]))"
proof -
  have "row_prev r = head_of (rows_of (row_tenant r) rows)"
    by (rule admitted_at_head [of r rows "Some (row_tenant r)" rows])
      (use assms in \<open>simp_all add: one_chain_def admitted_def\<close>)
  moreover have "row_hash r \<notin> set (chains_of rows (row_tenant r))"
    using assms(2) by (fastforce simp: admitted_def insert_admitted_iff chains_of_def)
  ultimately show ?thesis by (simp add: extend_chain_def chain_end_of chains_of_append)
qed

lemma verify_row_answer:
  "verify_row sha row = Inr x \<Longrightarrow> x = \<lparr>receipt_entry = the_text (member row ''id''),
     receipt_tenant = the_text (member row ''tenant_id''), receipt_hash = the_text (member row ''entry_hash''),
     receipt_prev = text_of (member row ''prev_hash'')\<rparr>"
  unfolding verify_row_def Let_def rbind_eq_Inr by (elim exE conjE) (simp only: sum.inject)

lemma verified_receipt:
  "verify_row sha (row_json jsonb r) = Inr receipt \<Longrightarrow>
     receipt_entry receipt = row_id r \<and> receipt_tenant receipt = row_tenant r \<and>
     receipt_hash receipt = row_hash r \<and> receipt_prev receipt = row_prev r"
  by (drule verify_row_answer) (simp add: row_json_def member_def members_def)

text \<open>
  C34. The append refines the abstract log, from every state it can reach and whatever statements of
  the transaction fail: an append that answers a receipt extended the chain of the receipt's tenant by
  the receipt's hash, at the end the receipt names; an append that throws left every chain as it was. Either way its
  connection is back in the pool.
\<close>

theorem append_refines_chains:
  assumes "db_reachable sha jsonb w" and "adapter_append sha (table_client jsonb) v w = (res, w1)"
  shows "(case res of
     Inl _ \<Rightarrow> chains_of (db_rows w1) = chains_of (db_rows w)
   | Inr receipt \<Rightarrow> extend_chain (receipt_tenant receipt) (receipt_hash receipt) (receipt_prev receipt)
       (chains_of (db_rows w)) = Some (chains_of (db_rows w1))) \<and> db_held w1 = db_held w"
  using table.append_outcome [OF assms(2)] admitted_extends [OF reachable_one_chain [OF assms(1)]]
  by (auto split: sum.splits dest!: verified_receipt)

text \<open>
  The head query answers the hash of the tenant's last entry, or null before its first: from every
  reachable state, where the statements succeed, the query has at most one row and it is the end of
  the chain.
\<close>

theorem chain_head_is_last:
  assumes "db_reachable sha jsonb w" and "db_faults w = []" and "genuine_tenant v = Some t"
  shows "fst (adapter_chain_head (table_client jsonb) v w) = Inr (chain_end (chains_of (db_rows w) t))"
proof -
  have "linked (rows_of t (db_rows w))"
    using reachable_one_chain [OF assms(1)] by (simp add: one_chain_def)
  from terminal_of_linked [OF this] clear_chain_head [OF assms(2,3), of jsonb]
  show ?thesis by (auto simp: chain_end_of split: option.splits)
qed

text \<open>An entry no row of the table has the id or, in its tenant, the hash of.\<close>

definition entry_fresh :: "decision_log_entry \<Rightarrow> tenant_id \<Rightarrow> log_row list \<Rightarrow> bool" where
  "entry_fresh e t rows \<longleftrightarrow> (\<forall>s \<in> set rows. row_id s \<noteq> entry_id e) \<and>
     entry_hash e \<notin> set (chains_of rows (tenant_value t)) \<and> entry_prev e \<noteq> Some (entry_hash e)"

definition gives_back :: "(json \<Rightarrow> json option) \<Rightarrow> json \<Rightarrow> bool" where
  "gives_back jsonb p \<longleftrightarrow> (\<exists>q. jsonb p = Some q \<and> content q = content p)"

lemma fresh_insert:
  assumes "db_reachable sha jsonb w" and "entry_about sha e t a c" and "entry_fresh e t (db_rows w)"
    and "entry_payload e = Inr p" and "\<And>s. sha s \<in> lang hex64_form"
  shows "insert_violation (Some (tenant_value t)) (db_rows w) (db_rows w) (row_of e t p) = None \<longleftrightarrow>
      entry_prev e = chain_end (chains_of (db_rows w) (tenant_value t))"
    and "entry_prev e \<noteq> chain_end (chains_of (db_rows w) (tenant_value t)) \<Longrightarrow>
      \<exists>v. insert_violation (Some (tenant_value t)) (db_rows w) (db_rows w) (row_of e t p) = Some v \<and>
        is_chain_conflict (refusal v)"
proof -
  have fresh: "\<forall>s \<in> set (db_rows w). row_id s \<noteq> row_id (row_of e t p)"
    "\<forall>s \<in> set (db_rows w). row_tenant s = row_tenant (row_of e t p) \<longrightarrow> row_hash s \<noteq> row_hash (row_of e t p)"
    using assms(3) by (auto simp: entry_fresh_def chains_of_def row_of_def image_iff)
  have check: "failed_check (row_of e t p) = None"
    by (rule row_passes_checks [OF assms(2,4,5)]) (use assms(3) in \<open>simp add: entry_fresh_def\<close>)
  note v = fresh_row_violation [OF check reachable_one_chain [OF assms(1)] fresh]
  show "insert_violation (Some (tenant_value t)) (db_rows w) (db_rows w) (row_of e t p) = None \<longleftrightarrow>
      entry_prev e = chain_end (chains_of (db_rows w) (tenant_value t))"
    "entry_prev e \<noteq> chain_end (chains_of (db_rows w) (tenant_value t)) \<Longrightarrow>
      \<exists>v. insert_violation (Some (tenant_value t)) (db_rows w) (db_rows w) (row_of e t p) = Some v \<and>
        is_chain_conflict (refusal v)"
    using v by (simp_all add: row_of_def chain_end_of)
qed

lemma row_json_of: "jsonb p = Some q \<Longrightarrow> row_json jsonb (row_of e t p) = persisted_row e t q"
  by (simp add: row_json_def row_of_def persisted_row_def)

lemma fresh_at_end:
  assumes "db_reachable sha jsonb w" and "db_faults w = []" and "entry_about sha e t a c"
    and "entry_fresh e t (db_rows w)" and p: "entry_payload e = Inr p" and "gives_back jsonb p"
    and "\<And>s. sha s \<in> lang hex64_form"
    and "entry_prev e = chain_end (chains_of (db_rows w) (tenant_value t))"
  shows "\<exists>w1. adapter_append sha (table_client jsonb) (VInst (IDecisionLogEntry (Genuine e))) w = (Inr (receipt_of e t), w1) \<and>
    db_rows w1 = db_rows w @ [row_of e t p]"
proof -
  obtain q where q: "jsonb p = Some q" "content q = content p" using assms(6) by (auto simp: gives_back_def)
  have "insert_violation (Some (tenant_value t)) (db_rows w) (db_rows w) (row_of e t p) = None"
    using fresh_insert(1) [OF assms(1,3,4) p assms(7)] assms(8) by simp
  moreover have "verify_row sha (row_json jsonb (row_of e t p)) = Inr (receipt_of e t)"
    unfolding row_json_of [of jsonb, OF q(1)] receipt_of_def by (rule row_verifies [OF assms(3) p q(2) assms(7)])
  moreover have "row_tenant (row_of e t p) = tenant_value t" "row_payload (row_of e t p) = p" by (simp_all add: row_of_def)
  ultimately show ?thesis
    using clear_append [OF assms(2) entry_row_of [OF assms(3) p]] q(1) by (simp add: insert_row_def opened_def)
qed

text \<open>
  A writer that holds the current head is served: from every reachable state, where no
  statement fails, a new entry whose prevHash is what the head query answers is stored as the last
  row and its receipt answered.
\<close>

theorem current_writer_is_served:
  assumes "db_reachable sha jsonb w" and "db_faults w = []" and "entry_about sha e t a c"
    and "entry_fresh e t (db_rows w)" and "entry_payload e = Inr p" and "gives_back jsonb p"
    and "\<And>s. sha s \<in> lang hex64_form"
    and "entry_prev e = chain_end (chains_of (db_rows w) (tenant_value t))"
  shows "\<exists>w1. adapter_append sha (table_client jsonb) (VInst (IDecisionLogEntry (Genuine e))) w = (Inr (receipt_of e t), w1) \<and>
    db_rows w1 = db_rows w @ [row_of e t p]"
  by (rule fresh_at_end [OF assms])

text \<open>
  A stale writer is told so: from every reachable state, where no statement fails, a new entry
  whose prevHash is not the head of its tenant's chain - an older hash, null on a chain that has
  begun, or a hash of no entry - is refused with a chain conflict that names the tenant, the entry and
  that prevHash, and nothing is stored.
\<close>

theorem stale_writer_conflicts:
  assumes "db_reachable sha jsonb w" and "db_faults w = []" and "entry_about sha e t a c"
    and "entry_fresh e t (db_rows w)" and "entry_payload e = Inr p" and "gives_back jsonb p"
    and "\<And>s. sha s \<in> lang hex64_form"
    and "entry_prev e \<noteq> chain_end (chains_of (db_rows w) (tenant_value t))"
  shows "\<exists>w1. adapter_append sha (table_client jsonb) (VInst (IDecisionLogEntry (Genuine e))) w =
      (Inl (ChainConflict (tenant_value t) (entry_id e) (entry_prev e)), w1) \<and> db_rows w1 = db_rows w"
proof -
  obtain v where v: "insert_violation (Some (tenant_value t)) (db_rows w) (db_rows w) (row_of e t p) = Some v"
    "is_chain_conflict (refusal v)"
    using fresh_insert(2) [OF assms(1,3,4,5,7,8)] by blast
  have "row_tenant (row_of e t p) = tenant_value t" "row_payload (row_of e t p) = p"
    "row_id (row_of e t p) = entry_id e" "row_prev (row_of e t p) = entry_prev e" by (simp_all add: row_of_def)
  with v assms(6) clear_append [OF assms(2) entry_row_of [OF assms(3,5)]]
  show ?thesis by (auto simp: insert_row_def gives_back_def opened_def undone_def)
qed

section \<open>Concurrent transactions\<close>

text \<open>
  The rows that are committed, and the row each open transaction has inserted. The unique indexes see
  both; the foreign key sees what is committed. A transaction that would conflict with an open one
  waits, so it takes no step until that one has ended.
\<close>

record log_net =
  net_rows :: "log_row list"
  net_open :: "(nat \<times> log_row) list"

inductive net_step :: "log_net \<Rightarrow> log_net \<Rightarrow> bool" where
  insert: "c \<notin> fst ` set (net_open n) \<Longrightarrow>
    insert_violation (Some (row_tenant r)) (net_rows n @ map snd (net_open n)) (net_rows n) r = None \<Longrightarrow>
    net_step n (n\<lparr>net_open := (c, r) # net_open n\<rparr>)"
| commit: "net_open n = xs @ (c, r) # ys \<Longrightarrow>
    net_step n \<lparr>net_rows = net_rows n @ [r], net_open = xs @ ys\<rparr>"
| rollback: "net_open n = xs @ (c, r) # ys \<Longrightarrow> net_step n (n\<lparr>net_open := xs @ ys\<rparr>)"

inductive net_reachable :: "log_net \<Rightarrow> bool" where
  start: "net_reachable \<lparr>net_rows = [], net_open = []\<rparr>"
| step: "net_reachable n \<Longrightarrow> net_step n m \<Longrightarrow> net_reachable m"

inductive_cases net_stepE: "net_step n m"

definition apart :: "log_row \<Rightarrow> log_row \<Rightarrow> bool" where
  "apart s r \<longleftrightarrow> row_id s \<noteq> row_id r \<and>
     (row_tenant s = row_tenant r \<longrightarrow> row_hash s \<noteq> row_hash r \<and> row_prev s \<noteq> row_prev r)"

lemma apart_sym: "apart s r \<longleftrightarrow> apart r s"
  by (auto simp: apart_def)

definition net_inv :: "log_net \<Rightarrow> bool" where
  "net_inv n \<longleftrightarrow> one_chain (net_rows n) \<and>
     (\<forall>r \<in> snd ` set (net_open n). admitted (net_rows n) r) \<and>
     pairwise (\<lambda>x y. apart x y) (snd ` set (net_open n)) \<and> distinct (map snd (net_open n))"

lemma admitted_iff:
  "admitted rows r \<longleftrightarrow> failed_check r = None \<and> (\<forall>s \<in> set rows. apart s r) \<and>
     (row_prev r \<noteq> None \<longrightarrow> (\<exists>s \<in> set rows. row_tenant s = row_tenant r \<and> Some (row_hash s) = row_prev r))"
  by (auto simp: admitted_def insert_admitted_iff apart_def)

lemma admitted_later: "admitted rows r \<Longrightarrow> apart s r \<Longrightarrow> admitted (rows @ [s]) r"
  by (auto simp: admitted_iff)

lemma net_step_inv: "net_step n m \<Longrightarrow> net_inv n \<Longrightarrow> net_inv m"
proof (erule net_stepE)
  fix c r
  assume inv: "net_inv n" and m: "m = n\<lparr>net_open := (c, r) # net_open n\<rparr>"
    and free: "insert_violation (Some (row_tenant r)) (net_rows n @ map snd (net_open n)) (net_rows n) r = None"
  have "admitted (net_rows n) r" "\<forall>s \<in> snd ` set (net_open n). apart s r"
    using free by (auto simp: insert_admitted_iff admitted_iff apart_def)
  moreover from this have "r \<notin> snd ` set (net_open n)" by (auto simp: apart_def)
  ultimately show "net_inv m"
    using inv m by (auto simp: net_inv_def pairwise_def apart_sym)
next
  fix xs c r ys
  assume inv: "net_inv n" and m: "m = \<lparr>net_rows = net_rows n @ [r], net_open = xs @ ys\<rparr>"
    and opened: "net_open n = xs @ (c, r) # ys"
  have "one_chain (net_rows n @ [r])"
    by (rule insert_one_chain [of _ "Some (row_tenant r)" "net_rows n"])
      (use inv opened in \<open>auto simp: net_inv_def admitted_def\<close>)
  moreover have "apart r s" if "s \<in> snd ` set (xs @ ys)" for s
    using inv opened that by (auto simp: net_inv_def pairwise_def)
  ultimately show "net_inv m"
    using inv opened m by (auto simp: net_inv_def pairwise_def admitted_later)
next
  fix xs c r ys
  assume "net_inv n" "m = n\<lparr>net_open := xs @ ys\<rparr>" "net_open n = xs @ (c, r) # ys"
  then show "net_inv m" by (auto simp: net_inv_def pairwise_def)
qed

lemma net_reachable_inv: "net_reachable n \<Longrightarrow> net_inv n"
proof (induction rule: net_reachable.induct)
  case start
  show ?case by (simp add: net_inv_def)
next
  case (step n m)
  then show ?case by (blast intro: net_step_inv)
qed

text \<open>
  C35. Concurrent appends never fork a chain: after any interleaving of inserts, commits and rollbacks
  by any number of connections, the committed entries of a tenant, in the order they were inserted,
  start with one that has no predecessor, each next one names the hash of the one before, and no two
  carry the same hash.
\<close>

theorem concurrent_appends_never_fork:
  assumes "net_reachable n" and "rows_of t (net_rows n) = rs"
  shows "(rs \<noteq> [] \<longrightarrow> row_prev (hd rs) = None) \<and>
    successively (\<lambda>a b. row_prev b = Some (row_hash a)) rs \<and> distinct (map row_hash rs)"
  using net_reachable_inv [OF assms(1)] assms(2) by (auto simp: net_inv_def one_chain_def linked_def)

text \<open>
  Appends to one tenant's chain exclude each other: in no reachable state do two open
  transactions hold an entry of the same tenant.
\<close>

theorem one_open_append_per_tenant:
  assumes "net_reachable n" and "(c, r) \<in> set (net_open n)" and "(d, s) \<in> set (net_open n)"
    and "row_tenant r = row_tenant s"
  shows "r = s"
proof (rule ccontr)
  assume "r \<noteq> s"
  have inv: "net_inv n" by (rule net_reachable_inv [OF assms(1)])
  have "(r :: log_row) \<in> snd ` set (net_open n)" "s \<in> snd ` set (net_open n)" using assms(2,3) by force+
  with inv \<open>r \<noteq> s\<close> have "apart r s" "admitted (net_rows n) r" "admitted (net_rows n) s"
    by (auto simp: net_inv_def pairwise_def)
  moreover have "row_prev x = head_of (rows_of (row_tenant x) (net_rows n))" if "admitted (net_rows n) x" for x
    by (rule admitted_at_head [of x _ "Some (row_tenant x)" "net_rows n"])
      (use inv that in \<open>simp_all add: net_inv_def one_chain_def admitted_def\<close>)
  ultimately show False using assms(4) by (simp add: apart_def)
qed

section \<open>Witnesses\<close>

definition empty_db :: log_db where
  "empty_db = \<lparr>db_rows = [], db_work = [], db_tenant = None, db_held = 0, db_faults = []\<rparr>"

lemma empty_reachable: "db_reachable sha jsonb empty_db"
  by (simp add: empty_db_def db_reachable.start)

lemma sample_payload_entry:
  obtains p where "entry_payload (sample_entry prev) = Inr p"
  using sample_payload [of prev] by (auto simp: entry_payload_def sample_entry_def)

lemma sample_stale_about:
  "entry_about sample_sha (sample_entry (Some (replicate 64 0x62))) (TenantId sample_tenant) (ActorId (js ''user:1'')) sample_correlation"
proof -
  have "prev_hash_value (VStr (replicate 64 0x62)) = Inr (Some (replicate 64 0x62))"
    by (simp add: prev_hash_value_iff hex64_form_def lang_hex is_hex_def list_all_iff)
  from entry_of_sound [OF sample_entry_of [OF this]] sample_entry_about show ?thesis
    by (simp add: entry_about_def sample_entry_def)
qed

lemma fresh_in_empty: "entry_prev e \<noteq> Some (entry_hash e) \<Longrightarrow> entry_fresh e t (db_rows empty_db)"
  by (simp add: entry_fresh_def empty_db_def chains_of_def rows_of_def)

lemma empty_end [simp]: "chain_end (chains_of (db_rows empty_db) t) = None" "db_faults empty_db = []"
  by (simp_all add: empty_db_def chains_of_def rows_of_def chain_end_def)

lemma gives_back_Some: "gives_back Some p"
  by (simp add: gives_back_def)

theorem current_writer_is_served_witness:
  "\<exists>p w1. adapter_append sample_sha (table_client Some) (VInst (IDecisionLogEntry (Genuine (sample_entry None)))) empty_db =
      (Inr (receipt_of (sample_entry None) (TenantId sample_tenant)), w1) \<and>
    db_rows w1 = db_rows empty_db @ [row_of (sample_entry None) (TenantId sample_tenant) p]"
proof -
  obtain p where p: "entry_payload (sample_entry None) = Inr p" by (rule sample_payload_entry)
  have "\<exists>w1. adapter_append sample_sha (table_client Some) (VInst (IDecisionLogEntry (Genuine (sample_entry None)))) empty_db =
      (Inr (receipt_of (sample_entry None) (TenantId sample_tenant)), w1) \<and>
    db_rows w1 = db_rows empty_db @ [row_of (sample_entry None) (TenantId sample_tenant) p]"
    by (rule current_writer_is_served [OF empty_reachable _ sample_entry_about _ p gives_back_Some sample_sha_hex])
      (simp_all add: fresh_in_empty sample_entry_def)
  then show ?thesis by blast
qed

theorem stale_writer_conflicts_witness:
  "\<exists>w1. adapter_append sample_sha (table_client Some)
      (VInst (IDecisionLogEntry (Genuine (sample_entry (Some (replicate 64 0x62)))))) empty_db =
    (Inl (ChainConflict (tenant_value (TenantId sample_tenant)) (entry_id (sample_entry (Some (replicate 64 0x62))))
       (entry_prev (sample_entry (Some (replicate 64 0x62))))), w1) \<and> db_rows w1 = db_rows empty_db"
proof -
  obtain p where p: "entry_payload (sample_entry (Some (replicate 64 0x62))) = Inr p" by (rule sample_payload_entry)
  have "(0x62 :: code_unit) \<noteq> 0x61" by simp
  then have "replicate 64 (0x62 :: code_unit) \<noteq> replicate 64 0x61" by (simp only: replicate_eq_replicate) simp
  then show ?thesis
    by (intro stale_writer_conflicts [OF empty_reachable _ sample_stale_about _ p gives_back_Some sample_sha_hex])
      (simp_all add: fresh_in_empty sample_entry_def)
qed

lemma sample_append:
  obtains w1 p where "adapter_append sample_sha (table_client Some) (VInst (IDecisionLogEntry (Genuine (sample_entry None)))) empty_db =
      (Inr (receipt_of (sample_entry None) (TenantId sample_tenant)), w1)"
    "db_rows w1 = [row_of (sample_entry None) (TenantId sample_tenant) p]"
proof -
  obtain p where p: "entry_payload (sample_entry None) = Inr p" by (rule sample_payload_entry)
  have "\<exists>w1. adapter_append sample_sha (table_client Some) (VInst (IDecisionLogEntry (Genuine (sample_entry None)))) empty_db =
      (Inr (receipt_of (sample_entry None) (TenantId sample_tenant)), w1) \<and>
    db_rows w1 = db_rows empty_db @ [row_of (sample_entry None) (TenantId sample_tenant) p]"
    by (rule fresh_at_end [OF empty_reachable _ sample_entry_about _ p gives_back_Some sample_sha_hex])
      (simp_all add: fresh_in_empty sample_entry_def)
  with that show thesis by (auto simp: empty_db_def)
qed

theorem append_refines_chains_witness:
  "\<exists>w1 :: log_db. extend_chain sample_tenant (replicate 64 0x61) None (chains_of []) = Some (chains_of (db_rows w1)) \<and>
     chains_of (db_rows w1) sample_tenant = [replicate 64 0x61]"
proof -
  obtain w1 p where w1: "adapter_append sample_sha (table_client Some) (VInst (IDecisionLogEntry (Genuine (sample_entry None)))) empty_db =
      (Inr (receipt_of (sample_entry None) (TenantId sample_tenant)), w1)"
    "db_rows w1 = [row_of (sample_entry None) (TenantId sample_tenant) p]" by (rule sample_append)
  from append_refines_chains [OF empty_reachable w1(1)]
  have "extend_chain sample_tenant (replicate 64 0x61) None (chains_of []) = Some (chains_of (db_rows w1))"
    by (simp add: receipt_of_def sample_entry_def empty_db_def)
  moreover have "chains_of (db_rows w1) sample_tenant = [replicate 64 0x61]"
    by (simp add: w1(2) chains_of_def rows_of_def row_of_def sample_entry_def)
  ultimately show ?thesis by blast
qed

theorem chain_head_is_last_witness:
  "\<exists>w1 :: log_db. db_rows w1 \<noteq> [] \<and> fst (adapter_chain_head (table_client Some) (VInst (ITenantId (Genuine (TenantId sample_tenant)))) w1) =
     Inr (chain_end (chains_of (db_rows w1) sample_tenant))"
proof -
  obtain w1 p where w1: "adapter_append sample_sha (table_client Some) (VInst (IDecisionLogEntry (Genuine (sample_entry None)))) empty_db =
      (Inr (receipt_of (sample_entry None) (TenantId sample_tenant)), w1)"
    "db_rows w1 = [row_of (sample_entry None) (TenantId sample_tenant) p]" by (rule sample_append)
  let ?w = "w1\<lparr>db_faults := []\<rparr>"
  have "re_test uuid_form sample_tenant" by code_simp
  then have "genuine_tenant (VInst (ITenantId (Genuine (TenantId sample_tenant)))) = Some sample_tenant"
    by (simp add: genuine_tenant_def exact_tenant_def tenant_id_to_string_def)
  from chain_head_is_last [OF db_reachable.faults [OF db_reachable.append [OF empty_reachable w1(1)]] _ this]
  have "fst (adapter_chain_head (table_client Some) (VInst (ITenantId (Genuine (TenantId sample_tenant)))) ?w) =
     Inr (chain_end (chains_of (db_rows ?w) sample_tenant))" by simp
  moreover have "db_rows ?w \<noteq> []" using w1(2) by simp
  ultimately show ?thesis by blast
qed

definition sample_log_row :: log_row where
  "sample_log_row = row_of (sample_entry None) (TenantId sample_tenant)
     (case entry_payload (sample_entry None) of Inr p \<Rightarrow> p | Inl _ \<Rightarrow> JsonNull)"

lemma sample_net:
  "net_reachable \<lparr>net_rows = [], net_open = [(0, sample_log_row)]\<rparr>"
  "net_reachable \<lparr>net_rows = [sample_log_row], net_open = []\<rparr>"
proof -
  obtain p where p: "entry_payload (sample_entry None) = Inr p" by (rule sample_payload_entry)
  have "failed_check sample_log_row = None"
    unfolding sample_log_row_def p by simp (rule row_passes_checks [OF sample_entry_about p sample_sha_hex]; simp add: sample_entry_def)
  then have "insert_violation (Some (row_tenant sample_log_row)) [] [] sample_log_row = None"
    by (simp add: insert_admitted_iff) (simp add: sample_log_row_def row_of_def sample_entry_def)
  with net_step.insert [of 0 "\<lparr>net_rows = [], net_open = []\<rparr>" sample_log_row] net_reachable.start
  show opened: "net_reachable \<lparr>net_rows = [], net_open = [(0, sample_log_row)]\<rparr>"
    by (auto intro: net_reachable.step)
  from net_reachable.step [OF this net_step.commit [of _ "[]" 0 sample_log_row "[]"]]
  show "net_reachable \<lparr>net_rows = [sample_log_row], net_open = []\<rparr>" by simp
qed

theorem concurrent_appends_never_fork_witness:
  "row_prev sample_log_row = None \<and>
   successively (\<lambda>a b. row_prev b = Some (row_hash a)) [sample_log_row] \<and> distinct (map row_hash [sample_log_row])"
  using concurrent_appends_never_fork [OF sample_net(2), of "row_tenant sample_log_row" "[sample_log_row]"]
  by (simp add: rows_of_def)

theorem one_open_append_per_tenant_witness: "sample_log_row = sample_log_row"
  by (rule one_open_append_per_tenant [OF sample_net(1), of 0 _ 0]) simp_all

end
