(* ===== verification/Action_Contract.thy ===== *)
theory Action_Contract
  imports Action_Primitives
begin

text \<open>
  \<^verbatim>\<open>src/src/application/action-contract.mjs\<close>: the declaration of one action's shape - its kind,
  name, version, and three lists of identifiers.
\<close>

definition kind_values :: "js_string list" where
  "kind_values = [js ''command'', js ''query'']"

definition kind :: "jsval \<Rightarrow> js_string \<Rightarrow> action_kind outcome" where
  "kind value what = (case value of
     VStr s \<Rightarrow>
       if s \<notin> set kind_values then type_error (what @ js '' kind must be exactly \"command\" or \"query\"'')
       else Inr (if s = js ''command'' then KCommand else KQuery)
   | _ \<Rightarrow> type_error (what @ js '' kind must be exactly \"command\" or \"query\"''))"

definition kind_text :: "action_kind \<Rightarrow> js_string" where
  "kind_text k = (case k of KCommand \<Rightarrow> js ''command'' | KQuery \<Rightarrow> js ''query'')"

text \<open>This module's copy of the name rule: its first message names no type.\<close>

definition contract_action_name :: "jsval \<Rightarrow> js_string \<Rightarrow> js_string outcome" where
  "contract_action_name value what = (case value of
     VStr s \<Rightarrow>
       if length s > action_name_max
       then range_error (what @ js '' needs a name of at most 128 characters'')
       else if \<not> re_test action_name_form s
       then type_error (what @ js '' needs a dotted lowercase name of at least two segments'')
       else Inr s
   | _ \<Rightarrow> type_error (what @ js '' needs a primitive string name''))"

definition identifier_form :: regex where
  "identifier_form = Seq (Class [(0x41, 0x5A), (0x61, 0x7A)])
     (Star (Class [(0x41, 0x5A), (0x61, 0x7A), (0x30, 0x39), (0x5F, 0x5F)]))"

definition identifier_max :: nat where "identifier_max = 64"

definition safe_identifier :: "jsval \<Rightarrow> js_string \<Rightarrow> js_string outcome" where
  "safe_identifier value what = (case value of
     VStr s \<Rightarrow>
       if length s = 0 \<or> length s > identifier_max
       then range_error (what @ js '' needs an identifier of 1 to 64 characters'')
       else if \<not> re_test identifier_form s
       then type_error (what @ js '' needs a safe identifier: letters, digits and underscore, starting with a letter'')
       else if s \<in> set refused_keys
       then type_error (what @ js '' refuses the identifier '' @ s
              @ js '': it is a key a consumer's prototype chain would honor'')
       else Inr s
   | _ \<Rightarrow> type_error (what @ js '' admits only primitive string identifiers''))"

text \<open>The loop that names the first duplicate.\<close>

fun refuse_duplicates :: "js_string \<Rightarrow> js_string set \<Rightarrow> js_string list \<Rightarrow> unit outcome" where
  "refuse_duplicates what seen [] = Inr ()"
| "refuse_duplicates what seen (e # es) =
     (if e \<in> seen then type_error (what @ js '' admits no duplicate entry: '' @ e)
      else refuse_duplicates what (insert e seen) es)"

definition identifier_list :: "heap \<Rightarrow> jsval \<Rightarrow> js_string \<Rightarrow> js_string list outcome" where
  "identifier_list h value what = (case value of
     VObj r \<Rightarrow>
       if \<not> is_array h value \<or> obj_proto (h r) \<noteq> ArrayPrototype
       then type_error (what @ js '' must be an ordinary array'')
       else rbind (check_elements h r what [0..<array_length h r]) (\<lambda>_.
         if length (own_keys h r) + 1 \<noteq> array_length h r + 1
         then type_error (what @ js '' admits no property on an array beside its elements'')
         else rbind (rmap (\<lambda>i. safe_identifier (element_at h r i) what) [0..<array_length h r]) (\<lambda>out.
           rbind (refuse_duplicates what {} out) (\<lambda>_. Inr out)))
   | _ \<Rightarrow> type_error (what @ js '' must be an ordinary array''))"

definition contract_options :: "string list" where
  "contract_options = [''kind'', ''name'', ''version'', ''fields'', ''outcomes'', ''errorEnvelopeFields'']"

definition action_contract_new :: "heap \<Rightarrow> jsval \<Rightarrow> action_contract outcome" where
  "action_contract_new h options = (let what = js ''ActionContract'' in
     rbind (strict_options h options contract_options what) (\<lambda>r.
     rbind (read_key h r (js ''kind'')) (\<lambda>v. rbind (kind v what) (\<lambda>k.
     rbind (read_key h r (js ''name'')) (\<lambda>v. rbind (contract_action_name v what) (\<lambda>n.
     rbind (read_key h r (js ''version'')) (\<lambda>v. rbind (action_version v what) (\<lambda>ver.
     rbind (read_key h r (js ''fields'')) (\<lambda>v.
       rbind (identifier_list h v (js ''ActionContract fields'')) (\<lambda>fs.
     rbind (read_key h r (js ''outcomes'')) (\<lambda>v.
       rbind (identifier_list h v (js ''ActionContract outcomes'')) (\<lambda>os.
     rbind (read_key h r (js ''errorEnvelopeFields'')) (\<lambda>v.
       rbind (identifier_list h v (js ''ActionContract errorEnvelopeFields'')) (\<lambda>es.
     Inr \<lparr>contract_kind = k, contract_name = n, contract_version = ver, contract_fields = fs,
          contract_outcomes = os, contract_error_fields = es\<rparr>))))))))))))))"

definition action_contract_to_json :: "action_contract \<Rightarrow> json" where
  "action_contract_to_json c = JsonObj
     [(js ''kind'', JsonStr (kind_text (contract_kind c))),
      (js ''name'', JsonStr (contract_name c)),
      (js ''version'', version_json (contract_version c)),
      (js ''fields'', JsonArr (map JsonStr (contract_fields c))),
      (js ''outcomes'', JsonArr (map JsonStr (contract_outcomes c))),
      (js ''errorEnvelopeFields'', JsonArr (map JsonStr (contract_error_fields c)))]"

definition action_contract_to_string :: "action_contract \<Rightarrow> js_string" where
  "action_contract_to_string c = stringify (action_contract_to_json c)"

definition exact_action_contract :: "jsval \<Rightarrow> action_contract exact option" where
  "exact_action_contract v = (case v of VInst (IActionContract e) \<Rightarrow> Some e | _ \<Rightarrow> None)"

definition action_contract_equals :: "jsval \<Rightarrow> jsval \<Rightarrow> bool outcome" where
  "action_contract_equals this other = rendered_equals (\<lambda>c. Inr (action_contract_to_string c))
     (exact_action_contract this) (exact_action_contract other)"

section \<open>What the constructor admits\<close>

definition identifier_ok :: "js_string \<Rightarrow> bool" where
  "identifier_ok s \<longleftrightarrow> 1 \<le> length s \<and> length s \<le> 64 \<and> s \<in> lang identifier_form \<and> s \<notin> set refused_keys"

lemma kind_iff [result_simps]: "kind v w = Inr k \<longleftrightarrow> v = VStr (kind_text k)"
  by (cases v; cases k) (auto simp: kind_def kind_text_def kind_values_def js_def)

lemma contract_action_name_iff [result_simps]:
  "contract_action_name v w = Inr n \<longleftrightarrow> v = VStr n \<and> length n \<le> 128 \<and> n \<in> lang action_name_form"
  by (cases v) (auto simp: contract_action_name_def action_name_max_def re_test_lang)

lemma identifier_iff [result_simps]: "safe_identifier v w = Inr s \<longleftrightarrow> v = VStr s \<and> identifier_ok s"
  by (cases v) (auto simp: safe_identifier_def identifier_ok_def identifier_max_def re_test_lang Suc_le_eq)

lemma refuse_duplicates_iff [result_simps]:
  "refuse_duplicates w seen xs = Inr u \<longleftrightarrow> distinct xs \<and> set xs \<inter> seen = {}"
  by (induction xs arbitrary: seen) auto

lemma identifier_list_iff [result_simps]:
  "identifier_list h v w = Inr xs \<longleftrightarrow>
     (\<exists>r. v = VObj r \<and> is_array h v \<and> dense_array h r \<and> length xs = array_length h r \<and>
        (\<forall>i < array_length h r. element_at h r i = VStr (xs ! i)) \<and>
        list_all identifier_ok xs \<and> distinct xs)"
  by (cases v)
    (auto simp: identifier_list_def result_simps check_elements_ok dense_array_def
      list_all2_conv_all_nth list_all_length)

definition action_contract_wf :: "action_contract \<Rightarrow> bool" where
  "action_contract_wf c \<longleftrightarrow> length (contract_name c) \<le> 128 \<and> contract_name c \<in> lang action_name_form \<and>
     1 \<le> contract_version c \<and> contract_version c \<le> max_safe_integer \<and>
     list_all (\<lambda>xs. distinct xs \<and> list_all identifier_ok xs)
       [contract_fields c, contract_outcomes c, contract_error_fields c]"

lemma action_contract_new_wf: "action_contract_new h v = Inr c \<Longrightarrow> action_contract_wf c"
  by (auto simp: action_contract_new_def Let_def rbind_eq_Inr contract_action_name_iff
      action_version_iff identifier_list_iff action_contract_wf_def)

end
