(* ===== verification/Literals.thy ===== *)
theory Literals
  imports Policy_Model
begin

text \<open>
  Objects the code writes as literals and hands to its own constructors: a flat literal of texts and
  flags is plain data, and denotes its members in key order.
\<close>

definition atom_json :: "jsval \<Rightarrow> json" where
  "atom_json v = (case v of VStr s \<Rightarrow> JsonStr s | VBool b \<Rightarrow> JsonBool b | _ \<Rightarrow> JsonNull)"

definition is_atom :: "jsval \<Rightarrow> bool" where
  "is_atom v = (case v of VStr _ \<Rightarrow> True | VBool _ \<Rightarrow> True | VNull \<Rightarrow> True | _ \<Rightarrow> False)"

lemma atom_facts:
  "is_atom v \<Longrightarrow> plain_json h n v \<and> denoted h n v = atom_json v \<and> containers h n v = []"
  by (cases v; cases n) (auto simp: is_atom_def atom_json_def)

lemma literal_denotes:
  assumes h: "h r = plain_object ps" and keys: "distinct ks" "set ks = set (map fst ps)" "sorted (map js ks)"
    and admitted: "\<forall>k \<in> set ks. js k \<notin> set refused_keys" and atoms: "\<forall>(k, v) \<in> set ps. is_atom v"
  shows "root_is_object h (VObj r)" and "plain_tree h (VObj r)"
    and "denoted h max_depth (VObj r) = JsonObj (map (\<lambda>k. (js k, atom_json (the (map_of ps k)))) ks)"
proof -
  have depth: "max_depth = Suc 15" by (simp add: max_depth_def)
  note plain_json.simps(5) [of h 15 r, simplified, simp] denoted.simps(4) [of h 15 r, simplified, simp]
    containers.simps(1) [of h 15 r, simplified, simp]
  have no_array: "\<not> is_array h (VObj r)" using plain_object_ordinary [where h = h, OF h] by simp
  show "root_is_object h (VObj r)" using no_array by (simp add: root_is_object_def)
  have own: "own_property h r (KStr (js k)) = map_option (\<lambda>v. Data v True) (map_of ps k)" for k
    using plain_object_property [where h = h, OF h] .
  have names: "set (string_keys h r) = js ` set ks"
  proof -
    have "KStr s \<in> set (own_keys h r) \<longleftrightarrow> s \<in> js ` set ks" for s
      using plain_object_keys [where h = h, OF h] keys(2) by (auto simp: key_set_def)
    then show ?thesis by (simp add: set_string_keys set_own_keys)
  qed
  have sorted_keys: "sort (string_keys h r) = map js ks"
    by (rule sorted_distinct_set_unique) (use keys names in \<open>auto simp: distinct_map inj_on_def\<close>)
  have no_symbols: "symbol_keys h r = []"
    by (auto simp: symbol_keys_def h plain_object_def map_filter_def comp_def split: prod.splits)
  have value_of: "\<exists>v. map_of ps k = Some v \<and> is_atom v" if k: "k \<in> set ks" for k
  proof -
    obtain v where "map_of ps k = Some v" using k keys(2) by (metis list.set_map map_of_eq_None_iff not_None_eq)
    then show ?thesis using atoms map_of_SomeD by fastforce
  qed
  have member: "member_at h r (js k) = the (map_of ps k)" if "k \<in> set ks" for k
    using value_of [OF that] by (auto simp: member_at_def own data_value_def)
  have data: "enumerable_data (own_property h r (KStr (js k)))" if "k \<in> set ks" for k
    using value_of [OF that] by (auto simp: own)
  have "plain_literal h r"
    using names no_symbols admitted data by (auto simp: plain_literal_def h plain_object_def)
  moreover have "\<forall>k \<in> set (string_keys h r). plain_json h 15 (member_at h r k)"
    using names member value_of atom_facts by force
  moreover have "concat (map (\<lambda>k. containers h 15 (member_at h r (js k))) ks) = []"
    using member value_of atom_facts by force
  ultimately show "plain_tree h (VObj r)"
    using no_array unfolding plain_tree_def depth by (simp add: sorted_keys comp_def del: concat_eq_Nil_conv)
  have "map (\<lambda>k. (js k, denoted h 15 (member_at h r (js k)))) ks = map (\<lambda>k. (js k, atom_json (the (map_of ps k)))) ks"
    using member value_of atom_facts by (intro map_cong) force+
  then show "denoted h max_depth (VObj r) = JsonObj (map (\<lambda>k. (js k, atom_json (the (map_of ps k)))) ks)"
    using no_array unfolding depth by (simp add: sorted_keys comp_def)
qed

end
