(* ===== verification/Customer_Pipeline.thy ===== *)
theory Customer_Pipeline
  imports Literals Decision_Log
begin

text \<open>
  \<^verbatim>\<open>src/src/application/create-customer-pipeline.mjs\<close> and \<^verbatim>\<open>create-customer-commit-service.mjs\<close>: the one
  action \<open>customer.create@1\<close>, from the raw fields a caller sends to one of four outcomes, and the
  service that commits the allowed ones. The collaborators are state transformers over one world.
\<close>

section \<open>Options\<close>

definition required_pipeline_keys :: "string list" where
  "required_pipeline_keys = [''identity'', ''policyDecisionPoint'', ''evaluateInvariants'']"

definition guard_key :: string where "guard_key = ''auditIdentityGuard''"

definition pipeline_keys_refusal :: js_string where
  "pipeline_keys_refusal = js ''CreateCustomerPipeline options must carry exactly these keys: '' @
     comma_list required_pipeline_keys @ js '', and may optionally carry: '' @ js guard_key"

definition optional_guard :: "heap \<Rightarrow> nat \<Rightarrow> nat option outcome" where
  "optional_guard h r = (case own_property h r (KStr (js guard_key)) of
     None \<Rightarrow> Inr None
   | Some (Data v True) \<Rightarrow> (case v of
       VFun f \<Rightarrow> Inr (Some f)
     | _ \<Rightarrow> type_error (js ''CreateCustomerPipeline auditIdentityGuard, when present, must be a function''))
   | Some _ \<Rightarrow> type_error (js ''CreateCustomerPipeline auditIdentityGuard must be an own enumerable data property, never an accessor''))"

text \<open>A decision point is told by its prototype and by being frozen, which a hollow one is not.\<close>

definition genuine_decision_point :: "jsval \<Rightarrow> nat option" where
  "genuine_decision_point v = (case v of
     VInst (IService SvcDecisionPoint (Genuine n)) \<Rightarrow> Some n
   | VInst (IService SvcLoggingDecisionPoint (Genuine n)) \<Rightarrow> Some n
   | _ \<Rightarrow> None)"

text \<open>Checked, in order: the handles of the identity, the decision point, the invariants, the guard.\<close>

definition pipeline_new :: "heap \<Rightarrow> jsval \<Rightarrow> (nat exact \<times> nat \<times> nat \<times> nat option) outcome" where
  "pipeline_new h options = (case options of
     VObj r \<Rightarrow>
       if \<not> is_ordinary h options
       then type_error (js ''CreateCustomerPipeline needs exactly one ordinary options object'')
       else if list_ex (\<lambda>k. k \<notin> key_set (guard_key # required_pipeline_keys)) (own_keys h r)
         \<or> list_ex (\<lambda>k. KStr (js k) \<notin> set (own_keys h r)) required_pipeline_keys
       then type_error pipeline_keys_refusal
       else rbind (optional_guard h r) (\<lambda>guard.
         rbind (read_key h r (js ''identity'')) (\<lambda>identity.
         rbind (read_key h r (js ''policyDecisionPoint'')) (\<lambda>point.
         rbind (read_key h r (js ''evaluateInvariants'')) (\<lambda>invariants.
         case identity of
           VInst (IService SvcIdentity i) \<Rightarrow> (case genuine_decision_point point of
             None \<Rightarrow> type_error (js ''CreateCustomerPipeline policyDecisionPoint must be an exact genuine PolicyDecisionPoint or DecisionLoggingPolicyDecisionPoint instance'')
           | Some p \<Rightarrow> (case invariants of
               VFun f \<Rightarrow> Inr (i, p, f, guard)
             | _ \<Rightarrow> type_error (js ''CreateCustomerPipeline evaluateInvariants must be a function'')))
         | _ \<Rightarrow> type_error (js ''CreateCustomerPipeline identity must be an exact Identity instance'')))))
   | _ \<Rightarrow> type_error (js ''CreateCustomerPipeline needs exactly one ordinary options object''))"

section \<open>Outcomes\<close>

datatype verdict = DENY | INVALID | CROSS_TENANT_DENY

definition verdict_text :: "verdict \<Rightarrow> js_string" where
  "verdict_text v = js (case v of
     DENY \<Rightarrow> ''DENY'' | INVALID \<Rightarrow> ''INVALID'' | CROSS_TENANT_DENY \<Rightarrow> ''CROSS_TENANT_DENY'')"

datatype refusal_code = ActionSpecInvalid | InvariantViolation | IdentityMismatch | CrossTenant | PolicyDeny

definition refusal_text :: "refusal_code \<Rightarrow> js_string" where
  "refusal_text c = js (case c of
     ActionSpecInvalid \<Rightarrow> ''ACTION_SPEC_INVALID'' | InvariantViolation \<Rightarrow> ''INVARIANT_VIOLATION''
   | IdentityMismatch \<Rightarrow> ''IDENTITY_MISMATCH'' | CrossTenant \<Rightarrow> ''CROSS_TENANT_DENY''
   | PolicyDeny \<Rightarrow> ''POLICY_DENY'')"

definition error_message :: "refusal_code \<Rightarrow> js_string" where
  "error_message c = js (case c of
     ActionSpecInvalid \<Rightarrow> ''the ActionSpec did not satisfy its exact raw field shape''
   | InvariantViolation \<Rightarrow> ''the action violated a domain invariant''
   | IdentityMismatch \<Rightarrow> ''the acting identity does not match the ActionSpec actor''
   | CrossTenant \<Rightarrow> ''the acting identity does not match the ActionSpec tenant''
   | PolicyDeny \<Rightarrow> ''the policy decision point denied this action'')"

record error_envelope =
  envelope_code :: js_string
  envelope_message :: js_string
  envelope_request :: js_string
  envelope_retryable :: bool

text \<open>An outcome carries the change set or the error, never both.\<close>

datatype pipeline_outcome =
    AllowCommit js_string json
  | Refused verdict js_string error_envelope

text \<open>The two literals of \<open>errorOutcome\<close>: the options and their details.\<close>

definition error_heap :: "js_string \<Rightarrow> js_string \<Rightarrow> bool \<Rightarrow> heap" where
  "error_heap request code retryable = (\<lambda>a. if a = 0
     then plain_object [(''code'', VStr code), (''details'', VObj 1), (''cause'', VNull)]
     else plain_object [(''requestId'', VStr request), (''retryable'', VBool retryable)])"

definition error_outcome :: "verdict \<Rightarrow> js_string \<Rightarrow> refusal_code \<Rightarrow> bool \<Rightarrow> pipeline_outcome outcome" where
  "error_outcome v request c retryable =
     rbind (kernel_error_new (error_heap request (refusal_text c) retryable) (VObj 0)) (\<lambda>e.
     Inr (Refused v request \<lparr>envelope_code = error_code e, envelope_message = error_message c,
       envelope_request = request, envelope_retryable = retryable\<rparr>))"

definition invalid_outcome :: "js_string \<Rightarrow> refusal_code \<Rightarrow> pipeline_outcome outcome" where
  "invalid_outcome request c = error_outcome INVALID request c False"

section \<open>The shape of an action\<close>

definition action_spec_keys :: "string list" where
  "action_spec_keys = [''requestId'', ''actorId'', ''tenantId'', ''payload'', ''idempotencyKey'']"

record shaped =
  shaped_correlation :: correlation_id
  shaped_actor :: actor_id
  shaped_tenant :: tenant_id
  shaped_key :: idempotency_key
  shaped_payload :: jsval

text \<open>\<open>ref\<close> is the new correlation id's object identity, \<open>sha\<close> the digest of the key.\<close>

definition shape_check :: "(js_string \<Rightarrow> js_string) \<Rightarrow> heap \<Rightarrow> nat \<Rightarrow> jsval \<Rightarrow> shaped outcome" where
  "shape_check sha h ref spec =
     rbind (ordinary_options h spec action_spec_keys (js ''ActionSpec needs an ordinary object'')
       (js ''ActionSpec must carry exactly these keys: '' @ comma_list action_spec_keys)) (\<lambda>r.
     rbind (read_key h r (js ''requestId'')) (\<lambda>v. rbind (correlation_id_new ref v) (\<lambda>correlation.
     rbind (read_key h r (js ''actorId'')) (\<lambda>v. rbind (actor_id_new v) (\<lambda>actor.
     rbind (read_key h r (js ''tenantId'')) (\<lambda>v. rbind (tenant_id_new v) (\<lambda>tenant.
     rbind (read_key h r (js ''idempotencyKey'')) (\<lambda>v. rbind (idempotency_key_new sha v) (\<lambda>key.
     rbind (read_key h r (js ''payload'')) (\<lambda>payload.
     Inr \<lparr>shaped_correlation = correlation, shaped_actor = actor, shaped_tenant = tenant,
          shaped_key = key, shaped_payload = payload\<rparr>))))))))))"

text \<open>The read can run a getter, and its throw is not caught.\<close>

definition raw_request_id :: "heap \<Rightarrow> jsval \<Rightarrow> js_string outcome" where
  "raw_request_id h v = (case v of
     VObj r \<Rightarrow> if is_ordinary h v
       then rbind (read_key h r (js ''requestId'')) (\<lambda>x. Inr (case x of VStr s \<Rightarrow> s | _ \<Rightarrow> []))
       else Inr []
   | _ \<Rightarrow> Inr [])"

section \<open>What the pipeline builds\<close>

definition customer_command :: "heap \<Rightarrow> principal \<Rightarrow> shaped \<Rightarrow> command outcome" where
  "customer_command h p s = command_of h (Inr (VStr (js ''customer.create''))) (Inr (VNum (JInt 1)))
     (Inr (VInst (IPrincipal (Genuine p)))) (Inr (VInst (ICorrelationId (Genuine (shaped_correlation s)))))
     (Inr VNull) (Inr (VInst (IIdempotencyKey (Genuine (shaped_key s))))) (Inr (shaped_payload s))"

text \<open>The literals a PolicyRequest is constructed from: a resource and a context of texts.\<close>

definition request_heap :: "command \<Rightarrow> (string \<times> jsval) list \<Rightarrow> (string \<times> jsval) list \<Rightarrow> heap" where
  "request_heap c resource context = (\<lambda>a. plain_object
     (if a = 0 then [(''action'', VInst (ICommand (Genuine c))), (''resource'', VObj 1), (''context'', VObj 2)]
      else if a = 1 then resource else context))"

definition request_literal ::
    "command \<Rightarrow> (string \<times> jsval) list \<Rightarrow> (string \<times> jsval) list \<Rightarrow> policy_request outcome" where
  "request_literal c resource context = policy_request_new (request_heap c resource context) (VObj 0)"

definition customer_resource :: "principal \<Rightarrow> (string \<times> jsval) list" where
  "customer_resource p =
     [(''type'', VStr (js ''customer'')), (''tenantId'', VStr (tenant_id_to_string (principal_tenant p)))]"

definition prepared_change_set :: "command \<Rightarrow> json outcome" where
  "prepared_change_set c =
     rbind (private_read ''tenantId'' (command_principal c)) (\<lambda>p.
     rbind (private_read ''fingerprint'' (command_key c)) (\<lambda>k.
     let tenant = JsonStr (tenant_id_to_string (principal_tenant p));
         actor = JsonStr (actor_id_to_string (principal_actor p));
         correlation = JsonStr (correlation_id_to_string (command_correlation c));
         txt = (\<lambda>s. JsonStr (js s)) in
     Inr (JsonObj
       [(js ''persistenceState'', txt ''pending''),
        (js ''intents'', JsonObj
          [(js ''customer'', JsonObj [(js ''type'', txt ''customer.create''), (js ''tenantId'', tenant),
             (js ''payload'', command_payload c)]),
           (js ''audit'', JsonObj [(js ''type'', txt ''audit.append''), (js ''tenantId'', tenant),
             (js ''actorId'', actor), (js ''action'', txt ''customer.create''), (js ''correlationId'', correlation)]),
           (js ''transactionalOutbox'', JsonObj [(js ''type'', txt ''outbox.enqueue''),
             (js ''eventName'', txt ''customer.created''), (js ''tenantId'', tenant),
             (js ''correlationId'', correlation)]),
           (js ''idempotency'', JsonObj [(js ''type'', txt ''idempotency.record''), (js ''tenantId'', tenant),
             (js ''fingerprint'', JsonStr (fingerprint k)), (js ''correlationId'', correlation)])])])))"

section \<open>The run\<close>

text \<open>What the witness of a guard refusal is handed.\<close>

record guard_refusal =
  refusal_guard :: refusal_code
  refusal_principal :: principal
  refusal_correlation :: correlation_id
  refusal_key :: idempotency_key

text \<open>
  The collaborators. What the invariants answer is a value in a heap of its own; an identity is
  admitted by its prototype alone, so it may be hollow.
\<close>

record 'w pipeline =
  pl_identity :: "(unit \<Rightarrow> ('w, thrown, jsval) eff) exact"
  pl_decide :: "jsval \<Rightarrow> ('w, thrown, policy_decision) eff"
  pl_invariants :: "command \<Rightarrow> ('w, thrown, heap \<times> jsval) eff"
  pl_guard :: "(guard_refusal \<Rightarrow> ('w, thrown, unit) eff) option"

text \<open>\<open>!invariants || invariants.ok !== true\<close>, negated. Only an object has an own \<open>ok\<close>.\<close>

definition invariants_hold :: "heap \<Rightarrow> jsval \<Rightarrow> bool outcome" where
  "invariants_hold h v = (case v of
     VObj r \<Rightarrow> rbind (read_key h r (js ''ok'')) (\<lambda>x. Inr (x = VBool True))
   | _ \<Rightarrow> Inr False)"

definition refuse_at_guard ::
    "'w pipeline \<Rightarrow> verdict \<Rightarrow> refusal_code \<Rightarrow> js_string \<Rightarrow> principal \<Rightarrow> shaped \<Rightarrow> ('w, thrown, pipeline_outcome) eff" where
  "refuse_at_guard pl v c request p s =
     ebind (case pl_guard pl of
         None \<Rightarrow> eret ()
       | Some witness \<Rightarrow> witness \<lparr>refusal_guard = c, refusal_principal = p,
           refusal_correlation = shaped_correlation s, refusal_key = shaped_key s\<rparr>) (\<lambda>_.
     elift (error_outcome v request c False))"

definition same_tenant :: "principal \<Rightarrow> shaped \<Rightarrow> bool outcome" where
  "same_tenant p s = tenant_id_equals (VInst (ITenantId (principal_tenant p))) (VInst (ITenantId (Genuine (shaped_tenant s))))"

definition same_actor :: "principal \<Rightarrow> shaped \<Rightarrow> bool outcome" where
  "same_actor p s = actor_id_equals (VInst (IActorId (principal_actor p))) (VInst (IActorId (Genuine (shaped_actor s))))"

text \<open>From the policy decision on: the request, the decision, the invariants, the change set.\<close>

definition decide_and_prepare ::
    "'w pipeline \<Rightarrow> js_string \<Rightarrow> principal \<Rightarrow> command \<Rightarrow> ('w, thrown, pipeline_outcome) eff" where
  "decide_and_prepare pl request p c =
     ebind (elift (request_literal c (customer_resource p) [])) (\<lambda>q.
     ebind (pl_decide pl (VInst (IPolicyRequest (Genuine q)))) (\<lambda>d.
     if decision_effect d \<noteq> Allow then elift (error_outcome DENY request PolicyDeny False)
     else ebind (pl_invariants pl c) (\<lambda>(hv, v).
       ebind (elift (invariants_hold hv v)) (\<lambda>ok.
       if \<not> ok then elift (invalid_outcome request InvariantViolation)
       else ebind (elift (prepared_change_set c)) (\<lambda>cs. eret (AllowCommit request cs))))))"

text \<open>From the identity guard on.\<close>

definition guard_and_build ::
    "'w pipeline \<Rightarrow> heap \<Rightarrow> js_string \<Rightarrow> shaped \<Rightarrow> principal \<Rightarrow> ('w, thrown, pipeline_outcome) eff" where
  "guard_and_build pl h request s p =
     ebind (elift (same_tenant p s)) (\<lambda>tenant_ok.
     if \<not> tenant_ok then refuse_at_guard pl CROSS_TENANT_DENY CrossTenant request p s
     else ebind (elift (same_actor p s)) (\<lambda>actor_ok.
       if \<not> actor_ok then refuse_at_guard pl DENY IdentityMismatch request p s
       else (case customer_command h p s of
         Inl _ \<Rightarrow> elift (invalid_outcome request ActionSpecInvalid)
       | Inr c \<Rightarrow> decide_and_prepare pl request p c)))"

definition pipeline_run ::
    "(js_string \<Rightarrow> js_string) \<Rightarrow> 'w pipeline \<Rightarrow> heap \<Rightarrow> nat \<Rightarrow> jsval \<Rightarrow> ('w, thrown, pipeline_outcome) eff" where
  "pipeline_run sha pl h ref spec = (case shape_check sha h ref spec of
     Inl _ \<Rightarrow> elift (rbind (raw_request_id h spec) (\<lambda>request. invalid_outcome request ActionSpecInvalid))
   | Inr s \<Rightarrow>
       ebind (ebind (elift (private_read ''current'' (pl_identity pl))) (\<lambda>ask. identity_current ask ()))
         (guard_and_build pl h (correlation_id_to_string (Genuine (shaped_correlation s))) s))"

section \<open>The commit service\<close>

definition service_keys :: "string list" where
  "service_keys = [''pipeline'', ''commit'']"

definition commit_service_new :: "heap \<Rightarrow> jsval \<Rightarrow> (nat exact \<times> nat) outcome" where
  "commit_service_new h options =
     rbind (ordinary_options h options service_keys
       (js ''CreateCustomerCommitService needs exactly one ordinary options object'')
       (js ''CreateCustomerCommitService options must carry exactly these keys: '' @ comma_list service_keys)) (\<lambda>r.
     rbind (read_key h r (js ''pipeline'')) (\<lambda>pipeline.
     rbind (read_key h r (js ''commit'')) (\<lambda>commit.
     case pipeline of
       VInst (IService SvcPipeline e) \<Rightarrow> (case commit of
         VFun f \<Rightarrow> Inr (e, f)
       | _ \<Rightarrow> type_error (js ''CreateCustomerCommitService commit must be a function''))
     | _ \<Rightarrow> type_error (js ''CreateCustomerCommitService pipeline must be an exact CreateCustomerPipeline instance''))))"

record commit_context =
  ctx_request :: js_string
  ctx_tenant :: js_string
  ctx_key :: jsval

datatype service_result =
    Committed js_string jsval
  | NotCommitted verdict js_string error_envelope

text \<open>The key as the caller sent it; a getter that throws leaves it undefined.\<close>

definition captured_key :: "heap \<Rightarrow> jsval \<Rightarrow> jsval" where
  "captured_key h spec = (case spec of
     VObj r \<Rightarrow> if is_ordinary h spec
       then (case read_key h r (js ''idempotencyKey'') of Inr v \<Rightarrow> v | Inl _ \<Rightarrow> VUndef)
       else VUndef
   | _ \<Rightarrow> VUndef)"

text \<open>\<open>preparedChangeSet.intents.customer.tenantId\<close>\<close>

definition change_tenant :: "json \<Rightarrow> js_string" where
  "change_tenant cs = the_text (member (the_json (member (the_json (member cs ''intents'')) ''customer'')) ''tenantId'')"

definition service_handle ::
    "(js_string \<Rightarrow> js_string) \<Rightarrow> 'w pipeline \<Rightarrow> (json \<Rightarrow> commit_context \<Rightarrow> ('w, thrown, jsval) eff)
     \<Rightarrow> heap \<Rightarrow> nat \<Rightarrow> jsval \<Rightarrow> ('w, thrown, service_result) eff" where
  "service_handle sha pl commit h ref spec =
     ebind (pipeline_run sha pl h ref spec) (\<lambda>outcome. case outcome of
       Refused v request e \<Rightarrow> eret (NotCommitted v request e)
     | AllowCommit request cs \<Rightarrow>
         ebind (commit cs \<lparr>ctx_request = request, ctx_tenant = change_tenant cs, ctx_key = captured_key h spec\<rparr>)
           (\<lambda>receipt. eret (Committed request receipt)))"

end
