(* ===== verification/Customer_Pipeline_Facts.thy ===== *)
theory Customer_Pipeline_Facts
  imports Customer_Pipeline
begin

text \<open>
  What the pipeline's own literals come to, when it answers what, and the contract it relies on in a
  decision point.
\<close>

section \<open>Literals\<close>

definition refusal_envelope :: "js_string \<Rightarrow> refusal_code \<Rightarrow> bool \<Rightarrow> error_envelope" where
  "refusal_envelope request c retryable = \<lparr>envelope_code = refusal_text c, envelope_message = error_message c,
     envelope_request = request, envelope_retryable = retryable\<rparr>"

lemma refusal_text_ok: "checked_error_code (VStr (refusal_text c)) = Inr (refusal_text c)"
  by (cases c) (simp_all add: refusal_text_def, code_simp+)

lemma error_keys:
  "sorted (map js [''requestId'', ''retryable''])" "js ''requestId'' \<notin> set refused_keys" "js ''retryable'' \<notin> set refused_keys"
  by code_simp+

text \<open>The error of an outcome is always a well-formed \<open>KernelError\<close>: no refusal is lost to its own construction.\<close>

lemma error_outcome_answers: "error_outcome v request c retryable = Inr (Refused v request (refusal_envelope request c retryable))"
proof -
  let ?h = "error_heap request (refusal_text c) retryable"
  let ?ps = "[(''requestId'', VStr request), (''retryable'', VBool retryable)]"
  have h: "?h 0 = plain_object [(''code'', VStr (refusal_text c)), (''details'', VObj 1), (''cause'', VNull)]"
    "?h (Suc 0) = plain_object ?ps"
    by (simp_all add: error_heap_def)
  have "\<not> is_array ?h (VObj 0)" "owns_exactly ?h 0 error_options"
    using plain_object_facts [where h = ?h, OF h(1)] by (auto simp: error_options_def)
  moreover have "read_key ?h 0 (js ''code'') = Inr (VStr (refusal_text c))" "read_key ?h 0 (js ''details'') = Inr (VObj 1)"
    "read_key ?h 0 (js ''cause'') = Inr VNull"
    using read_plain_object [where h = ?h, OF h(1)] by simp_all
  moreover have "canonical_object ?h (VObj (Suc 0)) what = Inr (denoted ?h max_depth (VObj (Suc 0)))" for what
    using literal_denotes [where h = ?h and ps = ?ps and ks = "[''requestId'', ''retryable'']", OF h(2)] error_keys
    by (simp add: canonical_object_iff is_atom_def)
  ultimately show ?thesis
    by (simp add: error_outcome_def kernel_error_new_def exact_options_iff kernel_error_of_def refusal_text_ok
        refusal_envelope_def exact_options_def root_is_object_def del: One_nat_def) simp
qed

lemma resource_keys:
  "sorted (map js [''tenantId'', ''type''])" "js ''tenantId'' \<notin> set refused_keys" "js ''type'' \<notin> set refused_keys"
  by code_simp+

text \<open>A request literal asks about the command, over flat records of texts.\<close>

lemma request_literal_value:
  assumes "distinct rs" "set rs = set (map fst resource)" "sorted (map js rs)" "\<forall>k \<in> set rs. js k \<notin> set refused_keys"
    and "\<forall>(k, v) \<in> set resource. is_atom v"
    and "distinct cs" "set cs = set (map fst context)" "sorted (map js cs)" "\<forall>k \<in> set cs. js k \<notin> set refused_keys"
    and "\<forall>(k, v) \<in> set context. is_atom v"
  shows "request_literal c resource context = Inr \<lparr>request_action = ACommand c,
     request_resource = JsonObj (map (\<lambda>k. (js k, atom_json (the (map_of resource k)))) rs),
     request_context = JsonObj (map (\<lambda>k. (js k, atom_json (the (map_of context k)))) cs)\<rparr>"
proof -
  let ?h = "request_heap c resource context"
  have h: "?h 0 = plain_object [(''action'', VInst (ICommand (Genuine c))), (''resource'', VObj 1), (''context'', VObj 2)]"
    "?h 1 = plain_object resource" "?h 2 = plain_object context"
    by (simp_all add: request_heap_def)
  have "\<not> is_array ?h (VObj 0)" "owns_exactly ?h 0 request_options"
    using plain_object_facts [where h = ?h, OF h(1)] by (auto simp: request_options_def)
  moreover have "read_key ?h 0 (js ''action'') = Inr (VInst (ICommand (Genuine c)))" "read_key ?h 0 (js ''resource'') = Inr (VObj 1)"
    "read_key ?h 0 (js ''context'') = Inr (VObj 2)"
    using read_plain_object [where h = ?h, OF h(1)] by simp_all
  moreover note literal_denotes [where h = ?h, OF h(2) assms(1-5)] literal_denotes [where h = ?h, OF h(3) assms(6-10)]
  ultimately show ?thesis
    by (simp add: request_literal_def policy_request_new_def rbind_eq_Inr exact_options_iff action_value_iff
        policy_canonical_root_iff del: One_nat_def)
qed

text \<open>The request and the command of an admitted action.\<close>

definition customer_request :: "principal \<Rightarrow> command \<Rightarrow> policy_request" where
  "customer_request p c = \<lparr>request_action = ACommand c,
     request_resource = JsonObj [(js ''tenantId'', JsonStr (tenant_id_to_string (principal_tenant p))),
       (js ''type'', JsonStr (js ''customer''))],
     request_context = JsonObj []\<rparr>"

lemma customer_request_literal: "request_literal c (customer_resource p) [] = Inr (customer_request p c)"
  using request_literal_value [of "[''tenantId'', ''type'']" "customer_resource p" "[]" "[]" c] resource_keys
  by (simp add: customer_resource_def customer_request_def is_atom_def atom_json_def insert_commute)

definition customer_command_with :: "principal \<Rightarrow> shaped \<Rightarrow> json \<Rightarrow> command" where
  "customer_command_with p s j = \<lparr>command_name = js ''customer.create'', command_version = 1,
     command_principal = Genuine p, command_correlation = Genuine (shaped_correlation s), command_causation = None,
     command_key = Genuine (shaped_key s), command_payload = j\<rparr>"

lemma customer_name_ok: "js ''customer.create'' \<in> lang action_name_form"
  by (simp only: re_test_lang [symmetric]) code_simp

lemma customer_command_iff:
  "customer_command h p s = Inr c \<longleftrightarrow> (\<exists>j. canonical_object h (shaped_payload s) (js ''a Command payload'') = Inr j \<and>
     c = customer_command_with p s j)"
proof -
  have "action_name (VStr (js ''customer.create'')) (js ''Command'') = Inr (js ''customer.create'')"
    by (simp only: action_name_iff) (simp add: customer_name_ok)
  moreover have "action_version (VNum (JInt 1)) (js ''Command'') = Inr 1"
    by code_simp
  ultimately show ?thesis
    by (auto simp: customer_command_def command_of_def customer_command_with_def rbind_eq_Inr exactly_def
        exact_principal_def exact_correlation_def exact_idempotency_key_def optional_causation_def)
qed

text \<open>The change set of a command, for the tenant and the actor of its principal.\<close>

definition change_set_of :: "tenant_id \<Rightarrow> actor_id \<Rightarrow> shaped \<Rightarrow> json \<Rightarrow> json" where
  "change_set_of t a s payload =
    (let tenant = JsonStr (tenant_value t); correlation = JsonStr (correlation_value (shaped_correlation s));
         txt = (\<lambda>s. JsonStr (js s)) in
     JsonObj
       [(js ''persistenceState'', txt ''pending''),
        (js ''intents'', JsonObj
          [(js ''customer'', JsonObj [(js ''type'', txt ''customer.create''), (js ''tenantId'', tenant),
             (js ''payload'', payload)]),
           (js ''audit'', JsonObj [(js ''type'', txt ''audit.append''), (js ''tenantId'', tenant),
             (js ''actorId'', JsonStr (actor_value a)), (js ''action'', txt ''customer.create''),
             (js ''correlationId'', correlation)]),
           (js ''transactionalOutbox'', JsonObj [(js ''type'', txt ''outbox.enqueue''),
             (js ''eventName'', txt ''customer.created''), (js ''tenantId'', tenant),
             (js ''correlationId'', correlation)]),
           (js ''idempotency'', JsonObj [(js ''type'', txt ''idempotency.record''), (js ''tenantId'', tenant),
             (js ''fingerprint'', JsonStr (fingerprint (shaped_key s))), (js ''correlationId'', correlation)])])])"

lemma prepared_change_set_value:
  assumes "principal_tenant p = Genuine t" and "principal_actor p = Genuine a"
  shows "prepared_change_set (customer_command_with p s j) = Inr (change_set_of t a s j)"
  using assms by (simp add: prepared_change_set_def customer_command_with_def change_set_of_def Let_def
      tenant_id_to_string_def actor_id_to_string_def correlation_id_to_string_def)

lemma change_set_tenant: "change_tenant (change_set_of t a s j) = tenant_value t"
  by (simp add: change_tenant_def change_set_of_def Let_def member_def members_def the_json_def the_text_def text_of_def)

section \<open>The guard\<close>

lemma same_tenant_iff: "same_tenant p s = Inr b \<longleftrightarrow> (\<exists>t. principal_tenant p = Genuine t \<and> (b \<longleftrightarrow> t = shaped_tenant s))"
  by (cases "principal_tenant p")
    (auto simp: same_tenant_def tenant_id_equals_def exact_tenant_def exact_equals_def intro: tenant_id.expand)

lemma same_actor_iff: "same_actor p s = Inr b \<longleftrightarrow> (\<exists>a. principal_actor p = Genuine a \<and> (b \<longleftrightarrow> a = shaped_actor s))"
  by (cases "principal_actor p")
    (auto simp: same_actor_def actor_id_equals_def exact_actor_def exact_equals_def intro: actor_id.expand)

section \<open>The table of answers\<close>

definition request_of :: "shaped \<Rightarrow> js_string" where
  "request_of s = correlation_value (shaped_correlation s)"

definition identity_answers :: "'w pipeline \<Rightarrow> 'w \<Rightarrow> principal \<Rightarrow> 'w \<Rightarrow> bool" where
  "identity_answers pl w p w1 \<longleftrightarrow> (\<exists>ask. pl_identity pl = Genuine ask \<and> ask () w = (Inr (VInst (IPrincipal (Genuine p))), w1))"

definition guard_witnessed :: "'w pipeline \<Rightarrow> refusal_code \<Rightarrow> principal \<Rightarrow> shaped \<Rightarrow> 'w \<Rightarrow> 'w \<Rightarrow> bool" where
  "guard_witnessed pl c p s w w1 \<longleftrightarrow> (case pl_guard pl of
     None \<Rightarrow> w1 = w
   | Some witness \<Rightarrow> witness \<lparr>refusal_guard = c, refusal_principal = p,
       refusal_correlation = shaped_correlation s, refusal_key = shaped_key s\<rparr> w = (Inr (), w1))"

definition payload_json :: "heap \<Rightarrow> shaped \<Rightarrow> json option" where
  "payload_json h s = (case canonical_object h (shaped_payload s) (js ''a Command payload'') of Inl _ \<Rightarrow> None | Inr j \<Rightarrow> Some j)"

abbreviation refused_with :: "verdict \<Rightarrow> refusal_code \<Rightarrow> shaped \<Rightarrow> pipeline_outcome" where
  "refused_with v c s \<equiv> Refused v (request_of s) (refusal_envelope (request_of s) c False)"

text \<open>
  What is answered, after which collaborators, in the order of the stages. A collaborator a rule does
  not mention was not asked.
\<close>

inductive pipeline_answers ::
    "(js_string \<Rightarrow> js_string) \<Rightarrow> 'w pipeline \<Rightarrow> heap \<Rightarrow> nat \<Rightarrow> jsval \<Rightarrow> 'w \<Rightarrow> pipeline_outcome \<Rightarrow> 'w \<Rightarrow> bool"
  for sha pl h ref spec w where
  malformed: "shape_check sha h ref spec = Inl e \<Longrightarrow> raw_request_id h spec = Inr request \<Longrightarrow>
    pipeline_answers sha pl h ref spec w (Refused INVALID request (refusal_envelope request ActionSpecInvalid False)) w"
| foreign_tenant: "shape_check sha h ref spec = Inr s \<Longrightarrow> identity_answers pl w p wi \<Longrightarrow>
    principal_tenant p = Genuine t \<Longrightarrow> t \<noteq> shaped_tenant s \<Longrightarrow> guard_witnessed pl CrossTenant p s wi w1 \<Longrightarrow>
    pipeline_answers sha pl h ref spec w (refused_with CROSS_TENANT_DENY CrossTenant s) w1"
| foreign_actor: "shape_check sha h ref spec = Inr s \<Longrightarrow> identity_answers pl w p wi \<Longrightarrow>
    principal_tenant p = Genuine (shaped_tenant s) \<Longrightarrow> principal_actor p = Genuine a \<Longrightarrow> a \<noteq> shaped_actor s \<Longrightarrow>
    guard_witnessed pl IdentityMismatch p s wi w1 \<Longrightarrow>
    pipeline_answers sha pl h ref spec w (refused_with DENY IdentityMismatch s) w1"
| bad_payload: "shape_check sha h ref spec = Inr s \<Longrightarrow> identity_answers pl w p w1 \<Longrightarrow>
    principal_tenant p = Genuine (shaped_tenant s) \<Longrightarrow> principal_actor p = Genuine (shaped_actor s) \<Longrightarrow>
    payload_json h s = None \<Longrightarrow>
    pipeline_answers sha pl h ref spec w (refused_with INVALID ActionSpecInvalid s) w1"
| policy_denies: "shape_check sha h ref spec = Inr s \<Longrightarrow> identity_answers pl w p wi \<Longrightarrow>
    principal_tenant p = Genuine (shaped_tenant s) \<Longrightarrow> principal_actor p = Genuine (shaped_actor s) \<Longrightarrow>
    payload_json h s = Some j \<Longrightarrow> c = customer_command_with p s j \<Longrightarrow>
    pl_decide pl (VInst (IPolicyRequest (Genuine (customer_request p c)))) wi = (Inr d, w1) \<Longrightarrow> decision_effect d = Deny \<Longrightarrow>
    pipeline_answers sha pl h ref spec w (refused_with DENY PolicyDeny s) w1"
| violated: "shape_check sha h ref spec = Inr s \<Longrightarrow> identity_answers pl w p wi \<Longrightarrow>
    principal_tenant p = Genuine (shaped_tenant s) \<Longrightarrow> principal_actor p = Genuine (shaped_actor s) \<Longrightarrow>
    payload_json h s = Some j \<Longrightarrow> c = customer_command_with p s j \<Longrightarrow>
    pl_decide pl (VInst (IPolicyRequest (Genuine (customer_request p c)))) wi = (Inr d, wd) \<Longrightarrow> decision_effect d = Allow \<Longrightarrow>
    pl_invariants pl c wd = (Inr (hv, v), w1) \<Longrightarrow> invariants_hold hv v = Inr False \<Longrightarrow>
    pipeline_answers sha pl h ref spec w (refused_with INVALID InvariantViolation s) w1"
| allowed: "shape_check sha h ref spec = Inr s \<Longrightarrow> identity_answers pl w p wi \<Longrightarrow>
    principal_tenant p = Genuine (shaped_tenant s) \<Longrightarrow> principal_actor p = Genuine (shaped_actor s) \<Longrightarrow>
    payload_json h s = Some j \<Longrightarrow> c = customer_command_with p s j \<Longrightarrow>
    pl_decide pl (VInst (IPolicyRequest (Genuine (customer_request p c)))) wi = (Inr d, wd) \<Longrightarrow> decision_effect d = Allow \<Longrightarrow>
    pl_invariants pl c wd = (Inr (hv, v), w1) \<Longrightarrow> invariants_hold hv v = Inr True \<Longrightarrow>
    pipeline_answers sha pl h ref spec w
      (AllowCommit (request_of s) (change_set_of (shaped_tenant s) (shaped_actor s) s j)) w1"

inductive_cases allowedE: "pipeline_answers sha pl h ref spec w (AllowCommit request cs) w1"

lemma identity_step:
  "ebind (elift (private_read ''current'' (pl_identity pl))) (\<lambda>ask. identity_current ask ()) w = (Inr p, w1) \<longleftrightarrow>
     identity_answers pl w p w1"
  by (cases "pl_identity pl")
    (auto simp: identity_answers_def identity_current_def ebind_Inr_iff genuine_principal_iff split: option.splits)

lemma guard_step:
  "refuse_at_guard pl v c (request_of s) p s w = (Inr answer, w1) \<longleftrightarrow>
     guard_witnessed pl c p s w w1 \<and> answer = refused_with v c s"
  by (auto simp: refuse_at_guard_def guard_witnessed_def ebind_Inr_iff error_outcome_answers split: option.splits)

lemma decided_step:
  assumes "principal_tenant p = Genuine (shaped_tenant s)" "principal_actor p = Genuine (shaped_actor s)"
    and c: "c = customer_command_with p s j"
  shows "decide_and_prepare pl (request_of s) p c w = (Inr answer, w1) \<longleftrightarrow>
    (\<exists>d wd. pl_decide pl (VInst (IPolicyRequest (Genuine (customer_request p c)))) w = (Inr d, wd) \<and>
       (if decision_effect d = Deny then answer = refused_with DENY PolicyDeny s \<and> w1 = wd
        else \<exists>hv v ok. pl_invariants pl c wd = (Inr (hv, v), w1) \<and> invariants_hold hv v = Inr ok \<and>
          answer = (if ok then AllowCommit (request_of s) (change_set_of (shaped_tenant s) (shaped_actor s) s j)
            else refused_with INVALID InvariantViolation s)))"
proof -
  have "decision_effect d = Deny \<longleftrightarrow> decision_effect d \<noteq> Allow" for d by (cases "decision_effect d") auto
  then show ?thesis
    by (auto simp: decide_and_prepare_def ebind_Inr_iff customer_request_literal error_outcome_answers
        invalid_outcome_def c prepared_change_set_value [OF assms(1,2)] ex_bool_eq split: if_splits; blast)+
qed

lemma guarded_step:
  "guard_and_build pl h (request_of s) s p w = (Inr answer, w1) \<longleftrightarrow> (\<exists>t. principal_tenant p = Genuine t \<and>
     (if t \<noteq> shaped_tenant s then guard_witnessed pl CrossTenant p s w w1 \<and> answer = refused_with CROSS_TENANT_DENY CrossTenant s
      else \<exists>a. principal_actor p = Genuine a \<and>
        (if a \<noteq> shaped_actor s then guard_witnessed pl IdentityMismatch p s w w1 \<and> answer = refused_with DENY IdentityMismatch s
         else (case payload_json h s of
           None \<Rightarrow> answer = refused_with INVALID ActionSpecInvalid s \<and> w1 = w
         | Some j \<Rightarrow> decide_and_prepare pl (request_of s) p (customer_command_with p s j) w = (Inr answer, w1)))))"
proof (cases "principal_tenant p")
  case Hollow
  then have "\<not> is_ok (same_tenant p s)" using same_tenant_iff [of p s] by (auto simp: is_ok_iff)
  then obtain e where "same_tenant p s = Inl e" by (cases "same_tenant p s") auto
  with Hollow show ?thesis by (simp add: guard_and_build_def)
next
  case (Genuine t)
  then have tenant: "same_tenant p s = Inr (t = shaped_tenant s)" by (simp add: same_tenant_iff)
  show ?thesis
  proof (cases "t = shaped_tenant s \<and> principal_actor p \<noteq> Hollow")
    case False
    moreover have "\<not> is_ok (same_actor p s)" if "principal_actor p = Hollow"
      using that same_actor_iff [of p s] by (auto simp: is_ok_iff)
    ultimately show ?thesis using Genuine tenant
      by (cases "same_actor p s") (auto simp: guard_and_build_def guard_step)
  next
    case True
    then obtain a where a: "principal_actor p = Genuine a" by (cases "principal_actor p") auto
    then have actor: "same_actor p s = Inr (a = shaped_actor s)" by (simp add: same_actor_iff)
    have "case payload_json h s of None \<Rightarrow> (\<exists>e. customer_command h p s = Inl e)
      | Some j \<Rightarrow> customer_command h p s = Inr (customer_command_with p s j)"
    proof (cases "canonical_object h (shaped_payload s) (js ''a Command payload'')")
      case (Inl e)
      then have "\<not> is_ok (customer_command h p s)" by (auto simp: is_ok_iff customer_command_iff)
      with Inl show ?thesis by (cases "customer_command h p s") (auto simp: payload_json_def)
    next
      case (Inr j)
      then show ?thesis by (simp add: payload_json_def customer_command_iff)
    qed
    then show ?thesis using True Genuine tenant a actor
      by (auto simp: guard_and_build_def guard_step invalid_outcome_def error_outcome_answers split: option.splits)
  qed
qed

lemma decided_answers:
  assumes "shape_check sha h ref spec = Inr s" "identity_answers pl w p wi"
    and ids: "principal_tenant p = Genuine (shaped_tenant s)" "principal_actor p = Genuine (shaped_actor s)"
    and "payload_json h s = Some j"
    and "decide_and_prepare pl (request_of s) p (customer_command_with p s j) wi = (Inr answer, w1)"
  shows "pipeline_answers sha pl h ref spec w answer w1"
proof -
  obtain d wd where d: "pl_decide pl (VInst (IPolicyRequest (Genuine (customer_request p (customer_command_with p s j))))) wi = (Inr d, wd)"
    and rest: "if decision_effect d = Deny then answer = refused_with DENY PolicyDeny s \<and> w1 = wd
        else \<exists>hv v ok. pl_invariants pl (customer_command_with p s j) wd = (Inr (hv, v), w1) \<and> invariants_hold hv v = Inr ok \<and>
          answer = (if ok then AllowCommit (request_of s) (change_set_of (shaped_tenant s) (shaped_actor s) s j)
            else refused_with INVALID InvariantViolation s)"
    using assms(6) unfolding decided_step [OF ids refl] by blast
  show ?thesis
  proof (cases "decision_effect d")
    case Allow
    with rest obtain hv v ok where "pl_invariants pl (customer_command_with p s j) wd = (Inr (hv, v), w1)"
      "invariants_hold hv v = Inr ok" "answer = (if ok then AllowCommit (request_of s) (change_set_of (shaped_tenant s) (shaped_actor s) s j)
            else refused_with INVALID InvariantViolation s)"
      by auto
    then show ?thesis
      using pipeline_answers.violated [OF assms(1-5) refl d Allow] pipeline_answers.allowed [OF assms(1-5) refl d Allow]
      by (cases ok) simp_all
  next
    case Deny
    with rest pipeline_answers.policy_denies [OF assms(1-5) refl d] show ?thesis by simp
  qed
qed

lemma pipeline_answers_iff:
  "pipeline_run sha pl h ref spec w = (Inr answer, w1) \<longleftrightarrow> pipeline_answers sha pl h ref spec w answer w1"
proof (cases "shape_check sha h ref spec")
  case (Inl e)
  then show ?thesis
    by (auto simp: pipeline_run_def invalid_outcome_def error_outcome_answers rbind_eq_Inr
        intro: pipeline_answers.malformed elim!: pipeline_answers.cases)
next
  case (Inr s)
  have request: "correlation_id_to_string (Genuine (shaped_correlation s)) = request_of s"
    by (simp add: request_of_def correlation_id_to_string_def)
  have run: "pipeline_run sha pl h ref spec w = (Inr answer, w1) \<longleftrightarrow>
      (\<exists>p wi. identity_answers pl w p wi \<and> guard_and_build pl h (request_of s) s p wi = (Inr answer, w1))" for answer w1
    by (simp add: pipeline_run_def Inr request ebind_Inr_iff [of _ "guard_and_build pl h (request_of s) s"] identity_step)
  show ?thesis
  proof
    assume "pipeline_run sha pl h ref spec w = (Inr answer, w1)"
    then obtain p wi where p: "identity_answers pl w p wi"
      and rest: "guard_and_build pl h (request_of s) s p wi = (Inr answer, w1)" unfolding run by blast
    from rest [unfolded guarded_step] show "pipeline_answers sha pl h ref spec w answer w1"
      by (auto split: if_splits option.splits intro: pipeline_answers.intros(2-4) [OF Inr p] decided_answers [OF Inr p])
  next
    assume "pipeline_answers sha pl h ref spec w answer w1"
    then show "pipeline_run sha pl h ref spec w = (Inr answer, w1)"
    proof (cases rule: pipeline_answers.cases)
      case (policy_denies s' p wi j c d)
      with Inr show ?thesis unfolding run by (intro exI [of _ p] exI [of _ wi]) (simp add: guarded_step decided_step ex_bool_eq)
    next
      case (violated s' p wi j c d wd hv v)
      with Inr show ?thesis unfolding run by (intro exI [of _ p] exI [of _ wi]) (simp add: guarded_step decided_step ex_bool_eq)
    next
      case (allowed s' p wi j c d wd hv v)
      with Inr show ?thesis unfolding run by (intro exI [of _ p] exI [of _ wi]) (simp add: guarded_step decided_step ex_bool_eq)
    qed (auto simp: Inr run guarded_step)
  qed
qed

text \<open>
  C4. The pipeline's answers are exactly those of the table, in both directions: what comes first in
  the order of the stages decides, only the stages before it were asked, and the error it names is
  that stage's. Everything else it does is to throw.
\<close>

theorem pipeline_answer_table:
  "pipeline_run sha pl h ref spec w = (Inr answer, w1) \<longleftrightarrow> pipeline_answers sha pl h ref spec w answer w1"
  by (rule pipeline_answers_iff)

end
