(* ===== verification/Unit_Of_Work.thy ===== *)
theory Unit_Of_Work
  imports Ports Transactions
begin

text \<open>
  \<^verbatim>\<open>src/src/application/unit-of-work.mjs\<close>. A run is a state transformer over the instance - its one
  private flag - and the world its collaborators live in, so a body may call the same instance again.
  The second half is the same operation as a state machine whose steps are the points where it awaits:
  any number of callers, in any interleaving.
\<close>

section \<open>Construction\<close>

definition port_keys :: "string list" where
  "port_keys = [''begin'', ''commit'', ''rollback'']"

definition port_of :: "heap \<Rightarrow> jsval \<Rightarrow> nat outcome" where
  "port_of h v =
     (if \<not> root_is_object h v then type_error (js ''UnitOfWork needs a port object'')
      else case v of
        VObj r \<Rightarrow> if owns_exactly h r port_keys then Inr r
          else type_error (js ''UnitOfWork takes exactly these port keys: '' @ comma_list port_keys)
      | _ \<Rightarrow> type_error (js ''UnitOfWork takes exactly these port keys: '' @ comma_list port_keys))"

definition declared_function :: "jsval \<Rightarrow> string \<Rightarrow> nat outcome" where
  "declared_function v key = (case v of
     VFun f \<Rightarrow> Inr f | _ \<Rightarrow> type_error (js ''UnitOfWork needs a function '' @ js key))"

definition unit_of_work_new :: "heap \<Rightarrow> jsval \<Rightarrow> (nat \<times> nat \<times> nat) outcome" where
  "unit_of_work_new h v = rbind (port_of h v) (\<lambda>r.
     rbind (read_key h r (js ''begin'')) (\<lambda>x. rbind (declared_function x ''begin'') (\<lambda>b.
     rbind (read_key h r (js ''commit'')) (\<lambda>x. rbind (declared_function x ''commit'') (\<lambda>c.
     rbind (read_key h r (js ''rollback'')) (\<lambda>x. rbind (declared_function x ''rollback'') (\<lambda>k.
     Inr (b, c, k))))))))"

section \<open>Running a body\<close>

record ('w, 's) uow_port =
  uow_begin :: "('w, thrown, 's) eff"
  uow_commit :: "'s \<Rightarrow> ('w, thrown, unit) eff"
  uow_rollback :: "'s \<Rightarrow> ('w, thrown, unit) eff"

record 'w uow =
  in_flight :: bool
  outside :: 'w

text \<open>The \<open>try\<close> block of \<open>run\<close>: begin, the body, and commit, or rollback and the body's own failure.\<close>

definition scoped ::
    "('u, 's) uow_port \<Rightarrow> ('s \<Rightarrow> ('u, thrown, 'a) eff) \<Rightarrow> ('u, thrown, 'a) eff" where
  "scoped p body = ebind (uow_begin p) (\<lambda>scope.
     ebind (ecatch (body scope) (\<lambda>failure. ebind (quietly (uow_rollback p scope)) (\<lambda>_. ethrow failure))) (\<lambda>value.
     ebind (uow_commit p scope) (\<lambda>_. eret value)))"

text \<open>\<open>run\<close>: the body is a function or not (\<open>None\<close>), and both refusals leave the flag alone.\<close>

definition uow_run ::
    "('w uow, 's) uow_port \<Rightarrow> ('s \<Rightarrow> ('w uow, thrown, 'a) eff) option \<Rightarrow> ('w uow, thrown, 'a) eff" where
  "uow_run p body = (case body of
     None \<Rightarrow> ethrow (TypeError (js ''UnitOfWork.run needs a function body''))
   | Some f \<Rightarrow> (\<lambda>w.
       if in_flight w then (Inl (TypeError (js ''UnitOfWork.run is already in flight on this unit of work'')), w)
       else efinally (scoped p f) (\<lambda>u. (Inr (), u\<lparr>in_flight := False\<rparr>)) (w\<lparr>in_flight := True\<rparr>)))"

text \<open>A collaborator that lives in the world outside the instance.\<close>

definition out :: "('w, 'e, 'a) eff \<Rightarrow> ('w uow, 'e, 'a) eff" where
  "out m u = (case m (outside u) of (r, w) \<Rightarrow> (r, u\<lparr>outside := w\<rparr>))"

definition out_port :: "('w, 's) uow_port \<Rightarrow> ('w uow, 's) uow_port" where
  "out_port p = \<lparr>uow_begin = out (uow_begin p), uow_commit = (\<lambda>s. out (uow_commit p s)),
     uow_rollback = (\<lambda>s. out (uow_rollback p s))\<rparr>"

lemma out_apply: "out m u = (fst (m (outside u)), u\<lparr>outside := snd (m (outside u))\<rparr>)"
  by (simp add: out_def case_prod_unfold)

lemma scoped_out:
  "scoped (out_port p) (\<lambda>s. out (body s)) u =
     (fst (scoped p body (outside u)), u\<lparr>outside := snd (scoped p body (outside u))\<rparr>)"
  by (simp add: scoped_def out_port_def ebind_apply ecatch_apply quietly_def out_apply split: prod.splits sum.splits)

text \<open>An idle instance whose collaborators live outside runs the scope there and is idle again.\<close>

lemma uow_run_out:
  "\<not> in_flight u \<Longrightarrow> uow_run (out_port p) (Some (\<lambda>s. out (body s))) u =
     (fst (scoped p body (outside u)), u\<lparr>outside := snd (scoped p body (outside u))\<rparr>)"
  by (cases u) (simp add: uow_run_def efinally_apply scoped_out)

section \<open>The calls a run makes\<close>

datatype 's call = AskBegin | AskBody 's | AskCommit 's | AskRollback 's

text \<open>A world that records each call before it is made.\<close>

type_synonym ('w, 's) recorded = "'w \<times> 's call list"

definition record_call :: "'s call \<Rightarrow> ('w, 'e, 'a) eff \<Rightarrow> (('w, 's) recorded, 'e, 'a) eff" where
  "record_call c m = (\<lambda>(w, tr). case m w of (r, w1) \<Rightarrow> (r, (w1, tr @ [c])))"

definition recording :: "('w, 's) uow_port \<Rightarrow> (('w, 's) recorded, 's) uow_port" where
  "recording p = \<lparr>uow_begin = record_call AskBegin (uow_begin p),
     uow_commit = (\<lambda>s. record_call (AskCommit s) (uow_commit p s)),
     uow_rollback = (\<lambda>s. record_call (AskRollback s) (uow_rollback p s))\<rparr>"

definition recorded_run ::
    "('w, 's) uow_port \<Rightarrow> ('s \<Rightarrow> ('w, thrown, 'a) eff) \<Rightarrow> ('w, 's) recorded uow
     \<Rightarrow> 'a outcome \<times> ('w, 's) recorded uow" where
  "recorded_run p body = uow_run (out_port (recording p)) (Some (\<lambda>s. out (record_call (AskBody s) (body s))))"

text \<open>
  A run calls its collaborators in one order and answers accordingly. On an idle instance it
  either asks begin alone and fails as begin failed; or begin, the body and rollback, and fails as the
  body failed, whatever rollback does; or begin, the body and commit, and answers the body's value if
  commit succeeds and commit's failure if not. The same scope goes to all of them, and the instance is
  idle again afterwards. On an instance already running, nothing is called at all.
\<close>

theorem run_call_order:
  "case recorded_run p body u of (res, u1) \<Rightarrow>
     if in_flight u then u1 = u \<and> \<not> is_ok res
     else \<not> in_flight u1 \<and> (\<exists>tr. snd (outside u1) = snd (outside u) @ tr \<and>
       (case uow_begin p (fst (outside u)) of
          (Inl e, w1) \<Rightarrow> res = Inl e \<and> tr = [AskBegin]
        | (Inr s, w1) \<Rightarrow> (case body s w1 of
            (Inl e, w2) \<Rightarrow> res = Inl e \<and> tr = [AskBegin, AskBody s, AskRollback s]
          | (Inr x, w2) \<Rightarrow> tr = [AskBegin, AskBody s, AskCommit s] \<and>
              (case uow_commit p s w2 of (Inl e, _) \<Rightarrow> res = Inl e | (Inr _, _) \<Rightarrow> res = Inr x))))"
proof (cases "in_flight u")
  case True
  then show ?thesis by (simp add: recorded_run_def uow_run_def)
next
  case False
  obtain w tr where o: "outside u = (w, tr)" by (cases "outside u")
  have run: "recorded_run p body u =
      (fst (scoped (recording p) (\<lambda>s. record_call (AskBody s) (body s)) (w, tr)),
       u\<lparr>outside := snd (scoped (recording p) (\<lambda>s. record_call (AskBody s) (body s)) (w, tr))\<rparr>)"
    using uow_run_out [OF False] by (simp add: recorded_run_def o)
  show ?thesis
    unfolding run using False
    by (auto simp: o scoped_def recording_def record_call_def ebind_apply ecatch_apply quietly_def
        split: prod.splits sum.splits)
qed

section \<open>Many callers\<close>

text \<open>
  Where a run waits: for begin, for the body, for commit, for rollback. Everything between two awaits
  happens in one step. A call that finds the flag up settles at once, as refused.
\<close>

datatype phase = Beginning | InBody | Committing | RollingBack

datatype event = Refused nat | Waits nat phase | Settled nat bool

record uow_sys =
  flag :: bool
  phase_of :: "nat \<rightharpoonup> phase" \<comment> \<open>the calls that have not settled\<close>
  events :: "event list"

definition idle_sys :: uow_sys where
  "idle_sys = \<lparr>flag = False, phase_of = Map.empty, events = []\<rparr>"

definition advance :: "nat \<Rightarrow> phase \<Rightarrow> uow_sys \<Rightarrow> uow_sys" where
  "advance c ph s = s\<lparr>phase_of := (phase_of s)(c \<mapsto> ph), events := events s @ [Waits c ph]\<rparr>"

definition settle :: "nat \<Rightarrow> bool \<Rightarrow> uow_sys \<Rightarrow> uow_sys" where
  "settle c ok s = s\<lparr>flag := False, phase_of := (phase_of s)(c := None), events := events s @ [Settled c ok]\<rparr>"

inductive uow_step :: "nat \<Rightarrow> uow_sys \<Rightarrow> uow_sys \<Rightarrow> bool" where
  refused: "phase_of s c = None \<Longrightarrow> flag s \<Longrightarrow>
    uow_step c s (s\<lparr>events := events s @ [Refused c]\<rparr>)"
| called: "phase_of s c = None \<Longrightarrow> \<not> flag s \<Longrightarrow>
    uow_step c s (advance c Beginning (s\<lparr>flag := True\<rparr>))"
| begun: "phase_of s c = Some Beginning \<Longrightarrow> uow_step c s (advance c InBody s)"
| begin_failed: "phase_of s c = Some Beginning \<Longrightarrow> uow_step c s (settle c False s)"
| answered: "phase_of s c = Some InBody \<Longrightarrow> uow_step c s (advance c Committing s)"
| threw: "phase_of s c = Some InBody \<Longrightarrow> uow_step c s (advance c RollingBack s)"
| committed: "phase_of s c = Some Committing \<Longrightarrow> uow_step c s (settle c True s)"
| commit_failed: "phase_of s c = Some Committing \<Longrightarrow> uow_step c s (settle c False s)"
| rolled_back: "phase_of s c = Some RollingBack \<Longrightarrow> uow_step c s (settle c False s)"

inductive uow_reachable :: "uow_sys \<Rightarrow> bool" where
  start: "uow_reachable idle_sys"
| step: "uow_reachable s \<Longrightarrow> uow_step c s t \<Longrightarrow> uow_reachable t"


text \<open>
  The specification: a history of events read from left to right, one run at a time. \<open>None\<close> is a
  history no single-threaded caller could have produced.
\<close>

definition follows :: "(nat \<times> phase) option \<Rightarrow> event \<Rightarrow> (nat \<times> phase) option option" where
  "follows cur e = (case e of
     Refused c \<Rightarrow> (case cur of Some (d, _) \<Rightarrow> if c \<noteq> d then Some cur else None | None \<Rightarrow> None)
   | Waits c ph \<Rightarrow>
       (if cur = (case ph of Beginning \<Rightarrow> None | InBody \<Rightarrow> Some (c, Beginning) | _ \<Rightarrow> Some (c, InBody))
        then Some (Some (c, ph)) else None)
   | Settled c ok \<Rightarrow>
       (if cur = Some (c, Committing) \<or> \<not> ok \<and> (cur = Some (c, Beginning) \<or> cur = Some (c, RollingBack))
        then Some None else None))"

fun replay :: "(nat \<times> phase) option \<Rightarrow> event list \<Rightarrow> (nat \<times> phase) option option" where
  "replay cur [] = Some cur"
| "replay cur (e # es) = (case follows cur e of None \<Rightarrow> None | Some nxt \<Rightarrow> replay nxt es)"

lemma replay_append: "replay cur (es @ fs) = (case replay cur es of None \<Rightarrow> None | Some m \<Rightarrow> replay m fs)"
  by (induction es arbitrary: cur) (auto split: option.splits)

text \<open>The one run in flight, if any.\<close>

definition uow_inv :: "uow_sys \<Rightarrow> (nat \<times> phase) option \<Rightarrow> bool" where
  "uow_inv s cur \<longleftrightarrow> replay None (events s) = Some cur \<and> flag s = (cur \<noteq> None) \<and>
     phase_of s = (case cur of None \<Rightarrow> Map.empty | Some (c, ph) \<Rightarrow> [c \<mapsto> ph])"

lemma uow_step_inv:
  assumes "uow_step c s t" and "uow_inv s cur"
  shows "\<exists>nxt. uow_inv t nxt"
  using assms(1)
proof (cases rule: uow_step.cases)
  case refused
  with assms(2) show ?thesis
    by (intro exI [of _ cur]) (auto simp: uow_inv_def replay_append follows_def split: option.splits)
next
  case called
  with assms(2) show ?thesis
    by (intro exI [of _ "Some (c, Beginning)"]) (auto simp: uow_inv_def advance_def replay_append follows_def)
next
  case begun
  with assms(2) show ?thesis
    by (intro exI [of _ "Some (c, InBody)"])
      (auto simp: uow_inv_def advance_def replay_append follows_def split: option.splits if_splits)
next
  case answered
  with assms(2) show ?thesis
    by (intro exI [of _ "Some (c, Committing)"])
      (auto simp: uow_inv_def advance_def replay_append follows_def split: option.splits if_splits)
next
  case threw
  with assms(2) show ?thesis
    by (intro exI [of _ "Some (c, RollingBack)"])
      (auto simp: uow_inv_def advance_def replay_append follows_def split: option.splits if_splits)
qed (use assms(2) in \<open>auto intro!: exI [of _ None] simp: uow_inv_def settle_def replay_append follows_def
    split: option.splits if_splits\<close>)

lemma uow_reachable_inv: "uow_reachable s \<Longrightarrow> \<exists>cur. uow_inv s cur"
proof (induction rule: uow_reachable.induct)
  case start
  show ?case by (rule exI [of _ None]) (simp add: uow_inv_def idle_sys_def)
next
  case (step s c t)
  then show ?case using uow_step_inv by blast
qed

text \<open>
  C38. Runs of one instance exclude each other. Whatever the callers do and however their awaits
  interleave, what happened is a sequence of single runs, each begin, then the body, then commit or
  rollback, with every call made in between refused; at most one call is unsettled, and the flag is up
  exactly while one is.
\<close>

theorem runs_exclude_each_other:
  assumes "uow_reachable s"
  shows "\<exists>cur. replay None (events s) = Some cur \<and> (flag s \<longleftrightarrow> cur \<noteq> None) \<and>
    (\<forall>c. phase_of s c = (case cur of Some (d, ph) \<Rightarrow> if c = d then Some ph else None | None \<Rightarrow> None))"
proof -
  obtain cur where "uow_inv s cur" using uow_reachable_inv [OF assms] by blast
  then show ?thesis by (intro exI [of _ cur]) (cases cur; auto simp: uow_inv_def)
qed








text \<open>One caller that runs to its commit while a second is refused.\<close>

definition sample_begun :: uow_sys where
  "sample_begun = advance 0 Beginning (idle_sys\<lparr>flag := True\<rparr>)"

definition sample_refused :: uow_sys where
  "sample_refused = sample_begun\<lparr>events := events sample_begun @ [Refused 1]\<rparr>"

definition sample_settled :: uow_sys where
  "sample_settled = settle 0 True (advance 0 Committing (advance 0 InBody sample_refused))"

lemma sample_uow_steps:
  "uow_step 0 idle_sys sample_begun" "uow_step 1 sample_begun sample_refused"
  "uow_step 0 sample_refused (advance 0 InBody sample_refused)"
  "uow_step 0 (advance 0 InBody sample_refused) (advance 0 Committing (advance 0 InBody sample_refused))"
  "uow_step 0 (advance 0 Committing (advance 0 InBody sample_refused)) sample_settled"
  unfolding sample_begun_def sample_refused_def sample_settled_def
  by (rule uow_step.intros; simp add: idle_sys_def advance_def)+

theorem runs_exclude_each_other_witness:
  "\<exists>cur. replay None (events sample_refused) = Some cur \<and> (flag sample_refused \<longleftrightarrow> cur \<noteq> None) \<and>
    (\<forall>c. phase_of sample_refused c = (case cur of Some (d, ph) \<Rightarrow> if c = d then Some ph else None | None \<Rightarrow> None))"
  by (rule runs_exclude_each_other)
    (rule uow_reachable.step [OF uow_reachable.step [OF uow_reachable.start sample_uow_steps(1)] sample_uow_steps(2)])


end
