(* ===== verification/Commit_Receipt.thy ===== *)
theory Commit_Receipt
  imports Instants Option_Shapes
begin

text \<open>
  \<^verbatim>\<open>src/src/application/commit-receipt.mjs\<close>: the constructor with its validators, and the rendering. The
  outcome field holds the one text it admits and is not kept.
\<close>

section \<open>Construction\<close>

definition canonical_keys :: "string list" where
  "canonical_keys = [''requestId'', ''tenantId'', ''resourceId'', ''outcome'', ''committedAt'', ''auditId'',
     ''outboxEventIds'', ''idempotencyKey'']"

definition non_blank :: "jsval \<Rightarrow> string \<Rightarrow> js_string outcome" where
  "non_blank v field = (case v of
     VStr s \<Rightarrow> if length (js_trim s) = 0
       then type_error (js (''CommitReceipt '' @ field @ '' needs a non-empty primitive string'')) else Inr s
   | _ \<Rightarrow> type_error (js (''CommitReceipt '' @ field @ '' needs a non-empty primitive string'')))"

definition outcome_value :: "jsval \<Rightarrow> unit outcome" where
  "outcome_value v =
     (if v \<noteq> VStr (js ''COMMITTED'') then type_error (js ''CommitReceipt outcome needs to be exactly \"COMMITTED\"'')
      else Inr ())"

text \<open>The loop over the elements, with the ids seen so far.\<close>

fun event_ids :: "heap \<Rightarrow> nat \<Rightarrow> js_string list \<Rightarrow> nat list \<Rightarrow> js_string list outcome" where
  "event_ids h r seen [] = Inr []"
| "event_ids h r seen (i # is) = (case own_property h r (KStr (dec_nat i)) of
     Some (Data v True) \<Rightarrow> (case v of
         VStr s \<Rightarrow>
           if length (js_trim s) = 0
           then type_error (js ''CommitReceipt outboxEventIds elements must be non-empty primitive strings'')
           else if s \<in> set seen then type_error (js ''CommitReceipt outboxEventIds must be unique'')
           else rbind (event_ids h r (s # seen) is) (\<lambda>ss. Inr (s # ss))
       | _ \<Rightarrow> type_error (js ''CommitReceipt outboxEventIds elements must be non-empty primitive strings''))
   | _ \<Rightarrow> type_error (js ''CommitReceipt outboxEventIds elements must be enumerable data properties''))"

definition outbox_event_ids_value :: "heap \<Rightarrow> jsval \<Rightarrow> js_string list outcome" where
  "outbox_event_ids_value h v = (case v of
     VObj r \<Rightarrow>
       if \<not> is_array h v \<or> obj_proto (h r) \<noteq> ArrayPrototype \<or> array_length h r = 0
       then type_error (js ''CommitReceipt outboxEventIds needs a non-empty ordinary array'')
       else if length (own_keys h r) + 1 \<noteq> array_length h r + 1
       then type_error (js ''CommitReceipt outboxEventIds must be dense, with no extra own keys'')
       else event_ids h r [] [0..<array_length h r]
   | _ \<Rightarrow> type_error (js ''CommitReceipt outboxEventIds needs a non-empty ordinary array''))"

definition commit_receipt_new :: "heap \<Rightarrow> jsval \<Rightarrow> commit_receipt outcome" where
  "commit_receipt_new h options =
     rbind (data_options h options canonical_keys (js ''CommitReceipt needs an ordinary options object'')
       (js ''CommitReceipt takes exactly these fields: '' @ comma_list canonical_keys)) (\<lambda>r.
     rbind (read_key h r (js ''requestId'')) (\<lambda>v. rbind (non_blank v ''requestId'') (\<lambda>request.
     rbind (read_key h r (js ''tenantId'')) (\<lambda>v. rbind (non_blank v ''tenantId'') (\<lambda>tenant.
     rbind (read_key h r (js ''resourceId'')) (\<lambda>v. rbind (non_blank v ''resourceId'') (\<lambda>resource.
     rbind (read_key h r (js ''outcome'')) (\<lambda>v. rbind (outcome_value v) (\<lambda>_.
     rbind (read_key h r (js ''committedAt'')) (\<lambda>v. rbind (committed_at_value v) (\<lambda>at.
     rbind (read_key h r (js ''auditId'')) (\<lambda>v. rbind (non_blank v ''auditId'') (\<lambda>audit.
     rbind (read_key h r (js ''outboxEventIds'')) (\<lambda>v. rbind (outbox_event_ids_value h v) (\<lambda>events.
     rbind (read_key h r (js ''idempotencyKey'')) (\<lambda>v. rbind (non_blank v ''idempotencyKey'') (\<lambda>key.
     Inr \<lparr>receipt_request_id = request, receipt_tenant_id = tenant, receipt_resource_id = resource,
          receipt_committed_at = at, receipt_audit_id = audit, receipt_outbox_ids = events,
          receipt_idempotency_key = key\<rparr>)))))))))))))))))"

definition commit_receipt_to_json :: "commit_receipt \<Rightarrow> json" where
  "commit_receipt_to_json r = JsonObj
     [(js ''requestId'', JsonStr (receipt_request_id r)), (js ''tenantId'', JsonStr (receipt_tenant_id r)),
      (js ''resourceId'', JsonStr (receipt_resource_id r)), (js ''outcome'', JsonStr (js ''COMMITTED'')),
      (js ''committedAt'', JsonStr (receipt_committed_at r)), (js ''auditId'', JsonStr (receipt_audit_id r)),
      (js ''outboxEventIds'', JsonArr (map JsonStr (receipt_outbox_ids r))),
      (js ''idempotencyKey'', JsonStr (receipt_idempotency_key r))]"

section \<open>What a receipt is\<close>

definition blank :: "js_string \<Rightarrow> bool" where
  "blank s \<longleftrightarrow> js_trim s = []"

definition receipt_wf :: "commit_receipt \<Rightarrow> bool" where
  "receipt_wf r \<longleftrightarrow> \<not> blank (receipt_request_id r) \<and> \<not> blank (receipt_tenant_id r) \<and> \<not> blank (receipt_resource_id r) \<and>
     instant_check (receipt_committed_at r) \<and> \<not> blank (receipt_audit_id r) \<and>
     receipt_outbox_ids r \<noteq> [] \<and> distinct (receipt_outbox_ids r) \<and> list_all (\<lambda>s. \<not> blank s) (receipt_outbox_ids r) \<and>
     \<not> blank (receipt_idempotency_key r)"

lemma non_blank_iff [result_simps]: "non_blank v f = Inr s \<longleftrightarrow> v = VStr s \<and> \<not> blank s"
  by (cases v) (auto simp: non_blank_def blank_def)

lemma outcome_value_iff [result_simps]: "outcome_value v = Inr u \<longleftrightarrow> v = VStr (js ''COMMITTED'')"
  by (simp add: outcome_value_def)

lemma event_ids_ok:
  "event_ids h r seen is = Inr ss \<Longrightarrow> length ss = length is \<and> distinct ss \<and> set ss \<inter> set seen = {} \<and>
     list_all (\<lambda>s. \<not> blank s) ss"
proof (induction "is" arbitrary: seen ss)
  case (Cons i "is")
  from Cons.prems obtain s rest where s: "ss = s # rest" "s \<notin> set seen" "\<not> blank s"
    and rest: "event_ids h r (s # seen) is = Inr rest"
    by (auto simp: rbind_eq_Inr blank_def split: option.splits property.splits bool.splits jsval.splits if_splits)
  from Cons.IH [OF rest] s show ?case by auto
qed simp

lemma outbox_ids_ok:
  "outbox_event_ids_value h v = Inr ss \<Longrightarrow> ss \<noteq> [] \<and> distinct ss \<and> list_all (\<lambda>s. \<not> blank s) ss"
  by (cases v) (auto simp: outbox_event_ids_value_def split: if_splits dest: event_ids_ok)

text \<open>
  C40. The constructor's type: whatever object it is given, what it answers is a receipt of a real commit
  instant, non-blank identifiers and a non-empty list of distinct non-blank event ids, and its rendering
  carries exactly the eight canonical fields, in their order, with the outcome COMMITTED.
\<close>

theorem receipt_constructor_type:
  assumes "commit_receipt_new h v = Inr r"
  shows "receipt_wf r \<and> (\<exists>ms. commit_receipt_to_json r = JsonObj ms \<and> map fst ms = map js canonical_keys \<and>
    map_of ms (js ''outcome'') = Some (JsonStr (js ''COMMITTED'')))"
proof
  from assms show "receipt_wf r"
    by (auto simp: commit_receipt_new_def rbind_eq_Inr non_blank_iff committed_at_iff receipt_wf_def
        dest: outbox_ids_ok)
qed (simp add: commit_receipt_to_json_def canonical_keys_def)

section \<open>A receipt of literals\<close>

text \<open>The options object of an object literal, its array of event ids beside it.\<close>

definition receipt_heap :: "(string \<times> jsval) list \<Rightarrow> jsval list \<Rightarrow> heap" where
  "receipt_heap ps ids = (\<lambda>a. if a = 0 then plain_object (ps @ [(''outboxEventIds'', VObj 1)]) else array_object ids)"

definition receipt_fields :: "js_string \<Rightarrow> js_string \<Rightarrow> js_string \<Rightarrow> js_string \<Rightarrow> js_string \<Rightarrow> js_string \<Rightarrow> (string \<times> jsval) list" where
  "receipt_fields request tenant resource at audit key =
     [(''requestId'', VStr request), (''tenantId'', VStr tenant), (''resourceId'', VStr resource),
      (''outcome'', VStr (js ''COMMITTED'')), (''committedAt'', VStr at), (''auditId'', VStr audit),
      (''idempotencyKey'', VStr key)]"

definition receipt_literal ::
    "js_string \<Rightarrow> js_string \<Rightarrow> js_string \<Rightarrow> js_string \<Rightarrow> js_string \<Rightarrow> js_string list \<Rightarrow> js_string \<Rightarrow> commit_receipt outcome" where
  "receipt_literal request tenant resource at audit ids key =
     commit_receipt_new (receipt_heap (receipt_fields request tenant resource at audit key) (map VStr ids)) (VObj 0)"

lemma one_event_id:
  "outbox_event_ids_value (receipt_heap ps [VStr i]) (VObj (Suc 0)) = Inr is \<longleftrightarrow> is = [i] \<and> \<not> blank i"
proof -
  let ?h = "receipt_heap ps [VStr i]"
  have h: "?h (Suc 0) = array_object [VStr i]" by (simp add: receipt_heap_def)
  note facts = array_object_facts [where h = ?h and r = "Suc 0", OF h]
  have "length (own_keys ?h (Suc 0)) = Suc 0"
    using facts(2,3) by (simp add: dense_array_def)
  moreover have "own_property ?h (Suc 0) (KStr (dec_nat 0)) = Some (Data (VStr i) True)"
    using array_object_property [where h = ?h and r = "Suc 0" and k = "KStr (dec_nat 0)", OF h] by simp
  moreover have "obj_proto (?h (Suc 0)) = ArrayPrototype" using h by (simp add: array_object_def)
  ultimately show ?thesis
    using facts(1,2) by (auto simp: outbox_event_ids_value_def blank_def)
qed

lemma receipt_literal_one:
  "receipt_literal request tenant resource at audit [i] key = Inr r \<longleftrightarrow>
     r = \<lparr>receipt_request_id = request, receipt_tenant_id = tenant, receipt_resource_id = resource,
          receipt_committed_at = at, receipt_audit_id = audit, receipt_outbox_ids = [i],
          receipt_idempotency_key = key\<rparr> \<and> receipt_wf r"
proof -
  let ?ps = "receipt_fields request tenant resource at audit key"
  let ?h = "receipt_heap ?ps [VStr i]"
  have h: "?h 0 = plain_object (?ps @ [(''outboxEventIds'', VObj 1)])" by (simp add: receipt_heap_def)
  have "is_ordinary ?h (VObj 0)" "data_exactly ?h 0 canonical_keys"
    using plain_object_facts [where h = ?h and r = 0, OF h]
    by (simp_all add: receipt_fields_def canonical_keys_def insert_commute)
  moreover have "read_key ?h 0 (js ''requestId'') = Inr (VStr request)" "read_key ?h 0 (js ''tenantId'') = Inr (VStr tenant)"
    "read_key ?h 0 (js ''resourceId'') = Inr (VStr resource)" "read_key ?h 0 (js ''outcome'') = Inr (VStr (js ''COMMITTED''))"
    "read_key ?h 0 (js ''committedAt'') = Inr (VStr at)" "read_key ?h 0 (js ''auditId'') = Inr (VStr audit)"
    "read_key ?h 0 (js ''outboxEventIds'') = Inr (VObj 1)" "read_key ?h 0 (js ''idempotencyKey'') = Inr (VStr key)"
    using read_plain_object [where h = ?h and r = 0, OF h] by (simp_all add: receipt_fields_def)
  ultimately show ?thesis
    by (auto simp: receipt_literal_def commit_receipt_new_def rbind_eq_Inr data_options_iff receipt_wf_def
        non_blank_iff outcome_value_iff committed_at_iff one_event_id)
qed

definition sample_receipt :: commit_receipt where
  "sample_receipt = \<lparr>receipt_request_id = js ''request-1'', receipt_tenant_id = js ''tenant-1'',
     receipt_resource_id = js ''customer-1'', receipt_committed_at = js ''2024-02-29T12:30:45.123Z'',
     receipt_audit_id = js ''audit-1'', receipt_outbox_ids = [js ''event-1''], receipt_idempotency_key = js ''key-1''\<rparr>"

lemma sample_receipt_wf: "receipt_wf sample_receipt"
proof -
  have "names_a_real_instant (js ''2024-02-29T12:30:45.123Z'')" by code_simp
  moreover have "\<not> blank (js ''request-1'')" "\<not> blank (js ''tenant-1'')" "\<not> blank (js ''customer-1'')"
    "\<not> blank (js ''audit-1'')" "\<not> blank (js ''event-1'')" "\<not> blank (js ''key-1'')"
    by (simp_all add: blank_def) code_simp+
  ultimately show ?thesis by (simp add: receipt_wf_def sample_receipt_def names_a_real_instant_iff)
qed

theorem receipt_constructor_type_witness:
  "receipt_wf sample_receipt \<and> (\<exists>ms. commit_receipt_to_json sample_receipt = JsonObj ms \<and> map fst ms = map js canonical_keys \<and>
    map_of ms (js ''outcome'') = Some (JsonStr (js ''COMMITTED'')))"
proof (rule receipt_constructor_type)
  have "receipt_literal (js ''request-1'') (js ''tenant-1'') (js ''customer-1'') (js ''2024-02-29T12:30:45.123Z'')
      (js ''audit-1'') [js ''event-1''] (js ''key-1'') = Inr sample_receipt"
    unfolding receipt_literal_one using sample_receipt_wf by (simp add: sample_receipt_def)
  then show "commit_receipt_new (receipt_heap (receipt_fields (js ''request-1'') (js ''tenant-1'') (js ''customer-1'')
      (js ''2024-02-29T12:30:45.123Z'') (js ''audit-1'') (js ''key-1'')) [VStr (js ''event-1'')]) (VObj 0) = Inr sample_receipt"
    by (simp add: receipt_literal_def)
qed

end
