(* ===== verification/Customer_Write.thy ===== *)
theory Customer_Write
  imports Decision_Log Unit_Of_Work Commit_Receipt
begin

text \<open>
  \<^verbatim>\<open>src/src/application/write-envelope.mjs\<close>, \<^verbatim>\<open>src/src/adapters/postgres-unit-of-work.mjs\<close> and
  \<^verbatim>\<open>postgres-write-envelope-write.mjs\<close>: one write of a prepared change set inside one transaction. A
  change set is JSON-native here, as the pipeline prepares it: a value that is no JSON tree is
  refused by the same checks, with the same errors.
\<close>

section \<open>The write envelope\<close>

definition envelope_keys :: "string list" where
  "envelope_keys = [''unitOfWork'', ''write'']"

definition exact_unit_of_work :: "jsval \<Rightarrow> nat exact outcome" where
  "exact_unit_of_work v = (case v of
     VInst (IService SvcUnitOfWork e) \<Rightarrow> Inr e
   | _ \<Rightarrow> type_error (js ''WriteEnvelope needs an exact UnitOfWork instance''))"

definition write_envelope_new :: "heap \<Rightarrow> jsval \<Rightarrow> (nat exact \<times> nat) outcome" where
  "write_envelope_new h options =
     rbind (data_options h options envelope_keys (js ''WriteEnvelope needs an ordinary options object'')
       (js ''WriteEnvelope takes exactly these fields: '' @ comma_list envelope_keys)) (\<lambda>r.
     rbind (read_key h r (js ''unitOfWork'')) (\<lambda>v. rbind (exact_unit_of_work v) (\<lambda>u.
     rbind (read_key h r (js ''write'')) (\<lambda>v. (case v of
       VFun f \<Rightarrow> Inr (u, f) | _ \<Rightarrow> type_error (js ''WriteEnvelope needs a function write''))))))"

text \<open>The body \<open>commit\<close> hands to \<open>run\<close>: the receipt is told by its prototype alone.\<close>

definition envelope_body ::
    "('s \<Rightarrow> json \<Rightarrow> ('w, thrown, jsval) eff) \<Rightarrow> json \<Rightarrow> 's \<Rightarrow> ('w, thrown, commit_receipt exact) eff" where
  "envelope_body write prepared scope = ebind (write scope prepared) (\<lambda>v. case v of
     VInst (ICommitReceipt r) \<Rightarrow> eret r
   | _ \<Rightarrow> ethrow (TypeError (js ''WriteEnvelope write must resolve to an exact CommitReceipt'')))"

definition envelope_commit ::
    "('w, 's) uow_port \<Rightarrow> ('s \<Rightarrow> json \<Rightarrow> ('w, thrown, jsval) eff) \<Rightarrow> json \<Rightarrow> ('w uow, thrown, commit_receipt exact) eff" where
  "envelope_commit p write prepared = uow_run (out_port p) (Some (\<lambda>s. out (envelope_body write prepared s)))"

section \<open>The transaction port\<close>

definition connection_string_value :: "jsval \<Rightarrow> js_string outcome" where
  "connection_string_value v = (case v of
     VStr s \<Rightarrow> if s = [] then type_error (js ''createPostgresUnitOfWork needs a connectionString string'') else Inr s
   | _ \<Rightarrow> type_error (js ''createPostgresUnitOfWork needs a connectionString string''))"

text \<open>The scope is the one client the world stands for.\<close>

definition postgres_port :: "'w txn \<Rightarrow> ('w, unit) uow_port" where
  "postgres_port tx =
     \<lparr>uow_begin = ebind (txn_connect tx) (\<lambda>_.
        ecatch (txn_begin tx) (\<lambda>e. ebind (txn_release tx) (\<lambda>_. ethrow e))),
      uow_commit = (\<lambda>_. efinally
        (ecatch (txn_commit tx) (\<lambda>e. ebind (quietly (txn_rollback tx)) (\<lambda>_. ethrow e)))
        (txn_release tx)),
      uow_rollback = (\<lambda>_. efinally (txn_rollback tx) (txn_release tx))\<rparr>"

context transactional
begin

lemma port_begin:
  assumes "uow_begin (postgres_port tx) w = (r, w1)"
  shows "stored w1 = stored w \<and> (case r of Inl _ \<Rightarrow> held w1 = held w
    | Inr _ \<Rightarrow> held w1 = Suc (held w) \<and> pending w1 = stored w)"
proof (cases rule: eff_cases [of "txn_connect tx" w])
  case (throws e wc)
  with assms connect_fails [OF throws] show ?thesis by (auto simp: postgres_port_def ebind_apply)
next
  case (answers c wc)
  then have sc: "stored wc = stored w" "held wc = Suc (held w)" using connects by simp_all
  show ?thesis
  proof (cases rule: eff_cases [of "txn_begin tx" wc])
    case (throws e wb)
    obtain wr where "txn_release tx wb = (Inr (), wr)" "stored wr = stored wb" "held wr = held wb - 1" by (rule released)
    with assms answers throws sc begin_keeps [OF throws] show ?thesis
      by (auto simp: postgres_port_def ebind_apply ecatch_apply)
  next
    case (answers u wb)
    with assms \<open>txn_connect tx w = (Inr c, wc)\<close> sc begin_keeps [OF answers] begin_opens [of wc wb] show ?thesis
      by (auto simp: postgres_port_def ebind_apply ecatch_apply)
  qed
qed

lemma port_commit:
  assumes "uow_commit (postgres_port tx) s w = (r, w1)"
  shows "held w1 = held w - 1 \<and> stored w1 = (case r of Inl _ \<Rightarrow> stored w | Inr _ \<Rightarrow> pending w)"
proof (cases rule: eff_cases [of "txn_commit tx" w])
  case (throws e wc)
  obtain wq where q: "quietly (txn_rollback tx) wc = (Inr (), wq)" "stored wq = stored wc" "held wq = held wc"
    by (rule quiet_rollback)
  obtain wr where "txn_release tx wq = (Inr (), wr)" "stored wr = stored wq" "held wr = held wq - 1" by (rule released)
  with assms throws q commit_fails [OF throws] show ?thesis
    by (auto simp: postgres_port_def ebind_apply ecatch_apply efinally_apply)
next
  case (answers u wc)
  obtain wr where "txn_release tx wc = (Inr (), wr)" "stored wr = stored wc" "held wr = held wc - 1" by (rule released)
  with assms answers commit_stores [of w wc] show ?thesis
    by (auto simp: postgres_port_def ebind_apply ecatch_apply efinally_apply)
qed

lemma port_rollback:
  assumes "uow_rollback (postgres_port tx) s w = (r, w1)"
  shows "held w1 = held w - 1 \<and> stored w1 = stored w"
proof -
  obtain q wq where q: "txn_rollback tx w = (q, wq)" by (cases "txn_rollback tx w")
  obtain wr where "txn_release tx wq = (Inr (), wr)" "stored wr = stored wq" "held wr = held wq - 1" by (rule released)
  with assms q rollback_keeps [OF q] show ?thesis
    by (auto simp: postgres_port_def efinally_apply)
qed

text \<open>
  A body inside the port's scope is atomic: its work is stored when the run answers and nothing is when
  it throws; the connection is given back on every path.
\<close>

lemma scoped_atomic:
  assumes run: "scoped (postgres_port tx) body w = (res, w1)"
    and body_keeps: "\<forall>s q u u1. body s u = (q, u1) \<longrightarrow> stored u1 = stored u \<and> held u1 = held u"
  shows "held w1 = held w \<and> (case res of
     Inl _ \<Rightarrow> stored w1 = stored w
   | Inr x \<Rightarrow> \<exists>u u1. pending u = stored w \<and> body () u = (Inr x, u1) \<and> stored w1 = pending u1)"
proof (cases rule: eff_cases [of "uow_begin (postgres_port tx)" w])
  case (throws e wb)
  with run port_begin [OF throws] show ?thesis by (auto simp: scoped_def ebind_apply)
next
  case (answers s wb)
  note sb = port_begin [OF answers]
  show ?thesis
  proof (cases rule: eff_cases [of "body ()" wb])
    case (throws e wx)
    have kx: "stored wx = stored wb \<and> held wx = held wb" using body_keeps throws by blast
    obtain q wr where q: "uow_rollback (postgres_port tx) s wx = (q, wr)" by (cases "uow_rollback (postgres_port tx) s wx")
    show ?thesis
      using run answers throws q port_rollback [OF q] kx sb
      by (cases q) (auto simp: scoped_def ebind_apply ecatch_apply quietly_def)
  next
    case (answers x wx)
    have kx: "stored wx = stored wb \<and> held wx = held wb" using body_keeps answers by blast
    obtain q wc where q: "uow_commit (postgres_port tx) s wx = (q, wc)" by (cases "uow_commit (postgres_port tx) s wx")
    show ?thesis
      using run \<open>uow_begin (postgres_port tx) w = (Inr s, wb)\<close> answers q port_commit [OF q] kx sb
      by (cases q) (auto simp: scoped_def ebind_apply ecatch_apply quietly_def; blast)+
  qed
qed

end

section \<open>Checking a change set\<close>

definition intent_keys :: "string list" where
  "intent_keys = [''customer'', ''audit'', ''transactionalOutbox'', ''idempotency'']"

definition is_object :: "json \<Rightarrow> bool" where
  "is_object j = (case j of JsonObj _ \<Rightarrow> True | _ \<Rightarrow> False)"

definition non_empty_text :: "json option \<Rightarrow> bool" where
  "non_empty_text j = (case text_of j of Some s \<Rightarrow> s \<noteq> [] | None \<Rightarrow> False)"

fun check_intents :: "json \<Rightarrow> string list \<Rightarrow> unit outcome" where
  "check_intents intents [] = Inr ()"
| "check_intents intents (k # ks) =
     (if \<not> is_object (the_json (member intents k))
      then type_error (js (''preparedChangeSet.intents.'' @ k @ '' must be an ordinary object''))
      else check_intents intents ks)"

record intents =
  int_customer :: json
  int_audit :: json
  int_outbox :: json
  int_idempotency :: json

definition check_prepared :: "json \<Rightarrow> intents outcome" where
  "check_prepared p =
     (if \<not> is_object p then type_error (js ''PostgresCommitAdapter.commit needs an ordinary preparedChangeSet object'')
      else if member p ''persistenceState'' \<noteq> Some (JsonStr (js ''pending''))
      then type_error (js ''PostgresCommitAdapter.commit needs persistenceState \"pending\"'')
      else let is = the_json (member p ''intents'') in
        if \<not> is_object is then type_error (js ''preparedChangeSet.intents must be an ordinary object'')
        else if length (members is) \<noteq> length intent_keys \<or> \<not> list_all (\<lambda>k. js k \<in> set (map fst (members is))) intent_keys
        then type_error (js ''preparedChangeSet.intents must carry exactly these keys: '' @ comma_list intent_keys)
        else rbind (check_intents is intent_keys) (\<lambda>_.
          let customer = the_json (member is ''customer''); audit = the_json (member is ''audit'');
              outbox = the_json (member is ''transactionalOutbox''); idem = the_json (member is ''idempotency'');
              payload = the_json (member customer ''payload'') in
          if \<not> is_object payload \<or> \<not> non_empty_text (member payload ''name'')
          then type_error (js ''intents.customer.payload.name must be a non-empty string'')
          else if \<not> non_empty_text (member audit ''action'')
          then type_error (js ''intents.audit.action must be a non-empty string'')
          else if \<not> non_empty_text (member outbox ''eventName'')
          then type_error (js ''intents.transactionalOutbox.eventName must be a non-empty string'')
          else if \<not> non_empty_text (member idem ''fingerprint'')
          then type_error (js ''intents.idempotency.fingerprint must be a non-empty string'')
          else Inr \<lparr>int_customer = customer, int_audit = audit, int_outbox = outbox, int_idempotency = idem\<rparr>))"

definition check_tenant_id :: "json option \<Rightarrow> js_string outcome" where
  "check_tenant_id j =
     (if non_empty_text j then Inr (the_text j) else type_error (js ''commit needs an options.tenantId string''))"

section \<open>The write\<close>

record customer_row =
  cust_tenant :: js_string
  cust_name :: js_string
  cust_payload :: json

record audit_row =
  audit_tenant :: js_string
  audit_event :: js_string
  audit_actor :: json
  audit_correlation :: json
  audit_details :: json

record outbox_row =
  out_tenant :: js_string
  out_event :: js_string
  out_correlation :: json
  out_key :: js_string

text \<open>What each INSERT gives back: the id as \<open>String(...)\<close> spells it, and the commit instant as ISO text.\<close>

record 'w app_client =
  app_txn :: "'w txn"
  app_context :: "js_string \<Rightarrow> ('w, thrown, unit) eff"
  app_customer :: "customer_row \<Rightarrow> ('w, thrown, js_string \<times> js_string) eff"
  app_audit :: "audit_row \<Rightarrow> ('w, thrown, js_string) eff"
  app_outbox :: "outbox_row \<Rightarrow> ('w, thrown, js_string) eff"

definition is_duplicate_fingerprint :: "thrown \<Rightarrow> bool" where
  "is_duplicate_fingerprint e = (case e of
     Foreign _ code con \<Rightarrow> code = Some (js ''23505'') \<and> con = Some (js ''transactional_outbox_tenant_dedup_key'')
   | _ \<Rightarrow> False)"

text \<open>\<open>x ?? null\<close>\<close>

definition or_null :: "json option \<Rightarrow> json" where
  "or_null j = the_json j"

definition customer_row_of :: "js_string \<Rightarrow> intents \<Rightarrow> customer_row" where
  "customer_row_of t i = (let payload = the_json (member (int_customer i) ''payload'') in
     \<lparr>cust_tenant = t, cust_name = the_text (member payload ''name''), cust_payload = payload\<rparr>)"

definition audit_row_of :: "js_string \<Rightarrow> intents \<Rightarrow> audit_row" where
  "audit_row_of t i = \<lparr>audit_tenant = t, audit_event = the_text (member (int_audit i) ''action''),
     audit_actor = or_null (member (int_audit i) ''actorId''),
     audit_correlation = or_null (member (int_audit i) ''correlationId''),
     audit_details = JsonObj [(js ''intentType'', or_null (member (int_audit i) ''type''))]\<rparr>"

definition outbox_row_of :: "js_string \<Rightarrow> intents \<Rightarrow> outbox_row" where
  "outbox_row_of t i = \<lparr>out_tenant = t, out_event = the_text (member (int_outbox i) ''eventName''),
     out_correlation = or_null (member (int_outbox i) ''correlationId''),
     out_key = the_text (member (int_idempotency i) ''fingerprint'')\<rparr>"

definition non_empty_string :: "jsval \<Rightarrow> string \<Rightarrow> js_string outcome" where
  "non_empty_string v label = (case v of
     VStr s \<Rightarrow> if s = [] then type_error (js (''createPostgresWrite needs a '' @ label @ '' string'')) else Inr s
   | _ \<Rightarrow> type_error (js (''createPostgresWrite needs a '' @ label @ '' string'')))"

definition insert_all ::
    "'w app_client \<Rightarrow> js_string \<Rightarrow> js_string \<Rightarrow> js_string \<Rightarrow> intents \<Rightarrow> ('w, thrown, commit_receipt) eff" where
  "insert_all cl request key t i =
     ebind (app_customer cl (customer_row_of t i)) (\<lambda>(resource, at).
     ebind (app_audit cl (audit_row_of t i)) (\<lambda>audit.
     ebind (app_outbox cl (outbox_row_of t i)) (\<lambda>event.
     elift (receipt_literal request t resource at audit [event] key))))"

definition postgres_write ::
    "'w app_client \<Rightarrow> js_string \<Rightarrow> js_string \<Rightarrow> unit \<Rightarrow> json \<Rightarrow> ('w, thrown, jsval) eff" where
  "postgres_write cl request key scope prepared =
     ebind (elift (check_prepared prepared)) (\<lambda>i.
     ebind (elift (check_tenant_id (member (int_customer i) ''tenantId''))) (\<lambda>t.
     ebind (app_context cl t) (\<lambda>_.
     ecatch
       (ebind (insert_all cl request key t i) (\<lambda>r. eret (VInst (ICommitReceipt (Genuine r)))))
       (\<lambda>e. ethrow (if is_duplicate_fingerprint e
          then IdempotencyConflict t (the_text (member (int_idempotency i) ''fingerprint'')) else e)))))"

definition postgres_write_new ::
    "'w app_client \<Rightarrow> jsval \<Rightarrow> jsval \<Rightarrow> (unit \<Rightarrow> json \<Rightarrow> ('w, thrown, jsval) eff) outcome" where
  "postgres_write_new cl requestv keyv =
     rbind (non_empty_string requestv ''requestId'') (\<lambda>request.
     rbind (non_empty_string keyv ''idempotencyKey'') (\<lambda>key.
     Inr (postgres_write cl request key)))"

end
