(* ===== verification/Customer_Store.thy ===== *)
theory Customer_Store
  imports Customer_Write
begin

text \<open>
  The write inside its transaction: the contract of the client over the three tables, what a commit
  through the envelope does to them, and the client over tables that are constrained as
  \<^verbatim>\<open>0001_runtime_substrate.py\<close> and \<^verbatim>\<open>0002_customer_records.py\<close> constrain them.
\<close>

section \<open>The contract\<close>

record app_tables =
  tab_customers :: "(js_string \<times> customer_row) list"
  tab_audits :: "(js_string \<times> audit_row) list"
  tab_outbox :: "(js_string \<times> outbox_row) list"

definition outbox_key :: "js_string \<times> outbox_row \<Rightarrow> js_string \<times> js_string" where
  "outbox_key e = (out_tenant (snd e), out_key (snd e))"

definition key_used :: "app_tables \<Rightarrow> js_string \<Rightarrow> js_string \<Rightarrow> bool" where
  "key_used tabs t k \<longleftrightarrow> list_ex (\<lambda>e. outbox_key e = (t, k)) (tab_outbox tabs)"

locale app_store =
  transactional "app_txn cl" stored pending held
  for cl :: "'w app_client" and stored :: "'w \<Rightarrow> app_tables" and pending :: "'w \<Rightarrow> app_tables" and held :: "'w \<Rightarrow> nat" +
  assumes context_keeps: "app_context cl t w = (r, w1) \<Longrightarrow> stored w1 = stored w \<and> pending w1 = pending w \<and> held w1 = held w"
    and customer_keeps: "app_customer cl c w = (r2, w1) \<Longrightarrow> stored w1 = stored w \<and> held w1 = held w"
    and customer_adds: "app_customer cl c w = (Inr (i, at), w1) \<Longrightarrow>
      pending w1 = (pending w)\<lparr>tab_customers := tab_customers (pending w) @ [(i, c)]\<rparr>"
    and audit_keeps: "app_audit cl a w = (r3, w1) \<Longrightarrow> stored w1 = stored w \<and> held w1 = held w"
    and audit_adds: "app_audit cl a w = (Inr i, w1) \<Longrightarrow>
      pending w1 = (pending w)\<lparr>tab_audits := tab_audits (pending w) @ [(i, a)]\<rparr>"
    and outbox_keeps: "app_outbox cl x w = (r3, w1) \<Longrightarrow> stored w1 = stored w \<and> held w1 = held w"
    and outbox_adds: "app_outbox cl x w = (Inr i, w1) \<Longrightarrow> \<not> key_used (pending w) (out_tenant x) (out_key x) \<and>
      pending w1 = (pending w)\<lparr>tab_outbox := tab_outbox (pending w) @ [(i, x)]\<rparr>"
begin

lemma write_keeps:
  assumes "postgres_write cl request key s p w = (r, w1)"
  shows "stored w1 = stored w \<and> held w1 = held w"
proof -
  have inserts: "stored u1 = stored u \<and> held u1 = held u" if "insert_all cl request key t i u = (q, u1)" for t i u q u1
    using that customer_keeps audit_keeps outbox_keeps
    by (auto simp: insert_all_def ebind_apply split: prod.splits sum.splits)
  show ?thesis
  proof (cases "check_prepared p")
    case (Inl e)
    with assms show ?thesis by (simp add: postgres_write_def)
  next
    case (Inr i)
    show ?thesis
    proof (cases "check_tenant_id (member (int_customer i) ''tenantId'')")
      case (Inl e)
      with assms Inr show ?thesis by (simp add: postgres_write_def)
    next
      case inr: (Inr t)
      obtain c wc where c: "app_context cl t w = (c, wc)" by (cases "app_context cl t w")
      obtain q wq where q: "insert_all cl request key t i wc = (q, wq)" by (cases "insert_all cl request key t i wc")
      show ?thesis
        using assms Inr inr c q context_keeps [OF c] inserts [OF q]
        by (cases c; cases q) (auto simp: postgres_write_def ebind_apply ecatch_apply)
    qed
  qed
qed

text \<open>What one answered write leaves pending: one row in each table, all of one tenant, under a new key.\<close>

lemma write_answers:
  assumes "envelope_body (postgres_write cl request key) p s w = (Inr rx, w1)"
  shows "\<exists>i t resource at audit event r. check_prepared p = Inr i \<and>
    check_tenant_id (member (int_customer i) ''tenantId'') = Inr t \<and>
    receipt_literal request t resource at audit [event] key = Inr r \<and> rx = Genuine r \<and>
    \<not> key_used (pending w) t (out_key (outbox_row_of t i)) \<and>
    pending w1 = \<lparr>tab_customers = tab_customers (pending w) @ [(resource, customer_row_of t i)],
      tab_audits = tab_audits (pending w) @ [(audit, audit_row_of t i)],
      tab_outbox = tab_outbox (pending w) @ [(event, outbox_row_of t i)]\<rparr>"
proof -
  obtain i t where i: "check_prepared p = Inr i" "check_tenant_id (member (int_customer i) ''tenantId'') = Inr t"
    using assms by (auto simp: envelope_body_def postgres_write_def ebind_Inr_iff)
  then obtain wc r where c: "app_context cl t w = (Inr (), wc)" and ins: "insert_all cl request key t i wc = (Inr r, w1)"
    and rx: "rx = Genuine r"
    using assms by (auto simp: envelope_body_def postgres_write_def ebind_Inr_iff rethrow_Inr_iff)
  from ins obtain resource at w2 audit w3 event where
    cu: "app_customer cl (customer_row_of t i) wc = (Inr (resource, at), w2)" and
    au: "app_audit cl (audit_row_of t i) w2 = (Inr audit, w3)" and
    ou: "app_outbox cl (outbox_row_of t i) w3 = (Inr event, w1)" and
    re: "receipt_literal request t resource at audit [event] key = Inr r"
    by (auto simp: insert_all_def ebind_Inr_iff)
  have p3: "pending w3 = (pending w)\<lparr>tab_customers := tab_customers (pending w) @ [(resource, customer_row_of t i)],
      tab_audits := tab_audits (pending w) @ [(audit, audit_row_of t i)]\<rparr>"
    using customer_adds [OF cu] audit_adds [OF au] context_keeps [OF c] by simp
  have "\<not> key_used (pending w) t (out_key (outbox_row_of t i))"
    using outbox_adds [OF ou] p3 by (simp add: key_used_def outbox_row_of_def)
  moreover have "pending w1 = \<lparr>tab_customers = tab_customers (pending w) @ [(resource, customer_row_of t i)],
      tab_audits = tab_audits (pending w) @ [(audit, audit_row_of t i)],
      tab_outbox = tab_outbox (pending w) @ [(event, outbox_row_of t i)]\<rparr>"
    using outbox_adds [OF ou] p3 by (cases "pending w") simp
  ultimately show ?thesis using i re rx by blast
qed

lemma envelope_atomic:
  assumes "\<not> in_flight u"
    and "envelope_commit (postgres_port (app_txn cl)) (postgres_write cl request key) p u = (res, u1)"
  shows "\<not> in_flight u1 \<and> held (outside u1) = held (outside u) \<and> (case res of
     Inl _ \<Rightarrow> stored (outside u1) = stored (outside u)
   | Inr rx \<Rightarrow> \<exists>i t resource at audit event r. check_prepared p = Inr i \<and>
       check_tenant_id (member (int_customer i) ''tenantId'') = Inr t \<and>
       receipt_literal request t resource at audit [event] key = Inr r \<and> rx = Genuine r \<and>
       \<not> key_used (stored (outside u)) t (out_key (outbox_row_of t i)) \<and>
       stored (outside u1) = \<lparr>tab_customers = tab_customers (stored (outside u)) @ [(resource, customer_row_of t i)],
         tab_audits = tab_audits (stored (outside u)) @ [(audit, audit_row_of t i)],
         tab_outbox = tab_outbox (stored (outside u)) @ [(event, outbox_row_of t i)]\<rparr>)"
proof -
  let ?body = "envelope_body (postgres_write cl request key) p"
  obtain q w1 where q: "scoped (postgres_port (app_txn cl)) ?body (outside u) = (q, w1)"
    by (cases "scoped (postgres_port (app_txn cl)) ?body (outside u)")
  have u1: "res = q" "u1 = u\<lparr>outside := w1\<rparr>"
    using assms(2) [unfolded envelope_commit_def uow_run_out [OF assms(1)]] q by simp_all
  have keeps: "\<forall>s q v v1. ?body s v = (q, v1) \<longrightarrow> stored v1 = stored v \<and> held v1 = held v"
    using write_keeps
    by (auto simp: envelope_body_def ebind_apply split: prod.splits sum.splits jsval.splits kernel_instance.splits)
  from scoped_atomic [OF q keeps] u1 assms(1) show ?thesis
    by (auto split: sum.splits dest!: write_answers)
qed

end

end
