(* ===== verification/Customer_Substrate.thy ===== *)
theory Customer_Substrate
  imports Customer_Store
begin

text \<open>
  The three tables of the write as their migrations constrain them
  (\<^verbatim>\<open>src/db/metaframer_kernel_db/alembic/versions/0001_runtime_substrate.py\<close> and
  \<^verbatim>\<open>0002_customer_records.py\<close>), a client over them whose statements may fail, and what a commit
  through the envelope promises on it.
\<close>

section \<open>The tables\<close>

text \<open>
  What the database chooses or interprets: new ids, commit instants, which texts are uuids, which JSON it
  stores. A tenant id arrives as \<open>TenantId\<close> renders it, so a uuid has one spelling here.
\<close>

record substrate =
  sub_id :: "nat \<Rightarrow> js_string"
  sub_stamp :: "nat \<Rightarrow> js_string"
  sub_uuid :: "js_string \<Rightarrow> bool"
  sub_jsonb :: "json \<Rightarrow> bool"

record app_db =
  adb_rows :: app_tables
  adb_work :: app_tables
  adb_tenant :: "js_string option"
  adb_held :: nat
  adb_next :: nat
  adb_faults :: "thrown option list"

definition violation :: "string \<Rightarrow> string option \<Rightarrow> thrown" where
  "violation code con = Foreign (Some (js ''error'')) (Some (js code)) (map_option js con)"

text \<open>\<open>btrim(x) <> ''\<close> fails on the empty text and on spaces alone.\<close>

definition only_spaces :: "js_string \<Rightarrow> bool" where
  "only_spaces s = list_all (\<lambda>c. c = 0x20) s"

definition uuid_or_null :: "substrate \<Rightarrow> json \<Rightarrow> bool" where
  "uuid_or_null sub j = (case j of JsonNull \<Rightarrow> True | JsonStr s \<Rightarrow> sub_uuid sub s | _ \<Rightarrow> False)"

definition customer_violation :: "substrate \<Rightarrow> js_string option \<Rightarrow> customer_row \<Rightarrow> thrown option" where
  "customer_violation sub tenant c =
     (if \<not> sub_jsonb sub (cust_payload c) then Some (violation ''22P05'' None)
      else if tenant \<noteq> Some (cust_tenant c) then Some (violation ''42501'' None)
      else if only_spaces (cust_name c) then Some (violation ''23514'' (Some ''customer_records_name_present''))
      else if \<not> is_object (cust_payload c) then Some (violation ''23514'' (Some ''customer_records_payload_is_object''))
      else None)"

definition audit_violation :: "substrate \<Rightarrow> js_string option \<Rightarrow> audit_row \<Rightarrow> thrown option" where
  "audit_violation sub tenant a =
     (if \<not> uuid_or_null sub (audit_correlation a) then Some (violation ''22P02'' None)
      else if \<not> sub_jsonb sub (audit_details a) then Some (violation ''22P05'' None)
      else if tenant \<noteq> Some (audit_tenant a) then Some (violation ''42501'' None)
      else if only_spaces (audit_event a) then Some (violation ''23514'' (Some ''audit_log_event_type_present''))
      else None)"

definition outbox_violation :: "substrate \<Rightarrow> js_string option \<Rightarrow> app_tables \<Rightarrow> outbox_row \<Rightarrow> thrown option" where
  "outbox_violation sub tenant tabs x =
     (if \<not> uuid_or_null sub (out_correlation x) then Some (violation ''22P02'' None)
      else if tenant \<noteq> Some (out_tenant x) then Some (violation ''42501'' None)
      else if only_spaces (out_event x) then Some (violation ''23514'' (Some ''transactional_outbox_event_type_present''))
      else if key_used tabs (out_tenant x) (out_key x)
      then Some (violation ''23505'' (Some ''transactional_outbox_tenant_dedup_key''))
      else None)"

section \<open>The client\<close>

definition app_statement :: "(app_db \<Rightarrow> 'a outcome \<times> app_db) \<Rightarrow> (app_db, thrown, 'a) eff" where
  "app_statement f = faulty adb_faults (\<lambda>xs w. w\<lparr>adb_faults := xs\<rparr>) f"

definition app_db_txn :: "app_db txn" where
  "app_db_txn =
     \<lparr>txn_connect = app_statement (\<lambda>w. (Inr (), w\<lparr>adb_held := Suc (adb_held w)\<rparr>)),
      txn_begin = app_statement (\<lambda>w. (Inr (), w\<lparr>adb_work := adb_rows w, adb_tenant := None\<rparr>)),
      txn_commit = app_statement (\<lambda>w. (Inr (), w\<lparr>adb_rows := adb_work w, adb_tenant := None\<rparr>)),
      txn_rollback = app_statement (\<lambda>w. (Inr (), w\<lparr>adb_work := adb_rows w, adb_tenant := None\<rparr>)),
      txn_release = (\<lambda>w. (Inr (), w\<lparr>adb_held := adb_held w - 1\<rparr>))\<rparr>"

definition add_row :: "(app_db \<Rightarrow> thrown option) \<Rightarrow> (js_string \<Rightarrow> app_tables \<Rightarrow> app_tables) \<Rightarrow> substrate \<Rightarrow>
    app_db \<Rightarrow> js_string outcome \<times> app_db" where
  "add_row refused add sub w = (case refused w of
     Some e \<Rightarrow> (Inl e, w)
   | None \<Rightarrow> (let i = sub_id sub (adb_next w) in
       (Inr i, w\<lparr>adb_work := add i (adb_work w), adb_next := Suc (adb_next w)\<rparr>)))"

definition add_customer :: "substrate \<Rightarrow> customer_row \<Rightarrow> app_db \<Rightarrow> js_string outcome \<times> app_db" where
  "add_customer sub c = add_row (\<lambda>w. customer_violation sub (adb_tenant w) c)
     (\<lambda>i tabs. tabs\<lparr>tab_customers := tab_customers tabs @ [(i, c)]\<rparr>) sub"

definition add_audit :: "substrate \<Rightarrow> audit_row \<Rightarrow> app_db \<Rightarrow> js_string outcome \<times> app_db" where
  "add_audit sub a = add_row (\<lambda>w. audit_violation sub (adb_tenant w) a)
     (\<lambda>i tabs. tabs\<lparr>tab_audits := tab_audits tabs @ [(i, a)]\<rparr>) sub"

definition add_outbox :: "substrate \<Rightarrow> outbox_row \<Rightarrow> app_db \<Rightarrow> js_string outcome \<times> app_db" where
  "add_outbox sub x = add_row (\<lambda>w. outbox_violation sub (adb_tenant w) (adb_work w) x)
     (\<lambda>i tabs. tabs\<lparr>tab_outbox := tab_outbox tabs @ [(i, x)]\<rparr>) sub"

definition substrate_client :: "substrate \<Rightarrow> app_db app_client" where
  "substrate_client sub =
     \<lparr>app_txn = app_db_txn,
      app_context = (\<lambda>t. app_statement (\<lambda>w.
        if sub_uuid sub t then (Inr (), w\<lparr>adb_tenant := Some t\<rparr>) else (Inl (violation ''22P02'' None), w))),
      app_customer = (\<lambda>c. ebind (app_statement (add_customer sub c)) (\<lambda>i.
        (\<lambda>w. (Inr (i, sub_stamp sub (adb_next w)), w)))),
      app_audit = (\<lambda>a. app_statement (add_audit sub a)),
      app_outbox = (\<lambda>x. app_statement (add_outbox sub x))\<rparr>"

lemma app_statement_cases:
  assumes "app_statement f w = (res, w1)"
  obtains (fault) e xs where "adb_faults w = Some e # xs" "res = Inl e" "w1 = w\<lparr>adb_faults := xs\<rparr>"
  | (runs) xs where "f (w\<lparr>adb_faults := xs\<rparr>) = (res, w1)"
  using assms unfolding app_statement_def by (rule faulty_cases) auto

lemma added:
  "add_row refused add sub w = (res, w1) \<Longrightarrow>
     adb_rows w1 = adb_rows w \<and> adb_held w1 = adb_held w \<and>
     (\<forall>i. res = Inr i \<longrightarrow> refused w = None \<and> adb_work w1 = add i (adb_work w))"
  by (auto simp: add_row_def Let_def split: option.splits)

lemma outbox_admitted: "outbox_violation sub ten tabs x = None \<Longrightarrow> \<not> key_used tabs (out_tenant x) (out_key x)"
  by (auto simp: outbox_violation_def split: if_splits)

interpretation app_txn: transactional app_db_txn adb_rows adb_work adb_held
  by unfold_locales (auto simp: app_db_txn_def elim!: app_statement_cases)

interpretation substrate: app_store "substrate_client sub" adb_rows adb_work adb_held for sub
proof -
  have txn: "transactional (app_txn (substrate_client sub)) adb_rows adb_work adb_held"
    using app_txn.transactional_axioms by (simp add: substrate_client_def)
  show "app_store (substrate_client sub) adb_rows adb_work adb_held"
    by (intro app_store.intro app_store_axioms.intro txn)
      (auto simp: substrate_client_def add_customer_def add_audit_def add_outbox_def ebind_apply
        elim!: app_statement_cases dest!: added outbox_admitted split: prod.splits sum.splits if_splits)
qed

end
