(* ===== verification/Customer_Claims.thy ===== *)
theory Customer_Claims
  imports Customer_Substrate
begin

text \<open>
  What a commit through the write envelope promises on the tables: all of its three rows or none,
  never two commits under one idempotency key, the repeated one told so, and its connection given back.
\<close>

abbreviation (input) commit_change ::
    "substrate \<Rightarrow> js_string \<Rightarrow> js_string \<Rightarrow> json \<Rightarrow> (app_db uow, thrown, commit_receipt exact) eff" where
  "commit_change sub request key p \<equiv>
     envelope_commit (postgres_port (app_txn (substrate_client sub))) (postgres_write (substrate_client sub) request key) p"

section \<open>The abstract store\<close>

text \<open>The commits there have been: what each was, in order. A commit is taken once for its tenant and key.\<close>

record commit_entry =
  entry_receipt :: commit_receipt
  entry_customer :: customer_row
  entry_audit :: audit_row
  entry_outbox :: outbox_row

definition entry_coherent :: "commit_entry \<Rightarrow> bool" where
  "entry_coherent e \<longleftrightarrow> receipt_wf (entry_receipt e) \<and>
     cust_tenant (entry_customer e) = receipt_tenant_id (entry_receipt e) \<and>
     audit_tenant (entry_audit e) = receipt_tenant_id (entry_receipt e) \<and>
     out_tenant (entry_outbox e) = receipt_tenant_id (entry_receipt e) \<and>
     length (receipt_outbox_ids (entry_receipt e)) = 1"

definition commit_key :: "commit_entry \<Rightarrow> js_string \<times> js_string" where
  "commit_key e = (out_tenant (entry_outbox e), out_key (entry_outbox e))"

definition take_commit :: "commit_entry \<Rightarrow> commit_entry list \<Rightarrow> commit_entry list option" where
  "take_commit e es = (if entry_coherent e \<and> commit_key e \<notin> commit_key ` set es then Some (es @ [e]) else None)"

text \<open>The tables a history of commits leaves.\<close>

definition tables_of :: "commit_entry list \<Rightarrow> app_tables" where
  "tables_of es =
     \<lparr>tab_customers = map (\<lambda>e. (receipt_resource_id (entry_receipt e), entry_customer e)) es,
      tab_audits = map (\<lambda>e. (receipt_audit_id (entry_receipt e), entry_audit e)) es,
      tab_outbox = map (\<lambda>e. (hd (receipt_outbox_ids (entry_receipt e)), entry_outbox e)) es\<rparr>"

lemma key_used_tables: "key_used (tables_of es) t k \<longleftrightarrow> (t, k) \<in> commit_key ` set es"
  by (auto simp: key_used_def tables_of_def outbox_key_def commit_key_def list_ex_iff)

lemma answered_commit:
  assumes "receipt_literal request t resource at audit [event] key = Inr r"
    and "\<not> key_used (tables_of es) t (out_key (outbox_row_of t i))"
  defines "e \<equiv> \<lparr>entry_receipt = r, entry_customer = customer_row_of t i, entry_audit = audit_row_of t i,
    entry_outbox = outbox_row_of t i\<rparr>"
  shows "take_commit e es = Some (es @ [e])"
    and "tables_of (es @ [e]) = \<lparr>tab_customers = tab_customers (tables_of es) @ [(resource, customer_row_of t i)],
      tab_audits = tab_audits (tables_of es) @ [(audit, audit_row_of t i)],
      tab_outbox = tab_outbox (tables_of es) @ [(event, outbox_row_of t i)]\<rparr>"
proof -
  have r: "receipt_wf r" "receipt_tenant_id r = t" "receipt_resource_id r = resource" "receipt_audit_id r = audit"
    "receipt_outbox_ids r = [event]"
    using assms(1) by (auto simp: receipt_literal_one)
  show "take_commit e es = Some (es @ [e])"
    using r assms(2) by (simp add: take_commit_def entry_coherent_def commit_key_def e_def key_used_tables
        customer_row_of_def Let_def audit_row_of_def outbox_row_of_def)
  show "tables_of (es @ [e]) = \<lparr>tab_customers = tab_customers (tables_of es) @ [(resource, customer_row_of t i)],
      tab_audits = tab_audits (tables_of es) @ [(audit, audit_row_of t i)],
      tab_outbox = tab_outbox (tables_of es) @ [(event, outbox_row_of t i)]\<rparr>"
    using r by (simp add: tables_of_def e_def)
qed

lemma commit_history:
  assumes "adb_rows (outside u) = tables_of es" and "\<not> in_flight u"
    and "commit_change sub request key p u = (res, u1)"
  shows "\<not> in_flight u1 \<and> adb_held (outside u1) = adb_held (outside u) \<and> (case res of
     Inl _ \<Rightarrow> adb_rows (outside u1) = tables_of es
   | Inr rx \<Rightarrow> \<exists>e es1. rx = Genuine (entry_receipt e) \<and> take_commit e es = Some es1 \<and>
       adb_rows (outside u1) = tables_of es1)"
proof -
  note atomic = substrate.envelope_atomic [OF assms(2,3)]
  show ?thesis
  proof (cases res)
    case (Inl err)
    with atomic assms(1) show ?thesis by simp
  next
    case (Inr rx)
    with atomic assms(1) obtain i t resource at audit event r where
      lit: "receipt_literal request t resource at audit [event] key = Inr r" and rx: "rx = Genuine r" and
      fresh: "\<not> key_used (tables_of es) t (out_key (outbox_row_of t i))" and
      rows: "adb_rows (outside u1) = \<lparr>tab_customers = tab_customers (tables_of es) @ [(resource, customer_row_of t i)],
         tab_audits = tab_audits (tables_of es) @ [(audit, audit_row_of t i)],
         tab_outbox = tab_outbox (tables_of es) @ [(event, outbox_row_of t i)]\<rparr>"
      by auto
    from answered_commit [OF lit fresh] rx rows atomic Inr show ?thesis
      by (auto intro!: exI [of _ "\<lparr>entry_receipt = r, entry_customer = customer_row_of t i, entry_audit = audit_row_of t i,
        entry_outbox = outbox_row_of t i\<rparr>"])
  qed
qed

text \<open>
  C36. A commit refines the abstract store, whatever statements of its transaction fail. Where the
  tables are those of a history of commits, a commit that answers a receipt leaves the tables of that
  history with one commit more, taken under a key of its tenant that had none, with that receipt and
  the three rows it names, all of one tenant; a commit that throws leaves every table as it was. Either
  way the connection is back in the pool and the unit of work idle.
\<close>

theorem commit_refines_history:
  assumes "adb_rows (outside u) = tables_of es" and "\<not> in_flight u"
    and "commit_change sub request key p u = (res, u1)"
  shows "\<not> in_flight u1 \<and> adb_held (outside u1) = adb_held (outside u) \<and> (case res of
     Inl _ \<Rightarrow> adb_rows (outside u1) = tables_of es
   | Inr rx \<Rightarrow> \<exists>e es1. rx = Genuine (entry_receipt e) \<and> take_commit e es = Some es1 \<and>
       adb_rows (outside u1) = tables_of es1)"
  by (rule commit_history [OF assms])

section \<open>Reachable stores\<close>

inductive store_reachable :: "substrate \<Rightarrow> app_db \<Rightarrow> bool" for sub where
  start: "adb_rows w = \<lparr>tab_customers = [], tab_audits = [], tab_outbox = []\<rparr> \<Longrightarrow> store_reachable sub w"
| commit: "store_reachable sub (outside u) \<Longrightarrow> \<not> in_flight u \<Longrightarrow>
    commit_change sub request key p u = (res, u1) \<Longrightarrow> store_reachable sub (outside u1)"
| faults: "store_reachable sub w \<Longrightarrow> store_reachable sub (w\<lparr>adb_faults := xs\<rparr>)"

lemma take_commit_distinct:
  "take_commit e es = Some es1 \<Longrightarrow> distinct (map commit_key es) \<Longrightarrow> list_all entry_coherent es \<Longrightarrow>
     distinct (map commit_key es1) \<and> list_all entry_coherent es1"
  by (auto simp: take_commit_def split: if_splits)

lemma reachable_history:
  "store_reachable sub w \<Longrightarrow> \<exists>es. adb_rows w = tables_of es \<and> distinct (map commit_key es) \<and> list_all entry_coherent es"
proof (induction rule: store_reachable.induct)
  case (start w)
  then show ?case by (intro exI [of _ "[]"]) (simp add: tables_of_def)
next
  case (commit u request key p res u1)
  then obtain es where es: "adb_rows (outside u) = tables_of es" "distinct (map commit_key es)" "list_all entry_coherent es"
    by blast
  from commit_history [OF es(1) commit.hyps(2,3)] es(2,3) show ?case
    by (auto split: sum.splits dest!: take_commit_distinct)
qed simp

text \<open>
  C37. A key commits once. In every store that commits can reach, whatever failed on the way, no tenant
  has two outbox rows under one idempotency key, and each tenant has as many customers as audit rows
  and outbox rows: a commit is there with all of its rows or not at all.
\<close>

theorem one_commit_per_key:
  assumes "store_reachable sub w"
  shows "distinct (map outbox_key (tab_outbox (adb_rows w))) \<and>
    length (filter (\<lambda>x. cust_tenant (snd x) = t) (tab_customers (adb_rows w))) =
      length (filter (\<lambda>x. out_tenant (snd x) = t) (tab_outbox (adb_rows w))) \<and>
    length (filter (\<lambda>x. audit_tenant (snd x) = t) (tab_audits (adb_rows w))) =
      length (filter (\<lambda>x. out_tenant (snd x) = t) (tab_outbox (adb_rows w)))"
proof -
  obtain es where es: "adb_rows w = tables_of es" "distinct (map commit_key es)" "list_all entry_coherent es"
    using reachable_history [OF assms] by blast
  have "map outbox_key (tab_outbox (adb_rows w)) = map commit_key es"
    by (simp add: es(1) tables_of_def outbox_key_def commit_key_def)
  then have "distinct (map outbox_key (tab_outbox (adb_rows w)))" using es(2) by (simp only:)
  moreover have "length (filter (\<lambda>e. cust_tenant (entry_customer e) = t) es) =
      length (filter (\<lambda>e. out_tenant (entry_outbox e) = t) es)"
    "length (filter (\<lambda>e. audit_tenant (entry_audit e) = t) es) = length (filter (\<lambda>e. out_tenant (entry_outbox e) = t) es)"
    using es(3) by (auto simp: list_all_iff entry_coherent_def intro!: arg_cong [of _ _ length] filter_cong)
  ultimately show ?thesis
    by (simp add: es(1) tables_of_def filter_map comp_def)
qed

section \<open>Commits no statement of which fails\<close>

lemma clear_port:
  assumes "adb_faults w = []"
  shows "uow_begin (postgres_port app_db_txn) w =
      (Inr (), w\<lparr>adb_held := Suc (adb_held w), adb_work := adb_rows w, adb_tenant := None\<rparr>)"
    and "uow_commit (postgres_port app_db_txn) s w =
      (Inr (), w\<lparr>adb_rows := adb_work w, adb_tenant := None, adb_held := adb_held w - 1\<rparr>)"
    and "uow_rollback (postgres_port app_db_txn) s w =
      (Inr (), w\<lparr>adb_work := adb_rows w, adb_tenant := None, adb_held := adb_held w - 1\<rparr>)"
  using assms by (simp_all add: postgres_port_def app_db_txn_def app_statement_def ebind_apply ecatch_apply efinally_apply)

text \<open>The rows the tables accept, their key aside.\<close>

definition rows_accepted :: "substrate \<Rightarrow> js_string \<Rightarrow> intents \<Rightarrow> bool" where
  "rows_accepted sub t i \<longleftrightarrow> sub_uuid sub t \<and> customer_violation sub (Some t) (customer_row_of t i) = None \<and>
     audit_violation sub (Some t) (audit_row_of t i) = None \<and>
     outbox_violation sub (Some t) \<lparr>tab_customers = [], tab_audits = [], tab_outbox = []\<rparr> (outbox_row_of t i) = None"

definition inserted :: "substrate \<Rightarrow> js_string \<Rightarrow> intents \<Rightarrow> nat \<Rightarrow> app_tables \<Rightarrow> app_tables" where
  "inserted sub t i n tabs = \<lparr>tab_customers = tab_customers tabs @ [(sub_id sub n, customer_row_of t i)],
     tab_audits = tab_audits tabs @ [(sub_id sub (Suc n), audit_row_of t i)],
     tab_outbox = tab_outbox tabs @ [(sub_id sub (Suc (Suc n)), outbox_row_of t i)]\<rparr>"

definition made_receipt :: "substrate \<Rightarrow> js_string \<Rightarrow> js_string \<Rightarrow> js_string \<Rightarrow> nat \<Rightarrow> commit_receipt outcome" where
  "made_receipt sub request key t n = receipt_literal request t (sub_id sub n) (sub_stamp sub (Suc n))
     (sub_id sub (Suc n)) [sub_id sub (Suc (Suc n))] key"

lemma outbox_violation_iff:
  assumes "outbox_violation sub (Some t) \<lparr>tab_customers = [], tab_audits = [], tab_outbox = []\<rparr> (outbox_row_of t i) = None"
  shows "outbox_violation sub (Some t) tabs (outbox_row_of t i) =
    (if key_used tabs t (out_key (outbox_row_of t i))
     then Some (violation ''23505'' (Some ''transactional_outbox_tenant_dedup_key'')) else None)"
  using assms by (auto simp: outbox_violation_def outbox_row_of_def split: if_splits)

lemma duplicate_violation: "is_duplicate_fingerprint (violation ''23505'' (Some ''transactional_outbox_tenant_dedup_key''))"
  by (simp add: is_duplicate_fingerprint_def violation_def)

lemma clear_insert_all:
  assumes "adb_faults w = []" and "adb_tenant w = Some t" and "rows_accepted sub t i"
  shows "\<exists>w1. adb_faults w1 = [] \<and> adb_rows w1 = adb_rows w \<and>
    insert_all (substrate_client sub) request key t i w =
      (if key_used (adb_work w) t (out_key (outbox_row_of t i))
       then (Inl (violation ''23505'' (Some ''transactional_outbox_tenant_dedup_key'')), w1)
       else (made_receipt sub request key t (adb_next w), w1)) \<and>
    (\<not> key_used (adb_work w) t (out_key (outbox_row_of t i)) \<longrightarrow> adb_work w1 = inserted sub t i (adb_next w) (adb_work w))"
proof -
  have "customer_violation sub (Some t) (customer_row_of t i) = None" "audit_violation sub (Some t) (audit_row_of t i) = None"
    using assms(3) by (simp_all add: rows_accepted_def)
  moreover have "key_used (w\<lparr>tab_customers := a, tab_audits := b\<rparr>) t k = key_used w t k" for w :: app_tables and a b k
    by (simp add: key_used_def)
  moreover note outbox_violation_iff [of sub t i] assms
  ultimately show ?thesis
    by (auto simp: insert_all_def substrate_client_def app_statement_def add_customer_def add_audit_def add_outbox_def
        add_row_def Let_def ebind_apply made_receipt_def inserted_def rows_accepted_def)
qed

lemma clear_commit:
  assumes "\<not> in_flight u" and "adb_faults (outside u) = []"
    and "check_prepared p = Inr i" and "check_tenant_id (member (int_customer i) ''tenantId'') = Inr t"
    and "rows_accepted sub t i"
  defines "tabs \<equiv> adb_rows (outside u)" and "k \<equiv> out_key (outbox_row_of t i)" and "n \<equiv> adb_next (outside u)"
  shows "\<exists>u1. commit_change sub request key p u =
      (if key_used tabs t k then Inl (IdempotencyConflict t k)
       else case made_receipt sub request key t n of
         Inl e \<Rightarrow> Inl (if is_duplicate_fingerprint e then IdempotencyConflict t k else e) | Inr r \<Rightarrow> Inr (Genuine r), u1) \<and>
    adb_rows (outside u1) =
      (if key_used tabs t k \<or> \<not> is_ok (made_receipt sub request key t n) then tabs else inserted sub t i n tabs)"
proof -
  let ?w = "outside u"
  let ?b = "?w\<lparr>adb_held := Suc (adb_held ?w), adb_work := adb_rows ?w, adb_tenant := None\<rparr>"
  let ?c = "?b\<lparr>adb_tenant := Some t\<rparr>"
  have clear: "adb_faults ?c = []" "adb_tenant ?c = Some t" "adb_work ?c = tabs" "adb_rows ?c = tabs" "adb_next ?c = n"
    using assms(2) by (simp_all add: tabs_def n_def)
  obtain w1 where w1: "adb_faults w1 = []" "adb_rows w1 = tabs"
    "insert_all (substrate_client sub) request key t i ?c =
      (if key_used tabs t k then (Inl (violation ''23505'' (Some ''transactional_outbox_tenant_dedup_key'')), w1)
       else (made_receipt sub request key t n, w1))"
    "\<not> key_used tabs t k \<Longrightarrow> adb_work w1 = inserted sub t i n tabs"
    using clear_insert_all [OF clear(1,2) assms(5), of request key] unfolding clear k_def by metis
  let ?body = "envelope_body (postgres_write (substrate_client sub) request key) p"
  let ?res = "if key_used tabs t k then Inl (IdempotencyConflict t k)
       else case made_receipt sub request key t n of
         Inl e \<Rightarrow> Inl (if is_duplicate_fingerprint e then IdempotencyConflict t k else e) | Inr r \<Rightarrow> Inr (Genuine r)"
  have "app_context (substrate_client sub) t ?b = (Inr (), ?c)"
    using assms(2,5) by (simp add: substrate_client_def app_statement_def rows_accepted_def)
  then have body: "?body () ?b = (?res, w1)"
    using w1(3) assms(3,4) duplicate_violation
    by (auto simp: envelope_body_def postgres_write_def ebind_apply ecatch_apply k_def outbox_row_of_def split: sum.splits)
  have txn: "app_txn (substrate_client sub) = app_db_txn" by (simp add: substrate_client_def)
  have scope: "scoped (postgres_port app_db_txn) ?body ?w =
      (case ?res of Inl e \<Rightarrow> (Inl e, w1\<lparr>adb_work := adb_rows w1, adb_tenant := None, adb_held := adb_held w1 - 1\<rparr>)
       | Inr x \<Rightarrow> (Inr x, w1\<lparr>adb_rows := adb_work w1, adb_tenant := None, adb_held := adb_held w1 - 1\<rparr>))"
    using clear_port(1) [OF assms(2)] clear_port(2,3) [OF w1(1)] body
    by (auto simp: scoped_def ebind_apply ecatch_apply quietly_def split: sum.splits)
  show ?thesis
    unfolding envelope_commit_def uow_run_out [OF assms(1)] txn scope
    using w1(2,4) by (auto split: sum.splits)
qed

text \<open>
  The key decides. Where no statement fails and the tables accept the rows, a change set whose
  tenant already has its idempotency key is refused with an idempotency conflict naming the tenant and
  the key and stores nothing; any other is stored, and its receipt names the request, the three new
  ids and the database's own commit instant.
\<close>

theorem key_decides_commit:
  assumes "\<not> in_flight u" and "adb_faults (outside u) = []"
    and "check_prepared p = Inr i" and "check_tenant_id (member (int_customer i) ''tenantId'') = Inr t"
    and "rows_accepted sub t i" and "made_receipt sub request key t (adb_next (outside u)) = Inr r"
  shows "\<exists>u1. commit_change sub request key p u =
      (if key_used (adb_rows (outside u)) t (out_key (outbox_row_of t i))
       then Inl (IdempotencyConflict t (out_key (outbox_row_of t i))) else Inr (Genuine r), u1) \<and>
    adb_rows (outside u1) =
      (if key_used (adb_rows (outside u)) t (out_key (outbox_row_of t i)) then adb_rows (outside u)
       else inserted sub t i (adb_next (outside u)) (adb_rows (outside u)))"
  using clear_commit [OF assms(1-5), of request key] assms(6) by auto

section \<open>A store of its own\<close>

definition sample_substrate :: substrate where
  "sample_substrate = \<lparr>sub_id = (\<lambda>n. replicate (Suc n) 0x31), sub_stamp = (\<lambda>_. js ''2024-02-29T12:30:45.123Z''),
     sub_uuid = (\<lambda>_. True), sub_jsonb = (\<lambda>_. True)\<rparr>"

definition sample_change :: json where
  "sample_change = JsonObj
     [(js ''persistenceState'', JsonStr (js ''pending'')),
      (js ''intents'', JsonObj
        [(js ''customer'', JsonObj [(js ''tenantId'', JsonStr (js ''t'')),
            (js ''payload'', JsonObj [(js ''name'', JsonStr (js ''n''))])]),
         (js ''audit'', JsonObj [(js ''action'', JsonStr (js ''a''))]),
         (js ''transactionalOutbox'', JsonObj [(js ''eventName'', JsonStr (js ''e''))]),
         (js ''idempotency'', JsonObj [(js ''fingerprint'', JsonStr (js ''f''))])])]"

definition sample_intents :: intents where
  "sample_intents =
     \<lparr>int_customer = JsonObj [(js ''tenantId'', JsonStr (js ''t'')), (js ''payload'', JsonObj [(js ''name'', JsonStr (js ''n''))])],
      int_audit = JsonObj [(js ''action'', JsonStr (js ''a''))],
      int_outbox = JsonObj [(js ''eventName'', JsonStr (js ''e''))],
      int_idempotency = JsonObj [(js ''fingerprint'', JsonStr (js ''f''))]\<rparr>"

definition empty_store :: app_db where
  "empty_store = (let none = \<lparr>tab_customers = [], tab_audits = [], tab_outbox = []\<rparr> in
     \<lparr>adb_rows = none, adb_work = none, adb_tenant = None, adb_held = 0, adb_next = 0, adb_faults = []\<rparr>)"

definition sample_made :: commit_receipt where
  "sample_made = \<lparr>receipt_request_id = js ''r'', receipt_tenant_id = js ''t'', receipt_resource_id = sub_id sample_substrate 0,
     receipt_committed_at = js ''2024-02-29T12:30:45.123Z'', receipt_audit_id = sub_id sample_substrate 1,
     receipt_outbox_ids = [sub_id sample_substrate 2], receipt_idempotency_key = js ''k''\<rparr>"

lemma sample_prepared: "check_prepared sample_change = Inr sample_intents"
  "check_tenant_id (member (int_customer sample_intents) ''tenantId'') = Inr (js ''t'')"
  by code_simp+

lemma sample_accepted: "rows_accepted sample_substrate (js ''t'') sample_intents"
  by code_simp

lemma sample_made: "made_receipt sample_substrate (js ''r'') (js ''k'') (js ''t'') 0 = Inr sample_made"
proof -
  have "names_a_real_instant (js ''2024-02-29T12:30:45.123Z'')" by code_simp
  moreover have "\<not> blank (js ''r'')" "\<not> blank (js ''t'')" "\<not> blank (js ''k'')" "\<not> blank (sub_id sample_substrate 0)"
    "\<not> blank (sub_id sample_substrate 1)" "\<not> blank (sub_id sample_substrate 2)"
    by code_simp+
  ultimately show ?thesis
    by (simp add: made_receipt_def receipt_literal_one sample_made_def receipt_wf_def names_a_real_instant_iff
        sample_substrate_def numeral_2_eq_2)
qed

text \<open>The change set is committed to the empty store, and refused by the store that leaves.\<close>

abbreviation (input) sample_commit :: "app_db \<Rightarrow> commit_receipt exact outcome \<times> app_db uow" where
  "sample_commit w \<equiv> commit_change sample_substrate (js ''r'') (js ''k'') sample_change \<lparr>in_flight = False, outside = w\<rparr>"

lemma sample_committed:
  obtains u1 where "sample_commit empty_store = (Inr (Genuine sample_made), u1)" "\<not> in_flight u1"
    "adb_rows (outside u1) = inserted sample_substrate (js ''t'') sample_intents 0 (adb_rows empty_store)"
proof -
  let ?u = "\<lparr>in_flight = False, outside = empty_store\<rparr>"
  have "adb_faults (outside ?u) = []" "adb_next (outside ?u) = 0" "\<not> in_flight ?u"
    and fresh: "\<not> key_used (adb_rows empty_store) (js ''t'') k" for k
    by (simp_all add: empty_store_def Let_def key_used_def)
  from clear_commit [where u = ?u, OF this(3,1) sample_prepared sample_accepted, of "js ''r''" "js ''k''"] this(2)
  obtain u1 where "sample_commit empty_store = (Inr (Genuine sample_made), u1)"
    "adb_rows (outside u1) = inserted sample_substrate (js ''t'') sample_intents 0 (adb_rows empty_store)"
    by (auto simp: sample_made fresh)
  moreover have "\<not> in_flight u1"
    using substrate.envelope_atomic [where u = ?u and sub = sample_substrate, OF _ calculation(1)] by simp
  ultimately show thesis using that by blast
qed

theorem commit_refines_history_witness:
  "\<exists>u1 e es1. sample_commit empty_store = (Inr (Genuine (entry_receipt e)), u1) \<and>
     take_commit e [] = Some es1 \<and> adb_rows (outside u1) = tables_of es1"
proof -
  obtain u1 where u1: "sample_commit empty_store = (Inr (Genuine sample_made), u1)" by (rule sample_committed)
  have "adb_rows (outside \<lparr>in_flight = False, outside = empty_store\<rparr>) = tables_of []"
    by (simp add: empty_store_def Let_def tables_of_def)
  from commit_refines_history [OF this _ u1] u1 show ?thesis by auto
qed

theorem one_commit_per_key_witness:
  "\<exists>u1. sample_commit empty_store = (Inr (Genuine sample_made), u1) \<and>
     length (filter (\<lambda>x. cust_tenant (snd x) = js ''t'') (tab_customers (adb_rows (outside u1)))) = 1 \<and>
     length (filter (\<lambda>x. out_tenant (snd x) = js ''t'') (tab_outbox (adb_rows (outside u1)))) = 1"
proof -
  obtain u1 where u1: "sample_commit empty_store = (Inr (Genuine sample_made), u1)"
    "adb_rows (outside u1) = inserted sample_substrate (js ''t'') sample_intents 0 (adb_rows empty_store)"
    by (rule sample_committed)
  have "store_reachable sample_substrate empty_store" by (rule store_reachable.start) (simp add: empty_store_def Let_def)
  then have "store_reachable sample_substrate (outside u1)" by (intro store_reachable.commit [OF _ _ u1(1)]) simp_all
  from one_commit_per_key [OF this, of "js ''t''"] u1 show ?thesis
    by (simp add: inserted_def empty_store_def Let_def outbox_row_of_def)
qed

lemma sample_key: "out_key (outbox_row_of (js ''t'') sample_intents) = js ''f''"
  by code_simp

lemma sample_used: "key_used (inserted sample_substrate (js ''t'') sample_intents 0 tabs) (js ''t'') (js ''f'')"
proof -
  have "outbox_key (i, outbox_row_of (js ''t'') sample_intents) = (js ''t'', js ''f'')" for i
    by (simp only: outbox_key_def sample_key snd_conv) (simp add: outbox_row_of_def)
  then show ?thesis by (simp add: key_used_def inserted_def)
qed

theorem key_decides_commit_witness:
  "\<exists>w1 u2. adb_rows w1 = inserted sample_substrate (js ''t'') sample_intents 0 (adb_rows empty_store) \<and>
     sample_commit (w1\<lparr>adb_faults := [], adb_next := 0\<rparr>) = (Inl (IdempotencyConflict (js ''t'') (js ''f'')), u2) \<and>
     adb_rows (outside u2) = adb_rows w1"
proof -
  obtain u1 where "sample_commit empty_store = (Inr (Genuine sample_made), u1)"
    and u1: "adb_rows (outside u1) = inserted sample_substrate (js ''t'') sample_intents 0 (adb_rows empty_store)"
    by (rule sample_committed)
  let ?u = "\<lparr>in_flight = False, outside = (outside u1)\<lparr>adb_faults := [], adb_next := 0\<rparr>\<rparr>"
  have used: "key_used (adb_rows (outside ?u)) (js ''t'') (js ''f'')" using sample_used u1 by simp
  have made: "made_receipt sample_substrate (js ''r'') (js ''k'') (js ''t'') (adb_next (outside ?u)) = Inr sample_made"
    by (simp add: sample_made)
  have "\<not> in_flight ?u" "adb_faults (outside ?u) = []" by simp_all
  from key_decides_commit [where u = ?u, OF this sample_prepared sample_accepted made] used
  obtain u2 where "sample_commit ((outside u1)\<lparr>adb_faults := [], adb_next := 0\<rparr>) = (Inl (IdempotencyConflict (js ''t'') (js ''f'')), u2)"
    "adb_rows (outside u2) = adb_rows (outside u1)"
    unfolding sample_key by (auto simp del: One_nat_def)
  from u1 this show ?thesis by (intro exI [of _ "outside u1"] exI [of _ u2] conjI)
qed

end
