(* ===== verification/Customer_Composition.thy ===== *)
theory Customer_Composition
  imports Customer_Pipeline_Facts Customer_Claims Decision_Log_Claims
begin

text \<open>
  \<^verbatim>\<open>src/src/delivery/create-customer-composition.mjs\<close>: the pipeline, the commit service and their
  adapters wired together, plain and audited. The world has three parts: what the caller's
  collaborators keep, the customer tables behind the unit of work's pool, and the decision log behind
  the adapter's. A call touches the part it is sent to.
\<close>

section \<open>The world\<close>

type_synonym ('e, 'a, 'l) kernel = "'e \<times> 'a \<times> 'l"

definition at_caller :: "('e, thrown, 'x) eff \<Rightarrow> (('e, 'a, 'l) kernel, thrown, 'x) eff" where
  "at_caller m w = (case m (fst w) of (r, e) \<Rightarrow> (r, (e, snd w)))"

definition at_app :: "('a, thrown, 'x) eff \<Rightarrow> (('e, 'a, 'l) kernel, thrown, 'x) eff" where
  "at_app m w = (case m (fst (snd w)) of (r, a) \<Rightarrow> (r, (fst w, a, snd (snd w))))"

definition at_log :: "('l, thrown, 'x) eff \<Rightarrow> (('e, 'a, 'l) kernel, thrown, 'x) eff" where
  "at_log m w = (case m (snd (snd w)) of (r, l) \<Rightarrow> (r, (fst w, fst (snd w), l)))"

section \<open>Options\<close>

definition composition_keys :: "string list" where
  "composition_keys = [''connectionString'', ''current'', ''candidatesFor'', ''evaluateInvariants'']"

definition audited_keys :: "string list" where
  "audited_keys = composition_keys @ [''idGenerator'', ''now'']"

definition non_empty_option :: "string \<Rightarrow> jsval \<Rightarrow> js_string outcome" where
  "non_empty_option who v = (case v of
     VStr s \<Rightarrow> if s \<noteq> [] then Inr s else type_error (js (who @ '' connectionString must be a non-empty string''))
   | _ \<Rightarrow> type_error (js (who @ '' connectionString must be a non-empty string'')))"

definition function_option :: "string \<Rightarrow> string \<Rightarrow> jsval \<Rightarrow> nat outcome" where
  "function_option who key v = (case v of
     VFun f \<Rightarrow> Inr f | _ \<Rightarrow> type_error (js (who @ '' '' @ key @ '' must be a function'')))"

text \<open>All four are read before any is checked.\<close>

definition check_composition_options :: "heap \<Rightarrow> jsval \<Rightarrow> (js_string \<times> nat list) outcome" where
  "check_composition_options h options = (let who = ''createCustomerComposition'' in
     rbind (ordinary_options h options composition_keys
       (js (who @ '' needs exactly one ordinary options object''))
       (js (who @ '' options must carry exactly these keys: '') @ comma_list composition_keys)) (\<lambda>r.
     rbind (rmap (\<lambda>k. read_key h r (js k)) composition_keys) (\<lambda>vs.
     rbind (non_empty_option who (vs ! 0)) (\<lambda>connection.
     rbind (rmap (\<lambda>(k, v). function_option who k v) (tl (zip composition_keys vs))) (\<lambda>fs.
     Inr (connection, fs))))))"

text \<open>The audited options are taken from their descriptors, so no getter runs.\<close>

definition check_audited_options :: "heap \<Rightarrow> jsval \<Rightarrow> (js_string \<times> nat list) outcome" where
  "check_audited_options h options = (let who = ''createAuditedCustomerComposition'' in
     rbind (data_options h options audited_keys
       (js (who @ '' needs exactly one ordinary options object''))
       (js (who @ '' options must carry exactly these six own enumerable data keys: '') @ comma_list audited_keys)) (\<lambda>r.
     rbind (non_empty_option who (member_at h r (js ''connectionString''))) (\<lambda>connection.
     rbind (rmap (\<lambda>k. function_option who k (member_at h r (js k))) (tl audited_keys)) (\<lambda>fs.
     Inr (connection, fs)))))"

section \<open>The commit both share\<close>

text \<open>A unit of work, a write and an envelope of their own for every commit.\<close>

definition fresh_commit :: "'w app_client \<Rightarrow> json \<Rightarrow> commit_context \<Rightarrow> ('w, thrown, jsval) eff" where
  "fresh_commit cl prepared context =
     ebind (elift (postgres_write_new cl (VStr (ctx_request context)) (ctx_key context))) (\<lambda>write w.
       case envelope_commit (postgres_port (app_txn cl)) write prepared \<lparr>in_flight = False, outside = w\<rparr> of
         (Inl e, u) \<Rightarrow> (Inl e, outside u)
       | (Inr receipt, u) \<Rightarrow> (Inr (VInst (ICommitReceipt receipt)), outside u))"

section \<open>The plain composition\<close>

record 'e customer_ports =
  port_current :: "unit \<Rightarrow> ('e, thrown, jsval) eff"
  port_candidates :: "'e candidate_source"
  port_invariants :: "command \<Rightarrow> ('e, thrown, heap \<times> jsval) eff"

definition pipeline_over ::
    "'e customer_ports \<Rightarrow> (jsval \<Rightarrow> (('e, 'a, 'l) kernel, thrown, policy_decision) eff)
     \<Rightarrow> (guard_refusal \<Rightarrow> (('e, 'a, 'l) kernel, thrown, unit) eff) option \<Rightarrow> ('e, 'a, 'l) kernel pipeline" where
  "pipeline_over ports decide guard = \<lparr>pl_identity = Genuine (\<lambda>u. at_caller (port_current ports u)),
     pl_decide = decide, pl_invariants = (\<lambda>c. at_caller (port_invariants ports c)), pl_guard = guard\<rparr>"

definition service_over ::
    "(js_string \<Rightarrow> js_string) \<Rightarrow> 'a app_client \<Rightarrow> ('e, 'a, 'l) kernel pipeline
     \<Rightarrow> heap \<Rightarrow> nat \<Rightarrow> jsval \<Rightarrow> (('e, 'a, 'l) kernel, thrown, service_result) eff" where
  "service_over sha cl pl = service_handle sha pl (\<lambda>prepared context. at_app (fresh_commit cl prepared context))"

definition plain_decide :: "'e customer_ports \<Rightarrow> jsval \<Rightarrow> (('e, 'a, 'l) kernel, thrown, policy_decision) eff" where
  "plain_decide ports = decision_point_decide (\<lambda>q. at_caller (port_candidates ports q))"

definition plain_service ::
    "(js_string \<Rightarrow> js_string) \<Rightarrow> 'e customer_ports \<Rightarrow> 'a app_client \<Rightarrow> heap \<Rightarrow> nat \<Rightarrow> jsval
     \<Rightarrow> (('e, 'a, 'l) kernel, thrown, service_result) eff" where
  "plain_service sha ports cl = service_over sha cl (pipeline_over ports (plain_decide ports) None)"

section \<open>The audited composition\<close>

definition guard_stage :: js_string where "guard_stage = js ''identityTenantGuard''"

definition guard_reason :: "refusal_code \<Rightarrow> js_string option" where
  "guard_reason c = (case c of
     CrossTenant \<Rightarrow> Some (js ''identity guard: the authenticated principal does not hold the tenant this request claimed, so the request was refused at the system layer before any policy was consulted'')
   | IdentityMismatch \<Rightarrow> Some (js ''identity guard: the authenticated principal is not the actor this request claimed, so the request was refused at the system layer before any policy was consulted'')
   | _ \<Rightarrow> None)"

text \<open>The command of the record is built over the empty payload, so it carries nothing the request claimed.\<close>

definition guard_command :: "guard_refusal \<Rightarrow> command outcome" where
  "guard_command g = command_of (\<lambda>_. plain_object []) (Inr (VStr (js ''customer.create''))) (Inr (VNum (JInt 1)))
     (Inr (VInst (IPrincipal (Genuine (refusal_principal g)))))
     (Inr (VInst (ICorrelationId (Genuine (refusal_correlation g))))) (Inr VNull)
     (Inr (VInst (IIdempotencyKey (Genuine (refusal_key g))))) (Inr (VObj 0))"

definition guard_context :: "refusal_code \<Rightarrow> (string \<times> jsval) list" where
  "guard_context c = [(''stage'', VStr guard_stage), (''guard'', VStr (refusal_text c))]"

definition guard_auditor :: "(js_string \<Rightarrow> js_string) \<Rightarrow> 'w log_services \<Rightarrow> guard_refusal \<Rightarrow> ('w, thrown, unit) eff" where
  "guard_auditor sha svc g = (case guard_reason (refusal_guard g) of
     None \<Rightarrow> ethrow (TypeError (js ''createAuditedCustomerComposition cannot audit an unknown identity-guard code: '' @
       refusal_text (refusal_guard g)))
   | Some why \<Rightarrow>
       ebind (elift (guard_command g)) (\<lambda>c.
       ebind (elift (request_literal c (customer_resource (refusal_principal g)) (guard_context (refusal_guard g)))) (\<lambda>q.
       ebind (elift (policy_decision_of (Inr (VStr (js ''deny''))) (Inr (VStr why)) (Inr VNull)
         (Inr (VInst (ICorrelationId (Genuine (refusal_correlation g))))))) (\<lambda>d.
       ebind (svc_chain_head svc (principal_tenant (refusal_principal g))) (\<lambda>prev.
       ebind (svc_id svc) (\<lambda>i.
       ebind (clock_now (svc_read_clock svc) ()) (\<lambda>ts.
       ebind (elift (entry_of sha i (VInst (IPolicyRequest (Genuine q))) (VInst (IPolicyDecision (Genuine d)))
         VNull (VStr ts) prev)) (\<lambda>e.
       ebind (log_port_append (svc_append svc) (VInst (IDecisionLogEntry (Genuine e)))) (\<lambda>_. eret ())))))))))"

text \<open>The log services of the audited composition: the receipt of an append is answered and not read.\<close>

definition audited_services ::
    "(js_string \<Rightarrow> js_string) \<Rightarrow> 'e customer_ports \<Rightarrow> ('e, thrown, jsval) eff
     \<Rightarrow> (unit \<Rightarrow> ('e, thrown, jsval) eff) \<Rightarrow> 'l sql_client \<Rightarrow> ('e, 'a, 'l) kernel log_services" where
  "audited_services sha ports ids now lcl = \<lparr>svc_candidates = (\<lambda>q. at_caller (port_candidates ports q)),
     svc_append = (\<lambda>v. ebind (at_log (adapter_append sha lcl v)) (\<lambda>_. eret VUndef)),
     svc_id = at_caller ids, svc_read_clock = (\<lambda>u. at_caller (now u)),
     svc_chain_head = (\<lambda>t. ebind (at_log (adapter_chain_head lcl (VInst (ITenantId t)))) (\<lambda>head.
       eret (case head of None \<Rightarrow> VNull | Some s \<Rightarrow> VStr s)))\<rparr>"

definition audited_service ::
    "(js_string \<Rightarrow> js_string) \<Rightarrow> 'e customer_ports \<Rightarrow> ('e, thrown, jsval) eff
     \<Rightarrow> (unit \<Rightarrow> ('e, thrown, jsval) eff) \<Rightarrow> 'l sql_client \<Rightarrow> 'a app_client
     \<Rightarrow> heap \<Rightarrow> nat \<Rightarrow> jsval \<Rightarrow> (('e, 'a, 'l) kernel, thrown, service_result) eff" where
  "audited_service sha ports ids now lcl cl = (let svc = audited_services sha ports ids now lcl in
     service_over sha cl (pipeline_over ports (logging_decide sha svc) (Some (guard_auditor sha svc))))"

text \<open>Closing: both pools are closed, whatever the first of the two does, and the first refusal is raised.\<close>

definition close_both :: "('l, thrown, unit) eff \<Rightarrow> ('a, thrown, unit) eff \<Rightarrow> (('e, 'a, 'l) kernel, thrown, unit) eff" where
  "close_both close_log close_app w = (case at_log close_log w of (r, w1) \<Rightarrow>
     (case at_app close_app w1 of (q, w2) \<Rightarrow> (rbind r (\<lambda>_. q), w2)))"

end
