(* ===== verification/Frames.thy ===== *)
theory Frames
  imports Kernel_Prelude
begin

text \<open>
  Framing: what a program leaves as it was, on every path, thrown errors included. A program built
  from parts that leave something alone leaves it alone.
\<close>

named_theorems frame_rules \<open>a program leaves alone what its parts leave alone\<close>

definition keeps :: "('w \<Rightarrow> 'k) \<Rightarrow> ('w, 'e, 'a) eff \<Rightarrow> bool" where
  "keeps f m \<longleftrightarrow> (\<forall>w r w1. m w = (r, w1) \<longrightarrow> f w1 = f w)"

lemma keepsI: "(\<And>w r w1. m w = (r, w1) \<Longrightarrow> f w1 = f w) \<Longrightarrow> keeps f m"
  by (simp add: keeps_def)

lemma keepsD: "keeps f m \<Longrightarrow> m w = (r, w1) \<Longrightarrow> f w1 = f w"
  by (simp add: keeps_def)

lemma keeps_eret [frame_rules]: "keeps f (eret x)"
  by (simp add: keeps_def)

lemma keeps_ethrow [frame_rules]: "keeps f (ethrow e)"
  by (simp add: keeps_def)

lemma keeps_elift [frame_rules]: "keeps f (elift r)"
  by (simp add: keeps_def)

lemma keeps_ebind [frame_rules]:
  assumes "keeps f m" and "\<And>x. keeps f (g x)"
  shows "keeps f (ebind m g)"
proof (rule keepsI)
  fix w r w1 assume run: "ebind m g w = (r, w1)"
  show "f w1 = f w"
  proof (cases rule: eff_cases [of m w])
    case (throws e w2)
    with run keepsD [OF assms(1) throws] show ?thesis by (simp add: ebind_apply)
  next
    case (answers x w2)
    with run have "g x w2 = (r, w1)" by (simp add: ebind_apply)
    with keepsD [OF assms(2) this] keepsD [OF assms(1) answers] show ?thesis by simp
  qed
qed

lemma keeps_ecatch [frame_rules]:
  assumes "keeps f m" and "\<And>e. keeps f (g e)"
  shows "keeps f (ecatch m g)"
proof (rule keepsI)
  fix w r w1 assume run: "ecatch m g w = (r, w1)"
  show "f w1 = f w"
  proof (cases rule: eff_cases [of m w])
    case (throws e w2)
    with run have "g e w2 = (r, w1)" by (simp add: ecatch_apply)
    with keepsD [OF assms(2) this] keepsD [OF assms(1) throws] show ?thesis by simp
  next
    case (answers x w2)
    with run keepsD [OF assms(1) answers] show ?thesis by (simp add: ecatch_apply)
  qed
qed

lemma keeps_if [frame_rules]: "(b \<Longrightarrow> keeps f m) \<Longrightarrow> (\<not> b \<Longrightarrow> keeps f n) \<Longrightarrow> keeps f (if b then m else n)"
  by simp

lemma keeps_sum [frame_rules]:
  "(\<And>e. r = Inl e \<Longrightarrow> keeps f (m e)) \<Longrightarrow> (\<And>x. r = Inr x \<Longrightarrow> keeps f (n x)) \<Longrightarrow> keeps f (case r of Inl e \<Rightarrow> m e | Inr x \<Rightarrow> n x)"
  by (cases r) simp_all

lemma keeps_option [frame_rules]:
  "(v = None \<Longrightarrow> keeps f m) \<Longrightarrow> (\<And>x. v = Some x \<Longrightarrow> keeps f (n x)) \<Longrightarrow> keeps f (case v of None \<Rightarrow> m | Some x \<Rightarrow> n x)"
  by (cases v) simp_all

lemma keeps_prod [frame_rules]: "(\<And>x y. keeps f (m x y)) \<Longrightarrow> keeps f (case p of (x, y) \<Rightarrow> m x y)"
  by (cases p) simp

text \<open>
  A program that answers only after its last call, what came before having left something alone: \<open>P\<close>
  relates the answer to the world before that call and to the one after it.
\<close>

definition ends_with :: "('w \<Rightarrow> 'k) \<Rightarrow> ('a \<Rightarrow> 'w \<Rightarrow> 'w \<Rightarrow> bool) \<Rightarrow> ('w, 'e, 'a) eff \<Rightarrow> bool" where
  "ends_with f P m \<longleftrightarrow> (\<forall>w y w2. m w = (Inr y, w2) \<longrightarrow> (\<exists>w1. f w1 = f w \<and> P y w1 w2))"

lemma ends_withD: "ends_with f P m \<Longrightarrow> m w = (Inr y, w2) \<Longrightarrow> \<exists>w1. f w1 = f w \<and> P y w1 w2"
  unfolding ends_with_def by blast

lemma ends_with_last: "(\<And>x w1 w2. m w1 = (Inr x, w2) \<Longrightarrow> P y w1 w2) \<Longrightarrow> ends_with f P (ebind m (\<lambda>_. eret y))"
  by (auto simp: ends_with_def ebind_Inr_iff)

lemma ends_with_ebind:
  assumes "keeps f m" and "\<And>x. ends_with f P (g x)"
  shows "ends_with f P (ebind m g)"
  unfolding ends_with_def
proof (intro allI impI)
  fix w y w2 assume "ebind m g w = (Inr y, w2)"
  then obtain x w1 where m: "m w = (Inr x, w1)" and g: "g x w1 = (Inr y, w2)" by (auto simp: ebind_Inr_iff)
  from ends_withD [OF assms(2) g] assms(1) [THEN keepsD, OF m] show "\<exists>w1. f w1 = f w \<and> P y w1 w2" by simp
qed

lemma ends_with_elift: "(\<And>x. r = Inr x \<Longrightarrow> ends_with f P (g x)) \<Longrightarrow> ends_with f P (ebind (elift r) g)"
  by (cases r) (auto simp: ends_with_def)

lemma ends_with_throw: "ends_with f P (ethrow e)"
  by (simp add: ends_with_def)

lemma ends_with_prod: "(\<And>x y. ends_with f P (m x y)) \<Longrightarrow> ends_with f P (case p of (x, y) \<Rightarrow> m x y)"
  by (cases p) simp

lemmas ends_with_rules = ends_with_last ends_with_elift ends_with_ebind ends_with_prod ends_with_throw

end
