(* ===== verification/Composition_Frames.thy ===== *)
theory Composition_Frames
  imports Customer_Composition Frames
begin

text \<open>
  Which part of the world the pipeline and the services touch, and the contract of a decision point as
  the pipeline relies on it.
\<close>

abbreviation app_part :: "('e, 'a, 'l) kernel \<Rightarrow> 'a" where "app_part w \<equiv> fst (snd w)"
abbreviation log_part :: "('e, 'a, 'l) kernel \<Rightarrow> 'l" where "log_part w \<equiv> snd (snd w)"

lemma caller_keeps [frame_rules]: "keeps snd (at_caller m)" "keeps app_part (at_caller m)" "keeps log_part (at_caller m)"
  by (auto simp: keeps_def at_caller_def split: prod.splits)

lemma app_keeps [frame_rules]: "keeps log_part (at_app m)" "keeps fst (at_app m)"
  by (auto simp: keeps_def at_app_def split: prod.splits)

lemma log_keeps [frame_rules]: "keeps app_part (at_log m)" "keeps fst (at_log m)"
  by (auto simp: keeps_def at_log_def split: prod.splits)

text \<open>A pipeline leaves alone what its collaborators leave alone.\<close>

lemma pipeline_keeps:
  assumes "case pl_identity pl of Genuine ask \<Rightarrow> keeps f (ask ()) | Hollow \<Rightarrow> True"
    and "\<And>v. keeps f (pl_decide pl v)" and "\<And>c. keeps f (pl_invariants pl c)"
    and "\<And>g witness. pl_guard pl = Some witness \<Longrightarrow> keeps f (witness g)"
  shows "keeps f (pipeline_run sha pl h ref spec)"
proof -
  have "keeps f (ebind (elift (private_read ''current'' (pl_identity pl))) (\<lambda>ask. identity_current ask ()))"
    using assms(1) by (cases "pl_identity pl") (auto simp: identity_current_def intro!: frame_rules)
  then show ?thesis
    using assms(2-4)
    by (auto simp: pipeline_run_def guard_and_build_def refuse_at_guard_def decide_and_prepare_def intro!: frame_rules)
qed

lemma plain_decide_keeps: "keeps app_part (plain_decide ports v)" "keeps log_part (plain_decide ports v)"
  by (auto simp: plain_decide_def decision_point_decide_def intro!: frame_rules)

lemma audited_services_keep:
  fixes svc :: "('e, 'a, 'l) kernel log_services"
  assumes "svc = audited_services sha ports ids now lcl"
  shows "keeps app_part (svc_candidates svc v)" "keeps app_part (svc_append svc v)" "keeps app_part (svc_id svc)"
    "keeps app_part (svc_read_clock svc u)" "keeps app_part (svc_chain_head svc t)"
  by (auto simp: assms audited_services_def intro!: frame_rules)

lemma logging_decide_keeps: "keeps app_part (logging_decide sha (audited_services sha ports ids now lcl) v)"
  by (auto simp: logging_decide_def log_one_def chain_head_of_def Let_def clock_now_def log_port_append_def
      intro!: frame_rules audited_services_keep [OF refl])

lemma guard_auditor_keeps: "keeps app_part (guard_auditor sha (audited_services sha ports ids now lcl) g)"
  by (auto simp: guard_auditor_def clock_now_def log_port_append_def intro!: frame_rules audited_services_keep [OF refl])

section \<open>What the pipeline needs of a decision point\<close>

locale admitting_point =
  fixes decide :: "jsval \<Rightarrow> (('e, 'a, 'l) kernel, thrown, policy_decision) eff"
    and admits :: "tenant_id \<Rightarrow> actor_id \<Rightarrow> policy_request \<Rightarrow> bool"
  assumes allow_admits: "asks_as q t a c \<Longrightarrow> decide (VInst (IPolicyRequest (Genuine q))) w = (Inr d, w1) \<Longrightarrow>
      decision_effect d = Allow \<Longrightarrow> admits t a q"
    and decide_keeps: "keeps app_part (decide v)"
begin

lemma run_keeps:
  assumes "\<And>g witness. guard = Some witness \<Longrightarrow> keeps app_part (witness g)"
  shows "keeps app_part (pipeline_run sha (pipeline_over ports decide guard) h ref spec)"
  using assms decide_keeps by (intro pipeline_keeps) (auto simp: pipeline_over_def intro!: frame_rules)

text \<open>Who asks what, when an action is allowed: the caller's identity is the one the action claims.\<close>

lemma run_admits:
  assumes "pipeline_run sha (pipeline_over ports decide guard) h ref spec w = (Inr (AllowCommit request cs), w1)"
  shows "\<exists>s j p e. shape_check sha h ref spec = Inr s \<and> payload_json h s = Some j \<and>
    port_current ports () (fst w) = (Inr (VInst (IPrincipal (Genuine p))), e) \<and>
    p = \<lparr>principal_tenant = Genuine (shaped_tenant s), principal_actor = Genuine (shaped_actor s)\<rparr> \<and>
    admits (shaped_tenant s) (shaped_actor s) (customer_request p (customer_command_with p s j)) \<and>
    request = request_of s \<and> cs = change_set_of (shaped_tenant s) (shaped_actor s) s j"
proof -
  from assms have "pipeline_answers sha (pipeline_over ports decide guard) h ref spec w (AllowCommit request cs) w1"
    by (simp only: pipeline_answers_iff)
  then show ?thesis
  proof (cases rule: pipeline_answers.cases)
    case (allowed s p wi j c d wd hv v)
    have "correlation_value (shaped_correlation s) \<in> lang uuid_form"
      using allowed(3) by (auto simp: shape_check_def rbind_eq_Inr correlation_id_new_def canonical_uuid_eq_Inr uuid_ok_def)
    then have "asks_as (customer_request p c) (shaped_tenant s) (shaped_actor s) (shaped_correlation s)"
      using allowed by (cases p) (auto simp: asks_as_def trace_genuine_def customer_request_def customer_command_with_def
          action_correlation_def action_principal_def)
    moreover have "decide (VInst (IPolicyRequest (Genuine (customer_request p c)))) wi = (Inr d, wd)"
      using allowed by (simp add: pipeline_over_def)
    ultimately have admitted: "admits (shaped_tenant s) (shaped_actor s) (customer_request p c)"
      using allowed by (intro allow_admits)
    have asked: "port_current ports () (fst w) = (Inr (VInst (IPrincipal (Genuine p))), fst wi)"
      using allowed(4) by (auto simp: identity_answers_def pipeline_over_def at_caller_def split: prod.splits)
    have "p = \<lparr>principal_tenant = Genuine (shaped_tenant s), principal_actor = Genuine (shaped_actor s)\<rparr>"
      using allowed by (cases p) simp
    with allowed asked admitted show ?thesis
      by (intro exI [of _ s] exI [of _ j] exI [of _ p] exI [of _ "fst wi"]) simp
  qed
qed

end

text \<open>The policy of a list of statements: some matching statement allows and none denies.\<close>

definition policy_admits :: "policy_statement list \<Rightarrow> tenant_id \<Rightarrow> actor_id \<Rightarrow> policy_request \<Rightarrow> bool" where
  "policy_admits ss t a q \<longleftrightarrow>
     (\<exists>s \<in> set ss. statement_matches t a q s \<and> statement_effect s = Allow) \<and>
     \<not> (\<exists>s \<in> set ss. statement_matches t a q s \<and> statement_effect s = Deny)"

lemma resolved_at_caller: "at_caller (resolver_source ss q) w = (fst (resolver_source ss q ()), w)"
  by (cases w) (simp add: at_caller_def resolver_source_def)

lemma evaluated_admits:
  assumes "asks_as q t a c" "statements_wf ss"
    and "fst (resolver_source ss (VInst (IPolicyRequest (Genuine q))) ()) = Inr (h, cs)"
    and "evaluator_decide_of h (VInst (IPolicyRequest (Genuine q))) cs = Inr d"
  shows "decision_effect d = Allow \<longleftrightarrow> policy_admits ss t a q"
proof -
  obtain d1 where d1: "decision_point_decide (resolver_source ss) (VInst (IPolicyRequest (Genuine q))) () = (Inr d1, ())"
    and rule: "decision_rule (statement_candidate t a q ` set ss) (decision_effect d1) (decision_matched d1)"
    using decision_point_rule [OF assms(1,2), of "()"] by blast
  have "resolver_source ss (VInst (IPolicyRequest (Genuine q))) () = (Inr (h, cs), ())"
    using assms(3) by (cases "resolver_source ss (VInst (IPolicyRequest (Genuine q))) ()") simp
  with d1 assms(4) have "d1 = d" by (simp add: decision_point_decide_def ebind_apply)
  with rule_effect [OF rule] show ?thesis by (simp add: policy_admits_def)
qed

interpretation plain_point: admitting_point "plain_decide (ports\<lparr>port_candidates := resolver_source ss\<rparr>)"
    "\<lambda>t a q. statements_wf ss \<longrightarrow> policy_admits ss t a q" for ports ss
proof
  fix q t a c w d w1
  assume q: "asks_as q t a c" and d: "decision_effect d = Allow"
    and run: "plain_decide (ports\<lparr>port_candidates := resolver_source ss\<rparr>) (VInst (IPolicyRequest (Genuine q))) w = (Inr d, w1)"
  show "statements_wf ss \<longrightarrow> policy_admits ss t a q"
  proof
    assume ss: "statements_wf ss"
    from run evaluated_admits [OF q ss] d show "policy_admits ss t a q"
      by (auto simp: plain_decide_def decision_point_decide_def ebind_Inr_iff resolved_at_caller split: option.splits)
  qed
qed (rule plain_decide_keeps)

interpretation audited_point: admitting_point
    "logging_decide sha (audited_services sha (ports\<lparr>port_candidates := resolver_source ss\<rparr>) ids now lcl)"
    "\<lambda>t a q. statements_wf ss \<longrightarrow> policy_admits ss t a q" for sha ports ss ids now lcl
proof
  fix q t a c w d w1
  assume q: "asks_as q t a c" and d: "decision_effect d = Allow"
    and run: "logging_decide sha (audited_services sha (ports\<lparr>port_candidates := resolver_source ss\<rparr>) ids now lcl)
      (VInst (IPolicyRequest (Genuine q))) w = (Inr d, w1)"
  show "statements_wf ss \<longrightarrow> policy_admits ss t a q"
  proof
    assume ss: "statements_wf ss"
    from run evaluated_admits [OF q ss] d show "policy_admits ss t a q"
      by (auto simp: logging_decide_def log_one_def Let_def audited_services_def ebind_Inr_iff resolved_at_caller
          split: option.splits)
  qed
qed (rule logging_decide_keeps)

end
