(* ===== verification/Customer_Admission.thy ===== *)
theory Customer_Admission
  imports Composition_Frames
begin

text \<open>
  What the composed service promises, end to end: who gets a customer created and what is on record
  when it is.
\<close>

section \<open>Committing a prepared change set\<close>

lemma prepared_intents:
  assumes "check_prepared (change_set_of t a s j) = Inr i"
  shows "member (int_customer i) ''tenantId'' = Some (JsonStr (tenant_value t)) \<and>
    member (int_customer i) ''payload'' = Some j \<and>
    member (int_idempotency i) ''fingerprint'' = Some (JsonStr (fingerprint (shaped_key s)))"
proof -
  let ?is = "the_json (member (change_set_of t a s j) ''intents'')"
  have "i = \<lparr>int_customer = the_json (member ?is ''customer''), int_audit = the_json (member ?is ''audit''),
      int_outbox = the_json (member ?is ''transactionalOutbox''), int_idempotency = the_json (member ?is ''idempotency'')\<rparr>"
    using assms by (auto simp: check_prepared_def Let_def rbind_eq_Inr split: if_splits)
  then show ?thesis
    by (simp add: change_set_of_def Let_def member_def members_def the_json_def)
qed

definition committed_for :: "tenant_id \<Rightarrow> idempotency_key \<Rightarrow> json \<Rightarrow> js_string \<Rightarrow> commit_entry \<Rightarrow> bool" where
  "committed_for t k j request e \<longleftrightarrow> commit_key e = (tenant_value t, fingerprint k) \<and>
     cust_tenant (entry_customer e) = tenant_value t \<and> cust_payload (entry_customer e) = j \<and>
     audit_tenant (entry_audit e) = tenant_value t \<and>
     receipt_tenant_id (entry_receipt e) = tenant_value t \<and> receipt_request_id (entry_receipt e) = request"

lemma fresh_commit_outcome:
  assumes "adb_rows w = tables_of es"
    and run: "fresh_commit (substrate_client sub) (change_set_of t a s j) context w = (res, w1)"
  shows "case res of Inl _ \<Rightarrow> adb_rows w1 = tables_of es
   | Inr v \<Rightarrow> \<exists>e es1. v = VInst (ICommitReceipt (Genuine (entry_receipt e))) \<and> take_commit e es = Some es1 \<and>
       adb_rows w1 = tables_of es1 \<and> committed_for t (shaped_key s) j (ctx_request context) e"
proof (cases "postgres_write_new (substrate_client sub) (VStr (ctx_request context)) (ctx_key context)")
  case (Inl e)
  with run assms(1) show ?thesis by (auto simp: fresh_commit_def)
next
  case (Inr wr)
  then obtain key where wr: "wr = postgres_write (substrate_client sub) (ctx_request context) key"
    by (auto simp: postgres_write_new_def rbind_eq_Inr non_empty_string_def split: if_splits)
  let ?u = "\<lparr>in_flight = False, outside = w\<rparr>"
  obtain q u1 where q: "commit_change sub (ctx_request context) key (change_set_of t a s j) ?u = (q, u1)"
    by (cases "commit_change sub (ctx_request context) key (change_set_of t a s j) ?u")
  have res: "res = (case q of Inl e \<Rightarrow> Inl e | Inr rx \<Rightarrow> Inr (VInst (ICommitReceipt rx)))" "w1 = outside u1"
    using run q by (auto simp: fresh_commit_def Inr wr split: sum.splits)
  note atomic = substrate.envelope_atomic [OF _ q, simplified]
  show ?thesis
  proof (cases q)
    case (Inl e)
    with atomic res assms(1) show ?thesis by simp
  next
    case (Inr rx)
    with atomic assms(1) obtain i t1 resource at audit event r where
      i: "check_prepared (change_set_of t a s j) = Inr i" and t1: "check_tenant_id (member (int_customer i) ''tenantId'') = Inr t1" and
      lit: "receipt_literal (ctx_request context) t1 resource at audit [event] key = Inr r" and rx: "rx = Genuine r" and
      fresh: "\<not> key_used (tables_of es) t1 (out_key (outbox_row_of t1 i))" and
      rows: "adb_rows (outside u1) = \<lparr>tab_customers = tab_customers (tables_of es) @ [(resource, customer_row_of t1 i)],
         tab_audits = tab_audits (tables_of es) @ [(audit, audit_row_of t1 i)],
         tab_outbox = tab_outbox (tables_of es) @ [(event, outbox_row_of t1 i)]\<rparr>"
      by auto
    let ?e = "\<lparr>entry_receipt = r, entry_customer = customer_row_of t1 i, entry_audit = audit_row_of t1 i,
      entry_outbox = outbox_row_of t1 i\<rparr>"
    note members = prepared_intents [OF i]
    have "t1 = tenant_value t"
      using t1 members by (auto simp: check_tenant_id_def the_text_def text_of_def split: if_splits)
    moreover have "receipt_tenant_id r = t1" "receipt_request_id r = ctx_request context"
      using lit by (auto simp: receipt_literal_one)
    ultimately have "committed_for t (shaped_key s) j (ctx_request context) ?e"
      using members by (simp add: committed_for_def commit_key_def outbox_row_of_def customer_row_of_def audit_row_of_def
          Let_def the_text_def text_of_def the_json_def)
    with answered_commit [OF lit fresh] rx rows res Inr show ?thesis
      by (auto intro!: exI [of _ ?e])
  qed
qed

section \<open>Through the service\<close>

text \<open>What is on record after a service answered: a customer the policy admits, or nothing new.\<close>

definition admitted_commit ::
    "(tenant_id \<Rightarrow> actor_id \<Rightarrow> policy_request \<Rightarrow> bool) \<Rightarrow> (js_string \<Rightarrow> js_string) \<Rightarrow> 'e customer_ports \<Rightarrow> heap \<Rightarrow> nat \<Rightarrow> jsval
     \<Rightarrow> 'e \<Rightarrow> commit_entry list \<Rightarrow> app_tables \<Rightarrow> js_string \<Rightarrow> jsval \<Rightarrow> bool" where
  "admitted_commit admits sha ports h ref spec env es tabs request receipt \<longleftrightarrow>
     (\<exists>s j p env1 e es1. shape_check sha h ref spec = Inr s \<and> payload_json h s = Some j \<and>
       port_current ports () env = (Inr (VInst (IPrincipal (Genuine p))), env1) \<and>
       p = \<lparr>principal_tenant = Genuine (shaped_tenant s), principal_actor = Genuine (shaped_actor s)\<rparr> \<and>
       admits (shaped_tenant s) (shaped_actor s) (customer_request p (customer_command_with p s j)) \<and>
       receipt = VInst (ICommitReceipt (Genuine (entry_receipt e))) \<and>
       committed_for (shaped_tenant s) (shaped_key s) j (request_of s) e \<and> request = request_of s \<and>
       take_commit e es = Some es1 \<and> tabs = tables_of es1)"

locale customer_point = admitting_point decide admits
  for decide :: "jsval \<Rightarrow> (('e, app_db, 'l) kernel, thrown, policy_decision) eff" and admits
begin

lemma service_outcome:
  assumes guard: "\<forall>witness g. guard = Some witness \<longrightarrow> keeps app_part (witness g)"
    and rows: "adb_rows (app_part w) = tables_of es"
    and run: "service_over sha (substrate_client sub) (pipeline_over ports decide guard) h ref spec w = (res, w1)"
  shows "case res of
     Inr (Committed request receipt) \<Rightarrow>
       admitted_commit admits sha ports h ref spec (fst w) es (adb_rows (app_part w1)) request receipt
   | _ \<Rightarrow> adb_rows (app_part w1) = tables_of es"
proof -
  obtain q wp where q: "pipeline_run sha (pipeline_over ports decide guard) h ref spec w = (q, wp)"
    by (cases "pipeline_run sha (pipeline_over ports decide guard) h ref spec w")
  have frame: "keeps app_part (pipeline_run sha (pipeline_over ports decide guard) h ref spec)"
    by (rule run_keeps) (use guard in blast)
  have kept: "adb_rows (app_part wp) = tables_of es" using frame [THEN keepsD, OF q] rows by simp
  show ?thesis
  proof (cases q)
    case (Inl e)
    with run q kept show ?thesis by (auto simp: service_over_def service_handle_def ebind_apply)
  next
    case (Inr answer)
    show ?thesis
    proof (cases answer)
      case (Refused v request e)
      with run q Inr kept show ?thesis by (auto simp: service_over_def service_handle_def ebind_apply)
    next
      case (AllowCommit request cs)
      from run_admits [OF q [unfolded Inr AllowCommit]] obtain s j p env where
        admitted: "shape_check sha h ref spec = Inr s" "payload_json h s = Some j"
          "port_current ports () (fst w) = (Inr (VInst (IPrincipal (Genuine p))), env)"
          "p = \<lparr>principal_tenant = Genuine (shaped_tenant s), principal_actor = Genuine (shaped_actor s)\<rparr>"
          "admits (shaped_tenant s) (shaped_actor s) (customer_request p (customer_command_with p s j))"
          "request = request_of s" and cs: "cs = change_set_of (shaped_tenant s) (shaped_actor s) s j"
        by blast
      let ?ctx = "\<lparr>ctx_request = request, ctx_tenant = change_tenant cs, ctx_key = captured_key h spec\<rparr>"
      obtain r a where commit: "fresh_commit (substrate_client sub) cs ?ctx (app_part wp) = (r, a)"
        by (cases "fresh_commit (substrate_client sub) cs ?ctx (app_part wp)")
      have res: "res = (case r of Inl e \<Rightarrow> Inl e | Inr receipt \<Rightarrow> Inr (Committed request receipt))" "app_part w1 = a"
        using run q Inr AllowCommit commit
        by (auto simp: service_over_def service_handle_def ebind_apply at_app_def split: sum.splits)
      from fresh_commit_outcome [OF kept commit [unfolded cs]] admitted res show ?thesis
        by (cases r) (auto simp: admitted_commit_def)
    qed
  qed
qed

end

interpretation plain: customer_point "plain_decide (wired\<lparr>port_candidates := resolver_source ss\<rparr>)"
    "\<lambda>t a q. statements_wf ss \<longrightarrow> policy_admits ss t a q" for wired ss
  by (rule customer_point.intro) (rule plain_point.admitting_point_axioms)

interpretation audited: customer_point
    "logging_decide digest (audited_services digest (wired\<lparr>port_candidates := resolver_source ss\<rparr>) ids now lcl)"
    "\<lambda>t a q. statements_wf ss \<longrightarrow> policy_admits ss t a q" for digest wired ss ids now lcl
  by (rule customer_point.intro) (rule audited_point.admitting_point_axioms)

end
