(* ===== verification/Customer_Audit.thy ===== *)
theory Customer_Audit
  imports Customer_Admission
begin

text \<open>
  The audited composition over the decision log table: which answers leave which record.
\<close>

section \<open>What one record is\<close>

abbreviation log_rows :: "('e, 'a, log_db) kernel \<Rightarrow> log_row list" where
  "log_rows w \<equiv> db_rows (log_part w)"

lemma keeps_rows: "keeps log_part m \<Longrightarrow> keeps log_rows m"
  unfolding keeps_def by metis

definition log_services_over ::
    "(js_string \<Rightarrow> js_string) \<Rightarrow> (json \<Rightarrow> json option) \<Rightarrow> 'e customer_ports \<Rightarrow> ('e, thrown, jsval) eff
     \<Rightarrow> (unit \<Rightarrow> ('e, thrown, jsval) eff) \<Rightarrow> ('e, 'a, log_db) kernel log_services" where
  "log_services_over sha jsonb ports ids now = audited_services sha ports ids now (table_client jsonb)"

lemma services_keep_rows:
  fixes svc :: "('e, 'a, log_db) kernel log_services"
  assumes "svc = log_services_over sha jsonb ports ids now"
  shows "keeps log_rows (svc_candidates svc v)" "keeps log_rows (svc_id svc)" "keeps log_rows (svc_read_clock svc u)"
    "keeps log_rows (svc_chain_head svc t)"
proof -
  have "keeps log_rows (at_log (adapter_chain_head (table_client jsonb) v))" for v
    using table.chain_head_outcome by (auto simp: keeps_def at_log_def split: prod.splits)
  then show "keeps log_rows (svc_chain_head svc t)"
    by (auto simp: assms log_services_over_def audited_services_def intro!: frame_rules)
qed (auto simp: assms log_services_over_def audited_services_def intro!: frame_rules keeps_rows)

lemma appended_row:
  assumes "svc = log_services_over sha jsonb ports ids now"
    and "log_port_append (svc_append svc) (VInst (IDecisionLogEntry (Genuine e))) w = (Inr x, w1)"
  shows "\<exists>r. entry_row e = Inr r \<and> log_rows w1 = log_rows w @ [r]"
proof -
  obtain receipt l where "adapter_append sha (table_client jsonb) (VInst (IDecisionLogEntry (Genuine e))) (log_part w) = (Inr receipt, l)"
    "log_part w1 = l"
    using assms(2)
    by (auto simp: assms(1) log_services_over_def audited_services_def log_port_append_def genuine_entry_def
        exact_entry_def genuine_def ebind_Inr_iff at_log_def split: prod.splits)
  with table.append_outcome(2) [OF this(1)] show ?thesis by auto
qed

text \<open>An entry on record, about a request and of an effect, in a row of the log.\<close>

definition recorded :: "(js_string \<Rightarrow> js_string) \<Rightarrow> policy_request \<Rightarrow> effect \<Rightarrow> log_row \<Rightarrow> bool" where
  "recorded sha q eff r \<longleftrightarrow> (\<exists>e. entry_row e = Inr r \<and> entry_sound sha e \<and> entry_request e = q \<and>
     decision_effect (entry_decision e) = eff)"

lemma decided_and_recorded:
  fixes svc :: "('e, 'a, log_db) kernel log_services"
  assumes svc: "svc = log_services_over sha jsonb ports ids now"
    and run: "logging_decide sha svc (VInst (IPolicyRequest (Genuine q))) w = (Inr d, w1)"
  shows "\<exists>r. recorded sha q (decision_effect d) r \<and> log_rows w1 = log_rows w @ [r]"
proof -
  from run obtain e where one: "log_one sha svc q (chain_head_of svc q) w = (Inr (d, e), w1)"
    by (auto simp: logging_decide_def ebind_Inr_iff)
  note frames = services_keep_rows [OF svc]
  have head: "keeps log_rows (chain_head_of svc q)"
    unfolding chain_head_of_def by (intro frame_rules frames)
  have clock: "keeps log_rows (clock_now (svc_read_clock svc) ())"
    unfolding clock_now_def by (auto intro!: frame_rules frames)
  have "ends_with log_rows (\<lambda>(d, e) w1 w2. \<exists>x. log_port_append (svc_append svc) (VInst (IDecisionLogEntry (Genuine e))) w1 = (Inr x, w2))
      (log_one sha svc q (chain_head_of svc q))"
    unfolding log_one_def Let_def by (intro ends_with_rules frame_rules frames head clock) auto
  from ends_withD [OF this one] obtain w2 x where
    "log_port_append (svc_append svc) (VInst (IDecisionLogEntry (Genuine e))) w2 = (Inr x, w1)" "log_rows w2 = log_rows w"
    by auto
  with appended_row [OF svc this(1)] log_one_ok [OF one] show ?thesis
    by (auto simp: recorded_def)
qed

section \<open>The record of a guard refusal\<close>

text \<open>It is about the caller alone: the authenticated principal and an empty payload.\<close>

definition guard_action :: "guard_refusal \<Rightarrow> command" where
  "guard_action g = \<lparr>command_name = js ''customer.create'', command_version = 1,
     command_principal = Genuine (refusal_principal g), command_correlation = Genuine (refusal_correlation g),
     command_causation = None, command_key = Genuine (refusal_key g), command_payload = JsonObj []\<rparr>"

definition guard_request :: "guard_refusal \<Rightarrow> policy_request" where
  "guard_request g = \<lparr>request_action = ACommand (guard_action g),
     request_resource = JsonObj [(js ''tenantId'', JsonStr (tenant_id_to_string (principal_tenant (refusal_principal g)))),
       (js ''type'', JsonStr (js ''customer''))],
     request_context = JsonObj [(js ''guard'', JsonStr (refusal_text (refusal_guard g))), (js ''stage'', JsonStr guard_stage)]\<rparr>"

lemma guard_keys:
  "sorted (map js [''guard'', ''stage''])" "js ''guard'' \<notin> set refused_keys" "js ''stage'' \<notin> set refused_keys"
  by code_simp+

lemma guard_command_value: "guard_command g = Inr (guard_action g)"
proof -
  have "canonical_object (\<lambda>_. plain_object []) (VObj 0) (js ''a Command payload'') = Inr (JsonObj [])"
    using literal_denotes [where h = "\<lambda>_. plain_object []" and r = 0 and ps = "[]" and ks = "[]"]
    by (simp add: canonical_object_iff)
  moreover have "action_name (VStr (js ''customer.create'')) (js ''Command'') = Inr (js ''customer.create'')"
    by (simp only: action_name_iff) (simp add: customer_name_ok)
  moreover have "action_version (VNum (JInt 1)) (js ''Command'') = Inr 1" by code_simp
  ultimately show ?thesis
    by (simp add: guard_command_def command_of_def guard_action_def exactly_def exact_principal_def
        exact_correlation_def exact_idempotency_key_def optional_causation_def)
qed

lemma guard_request_literal:
  "request_literal (guard_action g) (customer_resource (refusal_principal g)) (guard_context (refusal_guard g)) = Inr (guard_request g)"
  using resource_keys guard_keys
    request_literal_value [of "[''tenantId'', ''type'']" "customer_resource (refusal_principal g)" "[''guard'', ''stage'']"
      "guard_context (refusal_guard g)" "guard_action g"]
  by (simp add: customer_resource_def guard_context_def guard_request_def is_atom_def atom_json_def insert_commute)

lemma guard_recorded:
  fixes svc :: "('e, 'a, log_db) kernel log_services"
  assumes svc: "svc = log_services_over sha jsonb ports ids now"
    and run: "guard_auditor sha svc g w = (Inr (), w1)"
  shows "\<exists>r. recorded sha (guard_request g) Deny r \<and> log_rows w1 = log_rows w @ [r]"
proof -
  note frames = services_keep_rows [OF svc]
  have clock: "keeps log_rows (clock_now (svc_read_clock svc) ())"
    unfolding clock_now_def by (auto intro!: frame_rules frames)
  let ?P = "\<lambda>_ w1 w2. \<exists>e x. log_port_append (svc_append svc) (VInst (IDecisionLogEntry (Genuine e))) w1 = (Inr x, w2) \<and>
      entry_sound sha e \<and> entry_request e = guard_request g \<and> decision_effect (entry_decision e) = Deny"
  have last: "ends_with log_rows ?P (ebind (log_port_append (svc_append svc) (VInst (IDecisionLogEntry (Genuine e)))) (\<lambda>_. eret ()))"
    if c: "guard_command g = Inr c" and q: "request_literal c (customer_resource (refusal_principal g)) (guard_context (refusal_guard g)) = Inr q"
      and d: "policy_decision_of (Inr (VStr (js ''deny''))) (Inr (VStr why)) (Inr VNull)
         (Inr (VInst (ICorrelationId (Genuine (refusal_correlation g))))) = Inr d"
      and e: "entry_of sha i (VInst (IPolicyRequest (Genuine q))) (VInst (IPolicyDecision (Genuine d))) VNull (VStr ts) prev = Inr e"
    for c q why d i ts prev e
  proof (rule ends_with_last)
    fix x w1 w2
    assume app: "log_port_append (svc_append svc) (VInst (IDecisionLogEntry (Genuine e))) w1 = (Inr x, w2)"
    have "entry_request e = q" "entry_decision e = d"
      using e by (auto simp: entry_of_def rbind_eq_Inr request_value_iff decision_value_iff split: if_splits)
    moreover have "decision_effect d = Deny"
      using d by (cases "decision_effect d") (auto simp: policy_decision_of_iff effect_text_def)
    ultimately show "?P () w1 w2"
      using app entry_of_sound [OF e] c q by (auto simp: guard_command_value guard_request_literal)
  qed
  have "ends_with log_rows ?P (guard_auditor sha svc g)"
  proof (cases "guard_reason (refusal_guard g)")
    case (Some why)
    show ?thesis
      unfolding guard_auditor_def Some option.case
      by (intro last ends_with_elift ends_with_ebind frames clock) assumption+
  qed (simp add: guard_auditor_def ends_with_throw)
  from ends_withD [OF this run] obtain w2 e x where
    "log_port_append (svc_append svc) (VInst (IDecisionLogEntry (Genuine e))) w2 = (Inr x, w1)" "log_rows w2 = log_rows w"
    "entry_sound sha e" "entry_request e = guard_request g" "decision_effect (entry_decision e) = Deny"
    by blast
  with appended_row [OF svc this(1)] show ?thesis by (auto simp: recorded_def)
qed

section \<open>Every answer is on record\<close>

definition recorded_effect :: "service_result \<Rightarrow> effect option" where
  "recorded_effect result = (case result of
     Committed _ _ \<Rightarrow> Some Allow
   | NotCommitted _ _ e \<Rightarrow>
       if envelope_code e = refusal_text ActionSpecInvalid then None
       else if envelope_code e = refusal_text InvariantViolation then Some Allow else Some Deny)"

definition service_answer :: "pipeline_outcome \<Rightarrow> effect option" where
  "service_answer answer = (case answer of
     AllowCommit _ _ \<Rightarrow> Some Allow | pipeline_outcome.Refused v request e \<Rightarrow> recorded_effect (NotCommitted v request e))"

lemma refusal_text_inject: "refusal_text c = refusal_text d \<longleftrightarrow> c = d"
  by (cases c; cases d) (simp_all add: refusal_text_def)

text \<open>One row about this action and its caller, of the effect the answer has; none where no caller was established.\<close>

definition answer_recorded ::
    "(js_string \<Rightarrow> js_string) \<Rightarrow> 'e customer_ports \<Rightarrow> heap \<Rightarrow> nat \<Rightarrow> jsval \<Rightarrow> 'e \<Rightarrow> effect option \<Rightarrow> log_row list \<Rightarrow> bool" where
  "answer_recorded sha ports h ref spec env eff rows \<longleftrightarrow> (case eff of
     None \<Rightarrow> rows = []
   | Some f \<Rightarrow> \<exists>r q s p env1. rows = [r] \<and> recorded sha q f r \<and> shape_check sha h ref spec = Inr s \<and>
       port_current ports () env = (Inr (VInst (IPrincipal (Genuine p))), env1) \<and>
       action_principal (request_action q) = Genuine p \<and>
       action_correlation (request_action q) = Genuine (shaped_correlation s))"

lemma pipeline_recorded:
  fixes svc :: "('e, 'a, log_db) kernel log_services"
  assumes svc: "svc = log_services_over sha jsonb ports ids now"
    and pl: "pl = pipeline_over ports (logging_decide sha svc) (Some (guard_auditor sha svc))"
    and "pipeline_answers sha pl h ref spec w answer w1"
  shows "\<exists>rows. log_rows w1 = log_rows w @ rows \<and>
    answer_recorded sha ports h ref spec (fst w) (service_answer answer) rows"
proof -
  have asked: "log_rows wi = log_rows w \<and> (\<exists>env. port_current ports () (fst w) = (Inr (VInst (IPrincipal (Genuine p))), env))"
    if "identity_answers pl w p wi" for p wi
    using that by (auto simp: identity_answers_def pl pipeline_over_def at_caller_def split: prod.splits)
  have witnessed: "\<exists>r. recorded sha (guard_request \<lparr>refusal_guard = c, refusal_principal = p,
       refusal_correlation = shaped_correlation s, refusal_key = shaped_key s\<rparr>) Deny r \<and> log_rows w2 = log_rows wi @ [r]"
    if "guard_witnessed pl c p s wi w2" for c p s wi w2
    using that guard_recorded [OF svc] by (auto simp: guard_witnessed_def pl pipeline_over_def)
  have decided: "\<exists>r. recorded sha q (decision_effect d) r \<and> log_rows w2 = log_rows wi @ [r]"
    if "pl_decide pl (VInst (IPolicyRequest (Genuine q))) wi = (Inr d, w2)" for q wi d w2
    using that decided_and_recorded [OF svc, of q wi d w2] by (simp add: pl pipeline_over_def)
  have checked: "log_rows w2 = log_rows wi" if "pl_invariants pl c wi = (Inr x, w2)" for c wi x w2
    using that by (auto simp: pl pipeline_over_def at_caller_def split: prod.splits)
  have about: "action_principal (request_action (customer_request p (customer_command_with p s j))) = Genuine p"
    "action_correlation (request_action (customer_request p (customer_command_with p s j))) = Genuine (shaped_correlation s)"
    for p s j
    by (simp_all add: customer_request_def customer_command_with_def action_principal_def action_correlation_def)
  have about_guard: "action_principal (request_action (guard_request g)) = Genuine (refusal_principal g)"
    "action_correlation (request_action (guard_request g)) = Genuine (refusal_correlation g)" for g
    by (simp_all add: guard_request_def guard_action_def action_principal_def action_correlation_def)
  note effects = service_answer_def recorded_effect_def refusal_envelope_def refusal_text_inject answer_recorded_def
  show ?thesis
    using assms(3)
  proof (cases rule: pipeline_answers.cases)
    case (malformed e request)
    then show ?thesis by (simp add: effects)
  next
    case (foreign_tenant s p wi t)
    with asked [OF foreign_tenant(3)] witnessed [OF foreign_tenant(6)] about_guard show ?thesis
      by (force simp: effects)
  next
    case (foreign_actor s p wi a)
    with asked [OF foreign_actor(3)] witnessed [OF foreign_actor(7)] about_guard show ?thesis
      by (force simp: effects)
  next
    case (bad_payload s p)
    with asked [OF bad_payload(3)] show ?thesis by (simp add: effects)
  next
    case (policy_denies s p wi j c d)
    with asked [OF policy_denies(3)] decided [OF policy_denies(8)] about show ?thesis
      by (force simp: effects)
  next
    case (violated s p wi j c d wd hv v)
    with asked [OF violated(3)] decided [OF violated(8)] checked [OF violated(10)] about show ?thesis
      by (force simp: effects)
  next
    case (allowed s p wi j c d wd hv v)
    with asked [OF allowed(3)] decided [OF allowed(8)] checked [OF allowed(10)] about show ?thesis
      by (force simp: effects)
  qed
qed

lemma service_recorded:
  assumes "audited_service sha ports ids now (table_client jsonb) cl h ref spec w = (Inr result, w1)"
  shows "\<exists>rows. log_rows w1 = log_rows w @ rows \<and>
    answer_recorded sha ports h ref spec (fst w) (recorded_effect result) rows"
proof -
  let ?svc = "log_services_over sha jsonb ports ids now"
  let ?pl = "pipeline_over ports (logging_decide sha ?svc) (Some (guard_auditor sha ?svc))"
  have service: "audited_service sha ports ids now (table_client jsonb) cl = service_over sha cl ?pl"
    by (simp add: audited_service_def log_services_over_def Let_def fun_eq_iff)
  let ?k = "\<lambda>outcome. case outcome of
       pipeline_outcome.Refused v request e \<Rightarrow> eret (NotCommitted v request e)
     | AllowCommit request cs \<Rightarrow>
         ebind (at_app (fresh_commit cl cs \<lparr>ctx_request = request, ctx_tenant = change_tenant cs, ctx_key = captured_key h spec\<rparr>))
           (\<lambda>receipt. eret (Committed request receipt))"
  from assms obtain answer wp where run: "pipeline_run sha ?pl h ref spec w = (Inr answer, wp)"
    and k: "?k answer wp = (Inr result, w1)"
    unfolding service service_over_def service_handle_def ebind_Inr_iff by blast
  have rest: "service_answer answer = recorded_effect result \<and> log_rows w1 = log_rows wp"
    using k by (cases answer)
      (auto simp: service_answer_def recorded_effect_def ebind_Inr_iff at_app_def split: prod.splits)
  from pipeline_recorded [OF refl refl run [unfolded pipeline_answers_iff]] rest show ?thesis by simp
qed

text \<open>
  C3. Every answer of the audited service is on record before it is given: a customer committed, an
  invariant violated, a policy that denied and a caller turned away at the identity guard each leave
  exactly one new row of the decision log, of that effect, about this action and the authenticated
  caller; only an action whose fields or payload are malformed leaves none. No row is ever taken away.
\<close>

theorem every_answer_is_recorded:
  assumes "audited_service sha ports ids now (table_client jsonb) cl h ref spec w = (Inr result, w1)"
  shows "\<exists>rows. log_rows w1 = log_rows w @ rows \<and>
    answer_recorded sha ports h ref spec (fst w) (recorded_effect result) rows"
  by (rule service_recorded [OF assms])

lemma composed_service_outcome:
  assumes "service = plain_service sha ports (substrate_client sub) \<or>
      service = audited_service sha ports ids now lcl (substrate_client sub)"
    and "port_candidates ports = resolver_source ss" and "statements_wf ss"
    and "adb_rows (app_part w) = tables_of es" and "service h ref spec w = (res, w1)"
  shows "case res of
     Inr (Committed request receipt) \<Rightarrow>
       admitted_commit (policy_admits ss) sha ports h ref spec (fst w) es (adb_rows (app_part w1)) request receipt
   | _ \<Rightarrow> adb_rows (app_part w1) = tables_of es"
proof -
  have ports: "ports\<lparr>port_candidates := resolver_source ss\<rparr> = ports" using assms(2) by (cases ports) simp
  have admits: "(\<lambda>t a q. statements_wf ss \<longrightarrow> policy_admits ss t a q) = policy_admits ss" using assms(3) by simp
  show ?thesis
    using assms(1)
  proof
    assume "service = plain_service sha ports (substrate_client sub)"
    with assms(5) have "service_over sha (substrate_client sub) (pipeline_over ports (plain_decide ports) None) h ref spec w = (res, w1)"
      by (simp add: plain_service_def)
    from plain.service_outcome [where wired = ports and ports = ports and ss = ss and guard = None, unfolded ports admits, OF _ assms(4) this]
    show ?thesis by simp
  next
    let ?svc = "audited_services sha ports ids now lcl"
    assume "service = audited_service sha ports ids now lcl (substrate_client sub)"
    with assms(5) have run: "service_over sha (substrate_client sub)
        (pipeline_over ports (logging_decide sha ?svc) (Some (guard_auditor sha ?svc))) h ref spec w = (res, w1)"
      by (simp add: audited_service_def Let_def)
    have "\<forall>witness g. Some (guard_auditor sha ?svc) = Some witness \<longrightarrow> keeps app_part (witness g)"
      using guard_auditor_keeps by auto
    from audited.service_outcome [where wired = ports and ports = ports and ss = ss and digest = sha and sha = sha and ids = ids and now = now and lcl = lcl,
        unfolded ports admits, OF this assms(4) run]
    show ?thesis .
  qed
qed

text \<open>
  C2. No customer without admission. Where the policies are a list of well-formed statements, whatever
  fails on the way, the service - plain or audited - answers a commit only for a well-formed action
  whose claimed tenant and actor are the authenticated ones, that some matching statement allows and
  none denies; the receipt is that of the one commit added, under the action's key, for that tenant.
  Whatever else it answers or throws, every table is as it was.
\<close>

theorem customer_needs_admission:
  assumes "service = plain_service sha ports (substrate_client sub) \<or>
      service = audited_service sha ports ids now lcl (substrate_client sub)"
    and "port_candidates ports = resolver_source ss" and "statements_wf ss"
    and "adb_rows (app_part w) = tables_of es" and "service h ref spec w = (res, w1)"
  shows "case res of
     Inr (Committed request receipt) \<Rightarrow>
       admitted_commit (policy_admits ss) sha ports h ref spec (fst w) es (adb_rows (app_part w1)) request receipt
   | _ \<Rightarrow> adb_rows (app_part w1) = tables_of es"
  by (rule composed_service_outcome [OF assms])

end
