(* ===== verification/Customer_Created.thy ===== *)
theory Customer_Created
  imports Customer_Audit
begin

text \<open>
  That the composed service does create the customer it should, and a run of it on concrete values.
\<close>

lemma resolver_at_caller: "(\<lambda>q. at_caller (resolver_source ss q)) = resolver_source ss"
  by (intro ext) (simp add: at_caller_def resolver_source_def split: prod.splits)

text \<open>The key as captured is the text the shape check read.\<close>

lemma captured_text:
  assumes "shape_check sha h ref spec = Inr s"
  obtains k where "captured_key h spec = VStr k" "k \<noteq> []" "shaped_key s = IdempotencyKey (sha k)"
proof -
  have "utf8_length [] = 0" by simp
  with assms show thesis
    by (auto simp: shape_check_def rbind_eq_Inr ordinary_options_iff idempotency_key_new_def fingerprint_of_eq_Inr
        captured_key_def raw_key_ok_def intro!: that)
qed

lemma uuid_not_empty: "uuid_ok s \<Longrightarrow> s \<noteq> []"
  by (auto simp: uuid_ok_def uuid_form_shape uuid_shape_def)

lemma shaped_texts:
  "shape_check sha h ref spec = Inr s \<Longrightarrow> request_of s \<noteq> [] \<and> tenant_value (shaped_tenant s) \<noteq> []"
  by (auto simp: shape_check_def rbind_eq_Inr correlation_id_new_def tenant_id_new_def canonical_uuid_eq_Inr request_of_def
      dest: uuid_not_empty)

text \<open>An action the caller may take, on a world whose statements succeed.\<close>

definition admissible ::
    "(js_string \<Rightarrow> js_string) \<Rightarrow> 'e customer_ports \<Rightarrow> policy_statement list \<Rightarrow> heap \<Rightarrow> nat \<Rightarrow> jsval \<Rightarrow> 'e \<Rightarrow> shaped \<Rightarrow> json \<Rightarrow> bool" where
  "admissible sha ports ss h ref spec env s j \<longleftrightarrow>
     shape_check sha h ref spec = Inr s \<and> payload_json h s = Some j \<and> statements_wf ss \<and>
     port_candidates ports = resolver_source ss \<and>
     (let p = \<lparr>principal_tenant = Genuine (shaped_tenant s), principal_actor = Genuine (shaped_actor s)\<rparr>;
          c = customer_command_with p s j in
      policy_admits ss (shaped_tenant s) (shaped_actor s) (customer_request p c) \<and>
      (\<exists>env1 env2 hv v. port_current ports () env = (Inr (VInst (IPrincipal (Genuine p))), env1) \<and>
         port_invariants ports c env1 = (Inr (hv, v), env2) \<and> invariants_hold hv v = Inr True))"

lemma admissible_allowed:
  assumes "admissible sha ports ss h ref spec (fst w) s j"
  shows "\<exists>env. pipeline_run sha (pipeline_over ports (plain_decide ports) None) h ref spec w =
    (Inr (AllowCommit (request_of s) (change_set_of (shaped_tenant s) (shaped_actor s) s j)), (env, snd w))"
proof -
  let ?p = "\<lparr>principal_tenant = Genuine (shaped_tenant s), principal_actor = Genuine (shaped_actor s)\<rparr>"
  let ?c = "customer_command_with ?p s j"
  let ?pl = "pipeline_over ports (plain_decide ports) None"
  obtain env1 env2 hv v where s: "shape_check sha h ref spec = Inr s" and j: "payload_json h s = Some j"
    and policy: "statements_wf ss" "port_candidates ports = resolver_source ss"
      "policy_admits ss (shaped_tenant s) (shaped_actor s) (customer_request ?p ?c)"
    and asked: "port_current ports () (fst w) = (Inr (VInst (IPrincipal (Genuine ?p))), env1)"
    and checked: "port_invariants ports ?c env1 = (Inr (hv, v), env2)" "invariants_hold hv v = Inr True"
    using assms by (auto simp: admissible_def Let_def)
  have "correlation_value (shaped_correlation s) \<in> lang uuid_form"
    using s by (auto simp: shape_check_def rbind_eq_Inr correlation_id_new_def canonical_uuid_eq_Inr uuid_ok_def)
  then have asks: "asks_as (customer_request ?p ?c) (shaped_tenant s) (shaped_actor s) (shaped_correlation s)"
    by (simp add: asks_as_def trace_genuine_def customer_request_def customer_command_with_def action_correlation_def action_principal_def)
  obtain d where d: "decision_point_decide (resolver_source ss) (VInst (IPolicyRequest (Genuine (customer_request ?p ?c)))) (env1, snd w) =
      (Inr d, (env1, snd w))"
    and rule: "decision_rule (statement_candidate (shaped_tenant s) (shaped_actor s) (customer_request ?p ?c) ` set ss)
      (decision_effect d) (decision_matched d)"
    using decision_point_rule [OF asks policy(1), of "(env1, snd w)"] by blast
  have "decision_effect d = Allow"
    using rule_effect [OF rule] policy(3) by (simp add: policy_admits_def)
  moreover have "identity_answers ?pl w ?p (env1, snd w)"
    by (simp add: identity_answers_def pipeline_over_def at_caller_def asked)
  moreover have "pl_decide ?pl (VInst (IPolicyRequest (Genuine (customer_request ?p ?c)))) (env1, snd w) = (Inr d, (env1, snd w))"
    using d by (simp add: pipeline_over_def plain_decide_def policy(2) resolver_at_caller)
  moreover have "pl_invariants ?pl ?c (env1, snd w) = (Inr (hv, v), (env2, snd w))"
    by (simp add: pipeline_over_def at_caller_def checked)
  ultimately show ?thesis
    using pipeline_answers.allowed [OF s _ _ _ j refl, of ?pl w ?p "(env1, snd w)" d "(env1, snd w)" hv v "(env2, snd w)"] checked
    by (auto simp: pipeline_answers_iff)
qed

lemma admitted_created:
  fixes w :: "('e, app_db, 'l) kernel"
  assumes "admissible sha ports ss h ref spec (fst w) s j" and "adb_faults (app_part w) = []"
    and "check_prepared (change_set_of (shaped_tenant s) (shaped_actor s) s j) = Inr i"
    and "rows_accepted sub (tenant_value (shaped_tenant s)) i"
    and "captured_key h spec = VStr key"
    and "made_receipt sub (request_of s) key (tenant_value (shaped_tenant s)) (adb_next (app_part w)) = Inr r"
  shows "\<exists>w1. plain_service sha ports (substrate_client sub) h ref spec w =
      (if key_used (adb_rows (app_part w)) (tenant_value (shaped_tenant s)) (fingerprint (shaped_key s))
       then Inl (IdempotencyConflict (tenant_value (shaped_tenant s)) (fingerprint (shaped_key s)))
       else Inr (Committed (request_of s) (VInst (ICommitReceipt (Genuine r)))), w1) \<and>
    adb_rows (app_part w1) =
      (if key_used (adb_rows (app_part w)) (tenant_value (shaped_tenant s)) (fingerprint (shaped_key s))
       then adb_rows (app_part w)
       else inserted sub (tenant_value (shaped_tenant s)) i (adb_next (app_part w)) (adb_rows (app_part w)))"
proof -
  let ?cs = "change_set_of (shaped_tenant s) (shaped_actor s) s j"
  obtain env where run: "pipeline_run sha (pipeline_over ports (plain_decide ports) None) h ref spec w =
      (Inr (AllowCommit (request_of s) ?cs), (env, snd w))"
    using admissible_allowed [OF assms(1)] by blast
  have shape: "shape_check sha h ref spec = Inr s" using assms(1) by (simp add: admissible_def)
  have "key \<noteq> []" using captured_text [OF shape] assms(5) by fastforce
  then have new: "postgres_write_new (substrate_client sub) (VStr (request_of s)) (VStr key) =
      Inr (postgres_write (substrate_client sub) (request_of s) key)"
    using shaped_texts [OF shape] by (simp add: postgres_write_new_def non_empty_string_def)
  have tenant: "check_tenant_id (member (int_customer i) ''tenantId'') = Inr (tenant_value (shaped_tenant s))"
    and used: "out_key (outbox_row_of (tenant_value (shaped_tenant s)) i) = fingerprint (shaped_key s)"
    using prepared_intents [OF assms(3)] shaped_texts [OF shape]
    by (simp_all add: check_tenant_id_def non_empty_text_def text_of_def the_text_def outbox_row_of_def)
  let ?u = "\<lparr>in_flight = False, outside = app_part w\<rparr>"
  have "\<not> in_flight ?u" "adb_faults (outside ?u) = []" using assms(2) by simp_all
  from clear_commit [where u = ?u, OF this assms(3) tenant assms(4), of "request_of s" key] assms(6)
  show ?thesis
    by (auto simp: used plain_service_def service_over_def service_handle_def ebind_apply run at_app_def fresh_commit_def
        assms(5) new)
qed

text \<open>
  C5. Who may is served. Where the action is well-formed, its tenant and actor are the authenticated
  ones, a policy allows and none denies, the invariants hold, no statement fails and the tables accept
  the rows, the plain service answers a commit under a new key, with the receipt of the request and the
  three new rows in the tables, and rejects with an idempotency conflict under a key the tenant has used.
\<close>

theorem admitted_customer_is_created:
  fixes w :: "('e, app_db, 'l) kernel"
  assumes "admissible sha ports ss h ref spec (fst w) s j" and "adb_faults (app_part w) = []"
    and "check_prepared (change_set_of (shaped_tenant s) (shaped_actor s) s j) = Inr i"
    and "rows_accepted sub (tenant_value (shaped_tenant s)) i"
    and "captured_key h spec = VStr key"
    and "made_receipt sub (request_of s) key (tenant_value (shaped_tenant s)) (adb_next (app_part w)) = Inr r"
  shows "\<exists>w1. plain_service sha ports (substrate_client sub) h ref spec w =
      (if key_used (adb_rows (app_part w)) (tenant_value (shaped_tenant s)) (fingerprint (shaped_key s))
       then Inl (IdempotencyConflict (tenant_value (shaped_tenant s)) (fingerprint (shaped_key s)))
       else Inr (Committed (request_of s) (VInst (ICommitReceipt (Genuine r)))), w1) \<and>
    adb_rows (app_part w1) =
      (if key_used (adb_rows (app_part w)) (tenant_value (shaped_tenant s)) (fingerprint (shaped_key s))
       then adb_rows (app_part w)
       else inserted sub (tenant_value (shaped_tenant s)) i (adb_next (app_part w)) (adb_rows (app_part w)))"
  by (rule admitted_created [OF assms])

section \<open>A run on concrete values\<close>

definition action_literal :: "(string \<times> jsval) list" where
  "action_literal = [(''requestId'', VStr other_tenant), (''actorId'', VStr (js ''user:1'')),
     (''tenantId'', VStr sample_tenant), (''payload'', VObj 1), (''idempotencyKey'', VStr (js ''k''))]"

definition action_heap :: heap where
  "action_heap = (\<lambda>a. plain_object (if a = 0 then action_literal else [(''name'', VStr (js ''Ada''))]))"

definition sample_shape :: shaped where
  "sample_shape = \<lparr>shaped_correlation = sample_correlation, shaped_actor = ActorId (js ''user:1''),
     shaped_tenant = TenantId sample_tenant, shaped_key = IdempotencyKey (sample_sha (js ''k'')), shaped_payload = VObj 1\<rparr>"

definition sample_ports :: "unit customer_ports" where
  "sample_ports = \<lparr>port_current = (\<lambda>u w. (Inr (VInst (IPrincipal (Genuine sample_principal))), w)),
     port_candidates = resolver_source sample_statements,
     port_invariants = (\<lambda>c w. (Inr (\<lambda>_. plain_object [(''ok'', VBool True)], VObj 0), w))\<rparr>"

lemma sample_uuids: "uuid_ok sample_tenant" "uuid_ok other_tenant"
  by (simp_all only: uuid_ok_def re_test_lang [symmetric]) code_simp+

lemma sample_shape: "shape_check sample_sha action_heap 1 (VObj 0) = Inr sample_shape"
proof -
  have h: "action_heap 0 = plain_object action_literal" by (simp add: action_heap_def)
  have "is_ordinary action_heap (VObj 0)" "owns_exactly action_heap 0 action_spec_keys"
    using plain_object_facts [where h = action_heap and r = 0, OF h] by (auto simp: action_literal_def action_spec_keys_def)
  moreover have "read_key action_heap 0 (js ''requestId'') = Inr (VStr other_tenant)"
    "read_key action_heap 0 (js ''actorId'') = Inr (VStr (js ''user:1''))"
    "read_key action_heap 0 (js ''tenantId'') = Inr (VStr sample_tenant)"
    "read_key action_heap 0 (js ''payload'') = Inr (VObj 1)"
    "read_key action_heap 0 (js ''idempotencyKey'') = Inr (VStr (js ''k''))"
    using read_plain_object [where h = action_heap and r = 0, OF h] by (simp_all add: action_literal_def)
  moreover have "actor_id_new (VStr (js ''user:1'')) = Inr (ActorId (js ''user:1''))" by code_simp
  moreover have "raw_key_ok (js ''k'')" by code_simp
  ultimately show ?thesis
    using sample_uuids
    by (auto simp: shape_check_def rbind_eq_Inr ordinary_options_iff correlation_id_new_def tenant_id_new_def canonical_uuid_eq_Inr
        idempotency_key_new_def fingerprint_of_eq_Inr sample_shape_def sample_correlation_def)
qed

lemma name_key: "sorted (map js [''name''])" "js ''name'' \<notin> set refused_keys"
  by code_simp+

lemma sample_payload_json: "payload_json action_heap sample_shape = Some (JsonObj [(js ''name'', JsonStr (js ''Ada''))])"
proof -
  have h: "action_heap 1 = plain_object [(''name'', VStr (js ''Ada''))]" by (simp add: action_heap_def)
  have "canonical_object action_heap (VObj 1) (js ''a Command payload'') = Inr (JsonObj [(js ''name'', JsonStr (js ''Ada''))])"
    using literal_denotes [where h = action_heap and r = 1 and ks = "[''name'']", OF h] name_key
    by (simp add: canonical_object_iff is_atom_def atom_json_def del: One_nat_def)
  then show ?thesis by (simp add: payload_json_def sample_shape_def)
qed

lemma sample_admissible:
  "admissible sample_sha sample_ports sample_statements action_heap 1 (VObj 0) () sample_shape (JsonObj [(js ''name'', JsonStr (js ''Ada''))])"
proof -
  have "read_key (\<lambda>_. plain_object [(''ok'', VBool True)]) 0 (js ''ok'') = Inr (VBool True)"
    using read_plain_object [where h = "\<lambda>_. plain_object [(''ok'', VBool True)]" and r = 0] by simp
  then have ok: "invariants_hold (\<lambda>_. plain_object [(''ok'', VBool True)]) (VObj 0) = Inr True"
    by (simp add: invariants_hold_def)
  have keys: "fst ` set [(js ''tenantId'', JsonStr t)] \<subseteq> target_actor_keys" for t
    by (simp add: target_actor_keys_def)
  have "sample_tenant \<noteq> other_tenant" by code_simp
  then have "policy_admits sample_statements (TenantId sample_tenant) (ActorId (js ''user:1''))
      (customer_request sample_principal (customer_command_with sample_principal sample_shape j))" for j
    using keys
    by (simp add: policy_admits_def sample_statements_def sample_statement_def statement_matches_def action_name_of_def
        resource_type_def customer_request_def customer_command_with_def)
  then show ?thesis
    using sample_shape sample_payload_json sample_statements_wf ok
    by (simp add: admissible_def Let_def sample_ports_def sample_shape_def sample_principal_def)
qed

abbreviation (input) sample_set :: json where
  "sample_set \<equiv> change_set_of (TenantId sample_tenant) (ActorId (js ''user:1'')) sample_shape (JsonObj [(js ''name'', JsonStr (js ''Ada''))])"

definition created_intents :: intents where
  "created_intents = (let is = the_json (member sample_set ''intents'') in
     \<lparr>int_customer = the_json (member is ''customer''), int_audit = the_json (member is ''audit''),
      int_outbox = the_json (member is ''transactionalOutbox''), int_idempotency = the_json (member is ''idempotency'')\<rparr>)"

definition created_receipt :: commit_receipt where
  "created_receipt = \<lparr>receipt_request_id = other_tenant, receipt_tenant_id = sample_tenant,
     receipt_resource_id = sub_id sample_substrate 0, receipt_committed_at = js ''2024-02-29T12:30:45.123Z'',
     receipt_audit_id = sub_id sample_substrate 1, receipt_outbox_ids = [sub_id sample_substrate 2],
     receipt_idempotency_key = js ''k''\<rparr>"

lemma created_prepared: "check_prepared sample_set = Inr created_intents"
  by code_simp

lemma created_accepted: "rows_accepted sample_substrate sample_tenant created_intents"
  by code_simp

lemma created_made: "made_receipt sample_substrate other_tenant (js ''k'') sample_tenant 0 = Inr created_receipt"
proof -
  have "names_a_real_instant (js ''2024-02-29T12:30:45.123Z'')" by code_simp
  moreover have "\<not> blank other_tenant" "\<not> blank sample_tenant" "\<not> blank (js ''k'')" "\<not> blank (sub_id sample_substrate 0)"
    "\<not> blank (sub_id sample_substrate 1)" "\<not> blank (sub_id sample_substrate 2)"
    by code_simp+
  ultimately show ?thesis
    by (simp add: made_receipt_def receipt_literal_one created_receipt_def receipt_wf_def names_a_real_instant_iff
        sample_substrate_def numeral_2_eq_2)
qed

lemma sample_captured: "captured_key action_heap (VObj 0) = VStr (js ''k'')"
proof -
  have h: "action_heap 0 = plain_object action_literal" by (simp add: action_heap_def)
  from plain_object_facts [where h = action_heap and r = 0, OF h] show ?thesis
    by (simp add: captured_key_def action_literal_def)
qed

text \<open>The customer is created in the empty store.\<close>

lemma sample_created:
  obtains w1 :: "(unit, app_db, unit) kernel" where
    "plain_service sample_sha sample_ports (substrate_client sample_substrate) action_heap 1 (VObj 0) ((), empty_store, ()) =
      (Inr (Committed other_tenant (VInst (ICommitReceipt (Genuine created_receipt)))), w1)"
    "adb_rows (app_part w1) = inserted sample_substrate sample_tenant created_intents 0 (adb_rows empty_store)"
proof -
  let ?w = "((), empty_store, ()) :: (unit, app_db, unit) kernel"
  have vals: "tenant_value (shaped_tenant sample_shape) = sample_tenant" "shaped_tenant sample_shape = TenantId sample_tenant"
    "shaped_actor sample_shape = ActorId (js ''user:1'')" "request_of sample_shape = other_tenant"
    by (simp_all add: sample_shape_def request_of_def sample_correlation_def)
  have store: "adb_faults (app_part ?w) = []" "adb_next (app_part ?w) = 0"
    and fresh: "\<not> key_used (adb_rows (app_part ?w)) t k" for t k
    by (simp_all add: empty_store_def Let_def key_used_def)
  have "\<exists>w1. plain_service sample_sha sample_ports (substrate_client sample_substrate) action_heap 1 (VObj 0) ?w =
      (Inr (Committed other_tenant (VInst (ICommitReceipt (Genuine created_receipt)))), w1) \<and>
     adb_rows (app_part w1) = inserted sample_substrate sample_tenant created_intents 0 (adb_rows empty_store)"
    using admitted_created [where w = ?w and s = sample_shape and i = created_intents and sub = sample_substrate
        and key = "js ''k''" and r = created_receipt, OF _ store(1), unfolded vals store(2)]
      sample_admissible created_prepared created_accepted created_made sample_captured fresh
    by simp
  with that show thesis by blast
qed

theorem admitted_customer_is_created_witness:
  "\<exists>w1 :: (unit, app_db, unit) kernel.
     plain_service sample_sha sample_ports (substrate_client sample_substrate) action_heap 1 (VObj 0) ((), empty_store, ()) =
       (Inr (Committed other_tenant (VInst (ICommitReceipt (Genuine created_receipt)))), w1) \<and>
     adb_rows (app_part w1) = inserted sample_substrate sample_tenant created_intents 0 (adb_rows empty_store)"
proof -
  let ?w = "((), empty_store, ()) :: (unit, app_db, unit) kernel"
  have vals: "tenant_value (shaped_tenant sample_shape) = sample_tenant" "shaped_tenant sample_shape = TenantId sample_tenant"
    "shaped_actor sample_shape = ActorId (js ''user:1'')" "request_of sample_shape = other_tenant"
    by (simp_all add: sample_shape_def request_of_def sample_correlation_def)
  have store: "adb_faults (app_part ?w) = []" "adb_next (app_part ?w) = 0"
    and fresh: "\<not> key_used (adb_rows (app_part ?w)) t k" for t k
    by (simp_all add: empty_store_def Let_def key_used_def)
  show ?thesis
    using admitted_customer_is_created [where w = ?w and s = sample_shape and i = created_intents and sub = sample_substrate
        and key = "js ''k''" and r = created_receipt, OF _ store(1), unfolded vals store(2)]
      sample_admissible created_prepared created_accepted created_made sample_captured fresh
    by simp
qed

theorem customer_needs_admission_witness:
  "\<exists>w1 :: (unit, app_db, unit) kernel.
     admitted_commit (policy_admits sample_statements) sample_sha sample_ports action_heap 1 (VObj 0) () []
       (adb_rows (app_part w1)) other_tenant (VInst (ICommitReceipt (Genuine created_receipt)))"
proof -
  obtain w1 :: "(unit, app_db, unit) kernel" where
    w1: "plain_service sample_sha sample_ports (substrate_client sample_substrate) action_heap 1 (VObj 0) ((), empty_store, ()) =
      (Inr (Committed other_tenant (VInst (ICommitReceipt (Genuine created_receipt)))), w1)"
    by (rule sample_created)
  have "adb_rows (app_part ((), empty_store, ())) = tables_of []"
    by (simp add: empty_store_def Let_def tables_of_def)
  from customer_needs_admission [OF disjI1 [OF refl] _ sample_statements_wf this w1] show ?thesis
    by (auto simp: sample_ports_def)
qed

end
