(* ===== verification/Customer_Audit_Run.thy ===== *)
theory Customer_Audit_Run
  imports Customer_Created
begin

text \<open>
  The auditor of the identity guard answers where the log does, and a caller of another tenant is
  turned away on record.
\<close>

text \<open>The entry of a guard refusal.\<close>

definition guard_decision :: "guard_refusal \<Rightarrow> js_string \<Rightarrow> policy_decision" where
  "guard_decision g why = \<lparr>decision_effect = Deny, decision_reason = why, decision_matched = None,
     decision_trace = refusal_correlation g\<rparr>"

definition guard_entry ::
    "(js_string \<Rightarrow> js_string) \<Rightarrow> guard_refusal \<Rightarrow> js_string \<Rightarrow> js_string \<Rightarrow> js_string \<Rightarrow> js_string option \<Rightarrow> decision_log_entry" where
  "guard_entry sha g why i ts prev = \<lparr>entry_id = i, entry_request = guard_request g, entry_decision = guard_decision g why,
     entry_layer = None, entry_ts = ts, entry_prev = prev,
     entry_hash = (case plain_payload i (guard_request g) (guard_decision g why) None ts prev of
       Inr p \<Rightarrow> sha (stringify p) | Inl _ \<Rightarrow> [])\<rparr>"

lemma guard_reason_ok: "guard_reason c = Some why \<Longrightarrow> reason_ok why"
  by (cases c) (simp_all add: guard_reason_def, auto simp only: simp_thms, code_simp+)

text \<open>What is needed of the refused caller and of the services for its entry.\<close>

definition auditable :: "guard_refusal \<Rightarrow> tenant_id \<Rightarrow> actor_id \<Rightarrow> bool" where
  "auditable g t a \<longleftrightarrow> refusal_principal g = \<lparr>principal_tenant = Genuine t, principal_actor = Genuine a\<rparr> \<and>
     correlation_value (refusal_correlation g) \<in> lang uuid_form \<and> tenant_value t \<in> lang uuid_form"

lemma guard_entry_made:
  assumes "auditable g t a" and "guard_reason (refusal_guard g) = Some why" and "i \<in> lang ulid_form" and "instant_check ts"
    and "prev_hash_value pv = Inr prev"
  shows "policy_decision_of (Inr (VStr (js ''deny''))) (Inr (VStr why)) (Inr VNull)
      (Inr (VInst (ICorrelationId (Genuine (refusal_correlation g))))) = Inr (guard_decision g why)"
    and "entry_of sha (VStr i) (VInst (IPolicyRequest (Genuine (guard_request g))))
      (VInst (IPolicyDecision (Genuine (guard_decision g why)))) VNull (VStr ts) pv = Inr (guard_entry sha g why i ts prev)"
proof -
  show "policy_decision_of (Inr (VStr (js ''deny''))) (Inr (VStr why)) (Inr VNull)
      (Inr (VInst (ICorrelationId (Genuine (refusal_correlation g))))) = Inr (guard_decision g why)"
    using assms(1) guard_reason_ok [OF assms(2)]
    by (simp add: policy_decision_of_iff guard_decision_def policy_decision_wf_def effect_text_def auditable_def)
  have "same_correlation (guard_decision g why) (guard_request g)"
    by (simp add: same_correlation_def guard_request_def guard_action_def action_correlation_def guard_decision_def)
  moreover have "\<exists>p. plain_payload i (guard_request g) (guard_decision g why) None ts prev = Inr p"
    using assms(1) by (simp add: plain_payload_def guard_request_def guard_action_def request_tenant_def request_actor_def
        action_principal_def auditable_def)
  moreover have "layer_resolved_value VNull (guard_decision g why) = Inr None"
    by (simp add: layer_resolved_value_def guard_decision_def)
  moreover have "ulid_value (VStr i) = Inr i" "entry_timestamp (VStr ts) = Inr ts"
    "request_value (VInst (IPolicyRequest (Genuine (guard_request g)))) = Inr (guard_request g)"
    "decision_value (VInst (IPolicyDecision (Genuine (guard_decision g why)))) = Inr (guard_decision g why)"
    using assms(3,4) by (simp_all add: ulid_value_iff entry_timestamp_iff request_value_iff decision_value_iff)
  ultimately show "entry_of sha (VStr i) (VInst (IPolicyRequest (Genuine (guard_request g))))
      (VInst (IPolicyDecision (Genuine (guard_decision g why)))) VNull (VStr ts) pv = Inr (guard_entry sha g why i ts prev)"
    using assms(5) by (auto simp: entry_of_def guard_entry_def)
qed

lemma guard_entry_about:
  assumes "auditable g t a" and "guard_reason (refusal_guard g) = Some why" and "i \<in> lang ulid_form" and "instant_check ts"
    and "prev_hash_value pv = Inr prev"
  shows "entry_about sha (guard_entry sha g why i ts prev) t a (refusal_correlation g)"
proof -
  have "entry_sound sha (guard_entry sha g why i ts prev)"
    by (rule entry_of_sound [OF guard_entry_made(2) [OF assms]])
  moreover have "policy_request_wf (guard_request g)"
    using resource_keys guard_keys assms(1)
    by (simp add: policy_request_wf_def guard_request_def payload_wf_def max_depth_def eval_nat_numeral auditable_def)
  moreover have "policy_decision_wf (guard_decision g why)"
    using assms(1) guard_reason_ok [OF assms(2)] by (simp add: guard_decision_def policy_decision_wf_def auditable_def)
  ultimately show ?thesis
    using assms(1) by (simp add: entry_about_def guard_entry_def asks_as_def trace_genuine_def guard_request_def guard_action_def
        action_correlation_def action_principal_def auditable_def)
qed

text \<open>On the empty log the auditor answers, and leaves the entry.\<close>

lemma empty_head:
  assumes "tenant_value t \<in> lang uuid_form"
  shows "adapter_chain_head (table_client Some) (VInst (ITenantId (Genuine t))) empty_db = (Inr None, empty_db)"
proof -
  have "genuine_tenant (VInst (ITenantId (Genuine t))) = Some (tenant_value t)"
    using assms by (simp add: genuine_tenant_def exact_tenant_def tenant_id_to_string_def re_test_lang)
  then show ?thesis
    by (simp add: adapter_chain_head_def client_simps visible_rows_def empty_db_def rows_of_def terminal_hashes_def)
qed

lemma guard_served:
  fixes w :: "('e, 'a, log_db) kernel"
  assumes g: "auditable g t a" and why: "guard_reason (refusal_guard g) = Some why"
    and id: "ids (fst w) = (Inr (VStr i), e1)" "i \<in> lang ulid_form"
    and ts: "now () e1 = (Inr (VStr ts), e2)" "instant_check ts"
    and hex: "\<And>s. sha s \<in> lang hex64_form" and w: "log_part w = empty_db"
  shows "\<exists>w1. guard_auditor sha (log_services_over sha Some ports ids now) g w = (Inr (), w1)"
proof -
  let ?e = "guard_entry sha g why i ts None"
  have prev: "prev_hash_value VNull = Inr None" by (simp add: prev_hash_value_def)
  note made = guard_entry_made [OF g why id(2) ts(2) prev]
  note about = guard_entry_about [OF g why id(2) ts(2) prev, of sha]
  obtain p where p: "entry_payload ?e = Inr p" using entry_about_payload [OF about] by blast
  have "\<exists>w1. adapter_append sha (table_client Some) (VInst (IDecisionLogEntry (Genuine ?e))) empty_db = (Inr (receipt_of ?e t), w1) \<and>
      db_rows w1 = db_rows empty_db @ [row_of ?e t p]"
    by (rule fresh_at_end [OF empty_reachable _ about _ p gives_back_Some hex])
      (simp_all add: fresh_in_empty guard_entry_def)
  then obtain w1 where app: "adapter_append sha (table_client Some) (VInst (IDecisionLogEntry (Genuine ?e))) empty_db =
      (Inr (receipt_of ?e t), w1)" by blast
  have tenant: "principal_tenant (refusal_principal g) = Genuine t" "tenant_value t \<in> lang uuid_form"
    using g by (simp_all add: auditable_def)
  have instant: "instant_of (VStr ts) = Some ts" using ts(2) by (simp add: instant_of_def names_a_real_instant_iff)
  obtain e a' where wp: "w = (e, a', empty_db)" using w by (cases w) simp
  show ?thesis
    using id(1) ts(1) made app empty_head [OF tenant(2)] instant
    by (simp add: guard_auditor_def why guard_command_value guard_request_literal wp ebind_apply elift_def log_services_over_def
        audited_services_def tenant at_caller_def at_log_def clock_now_def log_port_append_def genuine_entry_def
        exact_entry_def genuine_def)
qed

section \<open>A caller of another tenant\<close>

definition foreign_literal :: "(string \<times> jsval) list" where
  "foreign_literal = [(''requestId'', VStr other_tenant), (''actorId'', VStr (js ''user:1'')),
     (''tenantId'', VStr other_tenant), (''payload'', VObj 1), (''idempotencyKey'', VStr (js ''k''))]"

definition foreign_heap :: heap where
  "foreign_heap = (\<lambda>a. plain_object (if a = 0 then foreign_literal else [(''name'', VStr (js ''Ada''))]))"

definition foreign_shape :: shaped where
  "foreign_shape = sample_shape\<lparr>shaped_tenant := TenantId other_tenant\<rparr>"

lemma foreign_shape: "shape_check sample_sha foreign_heap 1 (VObj 0) = Inr foreign_shape"
proof -
  have h: "foreign_heap 0 = plain_object foreign_literal" by (simp add: foreign_heap_def)
  have "is_ordinary foreign_heap (VObj 0)" "owns_exactly foreign_heap 0 action_spec_keys"
    using plain_object_facts [where h = foreign_heap and r = 0, OF h] by (auto simp: foreign_literal_def action_spec_keys_def)
  moreover have "read_key foreign_heap 0 (js ''requestId'') = Inr (VStr other_tenant)"
    "read_key foreign_heap 0 (js ''actorId'') = Inr (VStr (js ''user:1''))"
    "read_key foreign_heap 0 (js ''tenantId'') = Inr (VStr other_tenant)"
    "read_key foreign_heap 0 (js ''payload'') = Inr (VObj 1)"
    "read_key foreign_heap 0 (js ''idempotencyKey'') = Inr (VStr (js ''k''))"
    using read_plain_object [where h = foreign_heap and r = 0, OF h] by (simp_all add: foreign_literal_def)
  moreover have "actor_id_new (VStr (js ''user:1'')) = Inr (ActorId (js ''user:1''))" by code_simp
  moreover have "raw_key_ok (js ''k'')" by code_simp
  ultimately show ?thesis
    using sample_uuids
    by (auto simp: shape_check_def rbind_eq_Inr ordinary_options_iff correlation_id_new_def tenant_id_new_def canonical_uuid_eq_Inr
        idempotency_key_new_def fingerprint_of_eq_Inr foreign_shape_def sample_shape_def sample_correlation_def)
qed

abbreviation (input) audited_sample ::
    "heap \<Rightarrow> nat \<Rightarrow> jsval \<Rightarrow> ((unit, app_db, log_db) kernel, thrown, service_result) eff" where
  "audited_sample \<equiv> audited_service sample_sha sample_ports (\<lambda>w. (Inr (VStr sample_ulid), w)) (\<lambda>_ w. (Inr (VStr leap_day), w))
     (table_client Some) (substrate_client sample_substrate)"

abbreviation (input) empty_world :: "(unit, app_db, log_db) kernel" where
  "empty_world \<equiv> ((), empty_store, empty_db)"

lemma foreign_run:
  obtains w1 where "audited_sample foreign_heap 1 (VObj 0) empty_world =
    (Inr (NotCommitted CROSS_TENANT_DENY other_tenant (refusal_envelope other_tenant CrossTenant False)), w1)"
proof -
  let ?svc = "log_services_over sample_sha Some sample_ports (\<lambda>w. (Inr (VStr sample_ulid), w)) (\<lambda>_ w. (Inr (VStr leap_day), w))
    :: (unit, app_db, log_db) kernel log_services"
  let ?pl = "pipeline_over sample_ports (logging_decide sample_sha ?svc) (Some (guard_auditor sample_sha ?svc))"
  let ?g = "\<lparr>refusal_guard = CrossTenant, refusal_principal = sample_principal,
       refusal_correlation = shaped_correlation foreign_shape, refusal_key = shaped_key foreign_shape\<rparr>"
  have "auditable ?g (TenantId sample_tenant) (ActorId (js ''user:1''))"
    using sample_uuids by (simp add: auditable_def sample_principal_def foreign_shape_def sample_shape_def
        sample_correlation_def uuid_ok_def)
  then have "\<exists>w1. guard_auditor sample_sha ?svc ?g empty_world = (Inr (), w1)"
    by (rule guard_served [OF _ _ _ sample_ulid_ok _ leap_day_ok sample_sha_hex]) (simp_all add: guard_reason_def)
  then obtain w1 where w1: "guard_auditor sample_sha ?svc ?g empty_world = (Inr (), w1)" by blast
  have witnessed: "guard_witnessed ?pl CrossTenant sample_principal foreign_shape empty_world w1"
    using w1 by (simp add: guard_witnessed_def pipeline_over_def)
  have "sample_tenant \<noteq> other_tenant" by code_simp
  then have "pipeline_answers sample_sha ?pl foreign_heap 1 (VObj 0) empty_world
      (refused_with CROSS_TENANT_DENY CrossTenant foreign_shape) w1"
    by (intro pipeline_answers.foreign_tenant [OF foreign_shape, where p = sample_principal and wi = empty_world
        and t = "TenantId sample_tenant", OF _ _ _ witnessed])
      (simp_all add: identity_answers_def pipeline_over_def at_caller_def sample_ports_def sample_principal_def
        foreign_shape_def sample_shape_def)
  then have "audited_sample foreign_heap 1 (VObj 0) empty_world =
    (Inr (NotCommitted CROSS_TENANT_DENY other_tenant (refusal_envelope other_tenant CrossTenant False)), w1)"
    by (simp add: pipeline_answers_iff [symmetric] audited_service_def Let_def log_services_over_def service_over_def
        service_handle_def ebind_apply request_of_def foreign_shape_def sample_shape_def sample_correlation_def)
  then show thesis by (rule that)
qed

theorem every_answer_is_recorded_witness:
  "\<exists>w1 r. audited_sample foreign_heap 1 (VObj 0) empty_world =
      (Inr (NotCommitted CROSS_TENANT_DENY other_tenant (refusal_envelope other_tenant CrossTenant False)), w1) \<and>
    log_rows w1 = [r]"
proof -
  obtain w1 where w1: "audited_sample foreign_heap 1 (VObj 0) empty_world =
    (Inr (NotCommitted CROSS_TENANT_DENY other_tenant (refusal_envelope other_tenant CrossTenant False)), w1)"
    by (rule foreign_run)
  from every_answer_is_recorded [OF this] show ?thesis
    using w1 by (auto simp: empty_db_def answer_recorded_def recorded_effect_def refusal_envelope_def refusal_text_inject)
qed

end
