(* ===== verification/Standard_Router.thy ===== *)
theory Standard_Router
  imports Option_Shapes
begin

text \<open>
  \<^verbatim>\<open>src/src/delivery/standard-router.mjs\<close>: a table of routes, checked when it is built, and the dispatch of
  a message by exact method and path.
\<close>

section \<open>The table\<close>

text \<open>\<open>typeof value.handle === "function"\<close> on an object; the kernel's own handlers have the method on their prototype.\<close>

definition has_handle :: "heap \<Rightarrow> jsval \<Rightarrow> bool outcome" where
  "has_handle h v = (case v of
     VObj r \<Rightarrow> rbind (read_key h r (js ''handle'')) (\<lambda>f. Inr (case f of VFun _ \<Rightarrow> True | _ \<Rightarrow> False))
   | VInst (IService c _) \<Rightarrow> Inr (c \<in> {SvcCommitService, SvcRequestHandler, SvcHttpAdapter, SvcRouter})
   | _ \<Rightarrow> Inr False)"

definition route_keys :: "string list" where
  "route_keys = [''method'', ''path'', ''handler'']"

record 'h route =
  route_method :: js_string
  route_path :: js_string
  route_handler :: 'h

definition non_empty_text_value :: "jsval \<Rightarrow> js_string option" where
  "non_empty_text_value v = (case v of VStr s \<Rightarrow> if s \<noteq> [] then Some s else None | _ \<Rightarrow> None)"

definition check_route_record :: "heap \<Rightarrow> nat \<Rightarrow> jsval \<Rightarrow> jsval route outcome" where
  "check_route_record h index v = (let at = js ''StandardRouter routes['' @ dec_nat index @ js '']'' in
     rbind (ordinary_options h v route_keys (at @ js '' must be an ordinary route record'')
       (at @ js '' must carry exactly these keys: '' @ comma_list route_keys)) (\<lambda>r.
     rbind (read_key h r (js ''method'')) (\<lambda>m.
     rbind (read_key h r (js ''path'')) (\<lambda>p.
     rbind (read_key h r (js ''handler'')) (\<lambda>handler.
     case non_empty_text_value m of
       None \<Rightarrow> type_error (at @ js ''.method must be a non-empty string'')
     | Some method \<Rightarrow> (case non_empty_text_value p of
         None \<Rightarrow> type_error (at @ js ''.path must be a non-empty string'')
       | Some path \<Rightarrow> rbind (has_handle h handler) (\<lambda>ok.
           if \<not> ok then type_error (at @ js ''.handler must be an ordinary object with a handle function'')
           else Inr \<lparr>route_method = method, route_path = path, route_handler = handler\<rparr>)))))))"

text \<open>\<open>routes.map(checkRouteRecord)\<close>: a hole is not visited, and stays one.\<close>

definition check_route_at :: "heap \<Rightarrow> nat \<Rightarrow> nat \<Rightarrow> jsval route option outcome" where
  "check_route_at h r i = (case own_property h r (KStr (dec_nat i)) of
     None \<Rightarrow> Inr None
   | Some _ \<Rightarrow> rbind (read_key h r (dec_nat i)) (\<lambda>v. rbind (check_route_record h i v) (\<lambda>x. Inr (Some x))))"

definition route_key :: "'h route \<Rightarrow> js_string" where
  "route_key x = route_method x @ js '' '' @ route_path x"

fun refuse_duplicate_routes :: "js_string set \<Rightarrow> 'h route option list \<Rightarrow> 'h route list outcome" where
  "refuse_duplicate_routes seen [] = Inr []"
| "refuse_duplicate_routes seen (None # xs) = type_error (js ''Cannot destructure property 'method' of 'undefined' as it is undefined.'')"
| "refuse_duplicate_routes seen (Some x # xs) =
     (if route_key x \<in> seen
      then type_error (js ''StandardRouter refuses a duplicate method+path pair: '' @ route_key x)
      else rbind (refuse_duplicate_routes (insert (route_key x) seen) xs) (\<lambda>ys. Inr (x # ys)))"

definition router_new :: "heap \<Rightarrow> jsval \<Rightarrow> jsval route list outcome" where
  "router_new h options =
     rbind (ordinary_options h options [''routes''] (js ''StandardRouter needs exactly one ordinary options object'')
       (js ''StandardRouter options must carry exactly these keys: '' @ comma_list [''routes''])) (\<lambda>r.
     rbind (read_key h r (js ''routes'')) (\<lambda>routes. case routes of
       VObj a \<Rightarrow> if \<not> is_array h routes \<or> array_length h a = 0
         then type_error (js ''StandardRouter routes must be a non-empty array of route records'')
         else rbind (rmap (check_route_at h a) [0..<array_length h a]) (refuse_duplicate_routes {})
     | _ \<Rightarrow> type_error (js ''StandardRouter routes must be a non-empty array of route records'')))"

section \<open>Dispatch\<close>

text \<open>
  What is looked at in an answer: whether it is an ordinary object, its own keys, and what reading
  its three members gives. The body is handed on as it is.
\<close>

record 'b answer =
  answer_ordinary :: bool
  answer_keys :: "key list"
  answer_status :: "jsval outcome"
  answer_headers :: "(heap \<times> jsval) outcome"
  answer_body :: "'b outcome"

definition literal_answer :: "int \<Rightarrow> (string \<times> js_string) list \<Rightarrow> 'b \<Rightarrow> 'b answer" where
  "literal_answer status headers body = \<lparr>answer_ordinary = True,
     answer_keys = [KStr (js ''status''), KStr (js ''headers''), KStr (js ''body'')],
     answer_status = Inr (VNum (JInt status)),
     answer_headers = Inr (\<lambda>_. plain_object (map (\<lambda>(k, s). (k, VStr s)) headers), VObj 0), answer_body = Inr body\<rparr>"

text \<open>The router's own refusals carry a code alone.\<close>

datatype 'b routed = CodeError js_string | Reply 'b

definition router_error :: "int \<Rightarrow> string \<Rightarrow> 'b routed answer" where
  "router_error status code = literal_answer status [(''content-type'', js ''application/json'')] (CodeError (js code))"

type_synonym ('w, 'b) handler = "heap \<Rightarrow> jsval \<Rightarrow> ('w, thrown, 'b routed answer) eff"

definition message_read :: "heap \<Rightarrow> jsval \<Rightarrow> (js_string \<times> js_string) option outcome" where
  "message_read h v = (case v of
     VObj r \<Rightarrow> if \<not> is_ordinary h v then Inr None
       else rbind (read_key h r (js ''method'')) (\<lambda>m. case m of
         VStr method \<Rightarrow> rbind (read_key h r (js ''path'')) (\<lambda>p.
           Inr (case p of VStr path \<Rightarrow> Some (method, path) | _ \<Rightarrow> None))
       | _ \<Rightarrow> Inr None)
   | _ \<Rightarrow> Inr None)"

definition router_handle :: "('w, 'b) handler route list \<Rightarrow> ('w, 'b) handler" where
  "router_handle routes h message =
     ebind (elift (message_read h message)) (\<lambda>read. case read of
       None \<Rightarrow> eret (router_error 400 ''MESSAGE_SHAPE_INVALID'')
     | Some (method, path) \<Rightarrow>
         (case filter (\<lambda>x. route_path x = path) routes of
            [] \<Rightarrow> eret (router_error 404 ''ROUTE_NOT_FOUND'')
          | here \<Rightarrow> (case List.find (\<lambda>x. route_method x = method) here of
              None \<Rightarrow> eret (router_error 405 ''METHOD_NOT_SUPPORTED'')
            | Some x \<Rightarrow> ebind (route_handler x h message) (\<lambda>reply.
                if \<not> answer_ordinary reply
                then ethrow (TypeError (js ''StandardRouter route handler must return an ordinary response object''))
                else eret reply))))"

section \<open>What the table guarantees\<close>

lemma refuse_duplicate_routes_ok:
  "refuse_duplicate_routes seen xs = Inr ys \<Longrightarrow>
     xs = map Some ys \<and> distinct (map route_key ys) \<and> seen \<inter> route_key ` set ys = {}"
  by (induction seen xs arbitrary: ys rule: refuse_duplicate_routes.induct)
    (fastforce simp: rbind_eq_Inr split: if_splits)+

lemma refuse_duplicate_routes_distinct:
  "distinct (map route_key ys) \<Longrightarrow> seen \<inter> route_key ` set ys = {} \<Longrightarrow>
     refuse_duplicate_routes seen (map Some ys) = Inr ys"
  by (induction ys arbitrary: seen) auto

text \<open>A table of routes as the constructor leaves it: at most one route for a method and a path.\<close>

definition table_ok :: "'h route list \<Rightarrow> bool" where
  "table_ok routes \<longleftrightarrow> routes \<noteq> [] \<and> distinct (map (\<lambda>x. (route_method x, route_path x)) routes)"

lemma router_new_table: "router_new h options = Inr routes \<Longrightarrow> table_ok routes"
proof -
  assume "router_new h options = Inr routes"
  then obtain routesv where "(case routesv of
       VObj a \<Rightarrow> if \<not> is_array h routesv \<or> array_length h a = 0
         then type_error (js ''StandardRouter routes must be a non-empty array of route records'')
         else rbind (rmap (check_route_at h a) [0..<array_length h a]) (refuse_duplicate_routes {})
     | _ \<Rightarrow> type_error (js ''StandardRouter routes must be a non-empty array of route records'')) = Inr routes"
    unfolding router_new_def rbind_eq_Inr by blast
  then obtain a xs where len: "array_length h a \<noteq> 0" and xs: "rmap (check_route_at h a) [0..<array_length h a] = Inr xs"
    and dup: "refuse_duplicate_routes {} xs = Inr routes"
    by (cases routesv) (simp_all add: rbind_eq_Inr split: if_splits, blast)
  note ok = refuse_duplicate_routes_ok [OF dup]
  have "length xs = array_length h a" using rmap_length [OF xs] by simp
  with ok len have "routes \<noteq> []" by auto
  moreover have "distinct (map (\<lambda>x. (route_method x, route_path x)) routes)"
  proof -
    have "map route_key routes = map (\<lambda>(m, p). m @ js '' '' @ p) (map (\<lambda>x. (route_method x, route_path x)) routes)"
      by (simp add: route_key_def)
    moreover have "distinct (map route_key routes)" using ok by blast
    ultimately show ?thesis by (simp only: distinct_map [of _ "map _ _"])
  qed
  ultimately show ?thesis by (simp add: table_ok_def)
qed

text \<open>Which handler is asked: the one route of that method and path, and none where there is none.\<close>

definition the_route :: "'h route list \<Rightarrow> js_string \<Rightarrow> js_string \<Rightarrow> 'h route option" where
  "the_route routes method path = List.find (\<lambda>x. route_method x = method \<and> route_path x = path) routes"

lemma the_route_iff:
  assumes "table_ok routes"
  shows "the_route routes method path = Some x \<longleftrightarrow> x \<in> set routes \<and> route_method x = method \<and> route_path x = path"
proof -
  have "distinct (map (\<lambda>x. (route_method x, route_path x)) routes) \<Longrightarrow>
      the_route routes method path = Some x \<longleftrightarrow> x \<in> set routes \<and> route_method x = method \<and> route_path x = path"
    by (induction routes) (force simp: the_route_def)+
  with assms show ?thesis by (simp add: table_ok_def)
qed

lemma find_filter: "List.find P (filter Q xs) = List.find (\<lambda>x. P x \<and> Q x) xs"
  by (induction xs) auto

lemma dispatch:
  assumes "message_read h message = Inr (Some (method, path))"
  shows "router_handle routes h message w = (case the_route routes method path of
     Some x \<Rightarrow> (case route_handler x h message w of
         (Inl e, w1) \<Rightarrow> (Inl e, w1)
       | (Inr reply, w1) \<Rightarrow> (if answer_ordinary reply then Inr reply
           else type_error (js ''StandardRouter route handler must return an ordinary response object''), w1))
   | None \<Rightarrow> (Inr (if path \<in> route_path ` set routes then router_error 405 ''METHOD_NOT_SUPPORTED''
       else router_error 404 ''ROUTE_NOT_FOUND''), w))"
proof -
  have found: "List.find (\<lambda>x. route_method x = method) (filter (\<lambda>x. route_path x = path) routes) = the_route routes method path"
    by (simp add: find_filter the_route_def)
  have none: "filter (\<lambda>x. route_path x = path) routes = [] \<longleftrightarrow> path \<notin> route_path ` set routes"
    by (auto simp: filter_empty_conv)
  show ?thesis
  proof (cases "filter (\<lambda>x. route_path x = path) routes")
    case Nil
    then have "the_route routes method path = None" using found by simp
    then show ?thesis using Nil none assms by (simp add: router_handle_def)
  next
    case (Cons y ys)
    then have here: "path \<in> route_path ` set routes" using none by auto
    show ?thesis
      using found here assms
      by (auto simp: router_handle_def Cons ebind_apply type_error_def split: option.splits sum.splits prod.splits)
  qed
qed

end
