(* ===== verification/Utf8.thy ===== *)
theory Utf8
  imports Js_Text
begin

text \<open>
  \<open>TextEncoder\<close> and \<open>TextDecoder\<close> as the delivery ring uses them: UTF-8, the decoder either fatal or
  replacing what is malformed, and dropping a leading byte order mark.
\<close>

section \<open>Encoding\<close>

definition is_surrogate :: "code_unit \<Rightarrow> bool" where
  "is_surrogate c \<longleftrightarrow> is_high_surrogate c \<or> is_low_surrogate c"

text \<open>The code points of a string; a surrogate outside a pair is read as U+FFFD.\<close>

definition unit_scalar :: "code_unit \<Rightarrow> nat" where
  "unit_scalar c = (if is_surrogate c then 0xFFFD else unat c)"

fun scalar_values :: "js_string \<Rightarrow> nat list" where
  "scalar_values [] = []"
| "scalar_values [a] = [unit_scalar a]"
| "scalar_values (a # b # s) =
     (if is_high_surrogate a \<and> is_low_surrogate b
      then (0x10000 + (unat a - 0xD800) * 1024 + (unat b - 0xDC00)) # scalar_values s
      else unit_scalar a # scalar_values (b # s))"

definition encode_scalar :: "nat \<Rightarrow> nat list" where
  "encode_scalar c =
     (if c < 0x80 then [c]
      else if c < 0x800 then [0xC0 + c div 64, 0x80 + c mod 64]
      else if c < 0x10000 then [0xE0 + c div 4096, 0x80 + c div 64 mod 64, 0x80 + c mod 64]
      else [0xF0 + c div 262144, 0x80 + c div 4096 mod 64, 0x80 + c div 64 mod 64, 0x80 + c mod 64])"

type_synonym bytes = "8 word list"

definition utf8_encode :: "js_string \<Rightarrow> bytes" where
  "utf8_encode s = map word_of_nat (concat (map encode_scalar (scalar_values s)))"

section \<open>Decoding\<close>

text \<open>
  One code point, or \<open>None\<close> where the bytes are malformed: \<open>utf8_points\<close> expects a lead byte,
  \<open>utf8_more\<close> the next of \<open>n\<close> trailing bytes in the given bounds. A byte that ends a sequence too
  soon is read again as a lead byte.
\<close>

function (sequential) utf8_points :: "nat list \<Rightarrow> nat option list"
  and utf8_more :: "nat \<Rightarrow> nat \<Rightarrow> nat \<Rightarrow> nat \<Rightarrow> nat list \<Rightarrow> nat option list" where
  "utf8_points [] = []"
| "utf8_points (b # bs) =
     (if b < 0x80 then Some b # utf8_points bs
      else if 0xC2 \<le> b \<and> b \<le> 0xDF then utf8_more 1 (b - 0xC0) 0x80 0xBF bs
      else if 0xE0 \<le> b \<and> b \<le> 0xEF
      then utf8_more 2 (b - 0xE0) (if b = 0xE0 then 0xA0 else 0x80) (if b = 0xED then 0x9F else 0xBF) bs
      else if 0xF0 \<le> b \<and> b \<le> 0xF4
      then utf8_more 3 (b - 0xF0) (if b = 0xF0 then 0x90 else 0x80) (if b = 0xF4 then 0x8F else 0xBF) bs
      else None # utf8_points bs)"
| "utf8_more n cp lo hi [] = [None]"
| "utf8_more n cp lo hi (b # bs) =
     (if lo \<le> b \<and> b \<le> hi
      then if n \<le> 1 then Some (cp * 64 + (b - 0x80)) # utf8_points bs
        else utf8_more (n - 1) (cp * 64 + (b - 0x80)) 0x80 0xBF bs
      else None # utf8_points (b # bs))"
  by pat_completeness auto

termination
  by (relation "measure (\<lambda>x. case x of Inl bs \<Rightarrow> 2 * length bs | Inr (_, _, _, _, bs) \<Rightarrow> 2 * length bs + 1)") auto

definition utf16 :: "nat \<Rightarrow> js_string" where
  "utf16 c = (if c < 0x10000 then [word_of_nat c]
     else [word_of_nat (0xD800 + (c - 0x10000) div 1024), word_of_nat (0xDC00 + (c - 0x10000) mod 1024)])"

definition drop_mark :: "nat option list \<Rightarrow> nat option list" where
  "drop_mark cs = (case cs of Some c # rest \<Rightarrow> if c = 0xFEFF then rest else cs | _ \<Rightarrow> cs)"

definition text_decode :: "bool \<Rightarrow> bytes \<Rightarrow> js_string option" where
  "text_decode fatal bs = (let cs = utf8_points (map unat bs) in
     if fatal \<and> None \<in> set cs then None
     else Some (concat (map (\<lambda>c. utf16 (case c of None \<Rightarrow> 0xFFFD | Some x \<Rightarrow> x)) (drop_mark cs))))"

section \<open>What is encoded is decoded again\<close>

definition is_scalar :: "nat \<Rightarrow> bool" where
  "is_scalar c \<longleftrightarrow> c < 0xD800 \<or> (0xE000 \<le> c \<and> c < 0x110000)"

lemma surrogate_unat:
  "is_high_surrogate c \<longleftrightarrow> 0xD800 \<le> unat c \<and> unat c \<le> 0xDBFF" "is_low_surrogate c \<longleftrightarrow> 0xDC00 \<le> unat c \<and> unat c \<le> 0xDFFF"
  by (simp_all add: is_high_surrogate_def is_low_surrogate_def word_le_nat_alt)

lemma unat_16: "unat (c :: code_unit) < 0x10000"
  using unsigned_less [of c, where ?'a = nat] by simp

lemma scalar_values_ok: "c \<in> set (scalar_values s) \<Longrightarrow> is_scalar c"
proof (induction s rule: scalar_values.induct)
  case (2 a)
  then show ?case using unat_16 [of a] by (auto simp: unit_scalar_def is_surrogate_def is_scalar_def surrogate_unat)
next
  case (3 a b s)
  then show ?case using unat_16 [of a]
    by (auto simp: unit_scalar_def is_surrogate_def is_scalar_def surrogate_unat split: if_splits)
qed simp

lemma mod64: "(x :: nat) mod 64 \<le> 63"
  using mod_less_divisor [of 64 x] by linarith

lemma split64: "(c :: nat) div 64 * 64 + c mod 64 = c"
  by (rule div_mult_mod_eq)

lemma split4096: "(c :: nat) div 4096 * 64 + c div 64 mod 64 = c div 64"
  using div_mult_mod_eq [of "c div 64" 64] by (simp add: div_mult2_eq [symmetric])

lemma split262144: "(c :: nat) div 262144 * 64 + c div 4096 mod 64 = c div 4096"
  using div_mult_mod_eq [of "c div 4096" 64] by (simp add: div_mult2_eq [symmetric])

lemma points_of_scalar:
  assumes "is_scalar c" shows "utf8_points (encode_scalar c @ bs) = Some c # utf8_points bs"
proof -
  consider "c < 0x80" | "0x80 \<le> c" "c < 0x800" | "0x800 \<le> c" "c < 0x10000" | "0x10000 \<le> c" by linarith
  then show ?thesis
  proof cases
    case 1
    then show ?thesis by (simp add: encode_scalar_def)
  next
    case 2
    define q m where "q = c div 64" and "m = c mod 64"
    then have "2 \<le> q" "q \<le> 31" "m \<le> 63" "q * 64 + m = c" using 2 split64 [of c] by auto
    moreover have "encode_scalar c = [0xC0 + q, 0x80 + m]" using 2 by (simp add: encode_scalar_def q_def m_def)
    ultimately show ?thesis by simp
  next
    case 3
    have top: "c div 4096 < 16" using 3 by auto
    have low: "32 \<le> c div 64 mod 64" if "c div 4096 = 0" using 3 that by auto
    have high: "c div 64 mod 64 < 32" if "c div 4096 = 13"
    proof -
      have "c < 0xD800" using that assms by (auto simp: is_scalar_def)
      then have "c div 64 < 864" by auto
      then show ?thesis using split4096 [of c] that by linarith
    qed
    define q m n where "q = c div 4096" and "m = c div 64 mod 64" and "n = c mod 64"
    have "(q * 64 + m) * 64 + n = c"
      unfolding q_def m_def n_def by (simp only: split4096 split64)
    moreover have "q \<le> 15" "q = 0 \<longrightarrow> 32 \<le> m" "q = 13 \<longrightarrow> m \<le> 31"
      using top low high unfolding q_def m_def by linarith+
    moreover have "m \<le> 63" "n \<le> 63"
      unfolding m_def n_def by (rule mod64)+
    moreover have "encode_scalar c = [0xE0 + q, 0x80 + m, 0x80 + n]" using 3 by (simp add: encode_scalar_def q_def m_def n_def)
    ultimately show ?thesis by auto
  next
    case 4
    have top: "c div 262144 \<le> 4" using assms by (auto simp: is_scalar_def)
    have low: "16 \<le> c div 4096 mod 64" if "c div 262144 = 0" using 4 that by auto
    have high: "c div 4096 mod 64 < 16" if "c div 262144 = 4"
    proof -
      have "c < 0x110000" using that assms by (auto simp: is_scalar_def)
      then have "c div 4096 < 272" by auto
      then show ?thesis using split262144 [of c] that by linarith
    qed
    define q p m n where "q = c div 262144" and "p = c div 4096 mod 64" and "m = c div 64 mod 64" and "n = c mod 64"
    have "((q * 64 + p) * 64 + m) * 64 + n = c"
      unfolding q_def p_def m_def n_def by (simp only: split262144 split4096 split64)
    moreover have "q \<le> 4" "q = 0 \<longrightarrow> 16 \<le> p" "q = 4 \<longrightarrow> p \<le> 15"
      using top low high unfolding q_def p_def by linarith+
    moreover have "p \<le> 63" "m \<le> 63" "n \<le> 63"
      unfolding p_def m_def n_def by (rule mod64)+
    moreover have "encode_scalar c = [0xF0 + q, 0x80 + p, 0x80 + m, 0x80 + n]"
      using 4 by (simp add: encode_scalar_def q_def p_def m_def n_def)
    ultimately show ?thesis by auto
  qed
qed

lemma points_of_scalars:
  "list_all is_scalar cs \<Longrightarrow> utf8_points (concat (map encode_scalar cs)) = map Some cs"
  by (induction cs) (simp_all add: points_of_scalar)

lemma encoded_bytes: "is_scalar c \<Longrightarrow> b \<in> set (encode_scalar c) \<Longrightarrow> b < 256"
proof -
  assume "is_scalar c" "b \<in> set (encode_scalar c)"
  moreover have "c div 64 mod 64 < 64" "c div 4096 mod 64 < 64" "c mod 64 < 64" by simp_all
  moreover have "c < 0x800 \<Longrightarrow> c div 64 < 32" "c < 0x10000 \<Longrightarrow> c div 4096 < 16" "c < 0x110000 \<Longrightarrow> c div 262144 < 5" by auto
  ultimately show "b < 256" by (auto simp: encode_scalar_def is_scalar_def split: if_splits)
qed

lemma decode_bytes: "utf8_points (map unat (utf8_encode s)) = map Some (scalar_values s)"
proof -
  have ok: "list_all is_scalar (scalar_values s)" using scalar_values_ok by (simp add: list_all_iff)
  have "map (\<lambda>b. unat (word_of_nat b :: 8 word)) (concat (map encode_scalar (scalar_values s))) = concat (map encode_scalar (scalar_values s))"
    by (rule map_idI) (use scalar_values_ok encoded_bytes in \<open>force simp: unat_of_nat\<close>)
  then show ?thesis using points_of_scalars [OF ok] by (simp add: utf8_encode_def comp_def)
qed

text \<open>A text without lone surrogates.\<close>

fun well_formed :: "js_string \<Rightarrow> bool" where
  "well_formed [] = True"
| "well_formed [a] = (\<not> is_surrogate a)"
| "well_formed (a # b # s) =
     (if is_high_surrogate a \<and> is_low_surrogate b then well_formed s else \<not> is_surrogate a \<and> well_formed (b # s))"

lemma utf16_unit: "\<not> is_surrogate a \<Longrightarrow> utf16 (unit_scalar a) = [a]"
  using unat_16 [of a] by (simp add: utf16_def unit_scalar_def)

lemma utf16_pair:
  assumes "is_high_surrogate a" "is_low_surrogate b"
  shows "utf16 (0x10000 + (unat a - 0xD800) * 1024 + (unat b - 0xDC00)) = [a, b]"
proof -
  have low: "unat b - 0xDC00 < 1024" and a: "0xD800 \<le> unat a" and b: "0xDC00 \<le> unat b"
    using assms by (auto simp: surrogate_unat)
  have "((unat a - 0xD800) * 1024 + (unat b - 0xDC00)) div 1024 = unat a - 0xD800"
    "((unat a - 0xD800) * 1024 + (unat b - 0xDC00)) mod 1024 = unat b - 0xDC00"
    using low by simp_all
  moreover have "0xD800 + (unat a - 0xD800) = unat a" "0xDC00 + (unat b - 0xDC00) = unat b" using a b by simp_all
  ultimately show ?thesis by (simp add: utf16_def)
qed

lemma utf16_scalar_values: "well_formed s \<Longrightarrow> concat (map utf16 (scalar_values s)) = s"
  by (induction s rule: well_formed.induct) (auto simp: utf16_unit utf16_pair split: if_splits)

text \<open>No byte order mark in front: the decoder would take it away.\<close>

definition unmarked :: "js_string \<Rightarrow> bool" where
  "unmarked s \<longleftrightarrow> (case s of [] \<Rightarrow> True | c # _ \<Rightarrow> c \<noteq> 0xFEFF)"

lemma drop_mark_unmarked: "unmarked s \<Longrightarrow> drop_mark (map Some (scalar_values s)) = map Some (scalar_values s)"
proof -
  assume s: "unmarked s"
  have "unit_scalar a \<noteq> 0xFEFF" if "a \<noteq> 0xFEFF" for a
  proof
    assume "unit_scalar a = 0xFEFF"
    then have "unat a = unat (0xFEFF :: code_unit)" by (simp add: unit_scalar_def split: if_splits)
    with that show False by (metis unsigned_word_eqI)
  qed
  with s show ?thesis
    by (cases s rule: scalar_values.cases) (auto simp: drop_mark_def unmarked_def)
qed

lemma utf8_round_trip: "well_formed s \<Longrightarrow> unmarked s \<Longrightarrow> text_decode fatal (utf8_encode s) = Some s"
  by (auto simp: text_decode_def decode_bytes Let_def drop_mark_unmarked utf16_scalar_values comp_def)

lemma ascii_well_formed: "list_all (\<lambda>c. c < 0x80) s \<Longrightarrow> well_formed s \<and> unmarked s"
proof
  assume s: "list_all (\<lambda>c. c < 0x80) s"
  have "\<not> is_surrogate c" if "c < 0x80" for c
    using that by (auto simp: is_surrogate_def surrogate_unat word_less_nat_alt)
  with s show "well_formed s"
    by (induction s rule: well_formed.induct) (auto simp: is_surrogate_def)
  show "unmarked s" using s by (cases s) (auto simp: unmarked_def)
qed

section \<open>Lower case\<close>

text \<open>
  \<open>key.toLowerCase() === name\<close> for a lower-case ASCII name. Two sorts of code units have an ASCII
  lower case of their own: the capital letters, and the Kelvin sign, whose lower case is \<open>k\<close>.
\<close>

definition lower_unit :: "code_unit \<Rightarrow> code_unit" where
  "lower_unit c = (if 0x41 \<le> c \<and> c \<le> 0x5A then c + 0x20 else if c = 0x212A then 0x6B else c)"

definition lower_is :: "string \<Rightarrow> js_string \<Rightarrow> bool" where
  "lower_is name s \<longleftrightarrow> map lower_unit s = js name"

end
