(* ===== verification/Asgi_Profile.thy ===== *)
theory Asgi_Profile
  imports Standard_Router Utf8
begin

text \<open>
  \<^verbatim>\<open>src/src/delivery/asgi-core-profile.mjs\<close>: the ASGI-shaped boundary around the router. A scope and a
  stream of request events come in, exactly two response events go out.
\<close>

section \<open>Headers and scope\<close>

definition decode_header_part :: "heap \<Rightarrow> jsval \<Rightarrow> js_string option" where
  "decode_header_part h v = (case v of
     VStr s \<Rightarrow> Some s
   | VObj r \<Rightarrow> (case obj_kind (h r) of ByteArray bs \<Rightarrow> text_decode False bs | _ \<Rightarrow> None)
   | _ \<Rightarrow> None)"

text \<open>The punctuation both token classes share: \<^verbatim>\<open>! # $ % & ' * + - . ^ _ ` | ~\<close>.\<close>

definition token_marks :: "(code_unit \<times> code_unit) list" where
  "token_marks = [(0x21, 0x21), (0x23, 0x27), (0x2A, 0x2B), (0x2D, 0x2E), (0x5E, 0x60), (0x7C, 0x7C), (0x7E, 0x7E)]"

definition header_name_form :: regex where
  "header_name_form = plus (Class ([(0x61, 0x7A), (0x30, 0x39)] @ token_marks))"

definition http_token_form :: regex where
  "http_token_form = plus (Class ([(0x41, 0x5A), (0x30, 0x39)] @ token_marks))"

definition header_value_form :: regex where
  "header_value_form = Star (Class [(0x20, 0x7E)])"

text \<open>\<open>decoded[name] = value\<close> on an object literal: a member called \<open>__proto__\<close> stays unset.\<close>

type_synonym header_list = "(js_string \<times> js_string) list"

definition put_header :: "header_list \<Rightarrow> js_string \<Rightarrow> js_string \<Rightarrow> header_list" where
  "put_header ms name s =
     (if name = js ''__proto__'' then ms
      else if name \<in> fst ` set ms then map (\<lambda>(k, v). (k, if k = name then s else v)) ms
      else ms @ [(name, s)])"

definition decode_pair :: "heap \<Rightarrow> jsval \<Rightarrow> (js_string \<times> js_string) option outcome" where
  "decode_pair h v = (case v of
     VObj p \<Rightarrow> if \<not> is_array h v \<or> array_length h p \<noteq> 2 then Inr None
       else rbind (read_key h p (js ''0'')) (\<lambda>a. rbind (read_key h p (js ''1'')) (\<lambda>b.
         Inr (case (decode_header_part h a, decode_header_part h b) of
           (Some name, Some s) \<Rightarrow> if re_test header_name_form name then Some (name, s) else None
         | _ \<Rightarrow> None)))
   | _ \<Rightarrow> Inr None)"

fun decode_pairs :: "heap \<Rightarrow> nat \<Rightarrow> header_list \<Rightarrow> nat list \<Rightarrow> header_list option outcome" where
  "decode_pairs h r ms [] = Inr (Some ms)"
| "decode_pairs h r ms (i # is) =
     rbind (read_key h r (dec_nat i)) (\<lambda>v. rbind (decode_pair h v) (\<lambda>pair. case pair of
       None \<Rightarrow> Inr None
     | Some (name, s) \<Rightarrow> decode_pairs h r (put_header ms name s) is))"

definition decode_headers :: "heap \<Rightarrow> jsval \<Rightarrow> header_list option outcome" where
  "decode_headers h v = (case v of
     VObj r \<Rightarrow> if is_array h v then decode_pairs h r [] [0..<array_length h r] else Inr None
   | _ \<Rightarrow> Inr None)"

definition valid_method :: "jsval \<Rightarrow> js_string option" where
  "valid_method v = (case v of VStr s \<Rightarrow> if re_test http_token_form s then Some s else None | _ \<Rightarrow> None)"

definition valid_path :: "jsval \<Rightarrow> js_string option" where
  "valid_path v = (case v of VStr s \<Rightarrow> if s \<noteq> [] \<and> take 1 s = js ''/'' then Some s else None | _ \<Rightarrow> None)"

text \<open>Method, path and headers of a valid scope; what else it holds is not read.\<close>

definition valid_scope :: "heap \<Rightarrow> jsval \<Rightarrow> (js_string \<times> js_string \<times> jsval) option outcome" where
  "valid_scope h v = (case v of
     VObj r \<Rightarrow> if \<not> is_ordinary h v then Inr None
       else rbind (read_key h r (js ''type'')) (\<lambda>kind. if kind \<noteq> VStr (js ''http'') then Inr None
       else rbind (read_key h r (js ''method'')) (\<lambda>m. case valid_method m of None \<Rightarrow> Inr None | Some method \<Rightarrow>
         rbind (read_key h r (js ''path'')) (\<lambda>p. case valid_path p of None \<Rightarrow> Inr None | Some path \<Rightarrow>
         rbind (read_key h r (js ''headers'')) (\<lambda>headers.
           Inr (if is_array h headers then Some (method, path, headers) else None)))))
   | _ \<Rightarrow> Inr None)"

text \<open>\<open>isValidScope(scope) && decodeHeaders(scope.headers) !== undefined\<close>\<close>

definition scope_view :: "heap \<Rightarrow> jsval \<Rightarrow> (js_string \<times> js_string \<times> header_list) option outcome" where
  "scope_view h v = rbind (valid_scope h v) (\<lambda>scope. case scope of
     None \<Rightarrow> Inr None
   | Some (method, path, headers) \<Rightarrow>
       rbind (decode_headers h headers) (\<lambda>ms. Inr (map_option (\<lambda>ms. (method, path, ms)) ms)))"

section \<open>Response events\<close>

datatype header_part = HeaderText js_string | HeaderBytes bytes
datatype 'b event_body = PlainBody 'b | BytesBody bytes

datatype 'b asgi_event =
    ResponseStart int "(header_part \<times> header_part) list"
  | ResponseBody "'b event_body" bool \<comment> \<open>\<open>more_body\<close>\<close>

definition text_header :: "js_string \<times> js_string \<Rightarrow> header_part \<times> header_part" where
  "text_header = (\<lambda>(name, s). (HeaderText name, HeaderText s))"

definition profile_error_events :: "'b routed asgi_event list" where
  "profile_error_events =
     [ResponseStart 400 [text_header (js ''content-type'', js ''application/json'')],
      ResponseBody (PlainBody (CodeError (js ''PROFILE_SCOPE_INVALID''))) False]"

definition check_status :: "jsval \<Rightarrow> int outcome" where
  "check_status v = (case v of
     VNum n \<Rightarrow> (case number_to_int n of
       Some i \<Rightarrow> if 100 \<le> i \<and> i \<le> 599 then Inr i
         else type_error (js ''AsgiCoreProfileAdapter router response status must be an integer in range 100..599'')
     | None \<Rightarrow> type_error (js ''AsgiCoreProfileAdapter router response status must be an integer in range 100..599''))
   | _ \<Rightarrow> type_error (js ''AsgiCoreProfileAdapter router response status must be an integer in range 100..599''))"

fun check_response_headers :: "heap \<Rightarrow> nat \<Rightarrow> key list \<Rightarrow> header_list outcome" where
  "check_response_headers h r [] = Inr []"
| "check_response_headers h r (KSym _ # ks) =
     type_error (js ''AsgiCoreProfileAdapter router response header names must be valid lower-case HTTP tokens'')"
| "check_response_headers h r (KStr name # ks) =
     (if \<not> re_test header_name_form name
      then type_error (js ''AsgiCoreProfileAdapter router response header names must be valid lower-case HTTP tokens'')
      else rbind (read_key h r name) (\<lambda>v. case v of
        VStr s \<Rightarrow> if re_test header_value_form s
          then rbind (check_response_headers h r ks) (\<lambda>rest. Inr ((name, s) # rest))
          else type_error (js ''AsgiCoreProfileAdapter router response header values must be safe printable ASCII strings'')
      | _ \<Rightarrow> type_error (js ''AsgiCoreProfileAdapter router response header values must be safe printable ASCII strings'')))"

definition check_header_object :: "heap \<times> jsval \<Rightarrow> header_list outcome" where
  "check_header_object hv = (case hv of (h, headers) \<Rightarrow> (case headers of
     VObj r \<Rightarrow> if is_ordinary h headers then check_response_headers h r (own_keys h r)
       else type_error (js ''AsgiCoreProfileAdapter router response headers must be an ordinary object'')
   | _ \<Rightarrow> type_error (js ''AsgiCoreProfileAdapter router response headers must be an ordinary object'')))"

definition response_keys :: "string list" where
  "response_keys = [''status'', ''headers'', ''body'']"

definition check_router_response :: "'b answer \<Rightarrow> (int \<times> header_list) outcome" where
  "check_router_response a =
     (if \<not> answer_ordinary a
      then type_error (js ''AsgiCoreProfileAdapter router response must be an ordinary response object'')
      else if length (answer_keys a) \<noteq> 3 \<or> \<not> list_all (\<lambda>k. KStr (js k) \<in> set (answer_keys a)) response_keys
      then type_error (js ''AsgiCoreProfileAdapter router response must carry exactly status, headers and body'')
      else rbind (answer_status a) (\<lambda>status. rbind (check_status status) (\<lambda>code.
        rbind (answer_headers a) (\<lambda>hv. rbind (check_header_object hv) (\<lambda>ms. Inr (code, ms))))))"

text \<open>The pairs in the order of their names, which are lower-cased once more.\<close>

definition to_response_events :: "'b answer \<Rightarrow> 'b asgi_event list outcome" where
  "to_response_events a =
     rbind (check_router_response a) (\<lambda>(code, ms).
     rbind (answer_body a) (\<lambda>body.
       let pairs = sort_key fst (map (\<lambda>(name, s). (map lower_unit name, s)) ms) in
       Inr [ResponseStart code (map text_header pairs), ResponseBody (PlainBody body) False]))"

text \<open>An encoder answers bytes, or something that is not (\<open>None\<close>), or throws.\<close>

type_synonym 'a encoder = "'a \<Rightarrow> bytes option outcome"

definition encoded_bytes :: "string \<Rightarrow> bytes option \<Rightarrow> bytes outcome" where
  "encoded_bytes label v = (case v of Some bs \<Rightarrow> Inr bs
     | None \<Rightarrow> type_error (js (''AsgiCoreProfileAdapter '' @ label @ '' must return a Uint8Array'')))"

definition encode_part :: "js_string encoder \<Rightarrow> header_part \<Rightarrow> header_part outcome" where
  "encode_part enc part = (case part of
     HeaderText s \<Rightarrow> rbind (enc s) (\<lambda>v. rbind (encoded_bytes ''encodeResponseHeader'' v) (\<lambda>bs. Inr (HeaderBytes bs)))
   | HeaderBytes bs \<Rightarrow> Inr (HeaderBytes bs))"

definition encode_event ::
    "'b encoder option \<Rightarrow> js_string encoder option \<Rightarrow> 'b asgi_event \<Rightarrow> 'b asgi_event outcome" where
  "encode_event enc_body enc_header event = (case event of
     ResponseBody (PlainBody b) m \<Rightarrow> (case enc_body of
       None \<Rightarrow> Inr event
     | Some enc \<Rightarrow> rbind (enc b) (\<lambda>v. rbind (encoded_bytes ''encodeResponseBody'' v) (\<lambda>bs.
         Inr (ResponseBody (BytesBody bs) m))))
   | ResponseStart code ps \<Rightarrow> (case enc_header of
       None \<Rightarrow> Inr event
     | Some enc \<Rightarrow> rbind (rmap (\<lambda>(a, b). rbind (encode_part enc a) (\<lambda>a1. rbind (encode_part enc b) (\<lambda>b1. Inr (a1, b1)))) ps)
         (\<lambda>qs. Inr (ResponseStart code qs)))
   | _ \<Rightarrow> Inr event)"

definition encode_events ::
    "'b encoder option \<Rightarrow> js_string encoder option \<Rightarrow> 'b asgi_event list \<Rightarrow> 'b asgi_event list outcome" where
  "encode_events enc_body enc_header events = rmap (encode_event enc_body enc_header) events"

section \<open>The adapter\<close>

definition asgi_new :: "heap \<Rightarrow> jsval \<Rightarrow> nat exact outcome" where
  "asgi_new h options =
     rbind (ordinary_options h options [''router''] (js ''AsgiCoreProfileAdapter needs exactly one ordinary options object'')
       (js ''AsgiCoreProfileAdapter options must carry exactly these keys: '' @ comma_list [''router''])) (\<lambda>r.
     rbind (read_key h r (js ''router'')) (\<lambda>router. case router of
       VInst (IService SvcRouter e) \<Rightarrow> Inr e
     | _ \<Rightarrow> type_error (js ''AsgiCoreProfileAdapter router must be an exact StandardRouter instance'')))"

text \<open>
  The message for the router: a new object at \<open>at\<close> with the decoded headers, another new object,
  behind it, in the heap the body lives in.
\<close>

definition headers_object :: "header_list \<Rightarrow> js_object" where
  "headers_object ms = \<lparr>obj_proto = ObjectPrototype, obj_kind = Plain,
     obj_props = map (\<lambda>(k, s). (KStr k, Data (VStr s) True)) ms\<rparr>"

definition message_heap :: "nat \<Rightarrow> js_string \<Rightarrow> js_string \<Rightarrow> header_list \<Rightarrow> heap \<Rightarrow> jsval \<Rightarrow> heap" where
  "message_heap at method path ms h body = h(at := plain_object [(''method'', VStr method), (''path'', VStr path),
     (''headers'', VObj (Suc at)), (''body'', body)], Suc at := headers_object ms)"

definition asgi_handle ::
    "('w, 'b) handler \<Rightarrow> nat \<Rightarrow> heap \<Rightarrow> jsval \<Rightarrow> heap \<Rightarrow> jsval \<Rightarrow> ('w, thrown, 'b routed asgi_event list) eff" where
  "asgi_handle router at h scope hb body =
     ebind (elift (scope_view h scope)) (\<lambda>view. case view of
       None \<Rightarrow> eret profile_error_events
     | Some (method, path, ms) \<Rightarrow>
         ebind (router (message_heap at method path ms hb body) (VObj at)) (\<lambda>reply. elift (to_response_events reply)))"

text \<open>What a caller passes for a function: nothing, a function, or something else.\<close>

datatype 'f given = NotGiven | Given 'f | NotFunction

definition need_function :: "string \<Rightarrow> 'f given \<Rightarrow> 'f outcome" where
  "need_function message f = (case f of Given g \<Rightarrow> Inr g | _ \<Rightarrow> type_error (js message))"

definition optional_function :: "string \<Rightarrow> string \<Rightarrow> 'f given \<Rightarrow> 'f option outcome" where
  "optional_function entry name f = (case f of
     NotGiven \<Rightarrow> Inr None | Given g \<Rightarrow> Inr (Some g)
   | NotFunction \<Rightarrow> type_error (js (''AsgiCoreProfileAdapter '' @ entry @ '' '' @ name @ '' must be a function when provided'')))"

type_synonym ('w, 'b) send = "'b asgi_event \<Rightarrow> ('w, thrown, unit) eff"

definition send_all :: "('w, 'b) send \<Rightarrow> 'b asgi_event list \<Rightarrow> ('w, thrown, 'b asgi_event list) eff" where
  "send_all send events = ebind (emap send events) (\<lambda>_. eret events)"

definition asgi_call ::
    "('w, 'b) handler \<Rightarrow> nat \<Rightarrow> heap \<Rightarrow> jsval \<Rightarrow> heap \<Rightarrow> jsval \<Rightarrow> ('w, 'b routed) send given
     \<Rightarrow> 'b routed encoder given \<Rightarrow> js_string encoder given \<Rightarrow> ('w, thrown, 'b routed asgi_event list) eff" where
  "asgi_call router at h scope hb body send enc_body enc_header =
     ebind (elift (need_function ''AsgiCoreProfileAdapter call needs a send function'' send)) (\<lambda>snd1.
     ebind (elift (optional_function ''call'' ''encodeResponseBody'' enc_body)) (\<lambda>eb.
     ebind (elift (optional_function ''call'' ''encodeResponseHeader'' enc_header)) (\<lambda>eh.
     ebind (asgi_handle router at h scope hb body) (\<lambda>raw.
     ebind (elift (encode_events eb eh raw)) (\<lambda>events. send_all snd1 events)))))"

section \<open>Receiving the body\<close>

text \<open>One request event: the chunk and whether another follows, or a refusal (\<open>None\<close>).\<close>

definition more_wanted :: "heap \<Rightarrow> nat \<Rightarrow> bool option outcome" where
  "more_wanted h r = (case own_property h r (KStr (js ''more_body'')) of
     None \<Rightarrow> Inr (Some False)
   | Some _ \<Rightarrow> rbind (read_key h r (js ''more_body'')) (\<lambda>v. Inr (case v of VBool b \<Rightarrow> Some b | _ \<Rightarrow> None)))"

definition chunk_of :: "heap \<Rightarrow> jsval \<Rightarrow> bytes option" where
  "chunk_of h v = (case v of
     VUndef \<Rightarrow> Some []
   | VObj r \<Rightarrow> (case obj_kind (h r) of ByteArray bs \<Rightarrow> Some bs | _ \<Rightarrow> None)
   | _ \<Rightarrow> None)"

definition next_chunk :: "nat option \<Rightarrow> nat \<Rightarrow> heap \<Rightarrow> jsval \<Rightarrow> (bytes \<times> bool) option outcome" where
  "next_chunk limit received h v = (case v of
     VObj r \<Rightarrow> if \<not> is_ordinary h v then Inr None
       else rbind (read_key h r (js ''type'')) (\<lambda>kind. if kind \<noteq> VStr (js ''http.request'') then Inr None
       else rbind (read_key h r (js ''body'')) (\<lambda>body. case chunk_of h body of None \<Rightarrow> Inr None | Some bs \<Rightarrow>
         if (case limit of None \<Rightarrow> False | Some n \<Rightarrow> received + length bs > n) then Inr None
         else rbind (more_wanted h r) (\<lambda>more_body. Inr (map_option (\<lambda>b. (bs, b)) more_body))))
   | _ \<Rightarrow> Inr None)"

type_synonym 'w receive = "('w, thrown, heap \<times> jsval) eff"

text \<open>The loop ends only when the caller's events do, so it is partial: \<open>None\<close> is a loop without end.\<close>

partial_function (option) receive_chunks ::
    "'w receive \<Rightarrow> nat option \<Rightarrow> bytes list \<Rightarrow> nat \<Rightarrow> 'w \<Rightarrow> (bytes list option outcome \<times> 'w) option" where
  "receive_chunks receive limit chunks received w = (case receive w of
     (Inl e, w1) \<Rightarrow> Some (Inl e, w1)
   | (Inr (h, v), w1) \<Rightarrow> (case next_chunk limit received h v of
       Inl e \<Rightarrow> Some (Inl e, w1)
     | Inr None \<Rightarrow> Some (Inr None, w1)
     | Inr (Some (bs, more_body)) \<Rightarrow>
         if more_body then receive_chunks receive limit (chunks @ [bs]) (received + length bs) w1
         else Some (Inr (Some (chunks @ [bs])), w1)))"

text \<open>\<open>merged.set(chunk, offset)\<close>, chunk by chunk, into zeroed bytes of the total length.\<close>

definition set_at :: "bytes \<Rightarrow> nat \<Rightarrow> bytes \<Rightarrow> bytes" where
  "set_at target offset chunk = take offset target @ chunk @ drop (offset + length chunk) target"

fun merge_from :: "nat \<Rightarrow> bytes \<Rightarrow> bytes list \<Rightarrow> bytes" where
  "merge_from offset merged [] = merged"
| "merge_from offset merged (chunk # chunks) =
     merge_from (offset + length chunk) (set_at merged offset chunk) chunks"

definition merge_chunks :: "bytes list \<Rightarrow> bytes" where
  "merge_chunks chunks = merge_from 0 (replicate (sum_list (map length chunks)) 0) chunks"

definition max_body_bytes :: "string \<Rightarrow> jsval \<Rightarrow> nat option outcome" where
  "max_body_bytes message v = (case v of
     VUndef \<Rightarrow> Inr None
   | VNum n \<Rightarrow> (case number_to_safe_int n of
       Some i \<Rightarrow> if 0 \<le> i then Inr (Some (nat i)) else type_error (js message)
     | None \<Rightarrow> type_error (js message))
   | _ \<Rightarrow> type_error (js message))"

text \<open>The caller's arguments, in the order they are checked.\<close>

record ('w, 'b) asgi_args =
  arg_receive :: "'w receive given"
  arg_send :: "('w, 'b routed) send given"
  arg_decode :: "(bytes \<Rightarrow> (heap \<times> jsval) outcome) given"
  arg_body :: "'b routed encoder given"
  arg_header :: "js_string encoder given"
  arg_max :: jsval

record ('w, 'b) asgi_checked =
  chk_receive :: "'w receive"
  chk_send :: "('w, 'b routed) send"
  chk_decode :: "(bytes \<Rightarrow> (heap \<times> jsval) outcome) option"
  chk_body :: "'b routed encoder option"
  chk_header :: "js_string encoder option"
  chk_max :: "nat option"

definition check_args :: "('w, 'b) asgi_args \<Rightarrow> ('w, 'b) asgi_checked outcome" where
  "check_args a =
     rbind (need_function ''AsgiCoreProfileAdapter callFromReceive needs receive and send functions'' (arg_receive a)) (\<lambda>rc.
     rbind (need_function ''AsgiCoreProfileAdapter callFromReceive needs receive and send functions'' (arg_send a)) (\<lambda>sd.
     rbind (optional_function ''callFromReceive'' ''decodeBody'' (arg_decode a)) (\<lambda>dec.
     rbind (optional_function ''callFromReceive'' ''encodeResponseBody'' (arg_body a)) (\<lambda>eb.
     rbind (optional_function ''callFromReceive'' ''encodeResponseHeader'' (arg_header a)) (\<lambda>eh.
     rbind (max_body_bytes ''AsgiCoreProfileAdapter callFromReceive maxBodyBytes must be a non-negative safe integer when provided''
       (arg_max a)) (\<lambda>limit.
     Inr \<lparr>chk_receive = rc, chk_send = sd, chk_decode = dec, chk_body = eb, chk_header = eh, chk_max = limit\<rparr>))))))"

definition send_error_events :: "('w, 'b) asgi_checked \<Rightarrow> ('w, thrown, 'b routed asgi_event list) eff" where
  "send_error_events c =
     ebind (elift (encode_events (chk_body c) (chk_header c) profile_error_events)) (\<lambda>events. send_all (chk_send c) events)"

text \<open>The body the decoder answers, or the merged bytes themselves; a decoder that throws is a refusal.\<close>

definition decoded_body :: "('w, 'b) asgi_checked \<Rightarrow> bytes \<Rightarrow> (heap \<times> jsval) option" where
  "decoded_body c merged = (case chk_decode c of
     Some decode \<Rightarrow> (case decode merged of Inl _ \<Rightarrow> None | Inr body \<Rightarrow> Some body)
   | None \<Rightarrow> Some (\<lambda>_. \<lparr>obj_proto = OtherPrototype 0, obj_kind = ByteArray merged, obj_props = []\<rparr>, VObj 0))"

definition call_from_receive ::
    "('w, 'b) handler \<Rightarrow> nat \<Rightarrow> heap \<Rightarrow> jsval \<Rightarrow> ('w, 'b) asgi_args \<Rightarrow> 'w \<Rightarrow> ('b routed asgi_event list outcome \<times> 'w) option" where
  "call_from_receive router at h scope a w = (case check_args a of
     Inl e \<Rightarrow> Some (Inl e, w)
   | Inr c \<Rightarrow> (case scope_view h scope of
       Inl e \<Rightarrow> Some (Inl e, w)
     | Inr None \<Rightarrow> Some (send_error_events c w)
     | Inr (Some _) \<Rightarrow> (case receive_chunks (chk_receive c) (chk_max c) [] 0 w of
         None \<Rightarrow> None
       | Some (Inl e, w1) \<Rightarrow> Some (Inl e, w1)
       | Some (Inr None, w1) \<Rightarrow> Some (send_error_events c w1)
       | Some (Inr (Some chunks), w1) \<Rightarrow> (case decoded_body c (merge_chunks chunks) of
           None \<Rightarrow> Some (send_error_events c w1)
         | Some (hb, body) \<Rightarrow>
             Some (asgi_call router at h scope hb body (arg_send a) (arg_body a) (arg_header a) w1)))))"

end
