(* ===== verification/Asgi_Facts.thy ===== *)
theory Asgi_Facts
  imports Asgi_Profile
begin

text \<open>
  What the ASGI boundary guarantees: the body is the chunks in order and within its limit, the loop
  over them ends where the stream makes progress, and an answer is two events, sent in order.
\<close>

section \<open>The body\<close>

lemma set_at_end:
  "length merged = offset + k \<Longrightarrow> length chunk \<le> k \<Longrightarrow>
     take (offset + length chunk) (set_at merged offset chunk) = take offset merged @ chunk \<and>
     length (set_at merged offset chunk) = length merged"
  by (simp add: set_at_def)

lemma merge_from_concat:
  "length merged = offset + sum_list (map length chunks) \<Longrightarrow>
     merge_from offset merged chunks = take offset merged @ concat chunks"
proof (induction chunks arbitrary: offset merged)
  case (Cons chunk chunks)
  have "take (offset + length chunk) (set_at merged offset chunk) = take offset merged @ chunk"
    and "length (set_at merged offset chunk) = length merged"
    using set_at_end [of merged offset "length chunk + sum_list (map length chunks)" chunk] Cons.prems by simp_all
  with Cons.IH [of "set_at merged offset chunk" "offset + length chunk"] Cons.prems show ?case by simp
qed simp

lemma merge_chunks_concat: "merge_chunks chunks = concat chunks"
  by (simp add: merge_chunks_def merge_from_concat)

text \<open>A stream that ends: the chunks it delivers, within the limit.\<close>

inductive delivered :: "'w receive \<Rightarrow> nat option \<Rightarrow> nat \<Rightarrow> 'w \<Rightarrow> bytes list \<Rightarrow> 'w \<Rightarrow> bool" for receive limit where
  last: "receive w = (Inr (h, v), w1) \<Longrightarrow> next_chunk limit received h v = Inr (Some (bs, False)) \<Longrightarrow>
    delivered receive limit received w [bs] w1"
| more: "receive w = (Inr (h, v), w1) \<Longrightarrow> next_chunk limit received h v = Inr (Some (bs, True)) \<Longrightarrow>
    delivered receive limit (received + length bs) w1 rest w2 \<Longrightarrow>
    delivered receive limit received w (bs # rest) w2"

lemma receive_induct [consumes 1, case_names step]:
  assumes "receive_chunks receive limit chunks received w = Some y"
    and "\<And>self chunks received w y.
      (\<And>chunks received w y. self chunks received w = Some y \<Longrightarrow> P chunks received w y) \<Longrightarrow>
      (case receive w of
         (Inl e, w1) \<Rightarrow> Some (Inl e, w1)
       | (Inr (h, v), w1) \<Rightarrow> (case next_chunk limit received h v of
           Inl e \<Rightarrow> Some (Inl e, w1)
         | Inr None \<Rightarrow> Some (Inr None, w1)
         | Inr (Some (bs, more_body)) \<Rightarrow>
             if more_body then self (chunks @ [bs]) (received + length bs) w1
             else Some (Inr (Some (chunks @ [bs])), w1))) = Some y \<Longrightarrow> P chunks received w y"
  shows "P chunks received w y"
proof -
  have "receive = receive \<and> limit = limit \<longrightarrow> P chunks received w y"
  proof (rule receive_chunks.raw_induct [of "\<lambda>r l c n w y. r = receive \<and> l = limit \<longrightarrow> P c n w y", OF _ assms(1)], rule impI)
    fix self r l chunks received w y
    assume IH: "\<And>r l chunks received w y. self r l chunks received w = Some y \<Longrightarrow> r = receive \<and> l = limit \<longrightarrow> P chunks received w y"
      and run: "(case r w of
         (Inl e, w1) \<Rightarrow> Some (Inl e, w1)
       | (Inr (h, v), w1) \<Rightarrow> (case next_chunk l received h v of
           Inl e \<Rightarrow> Some (Inl e, w1)
         | Inr None \<Rightarrow> Some (Inr None, w1)
         | Inr (Some (bs, more_body)) \<Rightarrow>
             if more_body then self r l (chunks @ [bs]) (received + length bs) w1
             else Some (Inr (Some (chunks @ [bs])), w1))) = Some y"
      and eqs: "r = receive \<and> l = limit"
    show "P chunks received w y"
    proof (rule assms(2) [of "self receive limit"])
      show "self receive limit chunks received w = Some y \<Longrightarrow> P chunks received w y" for chunks received w y
        using IH by blast
    next
      from eqs have "r = receive" "l = limit" by simp_all
      from run [unfolded this] show "(case receive w of
         (Inl e, w1) \<Rightarrow> Some (Inl e, w1)
       | (Inr (h, v), w1) \<Rightarrow> (case next_chunk limit received h v of
           Inl e \<Rightarrow> Some (Inl e, w1)
         | Inr None \<Rightarrow> Some (Inr None, w1)
         | Inr (Some (bs, more_body)) \<Rightarrow>
             if more_body then self receive limit (chunks @ [bs]) (received + length bs) w1
             else Some (Inr (Some (chunks @ [bs])), w1))) = Some y" .
    qed
  qed
  then show ?thesis by simp
qed

lemma receive_result:
  "receive_chunks receive limit chunks received w = Some y \<Longrightarrow>
     (case y of (Inr (Some cs), w1) \<Rightarrow> \<exists>rest. cs = chunks @ rest \<and> delivered receive limit received w rest w1 | _ \<Rightarrow> True)"
proof (induction rule: receive_induct)
  case (step self chunks received w y)
  show ?case
  proof (cases "\<exists>h v w1 bs. receive w = (Inr (h, v), w1) \<and> next_chunk limit received h v = Inr (Some (bs, True))")
    case True
    then obtain h v w1 bs where event: "receive w = (Inr (h, v), w1)" "next_chunk limit received h v = Inr (Some (bs, True))"
      by blast
    with step.hyps have "self (chunks @ [bs]) (received + length bs) w1 = Some y" by simp
    from step.IH [OF this] delivered.more [where receive = receive and limit = limit, OF event] show ?thesis
      by (fastforce split: sum.splits option.splits)
  next
    case False
    with step.hyps show ?thesis
      by (auto split: prod.splits sum.splits option.splits if_splits intro: delivered.last [where receive = receive])
  qed
qed

lemma delivered_receive:
  "delivered receive limit received w rest w1 \<Longrightarrow>
     receive_chunks receive limit chunks received w = Some (Inr (Some (chunks @ rest)), w1)"
proof (induction arbitrary: chunks rule: delivered.induct)
  case (last w h v w1 received bs)
  then show ?case by (simp add: receive_chunks.simps [of receive])
next
  case (more w h v w1 received bs rest w2)
  then show ?case by (simp add: receive_chunks.simps [of receive _ _ _ w])
qed

lemma receive_iff:
  "receive_chunks receive limit [] 0 w = Some (Inr (Some cs), w1) \<longleftrightarrow> delivered receive limit 0 w cs w1"
  using receive_result [of receive limit "[]" 0 w] delivered_receive [of receive limit 0 w cs w1 "[]"] by fastforce

lemma next_chunk_fits: "next_chunk (Some n) received h v = Inr (Some (bs, b)) \<Longrightarrow> received + length bs \<le> n"
  by (auto simp: next_chunk_def rbind_eq_Inr split: jsval.splits if_splits option.splits)

lemma delivered_fits:
  "delivered receive limit received w rest w1 \<Longrightarrow> limit = Some n \<Longrightarrow> received + length (concat rest) \<le> n"
  by (induction rule: delivered.induct) (auto dest: next_chunk_fits)

text \<open>With a limit, a stream each of whose chunks but the last carries a byte is read to an end.\<close>

definition progresses :: "'w receive \<Rightarrow> bool" where
  "progresses receive \<longleftrightarrow> (\<forall>w h v w1 limit received bs.
     receive w = (Inr (h, v), w1) \<longrightarrow> next_chunk limit received h v = Inr (Some (bs, True)) \<longrightarrow> bs \<noteq> [])"

lemma receive_ends:
  assumes "progresses receive"
  shows "\<exists>y. receive_chunks receive (Some n) chunks received w = Some y"
proof (induction "n - received" arbitrary: chunks received w rule: less_induct)
  case less
  show ?case
  proof (cases "\<exists>h v w1 bs. receive w = (Inr (h, v), w1) \<and> next_chunk (Some n) received h v = Inr (Some (bs, True))")
    case True
    then obtain h v w1 bs where event: "receive w = (Inr (h, v), w1)" "next_chunk (Some n) received h v = Inr (Some (bs, True))"
      by blast
    with assms have "bs \<noteq> []" unfolding progresses_def by blast
    moreover note fits = next_chunk_fits [OF event(2)]
    ultimately have "n - (received + length bs) < n - received" by (cases bs) auto
    from less [OF this] event show ?thesis by (simp add: receive_chunks.simps [of receive _ _ _ w])
  next
    case False
    then show ?thesis
      by (auto simp: receive_chunks.simps [of receive _ _ _ w] split: prod.splits sum.splits option.splits)
  qed
qed

text \<open>Without progress it is not: empty chunks are within every limit.\<close>

lemma receive_endless:
  assumes "receive w = (Inr (h, v), w)" and "\<forall>received. next_chunk limit received h v = Inr (Some ([], True))"
  shows "receive_chunks receive limit chunks received w = None"
proof -
  have "receive_chunks receive limit chunks received w1 = Some y \<Longrightarrow> w1 \<noteq> w" for chunks received w1 y
  proof (induction rule: receive_induct)
    case (step self chunks received w1 y)
    show ?case
    proof
      assume "w1 = w"
      with step.hyps assms have "self (chunks @ [[]]) received w = Some y" by simp
      from step.IH [OF this] show False by simp
    qed
  qed
  then show ?thesis by (metis not_None_eq)
qed

section \<open>The answer\<close>

text \<open>Two events: a start with a status in range, and the whole body.\<close>

definition two_events :: "'b asgi_event list \<Rightarrow> bool" where
  "two_events events \<longleftrightarrow> (\<exists>code headers body. events = [ResponseStart code headers, ResponseBody body False] \<and>
     100 \<le> code \<and> code \<le> 599)"

lemma check_status_range: "check_status v = Inr i \<Longrightarrow> 100 \<le> i \<and> i \<le> 599"
  by (auto simp: check_status_def split: jsval.splits option.splits if_splits)

lemma check_router_range: "check_router_response a = Inr (code, ms) \<Longrightarrow> 100 \<le> code \<and> code \<le> 599"
  by (auto simp: check_router_response_def rbind_eq_Inr split: if_split_asm dest: check_status_range)

lemma response_events_two: "to_response_events a = Inr events \<Longrightarrow> two_events events"
  by (auto simp: to_response_events_def two_events_def rbind_eq_Inr Let_def dest: check_router_range)

lemma profile_events_two: "two_events profile_error_events"
  by (simp add: two_events_def profile_error_events_def)

lemma encode_event_start:
  "encode_event eb eh (ResponseStart code headers) = Inr event \<Longrightarrow> \<exists>hs. event = ResponseStart code hs"
  by (auto simp: encode_event_def rbind_eq_Inr split: option.splits)

lemma encode_event_body:
  "encode_event eb eh (ResponseBody body m) = Inr event \<Longrightarrow> \<exists>b. event = ResponseBody b m"
  by (auto simp: encode_event_def rbind_eq_Inr split: option.splits event_body.splits)

lemma encode_events_two:
  assumes "encode_events eb eh events = Inr out" and "two_events events"
  shows "two_events out"
proof -
  obtain code headers body where events: "events = [ResponseStart code headers, ResponseBody body False]"
    and range: "100 \<le> code" "code \<le> 599" using assms(2) by (auto simp: two_events_def)
  obtain a b where "out = [a, b]" "encode_event eb eh (ResponseStart code headers) = Inr a"
    "encode_event eb eh (ResponseBody body False) = Inr b"
    using assms(1) by (auto simp: encode_events_def events rbind_eq_Inr)
  with range show ?thesis using encode_event_start encode_event_body by (fastforce simp: two_events_def)
qed

text \<open>The events answered are the ones sent last, one after the other.\<close>

definition sent_last :: "('w, 'b) send \<Rightarrow> 'b asgi_event list \<Rightarrow> 'w \<Rightarrow> bool" where
  "sent_last send events w1 \<longleftrightarrow> (\<exists>w0 us. emap send events w0 = (Inr us, w1))"

lemma send_all_iff: "send_all send events w = (Inr out, w1) \<longleftrightarrow> (out = events \<and> (\<exists>us. emap send events w = (Inr us, w1)))"
  by (auto simp: send_all_def ebind_Inr_iff)

lemma call_answers:
  assumes "asgi_call router at h scope hb body send enc_body enc_header w = (Inr events, w1)"
  obtains sd where "send = Given sd" "two_events events" "sent_last sd events w1"
proof -
  obtain sd eb eh raw w2 where sd: "send = Given sd" and raw: "asgi_handle router at h scope hb body w = (Inr raw, w2)"
    and enc: "encode_events eb eh raw = Inr events" and sent: "\<exists>us. emap sd events w2 = (Inr us, w1)"
    using assms by (auto simp: asgi_call_def ebind_Inr_iff need_function_def send_all_iff split: given.splits)
  have "two_events raw"
    using raw by (auto simp: asgi_handle_def ebind_Inr_iff split: option.splits intro: profile_events_two response_events_two)
  with enc have "two_events events" by (rule encode_events_two)
  with sd sent show thesis using that unfolding sent_last_def by blast
qed

lemma error_events_answer:
  "send_error_events c w = (Inr events, w1) \<Longrightarrow> two_events events \<and> sent_last (chk_send c) events w1"
  by (auto simp: send_error_events_def ebind_Inr_iff send_all_iff sent_last_def intro: encode_events_two [OF _ profile_events_two])

lemma answer_is_sent:
  assumes "call_from_receive router at h scope a w = Some (Inr events, w1)"
  shows "\<exists>sd. arg_send a = Given sd \<and> two_events events \<and> sent_last sd events w1"
proof -
  obtain c where c: "check_args a = Inr c"
    using assms by (cases "check_args a") (auto simp: call_from_receive_def)
  have "arg_send a = Given (chk_send c)"
    using c by (auto simp: check_args_def rbind_eq_Inr need_function_def split: given.splits)
  with assms c show ?thesis
    by (auto simp: call_from_receive_def split: sum.splits option.splits prod.splits
        dest!: error_events_answer elim!: call_answers)
qed

end
