(* ===== verification/Request_Handler.thy ===== *)
theory Request_Handler
  imports Customer_Pipeline
begin

text \<open>
  \<^verbatim>\<open>src/src/sdk/create-customer.mjs\<close> and \<^verbatim>\<open>src/src/delivery/create-customer-request-handler.mjs\<close>: from a
  request object to the action the service takes, and from what the service answers or throws to a
  status and a body.
\<close>

section \<open>The SDK\<close>

definition action_spec_fields :: "string list" where
  "action_spec_fields = [''requestId'', ''actorId'', ''tenantId'', ''payload'', ''idempotencyKey'']"

definition sdk_outcomes :: "string list" where
  "sdk_outcomes = [''ALLOW_COMMIT'', ''DENY'', ''INVALID'', ''CROSS_TENANT_DENY'']"

definition error_envelope_fields :: "string list" where
  "error_envelope_fields = [''code'', ''message'', ''requestId'', ''retryable'']"

text \<open>The five members are read in the order of the literal that takes them.\<close>

definition build_action_spec :: "heap \<Rightarrow> jsval \<Rightarrow> (string \<times> jsval) list outcome" where
  "build_action_spec h input =
     rbind (ordinary_options h input action_spec_fields (js ''CreateCustomer@1 ActionSpec needs an ordinary object'')
       (js ''CreateCustomer@1 ActionSpec must carry exactly these keys: '' @ comma_list action_spec_fields)) (\<lambda>r.
     rbind (rmap (\<lambda>k. read_key h r (js k)) action_spec_fields) (\<lambda>vs. Inr (zip action_spec_fields vs)))"

definition is_create_customer_outcome :: "jsval \<Rightarrow> bool" where
  "is_create_customer_outcome v = (case v of VStr s \<Rightarrow> s \<in> js ` set sdk_outcomes | _ \<Rightarrow> False)"

definition is_create_customer_error_envelope :: "heap \<Rightarrow> jsval \<Rightarrow> bool" where
  "is_create_customer_error_envelope h v = (case v of
     VObj r \<Rightarrow> is_ordinary h v \<and> includes_exactly h r error_envelope_fields | _ \<Rightarrow> False)"

section \<open>The handler\<close>

definition request_handler_new :: "heap \<Rightarrow> jsval \<Rightarrow> nat exact outcome" where
  "request_handler_new h options =
     rbind (ordinary_options h options [''service'']
       (js ''CreateCustomerRequestHandler needs exactly one ordinary options object'')
       (js ''CreateCustomerRequestHandler options must carry exactly these keys: '' @ comma_list [''service''])) (\<lambda>r.
     rbind (read_key h r (js ''service'')) (\<lambda>service. case service of
       VInst (IService SvcCommitService e) \<Rightarrow> Inr e
     | _ \<Rightarrow> type_error (js ''CreateCustomerRequestHandler service must be an exact CreateCustomerCommitService instance'')))"

text \<open>The two bodies: a receipt, or an error whose request id may be left out.\<close>

record error_body =
  body_code :: js_string
  body_message :: js_string
  body_request :: "js_string option"
  body_retryable :: bool

datatype delivery_body = ReceiptBody jsval | ErrorBody error_body

definition envelope_body :: "error_envelope \<Rightarrow> error_body" where
  "envelope_body e = \<lparr>body_code = envelope_code e, body_message = envelope_message e,
     body_request = Some (envelope_request e), body_retryable = envelope_retryable e\<rparr>"

record delivery_response =
  response_status :: int
  response_request :: js_string
  response_outcome :: js_string
  response_body :: delivery_body

text \<open>\<open>error != null && error.name === "IdempotencyConflictError" && error.code === "IDEMPOTENCY_CONFLICT"\<close>\<close>

definition is_idempotency_conflict :: "thrown \<Rightarrow> bool" where
  "is_idempotency_conflict e = (case e of
     IdempotencyConflict _ _ \<Rightarrow> True
   | Foreign name code _ \<Rightarrow> name = Some (js ''IdempotencyConflictError'') \<and> code = Some (js ''IDEMPOTENCY_CONFLICT'')
   | _ \<Rightarrow> False)"

definition conflict_response :: "js_string \<Rightarrow> delivery_response" where
  "conflict_response request = \<lparr>response_status = 409, response_request = request,
     response_outcome = js ''IDEMPOTENCY_CONFLICT'',
     response_body = ErrorBody \<lparr>body_code = js ''IDEMPOTENCY_CONFLICT'',
       body_message = js ''a request with this idempotency fingerprint was already committed'',
       body_request = Some request, body_retryable = False\<rparr>\<rparr>"

definition invalid_spec_response :: "js_string \<Rightarrow> delivery_response" where
  "invalid_spec_response request = \<lparr>response_status = 400, response_request = request, response_outcome = js ''INVALID'',
     response_body = ErrorBody \<lparr>body_code = js ''ACTION_SPEC_INVALID'',
       body_message = js ''the request did not satisfy the CreateCustomer@1 delivery shape'',
       body_request = Some request, body_retryable = False\<rparr>\<rparr>"

text \<open>What a service result is answered with; the pipeline's verdicts are the only outcomes beside a commit.\<close>

definition result_response :: "service_result \<Rightarrow> delivery_response" where
  "result_response result = (case result of
     Committed request receipt \<Rightarrow> \<lparr>response_status = 201, response_request = request, response_outcome = js ''COMMITTED'',
       response_body = ReceiptBody receipt\<rparr>
   | NotCommitted v request e \<Rightarrow> \<lparr>response_status = (if v = INVALID then 400 else 403), response_request = request,
       response_outcome = verdict_text v, response_body = ErrorBody (envelope_body e)\<rparr>)"

text \<open>The action is a new object, put at the address \<open>at\<close>.\<close>

type_synonym 'w service = "heap \<Rightarrow> jsval \<Rightarrow> ('w, thrown, service_result) eff"

definition request_handle :: "'w service \<Rightarrow> nat \<Rightarrow> heap \<Rightarrow> jsval \<Rightarrow> ('w, thrown, delivery_response) eff" where
  "request_handle service at h request = (case build_action_spec h request of
     Inl _ \<Rightarrow> elift (rbind (raw_request_id h request) (\<lambda>i. Inr (invalid_spec_response i)))
   | Inr ps \<Rightarrow> ecatch
       (ebind (service (h(at := plain_object ps)) (VObj at)) (\<lambda>result. eret (result_response result)))
       (\<lambda>e. if is_idempotency_conflict e
          then elift (rbind (raw_request_id h request) (\<lambda>i. Inr (conflict_response i))) else ethrow e))"

text \<open>Which status stands for what.\<close>

lemma status_created: "response_status (result_response result) = 201 \<longleftrightarrow> (\<exists>request receipt. result = Committed request receipt)"
  by (auto simp: result_response_def split: service_result.splits)

lemma result_response_body:
  "response_body (result_response result) = ReceiptBody receipt \<longleftrightarrow> (\<exists>request. result = Committed request receipt)"
  by (auto simp: result_response_def split: service_result.splits)

lemma request_handle_cases:
  assumes "request_handle service at h request w = (r, w1)"
  obtains (malformed) e where "build_action_spec h request = Inl e" "w1 = w"
      "r = rbind (raw_request_id h request) (\<lambda>i. Inr (invalid_spec_response i))"
  | (answered) ps result where "build_action_spec h request = Inr ps"
      "service (h(at := plain_object ps)) (VObj at) w = (Inr result, w1)" "r = Inr (result_response result)"
  | (conflict) ps e where "build_action_spec h request = Inr ps"
      "service (h(at := plain_object ps)) (VObj at) w = (Inl e, w1)" "is_idempotency_conflict e"
      "r = rbind (raw_request_id h request) (\<lambda>i. Inr (conflict_response i))"
  | (throws) ps e where "build_action_spec h request = Inr ps"
      "service (h(at := plain_object ps)) (VObj at) w = (Inl e, w1)" "\<not> is_idempotency_conflict e" "r = Inl e"
proof (cases "build_action_spec h request")
  case (Inl e)
  with assms malformed show thesis by (simp add: request_handle_def)
next
  case (Inr ps)
  obtain x w2 where run: "service (h(at := plain_object ps)) (VObj at) w = (x, w2)" by force
  show thesis
  proof (cases x)
    case (Inl e)
    then show thesis
      using assms run conflict [OF Inr, of e] throws [OF Inr, of e]
      by (cases "is_idempotency_conflict e") (simp_all add: request_handle_def Inr ecatch_apply ebind_apply)
  next
    fix result assume x: "x = Inr result"
    then show thesis
      using assms run answered [OF Inr, of result] by (simp add: request_handle_def Inr ecatch_apply ebind_apply)
  qed
qed

end
