(* ===== verification/Http_Adapter.thy ===== *)
theory Http_Adapter
  imports Request_Handler Utf8
begin

text \<open>
  \<^verbatim>\<open>src/src/delivery/create-customer-http-message-adapter.mjs\<close>: an HTTP message to the request of the
  handler, and its answer back to a message.
\<close>

definition message_keys :: "string list" where
  "message_keys = [''method'', ''path'', ''headers'', ''body'']"

definition http_adapter_new :: "heap \<Rightarrow> jsval \<Rightarrow> nat exact outcome" where
  "http_adapter_new h options =
     rbind (ordinary_options h options [''handler'']
       (js ''CreateCustomerHttpMessageAdapter needs exactly one ordinary options object'')
       (js ''CreateCustomerHttpMessageAdapter options must carry exactly these keys: '' @ comma_list [''handler''])) (\<lambda>r.
     rbind (read_key h r (js ''handler'')) (\<lambda>handler. case handler of
       VInst (IService SvcRequestHandler e) \<Rightarrow> Inr e
     | _ \<Rightarrow> type_error (js ''CreateCustomerHttpMessageAdapter handler must be an exact CreateCustomerRequestHandler instance'')))"

text \<open>A message: its method, its path, and the objects its headers and its body are; \<open>None\<close> is a refusal.\<close>

record http_message =
  msg_method :: js_string
  msg_path :: js_string
  msg_headers :: nat
  msg_body :: jsval

definition text_read :: "jsval \<Rightarrow> js_string option" where
  "text_read v = (case v of VStr s \<Rightarrow> Some s | _ \<Rightarrow> None)"

definition message_shape :: "heap \<Rightarrow> jsval \<Rightarrow> http_message option outcome" where
  "message_shape h v = (case v of
     VObj r \<Rightarrow> if \<not> is_ordinary h v \<or> \<not> includes_exactly h r message_keys then Inr None
       else rbind (read_key h r (js ''method'')) (\<lambda>m. case text_read m of None \<Rightarrow> Inr None | Some method \<Rightarrow>
         rbind (read_key h r (js ''path'')) (\<lambda>p. case text_read p of None \<Rightarrow> Inr None | Some path \<Rightarrow>
         rbind (read_key h r (js ''headers'')) (\<lambda>headers. case headers of
           VObj hr \<Rightarrow> if \<not> is_ordinary h headers then Inr None
             else rbind (read_key h r (js ''body'')) (\<lambda>body.
               Inr (if is_ordinary h body
                 then Some \<lparr>msg_method = method, msg_path = path, msg_headers = hr, msg_body = body\<rparr> else None))
         | _ \<Rightarrow> Inr None)))
   | _ \<Rightarrow> Inr None)"

text \<open>The first string-keyed header of that name whose value is a text.\<close>

fun find_header :: "heap \<Rightarrow> nat \<Rightarrow> string \<Rightarrow> key list \<Rightarrow> js_string option outcome" where
  "find_header h r name [] = Inr None"
| "find_header h r name (KSym _ # ks) = find_header h r name ks"
| "find_header h r name (KStr k # ks) =
     (if lower_is name k
      then rbind (read_key h r k) (\<lambda>v. case v of VStr s \<Rightarrow> Inr (Some s) | _ \<Rightarrow> find_header h r name ks)
      else find_header h r name ks)"

definition header_value :: "heap \<Rightarrow> nat \<Rightarrow> string \<Rightarrow> js_string option outcome" where
  "header_value h r name = find_header h r name (own_keys h r)"

definition optional_text :: "js_string option \<Rightarrow> jsval" where
  "optional_text s = (case s of None \<Rightarrow> VUndef | Some t \<Rightarrow> VStr t)"

definition delivery_request :: "heap \<Rightarrow> http_message \<Rightarrow> (string \<times> jsval) list outcome" where
  "delivery_request h m =
     rbind (header_value h (msg_headers m) ''x-request-id'') (\<lambda>request.
     rbind (header_value h (msg_headers m) ''x-actor-id'') (\<lambda>actor.
     rbind (header_value h (msg_headers m) ''x-tenant-id'') (\<lambda>tenant.
     rbind (header_value h (msg_headers m) ''idempotency-key'') (\<lambda>key.
     Inr [(''requestId'', optional_text request), (''actorId'', optional_text actor), (''tenantId'', optional_text tenant),
       (''payload'', msg_body m), (''idempotencyKey'', optional_text key)]))))"

record http_response =
  http_status :: int
  http_headers :: "(string \<times> js_string) list"
  http_body :: delivery_body

text \<open>The refusals of the adapter itself: an absent or empty request id gets no header.\<close>

definition generic_code :: "int \<Rightarrow> js_string" where
  "generic_code status = js (if status = 405 then ''METHOD_NOT_ALLOWED'' else if status = 404 then ''NOT_FOUND''
     else ''MESSAGE_SHAPE_INVALID'')"

definition generic_message :: "int \<Rightarrow> js_string" where
  "generic_message status = js (if status = 405 then ''only POST is supported''
     else if status = 404 then ''only /customers is supported''
     else ''the message did not satisfy the framework-neutral HTTP message shape'')"

definition request_header :: "js_string \<Rightarrow> (string \<times> js_string) list" where
  "request_header request = [(''content-type'', js ''application/json''), (''x-request-id'', request)]"

definition generic_response :: "int \<Rightarrow> js_string option \<Rightarrow> http_response" where
  "generic_response status request = \<lparr>http_status = status,
     http_headers = (case request of Some s \<Rightarrow> if s \<noteq> [] then request_header s else [(''content-type'', js ''application/json'')]
       | None \<Rightarrow> [(''content-type'', js ''application/json'')]),
     http_body = ErrorBody \<lparr>body_code = generic_code status, body_message = generic_message status,
       body_request = request, body_retryable = False\<rparr>\<rparr>"

definition to_http_response :: "delivery_response \<Rightarrow> http_response" where
  "to_http_response d = \<lparr>http_status = response_status d, http_headers = request_header (response_request d),
     http_body = response_body d\<rparr>"

text \<open>The request is a new object, put at the address \<open>at\<close>; the handler is given the next one for its own.\<close>

definition http_handle ::
    "(nat \<Rightarrow> heap \<Rightarrow> jsval \<Rightarrow> ('w, thrown, delivery_response) eff) \<Rightarrow> nat \<Rightarrow> heap \<Rightarrow> jsval \<Rightarrow> ('w, thrown, http_response) eff" where
  "http_handle handler at h message =
     ebind (elift (message_shape h message)) (\<lambda>shape. case shape of
       None \<Rightarrow> eret (generic_response 400 None)
     | Some m \<Rightarrow>
         if msg_method m \<noteq> js ''POST''
         then ebind (elift (header_value h (msg_headers m) ''x-request-id'')) (\<lambda>i. eret (generic_response 405 i))
         else if msg_path m \<noteq> js ''/customers''
         then ebind (elift (header_value h (msg_headers m) ''x-request-id'')) (\<lambda>i. eret (generic_response 404 i))
         else ebind (elift (delivery_request h m)) (\<lambda>ps.
           ebind (handler (Suc at) (h(at := plain_object ps)) (VObj at)) (\<lambda>d. eret (to_http_response d))))"

end
