(* ===== verification/Json_Parse.thy ===== *)
theory Json_Parse
  imports Json_Injective Utf8
begin

text \<open>
  \<open>JSON.parse\<close>, with the reading of a number's text left as a parameter \<open>num\<close> (the double nearest to
  it), and the round trip with \<open>JSON.stringify\<close>.
\<close>

section \<open>Tokens\<close>

definition json_space :: "code_unit \<Rightarrow> bool" where
  "json_space c \<longleftrightarrow> c \<in> {0x20, 0x09, 0x0A, 0x0D}"

definition skip_space :: "js_string \<Rightarrow> js_string" where
  "skip_space = dropWhile json_space"

definition hex_read :: "code_unit \<Rightarrow> nat option" where
  "hex_read c = (if is_digit c then Some (unat c - 48)
     else if 0x61 \<le> c \<and> c \<le> 0x66 then Some (unat c - 87)
     else if 0x41 \<le> c \<and> c \<le> 0x46 then Some (unat c - 55) else None)"

definition hex4 :: "js_string \<Rightarrow> code_unit option" where
  "hex4 s = (case map hex_read s of
     [Some a, Some b, Some x, Some y] \<Rightarrow> Some (word_of_nat (4096 * a + 256 * b + 16 * x + y)) | _ \<Rightarrow> None)"

definition escape_value :: "code_unit \<Rightarrow> code_unit option" where
  "escape_value e = map_of [(0x22, 0x22), (0x5C, 0x5C), (0x2F, 0x2F), (0x62, 0x08), (0x66, 0x0C), (0x6E, 0x0A),
     (0x72, 0x0D), (0x74, 0x09)] e"

definition prepend :: "'a \<Rightarrow> ('a list \<times> 'b) option \<Rightarrow> ('a list \<times> 'b) option" where
  "prepend x = map_option (\<lambda>(xs, r). (x # xs, r))"

text \<open>A string literal after its opening quote: its value and what follows it.\<close>

fun parse_chars :: "js_string \<Rightarrow> (js_string \<times> js_string) option" where
  "parse_chars [] = None"
| "parse_chars (c # s) =
     (if c = 0x22 then Some ([], s)
      else if c < 0x20 then None
      else if c \<noteq> 0x5C then prepend c (parse_chars s)
      else (case s of
        [] \<Rightarrow> None
      | e # t \<Rightarrow>
          if e = 0x75
          then (case hex4 (take 4 t) of None \<Rightarrow> None | Some u \<Rightarrow> prepend u (parse_chars (drop 4 t)))
          else (case escape_value e of None \<Rightarrow> None | Some u \<Rightarrow> prepend u (parse_chars t))))"

text \<open>\<^verbatim>\<open>-?(0|[1-9]\d*)(\.\d+)?([eE][+-]?\d+)?\<close>, part by part\<close>

definition exponent_ok :: "js_string \<Rightarrow> bool" where
  "exponent_ok t = (case t of [] \<Rightarrow> True
   | c # u \<Rightarrow> c \<in> {0x65, 0x45} \<and>
       (let ds = (if take 1 u = [0x2B] \<or> take 1 u = [0x2D] then drop 1 u else u) in ds \<noteq> [] \<and> all_digits ds))"

definition fraction_ok :: "js_string \<Rightarrow> bool" where
  "fraction_ok t = (case t of [] \<Rightarrow> True
   | c # u \<Rightarrow> if c = 0x2E then takeWhile is_digit u \<noteq> [] \<and> exponent_ok (dropWhile is_digit u) else exponent_ok t)"

definition unsigned_ok :: "js_string \<Rightarrow> bool" where
  "unsigned_ok t = (let i = takeWhile is_digit t in
     i \<noteq> [] \<and> (i = [0x30] \<or> hd i \<noteq> 0x30) \<and> fraction_ok (dropWhile is_digit t))"

definition json_number :: "js_string \<Rightarrow> bool" where
  "json_number t = unsigned_ok (if take 1 t = [0x2D] then drop 1 t else t)"

definition number_char :: "code_unit \<Rightarrow> bool" where
  "number_char c \<longleftrightarrow> number_unit c \<or> c = 0x45"

text \<open>Members in the order of their first mention, each with the value given last.\<close>

definition put_member :: "(js_string \<times> json) list \<Rightarrow> js_string \<times> json \<Rightarrow> (js_string \<times> json) list" where
  "put_member ms m = (if fst m \<in> fst ` set ms then map (\<lambda>(k, v). (k, if k = fst m then snd m else v)) ms else ms @ [m])"

definition assign_members :: "(js_string \<times> json) list \<Rightarrow> (js_string \<times> json) list" where
  "assign_members = foldl put_member []"

section \<open>Values\<close>

fun parse_value :: "(js_string \<Rightarrow> js_number) \<Rightarrow> nat \<Rightarrow> js_string \<Rightarrow> (json \<times> js_string) option"
  and parse_elements :: "(js_string \<Rightarrow> js_number) \<Rightarrow> nat \<Rightarrow> js_string \<Rightarrow> (json list \<times> js_string) option"
  and parse_members :: "(js_string \<Rightarrow> js_number) \<Rightarrow> nat \<Rightarrow> js_string \<Rightarrow> ((js_string \<times> json) list \<times> js_string) option" where
  "parse_value num 0 s = None"
| "parse_value num (Suc n) s = (case skip_space s of
     [] \<Rightarrow> None
   | c # r \<Rightarrow>
       if c = 0x7B
       then if take 1 (skip_space r) = [0x7D] then Some (JsonObj [], drop 1 (skip_space r))
         else map_option (\<lambda>(ms, q). (JsonObj (assign_members ms), q)) (parse_members num n r)
       else if c = 0x5B
       then if take 1 (skip_space r) = [0x5D] then Some (JsonArr [], drop 1 (skip_space r))
         else map_option (\<lambda>(vs, q). (JsonArr vs, q)) (parse_elements num n r)
       else if c = 0x22 then map_option (\<lambda>(t, q). (JsonStr t, q)) (parse_chars r)
       else if take 4 (c # r) = js ''null'' then Some (JsonNull, drop 4 (c # r))
       else if take 4 (c # r) = js ''true'' then Some (JsonBool True, drop 4 (c # r))
       else if take 5 (c # r) = js ''false'' then Some (JsonBool False, drop 5 (c # r))
       else if json_number (takeWhile number_char (c # r))
       then Some (JsonNum (num (takeWhile number_char (c # r))), dropWhile number_char (c # r)) else None)"
| "parse_elements num 0 s = None"
| "parse_elements num (Suc n) s = (case parse_value num n s of
     None \<Rightarrow> None
   | Some (v, r) \<Rightarrow> (case skip_space r of
       [] \<Rightarrow> None
     | c # q \<Rightarrow> if c = 0x2C then prepend v (parse_elements num n q)
         else if c = 0x5D then Some ([v], q) else None))"
| "parse_members num 0 s = None"
| "parse_members num (Suc n) s = (if take 1 (skip_space s) \<noteq> [0x22] then None
     else (case parse_chars (drop 1 (skip_space s)) of
       None \<Rightarrow> None
     | Some (k, r) \<Rightarrow> if take 1 (skip_space r) \<noteq> [0x3A] then None
         else (case parse_value num n (drop 1 (skip_space r)) of
           None \<Rightarrow> None
         | Some (v, r1) \<Rightarrow> (case skip_space r1 of
             [] \<Rightarrow> None
           | c # q \<Rightarrow> if c = 0x2C then prepend (k, v) (parse_members num n q)
               else if c = 0x7D then Some ([(k, v)], q) else None))))"

text \<open>A value, and nothing but white space behind it. Two units of fuel for every code unit are enough.\<close>

definition json_parse :: "(js_string \<Rightarrow> js_number) \<Rightarrow> js_string \<Rightarrow> json option" where
  "json_parse num s = (case parse_value num (Suc (2 * length s)) s of
     None \<Rightarrow> None | Some (v, r) \<Rightarrow> if skip_space r = [] then Some v else None)"

section \<open>The fuel is enough\<close>

lemma skip_space_length: "length (skip_space s) \<le> length s"
  by (simp add: skip_space_def length_dropWhile_le)

lemma prepend_Some: "prepend x m = Some (ys, r) \<longleftrightarrow> (\<exists>xs. m = Some (xs, r) \<and> ys = x # xs)"
  by (cases m) (auto simp: prepend_def)

lemma parse_chars_shorter: "parse_chars s = Some (t, r) \<Longrightarrow> length r < length s"
proof (induction s arbitrary: t rule: parse_chars.induct)
  case (2 c s)
  note IH = "2.IH"
  show ?case
  proof (cases "c = 0x22 \<or> c < 0x20 \<or> c \<noteq> 0x5C")
    case True
    then show ?thesis using "2.prems" IH(1) by (auto simp: prepend_Some split: if_splits)
  next
    case False
    then obtain e u where s: "s = e # u" using "2.prems" by (cases s) auto
    show ?thesis
    proof (cases "e = 0x75")
      case True
      then obtain x where x: "hex4 (take 4 u) = Some x" using "2.prems" False s by (auto split: option.splits)
      then obtain xs where "parse_chars (drop 4 u) = Some (xs, r)"
        using "2.prems" False s True by (auto simp: prepend_Some)
      from IH(2) [OF _ _ _ s True x this] False s show ?thesis by auto
    next
      case not_u: False
      then obtain x where x: "escape_value e = Some x" using "2.prems" False s by (auto split: option.splits)
      then obtain xs where "parse_chars u = Some (xs, r)"
        using "2.prems" False s not_u by (auto simp: prepend_Some)
      from IH(3) [OF _ _ _ s not_u x this] False s show ?thesis by auto
    qed
  qed
qed simp

lemma json_number_nonempty: "json_number t \<Longrightarrow> t \<noteq> []"
  by (auto simp: json_number_def unsigned_ok_def Let_def)

lemma dropWhile_shorter: "takeWhile P s \<noteq> [] \<Longrightarrow> length (dropWhile P s) < length s"
  by (cases s) (auto split: if_splits simp: le_imp_less_Suc length_dropWhile_le)

lemma parse_shorter:
  "(parse_value num n s = Some (v, r) \<longrightarrow> length r < length s) \<and>
   (parse_elements num n s = Some (vs, r) \<longrightarrow> length r < length s) \<and>
   (parse_members num n s = Some (ms, r) \<longrightarrow> length r < length s)"
proof (induction n arbitrary: s v vs ms r)
  case (Suc n)
  have value_IH: "length r < length s" if "parse_value num n s = Some (v, r)" for s v r
    using Suc that by blast
  have elements_IH: "length r < length s" if "parse_elements num n s = Some (vs, r)" for s vs r
    using Suc that by blast
  have members_IH: "length r < length s" if "parse_members num n s = Some (ms, r)" for s ms r
    using Suc that by blast
  have "length r < length s" if run: "parse_value num (Suc n) s = Some (v, r)"
  proof -
    obtain c q where s: "skip_space s = c # q" using run by (cases "skip_space s") auto
    have "length r < length (c # q)"
      using run s skip_space_length [of q] elements_IH [of q] members_IH [of q] parse_chars_shorter [of q]
        dropWhile_shorter [of number_char "c # q"] json_number_nonempty [of "takeWhile number_char (c # q)"]
      by (auto split: if_splits)
    then show ?thesis using skip_space_length [of s] s by simp
  qed
  moreover have "length r < length s" if run: "parse_elements num (Suc n) s = Some (vs, r)"
  proof -
    obtain v q c u where v: "parse_value num n s = Some (v, q)" and q: "skip_space q = c # u"
      using run by (auto split: option.splits list.splits)
    then have "length u < length s" using value_IH [OF v] skip_space_length [of q] by simp
    moreover have "r = u \<or> (\<exists>vs. parse_elements num n u = Some (vs, r))"
      using run v q by (auto simp: prepend_Some split: if_splits)
    ultimately show ?thesis using elements_IH [of u] by force
  qed
  moreover have "length r < length s" if run: "parse_members num (Suc n) s = Some (ms, r)"
  proof -
    obtain k a where k: "parse_chars (drop 1 (skip_space s)) = Some (k, a)"
      using run by (auto split: option.splits if_splits)
    obtain v b where v: "parse_value num n (drop 1 (skip_space a)) = Some (v, b)"
      using run k by (auto split: option.splits if_splits)
    obtain c u where b: "skip_space b = c # u"
      using run k v by (auto split: list.splits if_splits)
    have "length u < length s"
      using parse_chars_shorter [OF k] value_IH [OF v] skip_space_length [of s] skip_space_length [of a]
        skip_space_length [of b] b by simp
    moreover have "r = u \<or> (\<exists>ms. parse_members num n u = Some (ms, r))"
      using run k v b by (auto simp: prepend_Some split: if_splits)
    ultimately show ?thesis using members_IH [of u] by force
  qed
  ultimately show ?case by blast
qed simp

lemma parse_value_shorter: "parse_value num n s = Some (v, r) \<Longrightarrow> length r < length s"
  using parse_shorter [of num n s v r] by simp

lemma parse_elements_fuel_step:
  assumes "\<And>n m. 2 * length s < n \<Longrightarrow> 2 * length s < m \<Longrightarrow> parse_value num n s = parse_value num m s"
    and "\<And>u n m. length u < length s \<Longrightarrow> 2 * length u + 1 < n \<Longrightarrow> 2 * length u + 1 < m \<Longrightarrow>
      parse_elements num n u = parse_elements num m u"
    and "2 * length s + 1 < n" and "2 * length s + 1 < m"
  shows "parse_elements num n s = parse_elements num m s"
proof -
  obtain a b where n: "n = Suc a" "m = Suc b" "2 * length s < a" "2 * length s < b"
    using assms(3,4) by (cases n; cases m) auto
  have eq: "parse_value num a s = parse_value num b s" by (rule assms(1) [OF n(3,4)])
  show ?thesis
  proof (cases "parse_value num b s")
    case (Some vr)
    obtain v r where vr: "vr = (v, r)" by (cases vr)
    have rec: "parse_elements num a u = parse_elements num b u" if "skip_space r = c # u" for c u
      using parse_value_shorter [of num b s v r] Some vr that skip_space_length [of r] n(3,4)
      by (intro assms(2)) auto
    show ?thesis using eq Some vr rec by (simp add: n split: list.splits)
  qed (simp add: n eq)
qed

lemma parse_members_fuel_step:
  assumes "\<And>u n m. length u < length s \<Longrightarrow> 2 * length u < n \<Longrightarrow> 2 * length u < m \<Longrightarrow>
      parse_value num n u = parse_value num m u"
    and "\<And>u n m. length u < length s \<Longrightarrow> 2 * length u + 1 < n \<Longrightarrow> 2 * length u + 1 < m \<Longrightarrow>
      parse_members num n u = parse_members num m u"
    and "2 * length s + 1 < n" and "2 * length s + 1 < m"
  shows "parse_members num n s = parse_members num m s"
proof -
  obtain a b where n: "n = Suc a" "m = Suc b" "2 * length s < a" "2 * length s < b"
    using assms(3,4) by (cases n; cases m) auto
  show ?thesis
  proof (cases "parse_chars (drop 1 (skip_space s))")
    case (Some kq)
    obtain k q where kq: "kq = (k, q)" by (cases kq)
    let ?u = "drop 1 (skip_space q)"
    have short: "length ?u < length s"
      using parse_chars_shorter [of "drop 1 (skip_space s)" k q] Some kq skip_space_length [of s] skip_space_length [of q] by simp
    then have eq: "parse_value num a ?u = parse_value num b ?u" using n(3,4) by (intro assms(1)) auto
    show ?thesis
    proof (cases "parse_value num b ?u")
      case None
      then show ?thesis using eq Some kq by (simp add: n)
    next
      fix vr assume vr: "parse_value num b ?u = Some vr"
      obtain v r where v: "vr = (v, r)" by (cases vr)
      have rec: "parse_members num a x = parse_members num b x" if "skip_space r = c # x" for c x
        using parse_value_shorter [of num b ?u v r] vr v that skip_space_length [of r] short n(3,4)
        by (intro assms(2)) auto
      show ?thesis using eq Some kq vr v rec by (simp add: n split: list.splits)
    qed
  qed (simp add: n)
qed

lemma parse_fuel:
  "(\<forall>n m. 2 * length s < n \<longrightarrow> 2 * length s < m \<longrightarrow> parse_value num n s = parse_value num m s) \<and>
   (\<forall>n m. 2 * length s + 1 < n \<longrightarrow> 2 * length s + 1 < m \<longrightarrow> parse_elements num n s = parse_elements num m s) \<and>
   (\<forall>n m. 2 * length s + 1 < n \<longrightarrow> 2 * length s + 1 < m \<longrightarrow> parse_members num n s = parse_members num m s)"
proof (induction "length s" arbitrary: s rule: less_induct)
  case less
  have on_value: "parse_value num n s = parse_value num m s" if nm: "2 * length s < n" "2 * length s < m" for n m
  proof -
    obtain a b where n: "n = Suc a" "m = Suc b" using nm by (cases n; cases m) auto
    show ?thesis
    proof (cases "skip_space s")
      case (Cons c r)
      then have r: "length r < length s" using skip_space_length [of s] by simp
      then have "2 * length r + 1 < a" "2 * length r + 1 < b" using nm n by auto
      with less [OF r] have "parse_elements num a r = parse_elements num b r" "parse_members num a r = parse_members num b r"
        by blast+
      then show ?thesis by (simp only: n parse_value.simps Cons list.case)
    qed (simp add: n)
  qed
  moreover have "parse_elements num n s = parse_elements num m s" if "2 * length s + 1 < n" "2 * length s + 1 < m" for n m
    by (rule parse_elements_fuel_step [OF on_value _ that]) (use less in blast)+
  moreover have "parse_members num n s = parse_members num m s" if "2 * length s + 1 < n" "2 * length s + 1 < m" for n m
    by (rule parse_members_fuel_step [OF _ _ that]) (use less in blast)+
  ultimately show ?case by blast
qed

lemma parse_value_fuel: "2 * length s < n \<Longrightarrow> parse_value num n s = parse_value num (Suc (2 * length s)) s"
  using parse_fuel [of s num] by (metis lessI)

section \<open>Strings are read back\<close>

lemma hex_read_digit: "d < 16 \<Longrightarrow> hex_read (hex_digit d) = Some d"
proof -
  assume "d < 16"
  moreover have "list_all (\<lambda>d. hex_read (hex_digit d) = Some d) [0..<16]" by code_simp
  ultimately show ?thesis by (simp add: list_all_iff)
qed

lemma parse_unicode: "parse_chars (unicode_escape c @ t) = prepend c (parse_chars t)"
proof -
  have "unat c < 65536" using unsigned_less [of c] by simp
  then have "unat c div 4096 < 16" by simp
  then have "hex4 [hex_digit (unat c div 4096), hex_digit (unat c div 256 mod 16), hex_digit (unat c div 16 mod 16),
      hex_digit (unat c mod 16)] = Some c"
    by (simp add: hex4_def hex_read_digit hex_digits_sum del: of_nat_add of_nat_mult)
  then show ?thesis by (simp add: unicode_escape_def Let_def)
qed

lemma parse_simple: "escape_value e = Some u \<Longrightarrow> e \<noteq> 0x75 \<Longrightarrow> parse_chars (0x5C # e # t) = prepend u (parse_chars t)"
  by simp

lemma parse_raw: "c \<noteq> 0x22 \<Longrightarrow> c \<noteq> 0x5C \<Longrightarrow> \<not> c < 0x20 \<Longrightarrow> parse_chars (c # t) = prepend c (parse_chars t)"
  by simp

lemma parse_escape_unit: "parse_chars (escape_unit c @ t) = prepend c (parse_chars t)"
proof -
  have letters: "escape_value 0x22 = Some 0x22" "escape_value 0x5C = Some 0x5C" "escape_value 0x62 = Some 0x08"
    "escape_value 0x66 = Some 0x0C" "escape_value 0x6E = Some 0x0A" "escape_value 0x72 = Some 0x0D"
    "escape_value 0x74 = Some 0x09"
    by (simp_all add: escape_value_def)
  note simples = letters [THEN parse_simple]
  consider "c \<in> {0x22, 0x5C, 0x08, 0x0C, 0x0A, 0x0D, 0x09}" | "c \<notin> {0x22, 0x5C, 0x08, 0x0C, 0x0A, 0x0D, 0x09}"
    by blast
  then show ?thesis
  proof cases
    case 1
    then show ?thesis
      by (elim insertE emptyE) (simp_all add: escape_unit_def simples del: parse_chars.simps(2))
  next
    case 2
    then show ?thesis
      using parse_raw [of c t] parse_unicode [of c t]
      by (cases "c < 0x20") (simp_all add: escape_unit_def del: parse_chars.simps(2))
  qed
qed

lemma surrogate_not_control: "is_high_surrogate c \<or> is_low_surrogate c \<Longrightarrow> \<not> c < 0x20"
  by (auto simp: is_high_surrogate_def is_low_surrogate_def word_le_nat_alt word_less_nat_alt)

lemma parse_escape: "parse_chars (escape s @ 0x22 # r) = Some (s, r)"
proof (induction s rule: escape.induct)
  case (2 a)
  then show ?case
    by (simp add: parse_unicode parse_escape_unit del: parse_chars.simps(2)) (simp add: prepend_def)
next
  case (3 a b s)
  have raw: "parse_chars (c # t) = prepend c (parse_chars t)" if "is_high_surrogate c \<or> is_low_surrogate c" for c t
    using surrogate_raw [OF that] surrogate_not_control [OF that] by (intro parse_raw) simp_all
  show ?case using 3
    by (auto simp: parse_unicode parse_escape_unit raw prepend_def simp del: parse_chars.simps(2))
qed simp

section \<open>Numbers are read back\<close>

lemma span_digits: "all_digits s \<Longrightarrow> r = [] \<or> \<not> is_digit (hd r) \<Longrightarrow>
    takeWhile is_digit (s @ r) = s \<and> dropWhile is_digit (s @ r) = r"
  by (cases r) (auto simp: all_digits_def list_all_iff takeWhile_append dropWhile_append)

lemma unsigned_parts:
  assumes "all_digits i" "i \<noteq> []" "i = [0x30] \<or> hd i \<noteq> 0x30" "r = [] \<or> \<not> is_digit (hd r)" "fraction_ok r"
  shows "unsigned_ok (i @ r)"
  using span_digits [OF assms(1,4)] assms by (auto simp: unsigned_ok_def Let_def)

lemma exponent_text: "exponent_ok (0x65 # (if b then 0x2B else 0x2D) # dec_nat n)"
  by (auto simp: exponent_ok_def Let_def)

lemma fraction_point: "all_digits f \<Longrightarrow> f \<noteq> [] \<Longrightarrow> r = [] \<or> \<not> is_digit (hd r) \<Longrightarrow> exponent_ok r \<Longrightarrow> fraction_ok (0x2E # f @ r)"
  using span_digits [of f r] by (simp add: fraction_ok_def)

lemma not_digits: "\<not> is_digit 0x2E" "\<not> is_digit 0x65" "is_digit 0x30"
  by (simp_all add: is_digit_def)

lemma digits_text_number:
  assumes "proper_digits s" shows "unsigned_ok (digits_text s n)"
proof -
  have s: "all_digits s" "s \<noteq> []" "hd s \<noteq> 0x30" using assms by (simp_all add: proper_digits_def)
  have sub: "all_digits (take k s)" "all_digits (drop k s)" for k using s(1) all_digits_sub by auto
  have head: "hd (take k s) = hd s" if "0 < k" for k using that s(2) by (cases s; cases k) auto
  have ex: "fraction_ok (0x65 # (if b then 0x2B else 0x2D) # dec_nat k)" for b k
    using exponent_text [of b k] by (simp add: fraction_ok_def)
  consider (whole) "int (length s) \<le> n \<and> n \<le> 21" | (split) "\<not> int (length s) \<le> n" "0 < n" "n \<le> 21"
    | (small) "- 6 < n" "n \<le> 0" | (one) "length s = 1" "\<not> (int (length s) \<le> n \<and> n \<le> 21)" "\<not> (0 < n \<and> n \<le> 21)" "\<not> (- 6 < n \<and> n \<le> 0)"
    | (long) "length s \<noteq> 1" "\<not> (int (length s) \<le> n \<and> n \<le> 21)" "\<not> (0 < n \<and> n \<le> 21)" "\<not> (- 6 < n \<and> n \<le> 0)"
    by linarith
  then show ?thesis
  proof cases
    case whole
    have "unsigned_ok ((s @ zeros (nat n - length s)) @ [])"
      by (rule unsigned_parts) (use s in \<open>simp_all add: fraction_ok_def\<close>)
    with whole show ?thesis by (simp add: digits_text_def)
  next
    case split
    have "unsigned_ok (take (nat n) s @ 0x2E # drop (nat n) s @ [])"
      by (rule unsigned_parts, rule sub, use s split in simp, use s split head [of "nat n"] in simp, simp add: not_digits,
          rule fraction_point) (use sub s split in \<open>simp_all add: exponent_ok_def\<close>)
    with split show ?thesis by (simp add: digits_text_def js_literals cp_dot_def)
  next
    case small
    have "unsigned_ok ([0x30] @ 0x2E # (zeros (nat (- n)) @ s) @ [])"
      by (rule unsigned_parts, simp add: all_digits_def not_digits, simp, simp, simp add: not_digits, rule fraction_point)
        (use s in \<open>simp_all add: exponent_ok_def\<close>)
    moreover have "\<not> int (length s) \<le> n" using s(2) small by (cases s) auto
    ultimately show ?thesis using small by (simp add: digits_text_def js_literals cp_dot_def)
  next
    case one
    have "unsigned_ok (s @ 0x65 # (if 0 \<le> n - 1 then 0x2B else 0x2D) # dec_nat (nat \<bar>n - 1\<bar>))"
      by (rule unsigned_parts) (use s ex in \<open>simp_all add: not_digits\<close>)
    with one show ?thesis by (auto simp: digits_text_def js_literals cp_e_def cp_minus_def)
  next
    case long
    then have two: "drop 1 s \<noteq> []" using s(2) by (cases s) auto
    have "unsigned_ok (take 1 s @ 0x2E # drop 1 s @ 0x65 # (if 0 \<le> n - 1 then 0x2B else 0x2D) # dec_nat (nat \<bar>n - 1\<bar>))"
      by (rule unsigned_parts, rule sub, use s in simp, use s head [of 1] in simp, simp add: not_digits, rule fraction_point)
        (use sub two exponent_text in \<open>simp_all add: not_digits\<close>)
    with long show ?thesis by (auto simp: digits_text_def js_literals cp_e_def cp_minus_def cp_dot_def)
  qed
qed

lemma number_text_json:
  assumes "plain_number v" shows "json_number (number_text v)"
proof -
  have sign: "json_number (digits_text s n) \<and> json_number (0x2D # digits_text s n)" if "proper_digits s" for s n
    using digits_text_number [OF that, of n] digits_text_hd [OF that, of n]
    by (cases "digits_text s n") (auto simp: json_number_def cp_minus_def)
  have zero: "json_number [0x30]"
    by (simp add: json_number_def unsigned_ok_def not_digits fraction_ok_def)
  show ?thesis
  proof (cases v)
    case (JInt i)
    then show ?thesis
      using sign [OF strip_zeros_dec_proper [of "nat \<bar>i\<bar>"]] zero
      by (auto simp: number_text_def js_literals Let_def sign_text_def cp_minus_def)
  next
    case (JDec neg a d k)
    then show ?thesis
      using sign [OF dec_fraction_proper [of a d]] by (auto simp: number_text_def js_literals Let_def cp_minus_def)
  qed (use assms in \<open>auto simp: plain_number_def number_is_finite_def\<close>)
qed

lemma span_number_char:
  assumes "plain_number v" "delimited r"
  shows "takeWhile number_char (number_text v @ r) = number_text v \<and> dropWhile number_char (number_text v @ r) = r"
proof -
  have "list_all number_char (number_text v)"
    using number_text_units(1) [OF assms(1)] by (auto simp: list_all_iff number_char_def)
  moreover have "\<not> number_char c" if "c \<in> {0x2C, 0x5D, 0x7D}" for c
    using that by (auto simp: number_char_def number_unit_def is_digit_def cp_e_def cp_dot_def cp_minus_def)
  then have "r = [] \<or> \<not> number_char (hd r)" using assms(2) by (auto simp: delimited_def)
  ultimately show ?thesis
    by (cases r) (auto simp: list_all_iff takeWhile_append dropWhile_append)
qed

section \<open>Values are read back\<close>

fun keys_distinct :: "json \<Rightarrow> bool" where
  "keys_distinct (JsonArr vs) = list_all keys_distinct vs"
| "keys_distinct (JsonObj ms) = (distinct (map fst ms) \<and> list_all (\<lambda>(_, v). keys_distinct v) ms)"
| "keys_distinct _ = True"

lemma put_member_new: "fst m \<notin> fst ` set ms \<Longrightarrow> put_member ms m = ms @ [m]"
  by (simp add: put_member_def)

lemma assign_members_distinct: "distinct (map fst ms) \<Longrightarrow> assign_members ms = ms"
proof -
  have "distinct (map fst (acc @ ms)) \<Longrightarrow> foldl put_member acc ms = acc @ ms" for acc
  proof (induction ms arbitrary: acc)
    case (Cons m ms)
    then have "put_member acc m = acc @ [m]" by (intro put_member_new) auto
    with Cons show ?case by simp
  qed simp
  from this [of "[]"] show "distinct (map fst ms) \<Longrightarrow> assign_members ms = ms" by (simp add: assign_members_def)
qed

lemma lead_not_space: "c \<in> lead v \<Longrightarrow> \<not> json_space c"
  using number_unit_not_lead [of c]
  by (cases v) (auto simp: lead_def json_space_def number_unit_def is_digit_def cp_e_def cp_dot_def cp_minus_def
      split: if_splits)

lemma skip_nothing: "\<not> json_space c \<Longrightarrow> skip_space (c # t) = c # t"
  by (simp add: skip_space_def)

lemma marks_not_space: "\<not> json_space 0x2C" "\<not> json_space 0x5D" "\<not> json_space 0x7D" "\<not> json_space 0x3A" "\<not> json_space 0x22"
  "\<not> json_space 0x5B" "\<not> json_space 0x7B" "\<not> json_space 0x6E" "\<not> json_space 0x74" "\<not> json_space 0x66"
  by (simp_all add: json_space_def)

lemmas skip_mark = marks_not_space [THEN skip_nothing]

definition reads_back :: "(js_string \<Rightarrow> js_number) \<Rightarrow> json \<Rightarrow> bool" where
  "reads_back num v \<longleftrightarrow> (\<exists>N. \<forall>n\<ge>N. \<forall>r. delimited r \<longrightarrow> parse_value num n (render v @ r) = Some (v, r))"

lemma reads_backD:
  "reads_back num v \<Longrightarrow> \<exists>A. \<forall>n r. A \<le> n \<longrightarrow> delimited r \<longrightarrow> parse_value num n (render v @ r) = Some (v, r)"
  by (simp add: reads_back_def)

lemma reads_backI:
  "(\<And>n r. A \<le> n \<Longrightarrow> delimited r \<Longrightarrow> parse_value num n (render v @ r) = Some (v, r)) \<Longrightarrow> reads_back num v"
  unfolding reads_back_def by blast

lemma delimited_marks [simp]: "delimited (0x2C # r)" "delimited (0x5D # r)" "delimited (0x7D # r)" "delimited []"
  by (simp_all add: delimited_def)

lemma reads_elements:
  assumes "vs \<noteq> []" "\<forall>v \<in> set vs. reads_back num v"
  shows "\<exists>N. \<forall>n\<ge>N. \<forall>r. parse_elements num n (join [0x2C] (map render vs) @ 0x5D # r) = Some (vs, r)"
  using assms
proof (induction vs)
  case (Cons v vs)
  from Cons.prems have "reads_back num v" by simp
  then obtain A where A: "\<forall>n r. A \<le> n \<longrightarrow> delimited r \<longrightarrow> parse_value num n (render v @ r) = Some (v, r)"
    using reads_backD by blast
  show ?case
  proof (cases "vs = []")
    case True
    have "parse_elements num n (join [0x2C] (map render (v # vs)) @ 0x5D # r) = Some (v # vs, r)" if "Suc A \<le> n" for n r
      using that True by (cases n) (simp_all add: A skip_mark)
    then show ?thesis by blast
  next
    case False
    with Cons obtain B where
      B: "\<And>n r. B \<le> n \<Longrightarrow> parse_elements num n (join [0x2C] (map render vs) @ 0x5D # r) = Some (vs, r)"
      by auto
    have "parse_elements num n (join [0x2C] (map render (v # vs)) @ 0x5D # r) = Some (v # vs, r)"
      if "Suc (max A B) \<le> n" for n r
      using that False by (cases n) (simp_all add: A B skip_mark join_Cons prepend_def)
    then show ?thesis by blast
  qed
qed simp

definition member_text :: "js_string \<times> json \<Rightarrow> js_string" where
  "member_text = (\<lambda>(k, v). quote k @ js '':'' @ render v)"

lemma member_text_append: "member_text (k, v) @ r = 0x22 # escape k @ 0x22 # 0x3A # render v @ r"
  by (simp add: member_text_def quote_def js_def)

lemma reads_members:
  assumes "ms \<noteq> []" "\<forall>(k, v) \<in> set ms. reads_back num v"
  shows "\<exists>N. \<forall>n\<ge>N. \<forall>r. parse_members num n (join [0x2C] (map member_text ms) @ 0x7D # r) = Some (ms, r)"
  using assms
proof (induction ms)
  case (Cons m ms)
  obtain k v where m: "m = (k, v)" by (cases m)
  from Cons.prems m have "reads_back num v" by simp
  then obtain A where A: "\<forall>n r. A \<le> n \<longrightarrow> delimited r \<longrightarrow> parse_value num n (render v @ r) = Some (v, r)"
    using reads_backD by blast
  show ?case
  proof (cases "ms = []")
    case True
    have "parse_members num n (join [0x2C] (map member_text (m # ms)) @ 0x7D # r) = Some (m # ms, r)" if "Suc A \<le> n" for n r
      using that True by (cases n) (simp_all add: m member_text_append A skip_mark parse_escape)
    then show ?thesis by blast
  next
    case False
    with Cons obtain B where
      B: "\<And>n r. B \<le> n \<Longrightarrow> parse_members num n (join [0x2C] (map member_text ms) @ 0x7D # r) = Some (ms, r)"
      by auto
    have "parse_members num n (join [0x2C] (map member_text (m # ms)) @ 0x7D # r) = Some (m # ms, r)"
      if "Suc (max A B) \<le> n" for n r
      using that False
      by (cases n) (simp_all add: m member_text_append A B skip_mark join_Cons prepend_def parse_escape)
    then show ?thesis by blast
  qed
qed simp

lemma literal_read:
  "parse_value num (Suc n) (js ''null'' @ r) = Some (JsonNull, r)"
  "parse_value num (Suc n) (js ''true'' @ r) = Some (JsonBool True, r)"
  "parse_value num (Suc n) (js ''false'' @ r) = Some (JsonBool False, r)"
  by (simp_all add: js_def skip_mark)

lemma number_read:
  assumes "plain_number v" "delimited r"
  shows "parse_value num (Suc n) (number_text v @ r) = Some (JsonNum (num (number_text v)), r)"
proof -
  obtain c t where t: "number_text v = c # t" using number_text_units(2) [OF assms(1)] by (cases "number_text v") auto
  then have c: "number_unit c" using number_text_units(1) [OF assms(1)] by simp
  then have "skip_space (number_text v @ r) = c # t @ r"
    using lead_not_space [of c "JsonNum v"] t by (simp add: lead_def skip_nothing)
  moreover have "take 4 (c # t @ r) \<noteq> js ''null''" "take 4 (c # t @ r) \<noteq> js ''true''" "take 5 (c # t @ r) \<noteq> js ''false''"
    using number_unit_not_lead [OF c] by (auto simp: js_def)
  ultimately show ?thesis
    using number_unit_not_lead [OF c] span_number_char [OF assms] number_text_json [OF assms(1)] t by simp
qed

lemma array_read:
  assumes "list_all numbers_ok vs" "\<forall>v \<in> set vs. reads_back num v"
  shows "reads_back num (JsonArr vs)"
proof (cases "vs = []")
  case True
  have "parse_value num n (render (JsonArr []) @ r) = Some (JsonArr [], r)" if "1 \<le> n" for n r
    using that by (cases n) (simp_all add: js_def skip_mark)
  then show ?thesis unfolding True by (rule reads_backI)
next
  case False
  obtain v ws where vs: "vs = v # ws" using False by (cases vs) auto
  obtain c t where ct: "render v = c # t" "c \<in> lead v" using render_lead [of v] assms(1) vs by auto
  obtain A where A: "\<And>n r. A \<le> n \<Longrightarrow> parse_elements num n (join [0x2C] (map render vs) @ 0x5D # r) = Some (vs, r)"
    using reads_elements [OF False assms(2)] by blast
  have "parse_value num n (render (JsonArr vs) @ r) = Some (JsonArr vs, r)" if "Suc A \<le> n" for n r
  proof -
    have whole: "render (JsonArr vs) @ r = 0x5B # join [0x2C] (map render vs) @ 0x5D # r" by (simp add: js_def)
    have "take 1 (skip_space (join [0x2C] (map render vs) @ 0x5D # r)) \<noteq> [0x5D]"
      using ct lead_not_close [OF ct(2)] lead_not_space [OF ct(2)] by (simp add: vs join_Cons skip_nothing)
    with that show ?thesis unfolding whole by (cases n) (simp_all add: skip_mark A)
  qed
  then show ?thesis by (rule reads_backI)
qed

lemma object_read:
  assumes "distinct (map fst ms)" "\<forall>(k, v) \<in> set ms. reads_back num v"
  shows "reads_back num (JsonObj ms)"
proof (cases "ms = []")
  case True
  have "parse_value num n (render (JsonObj []) @ r) = Some (JsonObj [], r)" if "1 \<le> n" for n r
    using that by (cases n) (simp_all add: js_def skip_mark)
  then show ?thesis unfolding True by (rule reads_backI)
next
  case False
  obtain k v ns where ms: "ms = (k, v) # ns" using False by (cases ms) auto
  obtain A where A: "\<And>n r. A \<le> n \<Longrightarrow> parse_members num n (join [0x2C] (map member_text ms) @ 0x7D # r) = Some (ms, r)"
    using reads_members [OF False assms(2)] by blast
  have "parse_value num n (render (JsonObj ms) @ r) = Some (JsonObj ms, r)" if "Suc A \<le> n" for n r
  proof -
    have whole: "render (JsonObj ms) @ r = 0x7B # join [0x2C] (map member_text ms) @ 0x7D # r"
      by (simp add: js_def member_text_def)
    have "take 1 (skip_space (join [0x2C] (map member_text ms) @ 0x7D # r)) \<noteq> [0x7D]"
      by (simp add: ms join_Cons member_text_append skip_mark)
    with that show ?thesis unfolding whole by (cases n) (simp_all add: skip_mark A assign_members_distinct assms(1))
  qed
  then show ?thesis by (rule reads_backI)
qed

text \<open>The reading of numbers gives back those that were printed.\<close>

fun numbers_read :: "(js_string \<Rightarrow> js_number) \<Rightarrow> json \<Rightarrow> bool" where
  "numbers_read num (JsonNum n) = (num (number_text n) = n)"
| "numbers_read num (JsonArr vs) = list_all (numbers_read num) vs"
| "numbers_read num (JsonObj ms) = list_all (\<lambda>(_, v). numbers_read num v) ms"
| "numbers_read num v = True"

lemma render_reads_back: "numbers_ok v \<Longrightarrow> keys_distinct v \<Longrightarrow> numbers_read num v \<Longrightarrow> reads_back num v"
proof (induction v)
  case (JsonNum x)
  then have x: "plain_number x" by simp
  have "parse_value num n (render (JsonNum x) @ r) = Some (JsonNum x, r)" if "1 \<le> n" "delimited r" for n r
    using that x number_read [OF x that(2)] JsonNum.prems(3) by (cases n) (simp_all add: plain_number_def)
  then show ?case by (rule reads_backI)
next
  case (JsonStr s)
  have "parse_value num n (render (JsonStr s) @ r) = Some (JsonStr s, r)" if "1 \<le> n" for n r
    using that by (cases n) (simp_all add: quote_def skip_mark parse_escape)
  then show ?case by (rule reads_backI)
next
  case JsonNull
  have "parse_value num n (render JsonNull @ r) = Some (JsonNull, r)" if "1 \<le> n" for n r
    using that literal_read by (cases n) simp_all
  then show ?case by (rule reads_backI)
next
  case (JsonBool b)
  have "parse_value num n (render (JsonBool b) @ r) = Some (JsonBool b, r)" if "1 \<le> n" for n r
    using that literal_read by (cases n; cases b) simp_all
  then show ?case by (rule reads_backI)
next
  case (JsonArr vs)
  then show ?case by (intro array_read) (auto simp: list_all_iff)
next
  case (JsonObj ms)
  then show ?case by (intro object_read) (fastforce simp: list_all_iff snds.simps)+
qed

lemma parse_render:
  assumes "numbers_ok v" "keys_distinct v" "numbers_read num v"
  shows "json_parse num (render v) = Some v"
proof -
  obtain A where A: "\<forall>n r. A \<le> n \<longrightarrow> delimited r \<longrightarrow> parse_value num n (render v @ r) = Some (v, r)"
    using reads_backD [OF render_reads_back [OF assms]] by blast
  let ?n = "Suc (max A (2 * length (render v)))"
  have "parse_value num ?n (render v) = Some (v, [])" using A [rule_format, of ?n "[]"] by (simp del: parse_value.simps)
  moreover have "parse_value num ?n (render v) = parse_value num (Suc (2 * length (render v))) (render v)"
    by (rule parse_value_fuel) simp
  ultimately show ?thesis by (simp add: json_parse_def skip_space_def del: parse_value.simps)
qed

section \<open>What is rendered is read again\<close>

lemma ordered_keys_distinct: "keys_distinct v \<Longrightarrow> keys_distinct (ordered v)"
proof (induction v)
  case (JsonObj ms)
  have "map fst (map (\<lambda>(k, v). (k, ordered v)) ms) = map fst ms" by auto
  moreover have "distinct (own_order ks)" if "distinct ks" for ks
    using that by (auto simp: own_order_def distinct_sort)
  ultimately have "distinct (map fst (own_members (map (\<lambda>(k, v). (k, ordered v)) ms)))"
    using JsonObj.prems by (simp only: fst_own_members keys_distinct.simps)
  then show ?case using JsonObj by (fastforce simp: list_all_iff snds.simps)
qed (auto simp: list_all_iff)

lemma ordered_numbers_read: "numbers_read num v \<Longrightarrow> numbers_read num (ordered v)"
  by (induction v) (auto simp: list_all_iff snds.simps)

lemma parse_stringify:
  assumes "numbers_ok v" "keys_distinct v" "numbers_read num v"
  shows "json_parse num (stringify v) = Some (ordered v)"
  using parse_render [OF ordered_numbers_ok [OF assms(1)] ordered_keys_distinct [OF assms(2)] ordered_numbers_read [OF assms(3)]]
  by (simp add: stringify_render)

text \<open>The rendering has no lone surrogate and no byte order mark, so it survives UTF-8.\<close>

lemma well_formed_Cons: "\<not> is_surrogate a \<Longrightarrow> well_formed (a # t) = well_formed t"
  by (cases t) (auto simp: is_surrogate_def)

lemma well_formed_append: "well_formed s \<Longrightarrow> well_formed t \<Longrightarrow> well_formed (s @ t)"
  by (induction s rule: well_formed.induct) (auto simp: well_formed_Cons split: if_splits)

lemma low_not_surrogate: "c < 0x80 \<Longrightarrow> \<not> is_surrogate c"
  by (auto simp: is_surrogate_def surrogate_unat word_less_nat_alt)

lemma hex_digit_low: "d < 16 \<Longrightarrow> hex_digit d < 0x80"
proof -
  assume "d < 16"
  moreover have "list_all (\<lambda>d. hex_digit d < 0x80) [0..<16]" by code_simp
  ultimately show ?thesis by (simp add: list_all_iff)
qed

lemma unicode_escape_ascii: "list_all (\<lambda>c. c < 0x80) (unicode_escape c)"
proof -
  have "unat c < 65536" using unsigned_less [of c] by simp
  then have "unat c div 4096 < 16" by simp
  then show ?thesis by (simp add: unicode_escape_def Let_def hex_digit_low)
qed

lemma escape_unit_well_formed: "\<not> is_surrogate c \<Longrightarrow> well_formed (escape_unit c)"
  using ascii_well_formed [OF unicode_escape_ascii [of c]]
  by (auto simp: escape_unit_def well_formed_Cons low_not_surrogate)

lemma escape_well_formed: "well_formed (escape s)"
  using ascii_well_formed [OF unicode_escape_ascii]
  by (induction s rule: escape.induct)
    (auto simp: escape_unit_well_formed is_surrogate_def intro!: well_formed_append)

lemma quote_well_formed: "well_formed (quote s)"
  unfolding quote_def
  using well_formed_append [OF escape_well_formed, of "[0x22]" s] by (simp add: well_formed_Cons low_not_surrogate)

lemma join_well_formed: "list_all well_formed ss \<Longrightarrow> well_formed sep \<Longrightarrow> well_formed (join sep ss)"
  by (induction sep ss rule: join.induct) (auto intro!: well_formed_append)

lemma number_text_well_formed:
  assumes "plain_number n" shows "well_formed (number_text n)"
proof -
  have "c < 0x80" if "number_unit c" for c
    using that by (auto simp: number_unit_def is_digit_def cp_e_def cp_dot_def cp_minus_def word_less_nat_alt word_le_nat_alt)
  then show ?thesis
    using ascii_well_formed [of "number_text n"] number_text_units(1) [OF assms] by (simp add: list_all_iff)
qed

lemma js_well_formed: "well_formed (js ''['')" "well_formed (js '']'')" "well_formed (js ''{'')" "well_formed (js ''}'')"
  "well_formed (js '','')" "well_formed (js '':'')" "well_formed (js ''null'')" "well_formed (js ''true'')" "well_formed (js ''false'')"
  by code_simp+

lemma render_well_formed: "numbers_ok v \<Longrightarrow> well_formed (render v)"
proof (induction v)
  case (JsonNum n)
  then show ?case by (simp add: number_text_well_formed plain_number_def)
next
  case (JsonArr vs)
  then show ?case by (auto simp: list_all_iff js_well_formed intro!: well_formed_append join_well_formed)
next
  case (JsonObj ms)
  then show ?case
    by (fastforce simp: list_all_iff js_well_formed quote_well_formed snds.simps intro!: well_formed_append join_well_formed)
qed (simp_all add: js_well_formed quote_well_formed)

lemma render_unmarked: "numbers_ok v \<Longrightarrow> unmarked (render v)"
proof -
  assume "numbers_ok v"
  then obtain c t where c: "render v = c # t" "c \<in> lead v" using render_lead by blast
  have "c \<noteq> 0xFEFF"
    using c(2) by (cases v) (auto simp: lead_def number_unit_def is_digit_def cp_e_def cp_dot_def cp_minus_def split: if_splits)
  with c show ?thesis by (simp add: unmarked_def)
qed

lemma stringify_round_trip:
  assumes "numbers_ok v" shows "text_decode fatal (utf8_encode (stringify v)) = Some (stringify v)"
  unfolding stringify_render
  by (rule utf8_round_trip) (use ordered_numbers_ok [OF assms] in \<open>simp_all add: render_well_formed render_unmarked\<close>)

end
