(* ===== verification/Json_Heap.thy ===== *)
theory Json_Heap
  imports Json_Parse Decision_Log_Facts Option_Shapes
begin

text \<open>
  Parsed JSON as objects of a heap, and what the canonicalisation rule makes of them: the value that was
  parsed, its members sorted.
\<close>

text \<open>
  The objects \<open>JSON.parse\<close> creates, laid out from address \<open>n\<close> on: an object before its members.
\<close>

fun allocate :: "json \<Rightarrow> nat \<Rightarrow> jsval \<times> js_object list"
  and allocate_all :: "json list \<Rightarrow> nat \<Rightarrow> jsval list \<times> js_object list"
  and allocate_members :: "(js_string \<times> json) list \<Rightarrow> nat \<Rightarrow> (key \<times> property) list \<times> js_object list" where
  "allocate JsonNull n = (VNull, [])"
| "allocate (JsonBool b) n = (VBool b, [])"
| "allocate (JsonNum x) n = (VNum x, [])"
| "allocate (JsonStr s) n = (VStr s, [])"
| "allocate (JsonArr vs) n = (case allocate_all vs (Suc n) of (ws, os) \<Rightarrow> (VObj n, array_object ws # os))"
| "allocate (JsonObj ms) n = (case allocate_members ms (Suc n) of (ps, os) \<Rightarrow>
     (VObj n, \<lparr>obj_proto = ObjectPrototype, obj_kind = Plain, obj_props = ps\<rparr> # os))"
| "allocate_all [] n = ([], [])"
| "allocate_all (v # vs) n = (case allocate v n of (w, os) \<Rightarrow> (case allocate_all vs (n + length os) of (ws, qs) \<Rightarrow>
     (w # ws, os @ qs)))"
| "allocate_members [] n = ([], [])"
| "allocate_members ((k, v) # ms) n = (case allocate v n of (w, os) \<Rightarrow> (case allocate_members ms (n + length os) of (ps, qs) \<Rightarrow>
     ((KStr k, Data w True) # ps, os @ qs)))"

definition placed :: "nat \<Rightarrow> js_object list \<Rightarrow> heap" where
  "placed n os = (\<lambda>a. if n \<le> a \<and> a < n + length os then os ! (a - n) else plain_object [])"

definition json_at :: "nat \<Rightarrow> json \<Rightarrow> heap \<times> jsval" where
  "json_at n j = (case allocate j n of (v, os) \<Rightarrow> (placed n os, v))"

section \<open>What the objects denote\<close>

fun sorted_form :: "json \<Rightarrow> json" where
  "sorted_form (JsonNum x) = JsonNum (normalise_zero x)"
| "sorted_form (JsonArr vs) = JsonArr (map sorted_form vs)"
| "sorted_form (JsonObj ms) = JsonObj (sort_key fst (map (\<lambda>(k, v). (k, sorted_form v)) ms))"
| "sorted_form v = v"

definition lays :: "heap \<Rightarrow> nat \<Rightarrow> js_object list \<Rightarrow> bool" where
  "lays h n os \<longleftrightarrow> (\<forall>i < length os. h (n + i) = os ! i)"

lemma lays_Cons: "lays h n (ob # os) \<longleftrightarrow> h n = ob \<and> lays h (Suc n) os"
  by (auto simp: lays_def nth_Cons split: nat.splits)

lemma lays_Nil [simp]: "lays h n []"
  by (simp add: lays_def)

lemma lays_append: "lays h n (os @ qs) \<longleftrightarrow> lays h n os \<and> lays h (n + length os) qs"
  by (induction os arbitrary: n) (simp_all add: lays_Cons)

lemma lays_placed: "\<forall>a \<ge> n. h a = placed n os a \<Longrightarrow> lays h n os"
  by (simp add: lays_def placed_def)

lemma allocate_members_all: "allocate_members ms n = (ps, os) \<longleftrightarrow>
    (\<exists>ws. allocate_all (map snd ms) n = (ws, os) \<and> ps = map2 (\<lambda>k w. (KStr k, Data w True)) (map fst ms) ws)"
proof (induction ms arbitrary: n ps os)
  case (Cons m ms)
  obtain k v where m: "m = (k, v)" by (cases m)
  obtain w a where v: "allocate v n = (w, a)" by (cases "allocate v n")
  obtain qs b where ms: "allocate_members ms (n + length a) = (qs, b)" by (cases "allocate_members ms (n + length a)")
  with Cons.IH obtain ws where "allocate_all (map snd ms) (n + length a) = (ws, b)"
    "qs = map2 (\<lambda>k w. (KStr k, Data w True)) (map fst ms) ws" by blast
  with m v ms show ?case by auto
qed auto

lemma allocate_all_length: "allocate_all vs n = (ws, os) \<Longrightarrow> length ws = length vs"
  by (induction vs arbitrary: n ws os) (auto split: prod.splits)

lemma sort_members:
  fixes xs :: "('k :: linorder \<times> 'b) list"
  assumes "distinct (map fst xs)"
  shows "sort_key fst xs = map (\<lambda>k. (k, the (map_of xs k))) (sort (map fst xs))"
proof -
  let ?ys = "map (\<lambda>k. (k, the (map_of xs k))) (map fst xs)"
  have "map_of xs (fst (xs ! i)) = Some (snd (xs ! i))" if "i < length xs" for i
    using assms that by (intro map_of_is_SomeI) simp_all
  then have "?ys = xs" by (simp add: list_eq_iff_nth_eq)
  moreover have "sort_key fst (map (\<lambda>k. (k, f k)) ks) = map (\<lambda>k. (k, f k)) (sort ks)" for ks :: "'k list" and f :: "'k \<Rightarrow> 'b"
  proof (induction ks)
    case (Cons k ks)
    have "insort_key fst (k, f k) (map (\<lambda>k. (k, f k)) zs) = map (\<lambda>k. (k, f k)) (insort k zs)" for zs :: "'k list"
      by (induction zs) auto
    with Cons show ?case by simp
  qed simp
  ultimately show ?thesis by metis
qed

lemma map_of_map2: "distinct ks \<Longrightarrow> length ws = length ks \<Longrightarrow> i < length ks \<Longrightarrow>
    map_of (map2 (\<lambda>k w. (KStr k, Data w True)) ks ws) (KStr (ks ! i)) = Some (Data (ws ! i) True)"
proof (induction ks arbitrary: ws i)
  case (Cons k ks)
  then show ?case by (cases ws; cases i) auto
qed simp

lemma object_keys:
  assumes "h r = \<lparr>obj_proto = ObjectPrototype, obj_kind = Plain, obj_props = map2 (\<lambda>k w. (KStr k, Data w True)) ks ws\<rparr>"
    and "distinct ks" "length ws = length ks"
  shows "string_keys h r = own_order ks" and "sort (string_keys h r) = sort ks"
    and "i < length ks \<Longrightarrow> member_at h r (ks ! i) = ws ! i"
proof -
  have keys: "map fst (map2 (\<lambda>k w. (KStr k, Data w True)) ks ws) = map KStr ks"
    using assms(3) by (simp add: list_eq_iff_nth_eq)
  have "List.map_filter (\<lambda>k. case k of KStr s \<Rightarrow> Some s | KSym _ \<Rightarrow> None) (map KStr ks) = ks"
    by (induction ks) (simp_all add: map_filter_simps)
  then show order: "string_keys h r = own_order ks"
    using assms(2) keys by (simp add: string_keys_def assms(1) distinct_remdups_id)
  have "mset (own_order ks) = mset ks" using assms(2) by (simp add: set_eq_iff_mset_eq_distinct [symmetric])
  then show "sort (string_keys h r) = sort ks" by (simp add: order) (metis sorted_list_of_multiset_mset)
  show "member_at h r (ks ! i) = ws ! i" if "i < length ks"
    using map_of_map2 [OF assms(2,3) that] by (simp add: member_at_def own_property_def assms(1) data_value_def)
qed

lemma allocated_list:
  assumes "\<And>v n w os d. v \<in> set vs \<Longrightarrow> allocate v n = (w, os) \<Longrightarrow> lays h n os \<Longrightarrow> plain_json h d w \<Longrightarrow>
      denoted h d w = sorted_form v"
    and "allocate_all vs n = (ws, os)" "lays h n os" "i < length vs" "plain_json h d (ws ! i)"
  shows "denoted h d (ws ! i) = sorted_form (vs ! i)"
  using assms
proof (induction vs arbitrary: n ws os i)
  case (Cons v vs)
  obtain w a where v: "allocate v n = (w, a)" by (cases "allocate v n")
  obtain us b where vs: "allocate_all vs (n + length a) = (us, b)" by (cases "allocate_all vs (n + length a)")
  have ws: "ws = w # us" "lays h n a" "lays h (n + length a) b" using Cons.prems(2,3) v vs by (auto simp: lays_append)
  show ?case
  proof (cases i)
    case 0
    then show ?thesis using Cons.prems(1) [of v n w a d] Cons.prems(5) v ws by simp
  next
    case (Suc k)
    then show ?thesis using Cons.IH [OF _ vs ws(3), of k] Cons.prems ws by simp
  qed
qed simp

lemma denoted_allocated:
  "allocate j n = (v, os) \<Longrightarrow> lays h n os \<Longrightarrow> keys_distinct j \<Longrightarrow> plain_json h d v \<Longrightarrow> denoted h d v = sorted_form j"
proof (induction j arbitrary: n v os d)
  case (JsonArr vs)
  obtain ws qs where ws: "allocate_all vs (Suc n) = (ws, qs)" by (cases "allocate_all vs (Suc n)")
  with JsonArr.prems(1) have here: "v = VObj n" "os = array_object ws # qs" by simp_all
  with JsonArr.prems(2) have v: "v = VObj n" "h n = array_object ws" "lays h (Suc n) qs" by (simp_all only: lays_Cons)
  note ar = array_object_facts(1,2,4) [where h = h and r = n and vs = ws, OF v(2)]
  obtain e where d: "d = Suc e" using JsonArr.prems(4) unfolding v(1) by (cases d) simp_all
  have len: "length ws = length vs" using allocate_all_length [OF ws] .
  have "denoted h e (ws ! i) = sorted_form (vs ! i)" if i: "i < length vs" for i
  proof (rule allocated_list [OF _ ws v(3) i])
    fix x m w us c assume x: "x \<in> set vs" "allocate x m = (w, us)" "lays h m us" "plain_json h c w"
    then have "keys_distinct x" using JsonArr.prems(3) by (simp add: list_all_iff)
    with x show "denoted h c w = sorted_form x" by (intro JsonArr.IH)
  next
    have "plain_json h e (element_at h n i)" using JsonArr.prems(4) ar(1,2) len i unfolding v(1) d by simp
    then show "plain_json h e (ws ! i)" using ar(3) len i by simp
  qed
  then have "map (\<lambda>i. denoted h e (element_at h n i)) [0..<length ws] = map sorted_form vs"
    using ar(3) len by (intro nth_equalityI) simp_all
  then show ?case using ar(1,2) unfolding v(1) d by simp
next
  case (JsonObj ms)
  obtain ps qs where ps: "allocate_members ms (Suc n) = (ps, qs)" by (cases "allocate_members ms (Suc n)")
  then obtain ws where ws: "allocate_all (map snd ms) (Suc n) = (ws, qs)"
    "ps = map2 (\<lambda>k w. (KStr k, Data w True)) (map fst ms) ws" by (auto simp: allocate_members_all)
  have len: "length ws = length (map fst ms)" using allocate_all_length [OF ws(1)] by simp
  have here: "v = VObj n" "os = \<lparr>obj_proto = ObjectPrototype, obj_kind = Plain, obj_props = ps\<rparr> # qs"
    using JsonObj.prems(1) ps by simp_all
  with JsonObj.prems(2) have v: "v = VObj n" "lays h (Suc n) qs"
    and hn: "h n = \<lparr>obj_proto = ObjectPrototype, obj_kind = Plain, obj_props = map2 (\<lambda>k w. (KStr k, Data w True)) (map fst ms) ws\<rparr>"
    by (simp_all only: lays_Cons ws(2))
  have dist: "distinct (map fst ms)" using JsonObj.prems(3) by simp
  note ob = object_keys [where h = h and r = n and ks = "map fst ms" and ws = ws, OF hn dist len]
  have kind: "\<not> is_array h (VObj n)" by (simp add: is_array_def hn)
  obtain e where d: "d = Suc e" using JsonObj.prems(4) unfolding v(1) by (cases d) simp_all
  have plain: "plain_json h e (ws ! i)" if i: "i < length ms" for i
  proof -
    have "map fst ms ! i \<in> set (string_keys h n)" using i ob(1) by simp
    moreover have "\<forall>k \<in> set (string_keys h n). plain_json h e (member_at h n k)"
      using JsonObj.prems(4) kind unfolding v(1) d by simp
    ultimately have "plain_json h e (member_at h n (map fst ms ! i))" by blast
    then show ?thesis using ob(3) [of i] i by (simp del: nth_map)
  qed
  have each: "denoted h e (ws ! i) = sorted_form (map snd ms ! i)" if i: "i < length ms" for i
  proof (rule allocated_list [OF _ ws(1) v(2)])
    fix x m w qs c assume x: "x \<in> set (map snd ms)" "allocate x m = (w, qs)" "lays h m qs" "plain_json h c w"
    then obtain y where y: "y \<in> set ms" "x = snd y" by auto
    then have "keys_distinct x" using JsonObj.prems(3) by (cases y) (auto simp: list_all_iff)
    moreover have "x \<in> Basic_BNFs.snds y" using y(2) by (cases y) simp
    ultimately show "denoted h c w = sorted_form x" using JsonObj.IH [OF y(1) _ x(2,3) _ x(4)] by blast
  qed (use i plain in simp_all)
  have nth: "denoted h e (member_at h n (map fst ms ! i))
      = the (map_of (map (\<lambda>(k, v). (k, sorted_form v)) ms) (map fst ms ! i))" if i: "i < length ms" for i
  proof -
    have "map_of (map (\<lambda>(k, v). (k, sorted_form v)) ms) (fst (ms ! i)) = Some (sorted_form (snd (ms ! i)))"
      using dist i by (intro map_of_is_SomeI) (auto simp: comp_def case_prod_unfold)
    then show ?thesis using each [OF i] ob(3) [of i] i by simp
  qed
  have "denoted h e (member_at h n k) = the (map_of (map (\<lambda>(k, v). (k, sorted_form v)) ms) k)"
    if k: "k \<in> set (map fst ms)" for k
  proof -
    obtain i where i: "i < length (map fst ms)" "map fst ms ! i = k" using k unfolding in_set_conv_nth by blast
    then show ?thesis using nth [of i] by (simp only: length_map)
  qed
  then have "map (\<lambda>k. (k, denoted h e (member_at h n k))) (sort (map fst ms))
      = map (\<lambda>k. (k, the (map_of (map (\<lambda>(k, v). (k, sorted_form v)) ms) k))) (sort (map fst ms))"
    by (intro map_cong refl) (simp del: set_map)
  also have "\<dots> = sort_key fst (map (\<lambda>(k, v). (k, sorted_form v)) ms)"
    using dist by (subst sort_members) (simp_all add: comp_def case_prod_unfold)
  finally show ?case using kind ob(2) unfolding v(1) d by simp
qed auto

section \<open>What is parsed\<close>

text \<open>Later members of one name replace the earlier, so the keys of a parsed object are distinct.\<close>

lemma put_member_keys: "map fst (put_member ms m) = (if fst m \<in> fst ` set ms then map fst ms else map fst ms @ [fst m])"
  by (auto simp: put_member_def)

lemma put_member_values: "(k, v) \<in> set (put_member ms m) \<Longrightarrow> v = snd m \<or> (\<exists>k. (k, v) \<in> set ms)"
  by (auto simp: put_member_def split: if_splits)

lemma assign_members_keys:
  assumes "list_all (\<lambda>(_, v). keys_distinct v) ms"
  shows "keys_distinct (JsonObj (assign_members ms))"
proof -
  have "keys_distinct (JsonObj acc) \<Longrightarrow> list_all (\<lambda>(_, v). keys_distinct v) ms \<Longrightarrow> keys_distinct (JsonObj (foldl put_member acc ms))" for acc
  proof (induction ms arbitrary: acc)
    case (Cons m ms)
    have "keys_distinct (JsonObj (put_member acc m))"
      using Cons.prems put_member_values [of _ _ acc m]
      by (cases m) (fastforce simp: put_member_keys list_all_iff)
    then show ?case using Cons by simp
  qed simp
  from this [of "[]"] assms show ?thesis by (simp add: assign_members_def)
qed

lemma parsed_keys_distinct:
  "(parse_value num n s = Some (v, r) \<longrightarrow> keys_distinct v) \<and>
   (parse_elements num n s = Some (vs, r) \<longrightarrow> list_all keys_distinct vs) \<and>
   (parse_members num n s = Some (ms, r) \<longrightarrow> list_all (\<lambda>(_, v). keys_distinct v) ms)"
proof (induction n arbitrary: s v vs ms r)
  case (Suc n)
  have value_IH: "keys_distinct v" if "parse_value num n s = Some (v, r)" for s v r
    using Suc that by blast
  have elements_IH: "list_all keys_distinct vs" if "parse_elements num n s = Some (vs, r)" for s vs r
    using Suc that by blast
  have members_IH: "list_all (\<lambda>(_, v). keys_distinct v) ms" if "parse_members num n s = Some (ms, r)" for s ms r
    using Suc that by blast
  have "keys_distinct v" if run: "parse_value num (Suc n) s = Some (v, r)"
  proof -
    obtain c q where s: "skip_space s = c # q" using run by (cases "skip_space s") auto
    show ?thesis
      using run s elements_IH [of q] members_IH [of q] assign_members_keys
      by (auto split: if_splits simp del: keys_distinct.simps(2)) simp_all
  qed
  moreover have "list_all keys_distinct vs" if run: "parse_elements num (Suc n) s = Some (vs, r)"
  proof -
    obtain v q c u where v: "parse_value num n s = Some (v, q)" and q: "skip_space q = c # u"
      using run by (auto split: option.splits list.splits)
    then have "vs = [v] \<or> (\<exists>ws. parse_elements num n u = Some (ws, r) \<and> vs = v # ws)"
      using run v q by (auto simp: prepend_Some split: if_splits)
    then show ?thesis using elements_IH [of u] value_IH [OF v] by auto
  qed
  moreover have "list_all (\<lambda>(_, v). keys_distinct v) ms" if run: "parse_members num (Suc n) s = Some (ms, r)"
  proof -
    obtain k a where k: "parse_chars (drop 1 (skip_space s)) = Some (k, a)"
      using run by (auto split: option.splits if_splits)
    obtain v b where v: "parse_value num n (drop 1 (skip_space a)) = Some (v, b)"
      using run k by (auto split: option.splits if_splits)
    obtain c u where b: "skip_space b = c # u"
      using run k v by (auto split: list.splits if_splits)
    have "ms = [(k, v)] \<or> (\<exists>ns. parse_members num n u = Some (ns, r) \<and> ms = (k, v) # ns)"
      using run k v b by (auto simp: prepend_Some split: if_splits)
    then show ?thesis using members_IH [of u] value_IH [OF v] by auto
  qed
  ultimately show ?case by blast
qed simp

lemma json_parse_keys_distinct: "json_parse num s = Some j \<Longrightarrow> keys_distinct j"
  using parsed_keys_distinct [of num "Suc (2 * length s)" s]
  by (auto simp: json_parse_def simp del: parse_value.simps split: option.splits if_splits)

end
