(* ===== verification/Asgi_Composition.thy ===== *)
theory Asgi_Composition
  imports Asgi_Facts Http_Adapter Json_Heap Customer_Composition
begin

text \<open>
  \<^verbatim>\<open>src/src/delivery/create-customer-asgi-composition.mjs\<close>: the application, from the bytes a host
  delivers to the bytes it is given back, over the plain and over the audited service.
\<close>

section \<open>The default codecs\<close>

text \<open>\<open>decodeJsonBody\<close>: no bytes are an empty object, and whatever else fails is thrown.\<close>

definition body_address :: nat where "body_address = 4"

definition syntax_error :: thrown where
  "syntax_error = Foreign (Some (js ''SyntaxError'')) None None"

definition decode_json_body :: "(js_string \<Rightarrow> js_number) \<Rightarrow> bytes \<Rightarrow> (heap \<times> jsval) outcome" where
  "decode_json_body num bs =
     (if length bs = 0 then Inr (json_at body_address (JsonObj []))
      else (case text_decode True bs of
        None \<Rightarrow> type_error (js ''The encoded data was not valid for encoding utf-8'')
      | Some s \<Rightarrow> (case json_parse num s of
          None \<Rightarrow> Inl syntax_error
        | Some j \<Rightarrow> (case json_at body_address j of (h, v) \<Rightarrow>
            if is_ordinary h v then Inr (h, v) else type_error (js ''decoded JSON body must be an ordinary object'')))))"

text \<open>
  What \<open>JSON.stringify\<close> makes of the bodies: a receipt renders itself; \<open>other\<close> renders any value that is
  not one, which no composed service answers.
\<close>

definition receipt_json :: "(jsval \<Rightarrow> json outcome) \<Rightarrow> jsval \<Rightarrow> json outcome" where
  "receipt_json other v = (case v of
     VInst (ICommitReceipt r) \<Rightarrow> rbind (private_read ''requestId'' r) (\<lambda>r. Inr (commit_receipt_to_json r))
   | _ \<Rightarrow> other v)"

definition error_body_json :: "error_body \<Rightarrow> json" where
  "error_body_json e = JsonObj [(js ''error'', JsonObj
     ([(js ''code'', JsonStr (body_code e)), (js ''message'', JsonStr (body_message e))]
      @ (case body_request e of None \<Rightarrow> [] | Some s \<Rightarrow> [(js ''requestId'', JsonStr s)])
      @ [(js ''retryable'', JsonBool (body_retryable e))]))]"

definition body_json :: "(jsval \<Rightarrow> json outcome) \<Rightarrow> delivery_body routed \<Rightarrow> json outcome" where
  "body_json other b = (case b of
     CodeError c \<Rightarrow> Inr (JsonObj [(js ''error'', JsonObj [(js ''code'', JsonStr c), (js ''retryable'', JsonBool False)])])
   | Reply (ErrorBody e) \<Rightarrow> Inr (error_body_json e)
   | Reply (ReceiptBody v) \<Rightarrow> rbind (receipt_json other v) (\<lambda>j. Inr (JsonObj [(js ''commitReceipt'', j)])))"

definition encode_json_body :: "(jsval \<Rightarrow> json outcome) \<Rightarrow> delivery_body routed encoder" where
  "encode_json_body other b = rbind (body_json other b) (\<lambda>j. Inr (Some (utf8_encode (stringify j))))"

definition encode_utf8_header_part :: "js_string encoder" where
  "encode_utf8_header_part s = Inr (Some (utf8_encode s))"

section \<open>The options\<close>

definition asgi_keys :: "string list" where
  "asgi_keys = composition_keys @ [''maxBodyBytes'']"

definition limit_option :: "string \<Rightarrow> bool \<Rightarrow> jsval \<Rightarrow> nat option outcome" where
  "limit_option who given v =
     (if \<not> given then Inr None
      else (case v of
        VNum n \<Rightarrow> (case number_to_safe_int n of
          Some i \<Rightarrow> if i < 0 then type_error (js (who @ '' maxBodyBytes must be a non-negative safe integer when provided''))
            else Inr (Some (nat i))
        | None \<Rightarrow> type_error (js (who @ '' maxBodyBytes must be a non-negative safe integer when provided'')))
      | _ \<Rightarrow> type_error (js (who @ '' maxBodyBytes must be a non-negative safe integer when provided''))))"

definition check_asgi_options :: "heap \<Rightarrow> jsval \<Rightarrow> (js_string \<times> nat list \<times> nat option) outcome" where
  "check_asgi_options h options = (let who = ''createCustomerAsgiComposition'' in case options of
     VObj r \<Rightarrow> if \<not> is_ordinary h options then type_error (js (who @ '' needs exactly one ordinary options object''))
       else if \<not> list_all (\<lambda>k. k \<in> key_set asgi_keys) (own_keys h r) \<or>
         \<not> list_all (\<lambda>k. KStr (js k) \<in> set (own_keys h r)) composition_keys
       then type_error (js (who @ '' options must carry these required keys: '') @ comma_list composition_keys
         @ js '', and may optionally carry: '' @ comma_list [''maxBodyBytes''])
       else rbind (rmap (\<lambda>k. read_key h r (js k)) asgi_keys) (\<lambda>vs.
         rbind (non_empty_option who (vs ! 0)) (\<lambda>connection.
         rbind (rmap (\<lambda>(k, v). function_option who k v) (take 3 (tl (zip asgi_keys vs)))) (\<lambda>fs.
         rbind (limit_option who (KStr (js ''maxBodyBytes'') \<in> set (own_keys h r)) (vs ! 4)) (\<lambda>limit.
         Inr (connection, fs, limit)))))
   | _ \<Rightarrow> type_error (js (who @ '' needs exactly one ordinary options object'')))"

text \<open>The audited options: every admitted key an enumerable data property, read from its descriptor.\<close>

definition audited_refusal :: js_string where
  "audited_refusal = js ''createAuditedCustomerAsgiComposition options must carry exactly these six own enumerable data keys: ''
     @ comma_list audited_keys @ js '', and may optionally carry the own enumerable data key: '' @ comma_list [''maxBodyBytes'']"

definition check_audited_asgi_options :: "heap \<Rightarrow> jsval \<Rightarrow> (js_string \<times> nat list \<times> nat option) outcome" where
  "check_audited_asgi_options h options = (let who = ''createAuditedCustomerAsgiComposition'' in case options of
     VObj r \<Rightarrow> if \<not> is_ordinary h options then type_error (js (who @ '' needs exactly one ordinary options object''))
       else (let given = KStr (js ''maxBodyBytes'') \<in> set (own_keys h r);
                 admitted = (if given then audited_keys @ [''maxBodyBytes''] else audited_keys) in
         if length (own_keys h r) \<noteq> length admitted \<or>
           \<not> list_all (\<lambda>k. enumerable_data (own_property h r (KStr (js k)))) admitted
         then type_error audited_refusal
         else rbind (non_empty_option who (member_at h r (js ''connectionString''))) (\<lambda>connection.
           rbind (rmap (\<lambda>k. function_option who k (member_at h r (js k))) (tl audited_keys)) (\<lambda>fs.
           rbind (limit_option who given (member_at h r (js ''maxBodyBytes''))) (\<lambda>limit.
           Inr (connection, fs, limit)))))
   | _ \<Rightarrow> type_error (js (who @ '' needs exactly one ordinary options object'')))"

section \<open>The application\<close>

text \<open>
  A call's own objects: the router's message at 0 with its headers at 1, the delivery request at 2, the
  action spec at 3, and the decoded body from \<open>body_address\<close> on.
\<close>

definition customer_handler :: "'w service \<Rightarrow> ('w, delivery_body) handler" where
  "customer_handler service h message =
     ebind (http_handle (request_handle service) 2 h message) (\<lambda>r.
       eret (literal_answer (http_status r) (http_headers r) (Reply (http_body r))))"

definition customer_routes :: "'w service \<Rightarrow> ('w, delivery_body) handler route list" where
  "customer_routes service =
     [\<lparr>route_method = js ''POST'', route_path = js ''/customers'', route_handler = customer_handler service\<rparr>]"

definition app_args ::
    "(js_string \<Rightarrow> js_number) \<Rightarrow> (jsval \<Rightarrow> json outcome) \<Rightarrow> nat option \<Rightarrow> 'w receive given \<Rightarrow> ('w, delivery_body routed) send given
     \<Rightarrow> ('w, delivery_body) asgi_args" where
  "app_args num other limit receive send = \<lparr>arg_receive = receive, arg_send = send,
     arg_decode = Given (decode_json_body num), arg_body = Given (encode_json_body other),
     arg_header = Given encode_utf8_header_part,
     arg_max = (case limit of None \<Rightarrow> VUndef | Some n \<Rightarrow> VNum (JInt (int n)))\<rparr>"

definition customer_app ::
    "'w service \<Rightarrow> (js_string \<Rightarrow> js_number) \<Rightarrow> (jsval \<Rightarrow> json outcome) \<Rightarrow> nat option \<Rightarrow> heap \<Rightarrow> jsval
     \<Rightarrow> 'w receive given \<Rightarrow> ('w, delivery_body routed) send given \<Rightarrow> 'w
     \<Rightarrow> (delivery_body routed asgi_event list outcome \<times> 'w) option" where
  "customer_app service num other limit h scope receive send w =
     call_from_receive (router_handle (customer_routes service)) 0 h scope (app_args num other limit receive send) w"

end
