(* ===== verification/Asgi_Run.thy ===== *)
theory Asgi_Run
  imports Asgi_Composition Composition_Frames
begin

text \<open>
  What a call of the application does: the headers and the body it was given reach the service as one
  action, and what the service answers is what is sent.
\<close>

section \<open>The action of a message\<close>

lemma action_fields_distinct: "distinct action_spec_fields"
  by (simp add: action_spec_fields_def)

text \<open>The literal the adapter makes is always of the delivery shape, so the handler takes it as it is.\<close>

lemma build_action_literal:
  assumes "h r = plain_object ps" "map fst ps = action_spec_fields"
  shows "build_action_spec h (VObj r) = Inr ps"
proof -
  have options: "ordinary_options h (VObj r) action_spec_fields a b = Inr r" for a b
    using plain_object_facts(1) [where h = h and r = r, OF assms(1) action_fields_distinct]
      plain_object_facts(2) [where h = h and r = r, OF assms(1)] assms(2)
    by (simp add: ordinary_options_iff)
  have reads: "rmap (\<lambda>k. read_key h r (js k)) ks = Inr (map (\<lambda>k. case map_of ps k of Some v \<Rightarrow> v | None \<Rightarrow> VUndef) ks)" for ks
    by (induction ks) (simp_all add: read_plain_object [where h = h and r = r, OF assms(1)])
  have "map (\<lambda>k. case map_of ps k of Some v \<Rightarrow> v | None \<Rightarrow> VUndef) (map fst ps) = map snd ps"
  proof -
    have "map_of ps (fst p) = Some (snd p)" if "p \<in> set ps" for p
      using action_fields_distinct assms(2) that by (intro map_of_is_SomeI) simp_all
    then show ?thesis by simp
  qed
  then have "zip action_spec_fields (map (\<lambda>k. case map_of ps k of Some v \<Rightarrow> v | None \<Rightarrow> VUndef) action_spec_fields) = ps"
    by (simp only: assms(2) [symmetric]) (simp add: zip_map_fst_snd)
  then show ?thesis by (simp add: build_action_spec_def options reads)
qed

lemma delivery_fields: "delivery_request h m = Inr ps \<Longrightarrow> map fst ps = action_spec_fields"
  by (auto simp: delivery_request_def rbind_eq_Inr action_spec_fields_def)

text \<open>The heap in which the service finds the action: the request and, behind it, the action spec.\<close>

definition action_heap_of :: "heap \<Rightarrow> (string \<times> jsval) list \<Rightarrow> heap" where
  "action_heap_of h ps = h(2 := plain_object ps, 3 := plain_object ps)"

lemma raw_request_literal:
  assumes "h r = plain_object ps" obtains i where "raw_request_id h (VObj r) = Inr i"
proof -
  have "is_ordinary h (VObj r)" using plain_object_facts(2) [where h = h and r = r, OF assms] by blast
  then show thesis
    using that read_plain_object [where h = h and r = r, OF assms, of "''requestId''"] by (simp add: raw_request_id_def)
qed

lemma http_handle_cases:
  assumes "http_handle (request_handle service) 2 h message w = (r, w1)"
  obtains (refused) "w1 = w" "\<And>d. r = Inr d \<Longrightarrow> http_status d \<in> {400, 404, 405}"
  | (asked) m ps q i where "message_shape h message = Inr (Some m)" "msg_method m = js ''POST''"
      "msg_path m = js ''/customers''" "delivery_request h m = Inr ps"
      "service (action_heap_of h ps) (VObj 3) w = (q, w1)"
      "r = (case q of Inr result \<Rightarrow> Inr (to_http_response (result_response result))
        | Inl e \<Rightarrow> if is_idempotency_conflict e
            then Inr (to_http_response (conflict_response i)) else Inl e)"
proof (cases "message_shape h message")
  case (Inl e)
  with assms refused show thesis by (auto simp: http_handle_def)
next
  case (Inr shape)
  show thesis
  proof (cases shape)
    case None
    with assms Inr refused show thesis by (auto simp: http_handle_def generic_response_def)
  next
    case (Some m)
    note start = assms [unfolded http_handle_def Inr Some, simplified, folded numeral_3_eq_3]
    consider (other) "msg_method m \<noteq> js ''POST''" | (elsewhere) "msg_method m = js ''POST''" "msg_path m \<noteq> js ''/customers''"
      | (here) "msg_method m = js ''POST''" "msg_path m = js ''/customers''" by blast
    then show thesis
    proof cases
      case other
      with start refused show thesis
        by (cases "header_value h (msg_headers m) ''x-request-id''") (auto simp: generic_response_def)
    next
      case elsewhere
      with start refused show thesis
        by (cases "header_value h (msg_headers m) ''x-request-id''") (auto simp: generic_response_def)
    next
      case here
      show thesis
      proof (cases "delivery_request h m")
        case (Inl e)
        with start here refused show thesis by auto
      next
        case ps: (Inr ps)
        let ?h = "h(2 := plain_object ps)"
        have lit: "build_action_spec ?h (VObj 2) = Inr ps"
          by (rule build_action_literal) (simp_all add: delivery_fields [OF ps])
        obtain i where i: "raw_request_id ?h (VObj 2) = Inr i" by (rule raw_request_literal [of ?h 2 ps]) simp_all
        obtain q w2 where q: "service (?h(3 := plain_object ps)) (VObj 3) w = (q, w2)" by force
        with start here ps lit i have "w1 = w2"
          "r = (case q of Inr result \<Rightarrow> Inr (to_http_response (result_response result))
            | Inl e \<Rightarrow> if is_idempotency_conflict e
                then Inr (to_http_response (conflict_response i)) else Inl e)"
          by (auto simp: request_handle_def ebind_apply ecatch_apply numeral_3_eq_3 [symmetric] split: sum.splits if_splits
              simp del: numeral_3_eq_3)
        with asked [OF _ here ps, of q i] q Inr Some show thesis by (simp add: action_heap_of_def)
      qed
    qed
  qed
qed

section \<open>The message of a call\<close>

definition message_literal :: "js_string \<Rightarrow> js_string \<Rightarrow> jsval \<Rightarrow> (string \<times> jsval) list" where
  "message_literal verb path body =
     [(''method'', VStr verb), (''path'', VStr path), (''headers'', VObj (Suc 0)), (''body'', body)]"

lemma message_at: "message_heap 0 verb path ms hb body 0 = plain_object (message_literal verb path body)"
  and headers_at: "message_heap 0 verb path ms hb body (Suc 0) = headers_object ms"
  and body_at: "2 \<le> a \<Longrightarrow> message_heap 0 verb path ms hb body a = hb a"
  by (simp_all add: message_heap_def message_literal_def)

lemma message_members:
  fixes hb :: heap and verb path ms body
  defines "h \<equiv> message_heap 0 verb path ms hb body"
  shows "is_ordinary h (VObj 0)" and "is_ordinary h (VObj (Suc 0))" and "includes_exactly h 0 message_keys"
    and "read_key h 0 (js ''method'') = Inr (VStr verb)" and "read_key h 0 (js ''path'') = Inr (VStr path)"
    and "read_key h 0 (js ''headers'') = Inr (VObj (Suc 0))" and "read_key h 0 (js ''body'') = Inr body"
proof -
  have h: "h 0 = plain_object (message_literal verb path body)" by (simp add: h_def message_at)
  note facts = plain_object_facts [where h = h and r = 0, OF h]
  show "is_ordinary h (VObj 0)" using facts(2) by blast
  show "includes_exactly h 0 message_keys"
    unfolding includes_exactly_owns by (subst facts(1)) (auto simp: message_keys_def message_literal_def)
  show "read_key h 0 (js ''method'') = Inr (VStr verb)" "read_key h 0 (js ''path'') = Inr (VStr path)"
    "read_key h 0 (js ''headers'') = Inr (VObj (Suc 0))" "read_key h 0 (js ''body'') = Inr body"
    by (simp_all add: facts(4) message_literal_def)
  show "is_ordinary h (VObj (Suc 0))" by (simp add: h_def is_ordinary_def is_array_def headers_at headers_object_def)
qed

lemma message_is_read: "message_read (message_heap 0 verb path ms hb body) (VObj 0) = Inr (Some (verb, path))"
  using message_members [of verb path ms hb body] by (simp add: message_read_def)

lemma message_shape_of:
  assumes "message_shape (message_heap 0 verb path ms hb body) (VObj 0) = Inr (Some m)"
  shows "m = \<lparr>msg_method = verb, msg_path = path, msg_headers = Suc 0, msg_body = body\<rparr>"
  using assms message_members [of verb path ms hb body]
  by (auto simp: message_shape_def text_read_def split: if_splits)

text \<open>The headers of a scope that was read: lower-case names, each once.\<close>

definition headers_wf :: "header_list \<Rightarrow> bool" where
  "headers_wf ms \<longleftrightarrow> distinct (map fst ms) \<and> (\<forall>m \<in> set ms. re_test header_name_form (fst m))"

lemma put_header_wf: "headers_wf ms \<Longrightarrow> re_test header_name_form name \<Longrightarrow> headers_wf (put_header ms name s)"
proof -
  assume ms: "headers_wf ms" "re_test header_name_form name"
  have "map fst (map (\<lambda>(k, v). (k, if k = name then s else v)) ms) = map fst ms" by auto
  moreover have "fst ` (\<lambda>(k, v). (k, if k = name then s else v)) ` set ms = fst ` set ms" by force
  ultimately show ?thesis
    using ms unfolding headers_wf_def put_header_def
    by (auto simp del: map_map)
qed

lemma decode_pair_name:
  assumes "decode_pair h v = Inr (Some pair)" shows "re_test header_name_form (fst pair)"
proof -
  obtain r where v: "v = VObj r" using assms by (cases v) (simp_all add: decode_pair_def)
  obtain a b where "(case (decode_header_part h a, decode_header_part h b) of
      (Some name, Some s) \<Rightarrow> if re_test header_name_form name then Some (name, s) else None | _ \<Rightarrow> None) = Some pair"
    using assms unfolding decode_pair_def v jsval.case by (simp add: rbind_eq_Inr split: if_split_asm) blast
  then show ?thesis
    by (cases "decode_header_part h a"; cases "decode_header_part h b") (auto split: if_split_asm)
qed

lemma decode_pairs_wf: "headers_wf ms \<Longrightarrow> decode_pairs h r ms is = Inr (Some ns) \<Longrightarrow> headers_wf ns"
proof (induction h r ms "is" rule: decode_pairs.induct)
  case (2 h r ms i "is")
  then obtain v pair where v: "read_key h r (dec_nat i) = Inr v" "decode_pair h v = Inr (Some pair)"
    and rest: "decode_pairs h r (put_header ms (fst pair) (snd pair)) is = Inr (Some ns)"
    by (auto simp: rbind_eq_Inr split: option.splits prod.splits)
  have "headers_wf (put_header ms (fst pair) (snd pair))" using "2.prems"(1) decode_pair_name [OF v(2)] by (rule put_header_wf)
  then show ?case using "2.IH" [OF v refl, of "fst pair" "snd pair"] rest by simp
qed simp

lemma scope_view_wf:
  assumes "scope_view h v = Inr (Some (verb, path, ms))" shows "headers_wf ms"
proof -
  obtain headers where "decode_headers h headers = Inr (Some ms)"
    using assms unfolding scope_view_def by (auto simp: rbind_eq_Inr split: option.splits prod.splits)
  then obtain r where "decode_pairs h r [] [0..<array_length h r] = Inr (Some ms)"
    by (cases headers) (auto simp: decode_headers_def split: if_splits)
  then show ?thesis by (rule decode_pairs_wf [rotated]) (simp add: headers_wf_def)
qed

text \<open>On such names \<open>toLowerCase\<close> changes nothing, so a header is found under its own name.\<close>

lemma header_unit_lower: "in_class ([(0x61, 0x7A), (0x30, 0x39)] @ token_marks) c \<Longrightarrow> lower_unit c = c"
  by (auto simp: token_marks_def lower_unit_def word_le_nat_alt)

lemma plus_Class: "re_test (plus (Class rs)) s \<Longrightarrow> list_all (in_class rs) s"
proof -
  assume "re_test (plus (Class rs)) s"
  then have "s \<in> conc (lang (Class rs)) (lang (Star (Class rs)))" by (simp add: re_test_lang plus_def)
  then obtain u v where s: "s = u @ v" "u \<in> lang (Class rs)" "v \<in> lang (Star (Class rs))" unfolding conc_def by blast
  from s(3) have "list_all (in_class rs) v" unfolding lang_Star_Class .
  with s(1,2) show ?thesis by auto
qed

lemma header_name_lower: "re_test header_name_form k \<Longrightarrow> map lower_unit k = k"
  unfolding header_name_form_def by (drule plus_Class, intro map_idI header_unit_lower) (simp add: list_all_iff)

lemma headers_object_keys:
  assumes "h r = headers_object ms" "headers_wf ms"
  shows "own_keys h r = map KStr (own_order (map fst ms))"
    and "k \<in> set (map fst ms) \<Longrightarrow> read_key h r k = Inr (VStr (the (map_of ms k)))"
proof -
  have keys: "map fst (obj_props (h r)) = map KStr (map fst ms)"
    by (simp add: assms(1) headers_object_def case_prod_unfold comp_def)
  have "List.map_filter (\<lambda>k. case k of KStr s \<Rightarrow> Some s | KSym _ \<Rightarrow> None) (map KStr ks) = ks"
    "List.map_filter (\<lambda>k. case k of KStr _ \<Rightarrow> None | KSym n \<Rightarrow> Some n) (map KStr ks) = []" for ks
    by (induction ks) (simp_all add: map_filter_simps)
  then show "own_keys h r = map KStr (own_order (map fst ms))"
    using assms(2) unfolding own_keys_def string_keys_def symbol_keys_def keys by (simp add: headers_wf_def distinct_remdups_id del: map_map)
  have "map_of (map (\<lambda>(k, s). (KStr k, Data (VStr s) True)) ns) (KStr k) = map_option (\<lambda>s. Data (VStr s) True) (map_of ns k)" for ns k
    by (induction ns) auto
  then show "read_key h r k = Inr (VStr (the (map_of ms k)))" if "k \<in> set (map fst ms)" for k
    using that by (cases "map_of ms k") (auto simp: read_key_def own_property_def assms(1) headers_object_def map_of_eq_None_iff)
qed

lemma header_value_of:
  assumes "h r = headers_object ms" "headers_wf ms"
  shows "header_value h r name = Inr (map_of ms (js name))"
proof -
  have find: "set ks \<subseteq> set (map fst ms) \<Longrightarrow>
      find_header h r name (map KStr ks) = Inr (if js name \<in> set ks then map_of ms (js name) else None)" for ks
  proof (induction ks)
    case (Cons k ks)
    then have "re_test header_name_form k" using assms(2) by (auto simp: headers_wf_def)
    then have "lower_is name k \<longleftrightarrow> k = js name" by (simp add: lower_is_def header_name_lower)
    moreover have "\<exists>s. map_of ms k = Some s" using Cons.prems by (cases "map_of ms k") (auto simp: map_of_eq_None_iff)
    ultimately show ?case
      using Cons headers_object_keys(2) [where h = h and r = r and k = k, OF assms] by auto
  qed simp
  have "js name \<notin> set (map fst ms) \<Longrightarrow> map_of ms (js name) = None" by (simp add: map_of_eq_None_iff)
  then show ?thesis
    using find [of "own_order (map fst ms)"] by (simp add: header_value_def headers_object_keys(1) [where h = h and r = r, OF assms])
qed

text \<open>The request the adapter hands on: four headers and the body.\<close>

definition request_fields :: "header_list \<Rightarrow> jsval \<Rightarrow> (string \<times> jsval) list" where
  "request_fields ms body = [(''requestId'', optional_text (map_of ms (js ''x-request-id''))),
     (''actorId'', optional_text (map_of ms (js ''x-actor-id''))), (''tenantId'', optional_text (map_of ms (js ''x-tenant-id''))),
     (''payload'', body), (''idempotencyKey'', optional_text (map_of ms (js ''idempotency-key'')))]"

lemma delivery_request_of:
  assumes "headers_wf ms"
  shows "delivery_request (message_heap 0 verb path ms hb body)
      \<lparr>msg_method = verb, msg_path = path, msg_headers = Suc 0, msg_body = body\<rparr> = Inr (request_fields ms body)"
  by (simp add: delivery_request_def request_fields_def header_value_of [where h = "message_heap 0 verb path ms hb body" and r = "Suc 0", OF headers_at assms])

end
