(* ===== verification/Asgi_Service.thy ===== *)
theory Asgi_Service
  imports Asgi_Run
begin

text \<open>
  The application over any service that answers a commit only when it made one: it answers 201 exactly
  then, and what is recorded is what was posted.
\<close>

section \<open>What was posted\<close>

definition body_value :: "(js_string \<Rightarrow> js_number) \<Rightarrow> bytes \<Rightarrow> json option" where
  "body_value num bs =
     (if bs = [] then Some (JsonObj [])
      else (case text_decode True bs of
        None \<Rightarrow> None
      | Some s \<Rightarrow> (case json_parse num s of Some (JsonObj ms) \<Rightarrow> Some (JsonObj ms) | _ \<Rightarrow> None)))"

definition posted ::
    "(js_string \<Rightarrow> js_number) \<Rightarrow> nat option \<Rightarrow> heap \<Rightarrow> jsval \<Rightarrow> 'w receive \<Rightarrow> 'w \<Rightarrow> header_list \<Rightarrow> json \<Rightarrow> 'w \<Rightarrow> bool" where
  "posted num limit h scope rc w ms j w0 \<longleftrightarrow>
     scope_view h scope = Inr (Some (js ''POST'', js ''/customers'', ms)) \<and>
     (\<exists>chunks. delivered rc limit 0 w chunks w0 \<and> body_value num (concat chunks) = Some j)"

lemma json_at_ordinary:
  assumes "json_at n j = (h, v)"
  shows "is_ordinary h v \<longleftrightarrow> (\<exists>ms. j = JsonObj ms)"
proof (cases j)
  case (JsonArr vs)
  obtain ws os where "allocate_all vs (Suc n) = (ws, os)" by (cases "allocate_all vs (Suc n)")
  with assms JsonArr have v: "v = VObj n" "h n = array_object ws" by (auto simp: json_at_def placed_def)
  then have "is_array h v" using array_object_facts(1) [where h = h and r = n] by simp
  with JsonArr v show ?thesis by (simp add: is_ordinary_def)
next
  case (JsonObj ms)
  obtain ps os where "allocate_members ms (Suc n) = (ps, os)" by (cases "allocate_members ms (Suc n)")
  with assms JsonObj have "v = VObj n" "h n = \<lparr>obj_proto = ObjectPrototype, obj_kind = Plain, obj_props = ps\<rparr>"
    by (auto simp: json_at_def placed_def)
  with JsonObj show ?thesis by (simp add: is_ordinary_def is_array_def)
qed (use assms in \<open>auto simp: json_at_def is_ordinary_def\<close>)

lemma decode_json_body_iff:
  "decode_json_body num bs = Inr (h, v) \<longleftrightarrow> (\<exists>j. body_value num bs = Some j \<and> json_at body_address j = (h, v))"
proof (cases "bs = []")
  case False
  show ?thesis
  proof (cases "text_decode True bs")
    case (Some s)
    show ?thesis
    proof (cases "json_parse num s")
      case j: (Some j)
      obtain g u where at: "json_at body_address j = (g, u)" by (cases "json_at body_address j")
      have "body_value num bs = (if \<exists>ms. j = JsonObj ms then Some j else None)"
        using False Some j by (cases j) (simp_all add: body_value_def)
      then show ?thesis using False Some j at json_at_ordinary [OF at] by (auto simp: decode_json_body_def)
    qed (use False Some in \<open>auto simp: decode_json_body_def body_value_def\<close>)
  qed (use False in \<open>auto simp: decode_json_body_def body_value_def\<close>)
qed (auto simp: decode_json_body_def body_value_def)

text \<open>The heap of the action, and the action in it.\<close>

definition posted_heap :: "header_list \<Rightarrow> json \<Rightarrow> heap" where
  "posted_heap ms j = (case json_at body_address j of (hb, v) \<Rightarrow>
     action_heap_of (message_heap 0 (js ''POST'') (js ''/customers'') ms hb v) (request_fields ms v))"

section \<open>The router and its one route\<close>

lemma customer_handler_literal:
  "customer_handler service h message w = (Inr reply, w1) \<Longrightarrow> \<exists>status hs b. reply = literal_answer status hs (Reply b)"
  by (auto simp: customer_handler_def ebind_Inr_iff)

lemma literal_is_ordinary [simp]: "answer_ordinary (literal_answer status hs b)"
  by (simp add: literal_answer_def)

lemma customer_router:
  assumes "message_read h message = Inr (Some (verb, path))"
  shows "router_handle (customer_routes service) h message w =
    (if verb = js ''POST'' \<and> path = js ''/customers'' then customer_handler service h message w
     else (Inr (if path = js ''/customers'' then router_error 405 ''METHOD_NOT_SUPPORTED'' else router_error 404 ''ROUTE_NOT_FOUND''), w))"
proof -
  obtain r w1 where r: "customer_handler service h message w = (r, w1)" by force
  then show ?thesis
    using customer_handler_literal [of service h message w _ w1]
    by (cases r) (auto simp: dispatch [OF assms] the_route_def customer_routes_def)
qed

section \<open>From an answer to its events\<close>

definition answered_created :: "'b asgi_event list outcome \<Rightarrow> bool" where
  "answered_created res \<longleftrightarrow> (\<exists>hs rest. res = Inr (ResponseStart 201 hs # rest))"

definition literal_status :: "'b answer \<Rightarrow> int \<Rightarrow> bool" where
  "literal_status a status \<longleftrightarrow> answer_status a = Inr (VNum (JInt status))"

lemma literal_answer_status: "literal_status (literal_answer status hs b) code \<longleftrightarrow> code = status"
  by (auto simp: literal_status_def literal_answer_def)

lemma events_status:
  assumes "to_response_events a = Inr evs" "literal_status a status"
  shows "\<exists>hs rest. evs = ResponseStart status hs # rest"
proof -
  obtain code ms body where "check_router_response a = Inr (code, ms)" "answer_body a = Inr body"
    and evs: "\<exists>hs rest. evs = ResponseStart code hs # rest"
    using assms(1) by (auto simp: to_response_events_def rbind_eq_Inr Let_def)
  then have "check_status (VNum (JInt status)) = Inr code"
    using assms(2) by (auto simp: check_router_response_def rbind_eq_Inr literal_status_def split: if_split_asm)
  then have "code = status" by (auto simp: check_status_def number_to_int_def split: option.splits if_splits)
  with evs show ?thesis by simp
qed

lemma encoded_status:
  assumes "encode_events eb eh (ResponseStart code hs # rest) = Inr evs"
  shows "\<exists>hs rest. evs = ResponseStart code hs # rest"
  using assms encode_event_start [of eb eh code hs] by (fastforce simp: encode_events_def rbind_eq_Inr)

section \<open>An answer in bytes\<close>

definition header_bytes :: "js_string \<times> js_string \<Rightarrow> header_part \<times> header_part" where
  "header_bytes = (\<lambda>(name, s). (HeaderBytes (utf8_encode name), HeaderBytes (utf8_encode s)))"

definition answer_events :: "int \<Rightarrow> header_list \<Rightarrow> json \<Rightarrow> 'b asgi_event list" where
  "answer_events status headers j = [ResponseStart status (map header_bytes headers), ResponseBody (BytesBody (utf8_encode (stringify j))) False]"

definition request_headers :: "js_string \<Rightarrow> header_list" where
  "request_headers request = [(js ''content-type'', js ''application/json''), (js ''x-request-id'', request)]"

definition created_events :: "js_string \<Rightarrow> json \<Rightarrow> 'b asgi_event list" where
  "created_events request j = answer_events 201 (request_headers request) (JsonObj [(js ''commitReceipt'', j)])"

lemma answer_names:
  "re_test header_name_form (js ''content-type'')" "re_test header_name_form (js ''x-request-id'')"
  "re_test header_value_form (js ''application/json'')"
  by code_simp+

lemma answer_check:
  assumes "re_test header_value_form request" "100 \<le> status" "status \<le> 599"
  shows "check_router_response (literal_answer status (request_header request) b) = Inr (status, request_headers request)"
proof -
  let ?ps = "[(''content-type'', VStr (js ''application/json'')), (''x-request-id'', VStr request)]"
  let ?h = "\<lambda>_ :: nat. plain_object ?ps"
  have h: "?h 0 = plain_object ?ps" by simp
  have ordinary: "is_ordinary ?h (VObj 0)" using plain_object_facts(2) [where h = ?h and r = 0, OF h] by blast
  note reads = read_plain_object [where h = ?h and r = 0, OF h]
  have texts: "read_key ?h 0 (js ''content-type'') = Inr (VStr (js ''application/json''))"
    "read_key ?h 0 (js ''x-request-id'') = Inr (VStr request)"
    unfolding reads by simp_all
  have keys: "own_keys ?h 0 = [KStr (js ''content-type''), KStr (js ''x-request-id'')]"
    by (simp add: plain_object_def) code_simp
  have headers: "check_header_object (?h, VObj 0) = Inr (request_headers request)"
    using ordinary assms(1) answer_names texts by (simp add: check_header_object_def keys request_headers_def)
  have "map (\<lambda>(k, s). (k, VStr s)) (request_header request) = ?ps" by (simp add: request_header_def)
  then have "answer_headers (literal_answer status (request_header request) b) = Inr (?h, VObj 0)"
    by (simp add: literal_answer_def)
  moreover have "answer_ordinary (literal_answer status (request_header request) b)"
    "answer_keys (literal_answer status (request_header request) b) = [KStr (js ''status''), KStr (js ''headers''), KStr (js ''body'')]"
    "answer_status (literal_answer status (request_header request) b) = Inr (VNum (JInt status))"
    by (simp_all add: literal_answer_def)
  ultimately show ?thesis
    using assms(2,3)
    by (simp add: check_router_response_def response_keys_def check_status_def number_to_int_def headers)
qed

lemma literal_answer_body: "answer_body (literal_answer status hs b) = Inr b"
  by (simp add: literal_answer_def)

lemma answer_encoded:
  assumes "re_test header_value_form request" "100 \<le> status" "status \<le> 599" "body_json other b = Inr j"
  shows "rbind (to_response_events (literal_answer status (request_header request) b))
      (encode_events (Some (encode_json_body other)) (Some encode_utf8_header_part)) = Inr (answer_events status (request_headers request) j)"
proof -
  have lower: "map lower_unit (js ''content-type'') = js ''content-type''" "map lower_unit (js ''x-request-id'') = js ''x-request-id''"
    by (rule header_name_lower, rule answer_names)+
  have order: "js ''content-type'' \<le> js ''x-request-id''" by code_simp
  show ?thesis
    by (simp add: to_response_events_def answer_check [OF assms(1-3)] request_headers_def literal_answer_body lower order
        encode_events_def encode_event_def text_header_def encode_part_def encode_utf8_header_part_def encoded_bytes_def
        encode_json_body_def assms(4) answer_events_def header_bytes_def)
qed

lemma created_encoded:
  assumes "re_test header_value_form request" "receipt_json other receipt = Inr j"
  shows "rbind (to_response_events (literal_answer 201 (request_header request) (Reply (ReceiptBody receipt))))
      (encode_events (Some (encode_json_body other)) (Some encode_utf8_header_part)) = Inr (created_events request j)"
  unfolding created_events_def by (rule answer_encoded) (simp_all add: assms body_json_def)

section \<open>The contract of a service\<close>

lemma keeps_emap [frame_rules]: "(\<And>x. keeps f (g x)) \<Longrightarrow> keeps f (emap g xs)"
  by (induction xs) (auto intro!: frame_rules)

lemma keeps_send_all: "(\<And>ev. keeps f (send ev)) \<Longrightarrow> keeps f (send_all send evs)"
  by (auto simp: send_all_def intro!: frame_rules)

lemma receive_keeps:
  assumes "keeps f receive"
  shows "receive_chunks receive limit chunks received w = Some y \<Longrightarrow> f (snd y) = f w"
proof (induction rule: receive_induct)
  case (step self chunks received w y)
  obtain r w1 where r: "receive w = (r, w1)" by force
  with assms have w1: "f w1 = f w" by (rule keepsD)
  show ?case
    using step.hyps step.IH [of _ _ w1 y] w1 r
    by (auto split: sum.splits prod.splits option.splits if_splits)
qed

lemma app_args_checked:
  assumes "check_args (app_args num other limit (Given rc) (Given sd)) = Inr c"
  shows "c = \<lparr>chk_receive = rc, chk_send = sd, chk_decode = Some (decode_json_body num),
    chk_body = Some (encode_json_body other), chk_header = Some encode_utf8_header_part, chk_max = limit\<rparr>"
  using assms
  by (auto simp: check_args_def app_args_def need_function_def optional_function_def max_body_bytes_def
      number_to_safe_int_def number_to_int_def rbind_eq_Inr split: option.splits if_splits)

lemma error_events_refused:
  assumes "send_error_events c w = (res, w1)" shows "\<not> answered_created res"
proof
  assume "answered_created res"
  then obtain hs rest where "res = Inr (ResponseStart 201 hs # rest)" by (auto simp: answered_created_def)
  with assms have "encode_events (chk_body c) (chk_header c) profile_error_events = Inr (ResponseStart 201 hs # rest)"
    by (auto simp: send_error_events_def ebind_Inr_iff send_all_iff)
  then show False using encoded_status unfolding profile_error_events_def by fastforce
qed

lemma error_events_keep: "(\<And>ev. keeps f (chk_send c ev)) \<Longrightarrow> keeps f (send_error_events c)"
  unfolding send_error_events_def by (intro frame_rules keeps_send_all)

text \<open>Going forward: a post is answered as the handler answers what the service made of its action.\<close>

definition post_response :: "js_string \<Rightarrow> service_result outcome \<Rightarrow> delivery_response outcome" where
  "post_response request r = (case r of
     Inr result \<Rightarrow> Inr (result_response result)
   | Inl e \<Rightarrow> if is_idempotency_conflict e then Inr (conflict_response request) else Inl e)"

lemma handler_posted:
  assumes "headers_wf ms" and "json_at body_address j = (hb, v)" "is_ordinary hb v" "v = VObj a" "2 \<le> a"
    and request: "map_of ms (js ''x-request-id'') = Some request"
    and run: "service (posted_heap ms j) (VObj 3) w = (r, w1)" and d: "post_response request r = Inr d"
  shows "customer_handler service (message_heap 0 (js ''POST'') (js ''/customers'') ms hb v) (VObj 0) w =
    (Inr (literal_answer (response_status d) (request_header (response_request d)) (Reply (response_body d))), w1)"
proof -
  let ?h = "message_heap 0 (js ''POST'') (js ''/customers'') ms hb v"
  let ?m = "\<lparr>msg_method = js ''POST'', msg_path = js ''/customers'', msg_headers = Suc 0, msg_body = v\<rparr>"
  let ?h2 = "?h(2 := plain_object (request_fields ms v))"
  have "is_ordinary ?h v" using assms(3-5) by (simp add: is_ordinary_def is_array_def body_at)
  then have shape: "message_shape ?h (VObj 0) = Inr (Some ?m)"
    using message_members [of "js ''POST''" "js ''/customers''" ms hb v] by (simp add: message_shape_def text_read_def)
  have fields: "delivery_request ?h ?m = Inr (request_fields ms v)" by (rule delivery_request_of [OF assms(1)])
  have lit: "build_action_spec ?h2 (VObj 2) = Inr (request_fields ms v)"
    by (rule build_action_literal) (simp_all add: delivery_fields [OF fields])
  have h2: "?h2 2 = plain_object (request_fields ms v)" by simp
  have raw: "raw_request_id ?h2 (VObj 2) = Inr request"
    using plain_object_ordinary [where h = ?h2 and r = 2, OF h2] read_plain_object [where h = ?h2 and r = 2, OF h2]
    by (simp add: raw_request_id_def request_fields_def request optional_text_def)
  have "service (?h2(3 := plain_object (request_fields ms v))) (VObj 3) w = (r, w1)"
    using assms(2) run by (simp add: posted_heap_def action_heap_of_def)
  then have "request_handle service 3 ?h2 (VObj 2) w = (Inr d, w1)"
    using lit raw d
    by (cases r) (auto simp: request_handle_def ebind_apply ecatch_apply post_response_def elift_def split: if_splits)
  then have "http_handle (request_handle service) 2 ?h (VObj 0) w = (Inr (to_http_response d), w1)"
    using shape fields by (simp add: http_handle_def ebind_apply numeral_3_eq_3 [symmetric] del: numeral_3_eq_3)
  then show ?thesis by (simp add: customer_handler_def ebind_apply to_http_response_def)
qed

lemma app_args_check:
  assumes "case limit of None \<Rightarrow> True | Some n \<Rightarrow> int n \<le> max_safe_integer"
  shows "check_args (app_args num other limit (Given rc) (Given sd)) =
    Inr \<lparr>chk_receive = rc, chk_send = sd, chk_decode = Some (decode_json_body num),
      chk_body = Some (encode_json_body other), chk_header = Some encode_utf8_header_part, chk_max = limit\<rparr>"
  using assms by (cases limit) (simp_all add: check_args_def app_args_def need_function_def optional_function_def max_body_bytes_def)

text \<open>The application, once scope and body are read and the route has answered.\<close>

lemma app_served:
  assumes scope: "scope_view h scope = Inr (Some (verb, path, ms))" and chunks: "delivered rc limit 0 w chunks w0"
    and limit: "case limit of None \<Rightarrow> True | Some n \<Rightarrow> int n \<le> max_safe_integer"
    and at: "decode_json_body num (concat chunks) = Inr (hb, v)"
    and route: "router_handle (customer_routes service) (message_heap 0 verb path ms hb v) (VObj 0) w0 = (Inr reply, w2)"
    and events: "rbind (to_response_events reply) (encode_events (Some (encode_json_body other)) (Some encode_utf8_header_part)) = Inr evs"
  shows "customer_app service num other limit h scope (Given rc) (Given sd) w = Some (send_all sd evs w2)"
proof -
  have "asgi_handle (router_handle (customer_routes service)) 0 h scope hb v w0 = (to_response_events reply, w2)"
    using route by (simp add: asgi_handle_def scope ebind_apply elift_def)
  moreover obtain raw where "to_response_events reply = Inr raw"
    "encode_events (Some (encode_json_body other)) (Some encode_utf8_header_part) raw = Inr evs"
    using events by (auto simp: rbind_eq_Inr)
  ultimately have call: "asgi_call (router_handle (customer_routes service)) 0 h scope hb v (Given sd) (Given (encode_json_body other))
      (Given encode_utf8_header_part) w0 = send_all sd evs w2"
    by (simp add: asgi_call_def need_function_def optional_function_def ebind_apply elift_def)
  have "receive_chunks rc limit [] 0 w = Some (Inr (Some chunks), w0)" using chunks by (simp add: receive_iff)
  then show ?thesis
    using at call app_args_check [OF limit, of num other rc sd]
    by (simp add: customer_app_def call_from_receive_def scope decoded_body_def merge_chunks_concat app_args_def)
qed

lemma app_answers_post:
  assumes posted: "posted num limit h scope rc w ms j w0"
    and limit: "case limit of None \<Rightarrow> True | Some n \<Rightarrow> int n \<le> max_safe_integer"
    and request: "map_of ms (js ''x-request-id'') = Some request"
    and run: "service (posted_heap ms j) (VObj 3) w0 = (r, w2)" and d: "post_response request r = Inr d"
    and answer: "re_test header_value_form (response_request d)" "body_json other (Reply (response_body d)) = Inr jb"
  shows "customer_app service num other limit h scope (Given rc) (Given sd) w =
    Some (send_all sd (answer_events (response_status d) (request_headers (response_request d)) jb) w2)"
proof -
  obtain chunks where scope: "scope_view h scope = Inr (Some (js ''POST'', js ''/customers'', ms))"
    and chunks: "delivered rc limit 0 w chunks w0" and j: "body_value num (concat chunks) = Some j"
    using posted by (auto simp: posted_def)
  obtain hb v where at: "json_at body_address j = (hb, v)" by (cases "json_at body_address j")
  have object: "\<exists>ms. j = JsonObj ms" using j by (auto simp: body_value_def split: if_splits option.splits json.splits)
  then have "v = VObj body_address" using at by (auto simp: json_at_def split: prod.splits)
  moreover have "is_ordinary hb v" using object json_at_ordinary [OF at] by simp
  ultimately have "customer_handler service (message_heap 0 (js ''POST'') (js ''/customers'') ms hb v) (VObj 0) w0 =
      (Inr (literal_answer (response_status d) (request_header (response_request d)) (Reply (response_body d))), w2)"
    by (intro handler_posted [where a = body_address and service = service and j = j and ms = ms and w = w0,
        OF scope_view_wf [OF scope] at _ _ _ request run d]) (simp_all add: body_address_def)
  then have route: "router_handle (customer_routes service) (message_heap 0 (js ''POST'') (js ''/customers'') ms hb v) (VObj 0) w0 =
      (Inr (literal_answer (response_status d) (request_header (response_request d)) (Reply (response_body d))), w2)"
    by (simp add: customer_router [OF message_is_read])
  have decoded: "decode_json_body num (concat chunks) = Inr (hb, v)" using j at by (auto simp: decode_json_body_iff)
  have "100 \<le> response_status d" "response_status d \<le> 599"
    using d by (auto simp: post_response_def result_response_def conflict_response_def split: sum.splits if_splits service_result.splits)
  from app_served [OF scope chunks limit decoded route answer_encoded [OF answer(1) this answer(2)]] show ?thesis .
qed

lemma app_answers_created:
  assumes "posted num limit h scope rc w ms j w0"
    and "case limit of None \<Rightarrow> True | Some n \<Rightarrow> int n \<le> max_safe_integer"
    and "map_of ms (js ''x-request-id'') = Some request"
    and "service (posted_heap ms j) (VObj 3) w0 = (Inr (Committed request receipt), w2)"
    and "re_test header_value_form request" "receipt_json other receipt = Inr jr"
  shows "customer_app service num other limit h scope (Given rc) (Given sd) w = Some (send_all sd (created_events request jr) w2)"
  using app_answers_post [where service = service, OF assms(1-4), of "result_response (Committed request receipt)" other
      "JsonObj [(js ''commitReceipt'', jr)]" sd] assms(5,6)
  by (simp add: post_response_def result_response_def body_json_def created_events_def)

text \<open>
  What the application needs of the service it is put over: it answers a commit only with a record of
  one, in words a header can carry, and leaves the store alone otherwise.
\<close>

locale recording_service =
  fixes service :: "'w service"
    and view :: "'w \<Rightarrow> 'k"
    and good :: "'k \<Rightarrow> bool"
    and recorded :: "heap \<Rightarrow> jsval \<Rightarrow> 'w \<Rightarrow> 'k \<Rightarrow> js_string \<Rightarrow> jsval \<Rightarrow> bool"
    and other :: "jsval \<Rightarrow> json outcome"
  assumes outcome: "good (view w) \<Longrightarrow> service h spec w = (res, w1) \<Longrightarrow> case res of
      Inr (Committed request receipt) \<Rightarrow> recorded h spec w (view w1) request receipt
    | _ \<Rightarrow> view w1 = view w"
    and printable: "recorded h spec w k request receipt \<Longrightarrow> re_test header_value_form request"
    and rendered: "recorded h spec w k request receipt \<Longrightarrow> \<exists>j. receipt_json other receipt = Inr j"
begin

lemma handler_outcome:
  assumes "customer_handler service h message w = (r, w1)" "good (view w)"
  obtains (kept) "view w1 = view w" "\<And>reply. r = Inr reply \<Longrightarrow> \<exists>status. literal_status reply status \<and> status \<noteq> 201"
  | (made) m ps request receipt where "message_shape h message = Inr (Some m)" "delivery_request h m = Inr ps"
      "recorded (action_heap_of h ps) (VObj 3) w (view w1) request receipt"
      "r = Inr (literal_answer 201 (request_header request) (Reply (ReceiptBody receipt)))"
proof -
  obtain q w2 where q: "http_handle (request_handle service) 2 h message w = (q, w2)" by force
  have r: "w2 = w1" "r = (case q of Inl e \<Rightarrow> Inl e
      | Inr x \<Rightarrow> Inr (literal_answer (http_status x) (http_headers x) (Reply (http_body x))))"
    using assms(1) q by (auto simp: customer_handler_def ebind_apply split: sum.splits)
  have unmade: thesis if "view w1 = view w" "\<And>x. q = Inr x \<Longrightarrow> http_status x \<noteq> 201"
    using that kept r by (cases q) (auto simp: literal_answer_status)
  from q show thesis
  proof (cases rule: http_handle_cases)
    case refused
    have "view w1 = view w" using refused(1) r(1) by simp
    moreover have "\<forall>x. q = Inr x \<longrightarrow> http_status x \<noteq> 201" using refused(2) by fastforce
    ultimately show thesis using unmade by blast
  next
    case (asked m ps a i)
    note told = outcome [OF assms(2) asked(5)]
    show thesis
    proof (cases a)
      case (Inl e)
      with asked told r(1) show thesis
        by (intro unmade) (auto simp: to_http_response_def conflict_response_def split: if_splits)
    next
      case (Inr result)
      show thesis
      proof (cases result)
        case (Committed request receipt)
        with asked told Inr r made [OF asked(1,4), of request receipt] show thesis
          by (simp add: to_http_response_def result_response_def)
      next
        case (NotCommitted v request e)
        with asked told Inr r(1) show thesis
          by (intro unmade) (auto simp: to_http_response_def result_response_def)
      qed
    qed
  qed
qed

lemma router_outcome:
  assumes run: "router_handle (customer_routes service) (message_heap 0 verb path ms hb body) (VObj 0) w = (r, w1)"
    and "good (view w)" "headers_wf ms"
  obtains (kept) "view w1 = view w" "\<And>reply. r = Inr reply \<Longrightarrow> \<exists>status. literal_status reply status \<and> status \<noteq> 201"
  | (made) request receipt where "verb = js ''POST''" "path = js ''/customers''"
      "recorded (action_heap_of (message_heap 0 verb path ms hb body) (request_fields ms body)) (VObj 3) w (view w1) request receipt"
      "r = Inr (literal_answer 201 (request_header request) (Reply (ReceiptBody receipt)))"
proof (cases "verb = js ''POST'' \<and> path = js ''/customers''")
  case True
  with run have "customer_handler service (message_heap 0 verb path ms hb body) (VObj 0) w = (r, w1)"
    by (simp add: customer_router [OF message_is_read])
  from this assms(2) show thesis
  proof (cases rule: handler_outcome)
    case kept
    then show thesis by (rule that(1))
  next
    case (made m ps request receipt)
    have "ps = request_fields ms body"
      using made(2) delivery_request_of [OF assms(3)] unfolding message_shape_of [OF made(1)] by simp
    with made True that(2) show thesis by blast
  qed
next
  case False
  with run have "w1 = w" "r = Inr (router_error 405 ''METHOD_NOT_SUPPORTED'') \<or> r = Inr (router_error 404 ''ROUTE_NOT_FOUND'')"
    by (auto simp: customer_router [OF message_is_read])
  then show thesis
    by (intro that(1)) (auto simp: router_error_def literal_answer_status)
qed

lemma handle_outcome:
  assumes run: "asgi_handle (router_handle (customer_routes service)) 0 h scope hb body w = (r, w1)" and "good (view w)"
    and scope: "scope_view h scope = Inr (Some (verb, path, ms))"
  obtains (kept) "view w1 = view w" "\<And>evs. r = Inr evs \<Longrightarrow> \<exists>status hs rest. evs = ResponseStart status hs # rest \<and> status \<noteq> 201"
  | (made) request receipt where "verb = js ''POST''" "path = js ''/customers''"
      "recorded (action_heap_of (message_heap 0 verb path ms hb body) (request_fields ms body)) (VObj 3) w (view w1) request receipt"
      "r = to_response_events (literal_answer 201 (request_header request) (Reply (ReceiptBody receipt)))"
proof -
  obtain q w2 where q: "router_handle (customer_routes service) (message_heap 0 verb path ms hb body) (VObj 0) w = (q, w2)" by force
  then have r: "w2 = w1" "r = rbind q to_response_events"
    using run by (auto simp: asgi_handle_def scope ebind_apply split: sum.splits)
  from q assms(2) scope_view_wf [OF scope] show thesis
  proof (cases rule: router_outcome)
    case kept
    show thesis
    proof (rule that(1))
      show "view w1 = view w" using kept(1) r(1) by simp
      fix evs assume "r = Inr evs"
      then obtain reply where "q = Inr reply" "to_response_events reply = Inr evs" using r(2) by (auto simp: rbind_eq_Inr)
      with kept(2) events_status show "\<exists>status hs rest. evs = ResponseStart status hs # rest \<and> status \<noteq> 201" by blast
    qed
  next
    case (made request receipt)
    with r that(2) show thesis by simp
  qed
qed

text \<open>Once the body is there: the whole answer to a commit is sent, or the store is as it was.\<close>

lemma call_outcome:
  assumes run: "asgi_call (router_handle (customer_routes service)) 0 h scope hb body (Given sd) (Given (encode_json_body other))
      (Given encode_utf8_header_part) w = (res, w1)" and "good (view w)" and sends: "\<And>ev. keeps view (sd ev)"
    and scope: "scope_view h scope = Inr (Some (verb, path, ms))"
  obtains (kept) "view w1 = view w" "\<not> answered_created res"
  | (made) request receipt jr w2 where "verb = js ''POST''" "path = js ''/customers''"
      "recorded (action_heap_of (message_heap 0 verb path ms hb body) (request_fields ms body)) (VObj 3) w (view w2) request receipt"
      "receipt_json other receipt = Inr jr" "send_all sd (created_events request jr) w2 = (res, w1)"
proof -
  obtain r w2 where r: "asgi_handle (router_handle (customer_routes service)) 0 h scope hb body w = (r, w2)" by force
  have run: "(case rbind r (encode_events (Some (encode_json_body other)) (Some encode_utf8_header_part)) of
      Inl e \<Rightarrow> (Inl e, w2) | Inr evs \<Rightarrow> send_all sd evs w2) = (res, w1)"
    using run r by (auto simp: asgi_call_def need_function_def optional_function_def ebind_apply split: sum.splits)
  from r assms(2) scope show thesis
  proof (cases rule: handle_outcome)
    case kept
    show thesis
    proof (rule that(1))
      show "view w1 = view w"
        using run kept(1) keeps_send_all [of view sd, OF sends, THEN keepsD] by (auto split: sum.splits)
      show "\<not> answered_created res"
      proof
        assume "answered_created res"
        then obtain hs rest where res: "res = Inr (ResponseStart 201 hs # rest)" by (auto simp: answered_created_def)
        then obtain evs where evs: "rbind r (encode_events (Some (encode_json_body other)) (Some encode_utf8_header_part)) = Inr evs"
          and "send_all sd evs w2 = (res, w1)" using run by (auto split: sum.splits)
        then have "evs = ResponseStart 201 hs # rest" using res by (auto simp: send_all_iff)
        moreover obtain raw where raw: "r = Inr raw"
          and enc: "encode_events (Some (encode_json_body other)) (Some encode_utf8_header_part) raw = Inr evs"
          using evs by (auto simp: rbind_eq_Inr)
        moreover from kept(2) [OF raw] obtain status hs1 rest1 where
          "raw = ResponseStart status hs1 # rest1" "status \<noteq> 201" by blast
        ultimately show False using encoded_status by fastforce
      qed
    qed
  next
    case (made request receipt)
    from rendered [OF made(3)] obtain jr where jr: "receipt_json other receipt = Inr jr" by blast
    have "send_all sd (created_events request jr) w2 = (res, w1)"
      using run created_encoded [OF printable [OF made(3)] jr] by (simp add: made(4))
    with made jr that(2) show thesis by blast
  qed
qed

lemma app_outcome:
  assumes run: "customer_app service num other limit h scope (Given rc) (Given sd) w = Some (res, w1)"
    and receives: "keeps view rc" and sends: "\<And>ev. keeps view (sd ev)" and good: "good (view w)"
  obtains (kept) "view w1 = view w" "\<not> answered_created res"
  | (made) ms j w0 w2 request receipt jr where "posted num limit h scope rc w ms j w0" "view w0 = view w"
      "recorded (posted_heap ms j) (VObj 3) w0 (view w2) request receipt"
      "receipt_json other receipt = Inr jr" "send_all sd (created_events request jr) w2 = (res, w1)"
proof -
  let ?args = "app_args num other limit (Given rc) (Given sd)"
  have quiet: thesis if "w1 = w" "\<not> answered_created res" using that kept by blast
  show thesis
  proof (cases "check_args ?args")
    case (Inl e)
    with run show thesis by (intro quiet) (auto simp: customer_app_def call_from_receive_def answered_created_def)
  next
    case (Inr c)
    note c = app_args_checked [OF Inr]
    have errors: "keeps view (send_error_events c)" by (rule error_events_keep) (simp add: c sends)
    show thesis
    proof (cases "scope_view h scope")
      case (Inl e)
      with run Inr show thesis by (intro quiet) (auto simp: customer_app_def call_from_receive_def answered_created_def)
    next
      case view: (Inr scoped)
      show thesis
      proof (cases scoped)
        case None
        with run Inr view have "send_error_events c w = (res, w1)" by (simp add: customer_app_def call_from_receive_def)
        with errors kept error_events_refused show thesis by (metis keepsD)
      next
        case (Some mpm)
        obtain verb path ms where scope: "scope_view h scope = Inr (Some (verb, path, ms))"
          using view Some by (cases mpm) auto
        obtain r w0 where r: "receive_chunks rc limit [] 0 w = Some (r, w0)"
          using run Inr scope c by (cases "receive_chunks rc limit [] 0 w") (auto simp: customer_app_def call_from_receive_def)
        have w0: "view w0 = view w" using receive_keeps [OF receives r] by simp
        consider (thrown) e where "r = Inl e" | (refused) "r = Inr None" | (read) chunks where "r = Inr (Some chunks)"
          by (metis not_None_eq old.sum.exhaust)
        then show thesis
        proof cases
          case thrown
          with run Inr scope c r w0 kept show thesis
            by (auto simp: customer_app_def call_from_receive_def answered_created_def)
        next
          case refused
          with run Inr scope c r have "send_error_events c w0 = (res, w1)" by (simp add: customer_app_def call_from_receive_def)
          with errors kept error_events_refused w0 show thesis by (metis keepsD)
        next
          case (read chunks)
          note rest = run [unfolded customer_app_def call_from_receive_def, simplified, unfolded Inr, simplified, unfolded scope,
              simplified, unfolded c, simplified, unfolded r read, simplified]
          have chunks: "delivered rc limit 0 w chunks w0" using r read by (simp add: receive_iff)
          show thesis
          proof (cases "decode_json_body num (concat chunks)")
            case (Inl e)
            with rest have "send_error_events c w0 = (res, w1)"
              by (simp add: decoded_body_def merge_chunks_concat c)
            with errors kept error_events_refused w0 show thesis by (metis keepsD)
          next
            case hv: (Inr hv)
            obtain hb v where at: "hv = (hb, v)" by (cases hv)
            with rest hv have call: "asgi_call (router_handle (customer_routes service)) 0 h scope hb v (Given sd)
                (Given (encode_json_body other)) (Given encode_utf8_header_part) w0 = (res, w1)"
              by (simp add: decoded_body_def merge_chunks_concat app_args_def)
            obtain j where j: "body_value num (concat chunks) = Some j" "json_at body_address j = (hb, v)"
              using hv at by (auto simp: decode_json_body_iff)
            have "good (view w0)" using good w0 by simp
            from call this sends scope show thesis
            proof (cases rule: call_outcome)
              case kept
              with that(1) w0 show thesis by simp
            next
              case (made request receipt jr w2)
              have "posted num limit h scope rc w ms j w0"
                using scope chunks j(1) made(1,2) by (auto simp: posted_def)
              moreover have "recorded (posted_heap ms j) (VObj 3) w0 (view w2) request receipt"
                using made(1-3) j(2) by (simp add: posted_heap_def)
              ultimately show thesis using w0 made(4,5) that(2) by blast
            qed
          qed
        qed
      qed
    qed
  qed
qed

end

end
