(* ===== verification/Asgi_Created.thy ===== *)
theory Asgi_Created
  imports Asgi_Service Customer_Admission
begin

text \<open>
  The application over the composed services, from the bytes of a request to the rows of a customer.
\<close>

section \<open>The action that was posted\<close>

lemma posted_heap_literal:
  assumes "json_at body_address j = (hb, v)"
  shows "posted_heap ms j 3 = plain_object (request_fields ms v)" and "4 \<le> a \<Longrightarrow> posted_heap ms j a = hb a"
  using assms by (simp_all add: posted_heap_def action_heap_of_def message_heap_def)

lemma posted_fields:
  assumes at: "json_at body_address j = (hb, v)" and shape: "shape_check sha (posted_heap ms j) ref (VObj 3) = Inr s"
  shows "map_of ms (js ''x-request-id'') = Some (correlation_value (shaped_correlation s))"
    and "map_of ms (js ''x-actor-id'') = Some (actor_value (shaped_actor s))"
    and "map_of ms (js ''x-tenant-id'') = Some (tenant_value (shaped_tenant s))"
    and "\<exists>k. map_of ms (js ''idempotency-key'') = Some k \<and> fingerprint (shaped_key s) = sha k"
    and "shaped_payload s = v"
proof -
  let ?h = "posted_heap ms j"
  note h = posted_heap_literal(1) [OF at]
  note reads = read_plain_object [where h = ?h and r = 3, OF h]
  have fields: "read_key ?h 3 (js ''requestId'') = Inr (optional_text (map_of ms (js ''x-request-id'')))"
    "read_key ?h 3 (js ''actorId'') = Inr (optional_text (map_of ms (js ''x-actor-id'')))"
    "read_key ?h 3 (js ''tenantId'') = Inr (optional_text (map_of ms (js ''x-tenant-id'')))"
    "read_key ?h 3 (js ''idempotencyKey'') = Inr (optional_text (map_of ms (js ''idempotency-key'')))"
    "read_key ?h 3 (js ''payload'') = Inr v"
    unfolding reads by (simp_all add: request_fields_def)
  have text_of: "optional_text m = VStr s \<longleftrightarrow> m = Some s" for m s by (simp add: optional_text_def split: option.splits)
  obtain r where "ordinary_options ?h (VObj 3) action_spec_keys (js ''ActionSpec needs an ordinary object'')
      (js ''ActionSpec must carry exactly these keys: '' @ comma_list action_spec_keys) = Inr r"
    using shape unfolding shape_check_def rbind_eq_Inr by blast
  then have "r = 3" by (simp add: ordinary_options_iff)
  from shape show "map_of ms (js ''x-request-id'') = Some (correlation_value (shaped_correlation s))"
    "map_of ms (js ''x-actor-id'') = Some (actor_value (shaped_actor s))"
    "map_of ms (js ''x-tenant-id'') = Some (tenant_value (shaped_tenant s))"
    "\<exists>k. map_of ms (js ''idempotency-key'') = Some k \<and> fingerprint (shaped_key s) = sha k"
    "shaped_payload s = v"
    by (auto simp: shape_check_def rbind_eq_Inr ordinary_options_iff fields correlation_id_new_def actor_id_new_def tenant_id_new_def
        idempotency_key_new_def canonical_uuid_eq_Inr fingerprint_of_eq_Inr result_simps text_of)
qed

lemma body_keys_distinct: "body_value num bs = Some j \<Longrightarrow> keys_distinct j"
  using json_parse_keys_distinct [of num _ j]
  by (auto simp: body_value_def split: if_splits option.splits json.splits)

lemma posted_payload:
  assumes "keys_distinct j" and shape: "shape_check sha (posted_heap ms j) ref (VObj 3) = Inr s"
    and "payload_json (posted_heap ms j) s = Some p"
  shows "p = sorted_form j"
proof -
  obtain hb v where at: "json_at body_address j = (hb, v)" by (cases "json_at body_address j")
  obtain os where all: "allocate j body_address = (v, os)" and hb: "hb = placed body_address os"
    using at by (auto simp: json_at_def split: prod.splits)
  have "canonical_object (posted_heap ms j) v (js ''a Command payload'') = Inr p"
    using assms(3) posted_fields(5) [OF at shape] by (auto simp: payload_json_def split: sum.splits)
  then have p: "plain_json (posted_heap ms j) max_depth v" "p = denoted (posted_heap ms j) max_depth v"
    by (simp_all add: canonical_object_iff plain_tree_def)
  have "lays (posted_heap ms j) body_address os"
    by (rule lays_placed) (simp add: posted_heap_literal(2) [OF at] hb body_address_def)
  from denoted_allocated [OF all this assms(1) p(1)] p(2) show ?thesis by simp
qed

section \<open>The composed services keep the contract\<close>

lemma hyphenated_printable: "list_all is_hex s \<Longrightarrow> list_all (in_class [(0x20, 0x7E)]) s"
  by (auto simp: list_all_iff is_hex_def word_le_nat_alt)

lemma uuid_printable: "uuid_ok s \<Longrightarrow> re_test header_value_form s"
proof -
  assume "uuid_ok s"
  then have "uuid_shape s" by (simp add: uuid_ok_def uuid_form_shape)
  then have "list_all (in_class [(0x20, 0x7E)]) s"
    using hyphenated_printable by (auto simp: uuid_shape_def)
  then show ?thesis unfolding re_test_lang header_value_form_def lang_Star_Class .
qed

lemma request_printable: "shape_check sha h ref spec = Inr s \<Longrightarrow> re_test header_value_form (request_of s)"
  by (intro uuid_printable)
    (auto simp: shape_check_def rbind_eq_Inr correlation_id_new_def canonical_uuid_eq_Inr request_of_def)

definition recorded_commit ::
    "(tenant_id \<Rightarrow> actor_id \<Rightarrow> policy_request \<Rightarrow> bool) \<Rightarrow> (js_string \<Rightarrow> js_string) \<Rightarrow> 'e customer_ports \<Rightarrow> nat \<Rightarrow> commit_entry list
     \<Rightarrow> heap \<Rightarrow> jsval \<Rightarrow> ('e, app_db, 'l) kernel \<Rightarrow> app_tables \<Rightarrow> js_string \<Rightarrow> jsval \<Rightarrow> bool" where
  "recorded_commit admits sha ports ref es h spec w = admitted_commit admits sha ports h ref spec (fst w) es"

lemma recorded_printable: "recorded_commit admits sha ports ref es h spec w tabs request receipt \<Longrightarrow> re_test header_value_form request"
  by (auto simp: recorded_commit_def admitted_commit_def intro: request_printable)

lemma recorded_rendered: "recorded_commit admits sha ports ref es h spec w tabs request receipt \<Longrightarrow>
    \<exists>j. receipt_json other receipt = Inr j"
  by (auto simp: recorded_commit_def admitted_commit_def receipt_json_def private_read_def)

context customer_point begin

text \<open>Any composed service over a decision point of this kind records what it commits.\<close>

lemma service_records:
  assumes "\<forall>witness g. guard = Some witness \<longrightarrow> keeps app_part (witness g)"
  shows "recording_service (\<lambda>h spec. service_over sha (substrate_client sub) (pipeline_over ports decide guard) h ref spec)
    (\<lambda>w. adb_rows (app_part w)) (\<lambda>tabs. tabs = tables_of es) (recorded_commit admits sha ports ref es) other"
proof (rule recording_service.intro)
  fix w :: "('e, app_db, 'l) kernel" and h spec res w1
  assume es: "adb_rows (app_part w) = tables_of es"
    and run: "service_over sha (substrate_client sub) (pipeline_over ports decide guard) h ref spec w = (res, w1)"
  from service_outcome [OF assms es run] es
  show "case res of Inr (Committed request receipt) \<Rightarrow>
      recorded_commit admits sha ports ref es h spec w (adb_rows (app_part w1)) request receipt
    | _ \<Rightarrow> adb_rows (app_part w1) = adb_rows (app_part w)"
    by (auto simp: recorded_commit_def split: sum.splits service_result.splits)
qed (rule recorded_printable recorded_rendered, assumption)+

end

abbreviation (input) admits_of :: "policy_statement list \<Rightarrow> tenant_id \<Rightarrow> actor_id \<Rightarrow> policy_request \<Rightarrow> bool" where
  "admits_of ss \<equiv> \<lambda>t a q. statements_wf ss \<longrightarrow> policy_admits ss t a q"

interpretation plain_app: recording_service
    "\<lambda>h spec. plain_service sha (wired\<lparr>port_candidates := resolver_source ss\<rparr>) (substrate_client sub) h ref spec"
    "\<lambda>w. adb_rows (app_part w)" "\<lambda>tabs. tabs = tables_of es"
    "recorded_commit (admits_of ss) sha (wired\<lparr>port_candidates := resolver_source ss\<rparr>) ref es" other
  for sha wired ss sub ref es other
  unfolding plain_service_def by (rule plain.service_records) simp

lemma auditor_guard_keeps:
  "\<forall>witness g. Some (guard_auditor sha (audited_services sha ports ids now lcl)) = Some witness \<longrightarrow> keeps app_part (witness g)"
  using guard_auditor_keeps by auto

interpretation audited_app: recording_service
    "\<lambda>h spec. audited_service sha (wired\<lparr>port_candidates := resolver_source ss\<rparr>) ids now lcl (substrate_client sub) h ref spec"
    "\<lambda>w. adb_rows (app_part w)" "\<lambda>tabs. tabs = tables_of es"
    "recorded_commit (admits_of ss) sha (wired\<lparr>port_candidates := resolver_source ss\<rparr>) ref es" other
  for sha wired ss ids now lcl sub ref es other
  unfolding audited_service_def Let_def by (rule audited.service_records) (rule auditor_guard_keeps)

section \<open>From bytes to rows\<close>

text \<open>The rows of a commit hold what the headers and the body of the post said.\<close>

definition records_post :: "(js_string \<Rightarrow> js_string) \<Rightarrow> header_list \<Rightarrow> json \<Rightarrow> commit_entry \<Rightarrow> bool" where
  "records_post sha ms j e \<longleftrightarrow> (\<exists>t k.
     map_of ms (js ''x-tenant-id'') = Some t \<and> map_of ms (js ''idempotency-key'') = Some k \<and>
     map_of ms (js ''x-request-id'') = Some (receipt_request_id (entry_receipt e)) \<and>
     commit_key e = (t, sha k) \<and> cust_tenant (entry_customer e) = t \<and> cust_payload (entry_customer e) = sorted_form j \<and>
     audit_tenant (entry_audit e) = t \<and> receipt_tenant_id (entry_receipt e) = t)"

text \<open>
  Who asked: the tenant and the actor of the headers are the authenticated ones, and creating a customer
  with that body is admitted.
\<close>

definition asked_by ::
    "(tenant_id \<Rightarrow> actor_id \<Rightarrow> policy_request \<Rightarrow> bool) \<Rightarrow> 'e customer_ports \<Rightarrow> 'e \<Rightarrow> header_list \<Rightarrow> json \<Rightarrow> bool" where
  "asked_by admits ports env ms j \<longleftrightarrow> (\<exists>t a p c env1.
     map_of ms (js ''x-tenant-id'') = Some (tenant_value t) \<and> map_of ms (js ''x-actor-id'') = Some (actor_value a) \<and>
     port_current ports () env = (Inr (VInst (IPrincipal (Genuine p))), env1) \<and>
     p = \<lparr>principal_tenant = Genuine t, principal_actor = Genuine a\<rparr> \<and>
     command_name c = js ''customer.create'' \<and> command_payload c = sorted_form j \<and>
     admits t a (customer_request p c))"

lemma posted_commit:
  assumes "recorded_commit admits sha ports ref es (posted_heap ms j) (VObj 3) w0 tabs request receipt"
    and j: "keys_distinct j"
  shows "\<exists>e es1. asked_by admits ports (fst w0) ms j \<and> records_post sha ms j e \<and> take_commit e es = Some es1 \<and>
    tabs = tables_of es1 \<and> request = receipt_request_id (entry_receipt e) \<and> receipt = VInst (ICommitReceipt (Genuine (entry_receipt e)))"
proof -
  obtain hb v where at: "json_at body_address j = (hb, v)" by (cases "json_at body_address j")
  obtain s p i env1 e es1 where shape: "shape_check sha (posted_heap ms j) ref (VObj 3) = Inr s"
    and payload: "payload_json (posted_heap ms j) s = Some p"
    and caller: "port_current ports () (fst w0) = (Inr (VInst (IPrincipal (Genuine i))), env1)"
      "i = \<lparr>principal_tenant = Genuine (shaped_tenant s), principal_actor = Genuine (shaped_actor s)\<rparr>"
    and admits: "admits (shaped_tenant s) (shaped_actor s) (customer_request i (customer_command_with i s p))"
    and made: "receipt = VInst (ICommitReceipt (Genuine (entry_receipt e)))" "committed_for (shaped_tenant s) (shaped_key s) p (request_of s) e"
      "request = request_of s" "take_commit e es = Some es1" "tabs = tables_of es1"
    using assms(1) unfolding recorded_commit_def admitted_commit_def by blast
  note fields = posted_fields [OF at shape]
  have p: "p = sorted_form j" by (rule posted_payload [OF j shape payload])
  have "asked_by admits ports (fst w0) ms j"
    unfolding asked_by_def using fields(2,3) caller admits p
    by (intro exI [of _ "shaped_tenant s"] exI [of _ "shaped_actor s"] exI [of _ i] exI [of _ "customer_command_with i s p"])
      (auto simp: customer_command_with_def)
  moreover have "records_post sha ms j e"
    using fields(1,3,4) made(2) p by (auto simp: records_post_def committed_for_def request_of_def)
  ultimately show ?thesis using made by (auto simp: committed_for_def)
qed

lemma posted_keys_distinct: "posted num limit h scope rc w ms j w0 \<Longrightarrow> keys_distinct j"
  by (auto simp: posted_def intro: body_keys_distinct)

text \<open>
  C1. From bytes to rows. A call of the composed application - plain or audited - either leaves every
  table as it was and does not answer 201, or it was a POST of /customers whose headers name the
  authenticated tenant and actor, with a body the policies admit; then exactly one commit is added,
  for that tenant, under the hash of its idempotency key, with the posted value as its payload, and
  the one thing sent is 201 with the receipt of that commit.
\<close>

theorem posted_customer_or_none:
  assumes "service = (\<lambda>h spec. plain_service sha ports (substrate_client sub) h ref spec) \<or>
      service = (\<lambda>h spec. audited_service sha ports ids now lcl (substrate_client sub) h ref spec)"
    and "port_candidates ports = resolver_source ss" and "statements_wf ss"
    and "keeps app_part rc" and "\<And>ev. keeps app_part (sd ev)" and "adb_rows (app_part w) = tables_of es"
    and "customer_app service num other limit h scope (Given rc) (Given sd) w = Some (res, w1)"
  shows "(adb_rows (app_part w1) = tables_of es \<and> \<not> answered_created res) \<or>
    (\<exists>ms j w0 w2 e es1. posted num limit h scope rc w ms j w0 \<and> asked_by (policy_admits ss) ports (fst w0) ms j \<and> records_post sha ms j e \<and>
       take_commit e es = Some es1 \<and> adb_rows (app_part w1) = tables_of es1 \<and>
       send_all sd (created_events (receipt_request_id (entry_receipt e)) (commit_receipt_to_json (entry_receipt e))) w2 = (res, w1))"
proof -
  let ?view = "\<lambda>w. adb_rows (app_part w)"
  have ports: "ports\<lparr>port_candidates := resolver_source ss\<rparr> = ports" using assms(2) by (cases ports) simp
  have admits: "admits_of ss = policy_admits ss" by (simp add: fun_eq_iff assms(3))
  have frames: "keeps ?view rc" "keeps ?view (sd ev)" for ev
    using assms(4,5) by (simp_all add: keeps_def) metis+
  have ends: ?thesis if m: "posted num limit h scope rc w ms j w0"
      "recorded_commit (admits_of ss) sha ports ref es (posted_heap ms j) (VObj 3) w0 (?view w2) request receipt"
      "receipt_json other receipt = Inr jr" "send_all sd (created_events request jr) w2 = (res, w1)"
    for ms j w0 w2 request receipt jr
  proof -
    from posted_commit [OF m(2) posted_keys_distinct [OF m(1)], unfolded admits] obtain e es1 where
      e: "asked_by (policy_admits ss) ports (fst w0) ms j" "records_post sha ms j e" "take_commit e es = Some es1"
        "?view w2 = tables_of es1" "request = receipt_request_id (entry_receipt e)"
        "receipt = VInst (ICommitReceipt (Genuine (entry_receipt e)))" by blast
    have "jr = commit_receipt_to_json (entry_receipt e)" using m(3) e(6) by (simp add: receipt_json_def private_read_def)
    moreover have "?view w1 = ?view w2" using keeps_send_all [of ?view sd, OF frames(2), THEN keepsD, OF m(4)] .
    ultimately show ?thesis
      using m(1,4) e
      by (intro disjI2 exI [of _ ms] exI [of _ j] exI [of _ w0] exI [of _ w2] exI [of _ e] exI [of _ es1] conjI) simp_all
  qed
  from assms(1) show ?thesis
  proof
    assume s: "service = (\<lambda>h spec. plain_service sha ports (substrate_client sub) h ref spec)"
    note run = assms(7) [unfolded s]
    show ?thesis
      by (rule plain_app.app_outcome [where wired = ports and ss = ss and es = es, unfolded ports, OF run frames assms(6)])
        (use assms(6) ends in \<open>auto intro: ends\<close>)
  next
    assume s: "service = (\<lambda>h spec. audited_service sha ports ids now lcl (substrate_client sub) h ref spec)"
    note run = assms(7) [unfolded s]
    show ?thesis
      by (rule audited_app.app_outcome [where wired = ports and ss = ss and es = es, unfolded ports, OF run frames assms(6)])
        (use assms(6) ends in \<open>auto intro: ends\<close>)
  qed
qed

end
