(* ===== verification/Asgi_Sample.thy ===== *)
theory Asgi_Sample
  imports Asgi_Created Customer_Created
begin

text \<open>
  One request from end to end: a scope with its four headers, a body of JSON bytes, and the customer
  that stands in the empty store afterwards.
\<close>

definition header_pair :: "string \<Rightarrow> js_string \<Rightarrow> js_object" where
  "header_pair name s = array_object [VStr (js name), VStr s]"

definition scope_heap :: heap where
  "scope_heap = (\<lambda>a.
     if a = 0 then plain_object [(''type'', VStr (js ''http'')), (''method'', VStr (js ''POST'')),
       (''path'', VStr (js ''/customers'')), (''headers'', VObj 1)]
     else if a = 1 then array_object [VObj 2, VObj 3, VObj 4, VObj 5]
     else if a = 2 then header_pair ''x-request-id'' other_tenant
     else if a = 3 then header_pair ''x-actor-id'' (js ''user:1'')
     else if a = 4 then header_pair ''x-tenant-id'' sample_tenant
     else header_pair ''idempotency-key'' (js ''k''))"

definition sample_headers :: header_list where
  "sample_headers = [(js ''x-request-id'', other_tenant), (js ''x-actor-id'', js ''user:1''),
     (js ''x-tenant-id'', sample_tenant), (js ''idempotency-key'', js ''k'')]"

definition sample_body :: bytes where
  "sample_body = utf8_encode (js ''{\"name\":\"Ada\"}'')"

definition event_heap :: heap where
  "event_heap = (\<lambda>a. if a = 0 then plain_object [(''type'', VStr (js ''http.request'')), (''body'', VObj 1)]
     else \<lparr>obj_proto = OtherPrototype 0, obj_kind = ByteArray sample_body, obj_props = []\<rparr>)"

abbreviation (input) one_event :: "'w receive" where
  "one_event \<equiv> \<lambda>w. (Inr (event_heap, VObj 0), w)"

abbreviation (input) ada :: json where
  "ada \<equiv> JsonObj [(js ''name'', JsonStr (js ''Ada''))]"

lemma element_read: "h r = array_object vs \<Longrightarrow> i < length vs \<Longrightarrow> read_key h r (dec_nat i) = Inr (vs ! i)"
  by (auto simp: read_key_def array_object_property [where h = h and r = r and vs = vs])

lemma index_texts: "js ''0'' = dec_nat 0" "js ''1'' = dec_nat 1"
  by code_simp+

lemma header_pair_read:
  assumes "h r = header_pair name s" "re_test header_name_form (js name)"
  shows "decode_pair h (VObj r) = Inr (Some (js name, s))"
proof -
  have h: "h r = array_object [VStr (js name), VStr s]" using assms(1) by (simp add: header_pair_def)
  note facts = array_object_facts(1,2) [where h = h and r = r, OF h]
  have "read_key h r (dec_nat 0) = Inr (VStr (js name))" "read_key h r (dec_nat 1) = Inr (VStr s)"
    using element_read [where h = h and r = r, OF h, of 0] element_read [where h = h and r = r, OF h, of 1] by simp_all
  with facts assms(2) show ?thesis by (simp add: decode_pair_def index_texts decode_header_part_def)
qed

lemma sample_names: "re_test header_name_form (js ''x-request-id'')" "re_test header_name_form (js ''x-actor-id'')"
  "re_test header_name_form (js ''x-tenant-id'')" "re_test header_name_form (js ''idempotency-key'')"
  "re_test http_token_form (js ''POST'')"
  by code_simp+

lemma sample_decoded: "decode_headers scope_heap (VObj 1) = Inr (Some sample_headers)"
proof -
  have h: "scope_heap 1 = array_object [VObj 2, VObj 3, VObj 4, VObj 5]" by (simp add: scope_heap_def)
  note facts = array_object_facts(1,2) [where h = scope_heap and r = 1, OF h]
  have "read_key scope_heap 1 (dec_nat 0) = Inr (VObj 2)" "read_key scope_heap 1 (dec_nat 1) = Inr (VObj 3)"
    "read_key scope_heap 1 (dec_nat 2) = Inr (VObj 4)" "read_key scope_heap 1 (dec_nat 3) = Inr (VObj 5)"
    using element_read [where h = scope_heap and r = 1, OF h, of 0] element_read [where h = scope_heap and r = 1, OF h, of 1]
      element_read [where h = scope_heap and r = 1, OF h, of 2] element_read [where h = scope_heap and r = 1, OF h, of 3]
    by simp_all
  moreover have "decode_pair scope_heap (VObj 2) = Inr (Some (js ''x-request-id'', other_tenant))"
    "decode_pair scope_heap (VObj 3) = Inr (Some (js ''x-actor-id'', js ''user:1''))"
    "decode_pair scope_heap (VObj 4) = Inr (Some (js ''x-tenant-id'', sample_tenant))"
    "decode_pair scope_heap (VObj 5) = Inr (Some (js ''idempotency-key'', js ''k''))"
    by (rule header_pair_read [OF _ sample_names(1)] header_pair_read [OF _ sample_names(2)]
        header_pair_read [OF _ sample_names(3)] header_pair_read [OF _ sample_names(4)], simp add: scope_heap_def)+
  moreover have "[0..<array_length scope_heap 1] = [0, 1, 2, 3]" unfolding facts(2) by (simp add: upt_rec)
  ultimately show ?thesis
    using facts(1) sample_names by (simp add: decode_headers_def put_header_def sample_headers_def del: One_nat_def)
qed

lemma sample_scope: "scope_view scope_heap (VObj 0) = Inr (Some (js ''POST'', js ''/customers'', sample_headers))"
proof -
  have h: "scope_heap 0 = plain_object [(''type'', VStr (js ''http'')), (''method'', VStr (js ''POST'')),
       (''path'', VStr (js ''/customers'')), (''headers'', VObj 1)]" by (simp add: scope_heap_def)
  note facts = plain_object_facts [where h = scope_heap and r = 0, OF h]
  have "is_array scope_heap (VObj 1)"
    using array_object_facts(1) [where h = scope_heap and r = 1 and vs = "[VObj 2, VObj 3, VObj 4, VObj 5]"] by (simp add: scope_heap_def)
  moreover have "valid_path (VStr (js ''/customers'')) = Some (js ''/customers'')" by code_simp
  ultimately show ?thesis
    using facts(2) sample_names sample_decoded
    by (simp add: scope_view_def valid_scope_def facts(4) valid_method_def del: One_nat_def)
qed

lemma sample_body_bytes: "length sample_body = 14"
  by code_simp

lemma sample_chunk: "next_chunk (Some 64) 0 event_heap (VObj 0) = Inr (Some (sample_body, False))"
proof -
  have h: "event_heap 0 = plain_object [(''type'', VStr (js ''http.request'')), (''body'', VObj 1)]" by (simp add: event_heap_def)
  note facts = plain_object_facts [where h = event_heap and r = 0, OF h]
  have "chunk_of event_heap (VObj 1) = Some sample_body" by (simp add: chunk_of_def event_heap_def)
  moreover have "more_wanted event_heap 0 = Inr (Some False)"
    by (simp add: more_wanted_def plain_object_property [where h = event_heap and r = 0, OF h])
  ultimately show ?thesis
    using facts(2) by (simp add: next_chunk_def facts(4) sample_body_bytes del: One_nat_def)
qed

lemma sample_value: "body_value (\<lambda>_. JInt 0) sample_body = Some ada"
proof -
  have whole: "render ada = js ''{\"name\":\"Ada\"}''" by code_simp
  have "list_all (\<lambda>c. c < 0x80) (js ''{\"name\":\"Ada\"}'')" by code_simp
  then have "text_decode True sample_body = Some (render ada)"
    unfolding sample_body_def whole by (intro utf8_round_trip) (use ascii_well_formed in blast)+
  moreover have "json_parse (\<lambda>_. JInt 0) (render ada) = Some ada" by (rule parse_render) simp_all
  moreover have "sample_body \<noteq> []" using sample_body_bytes by auto
  ultimately show ?thesis by (simp add: body_value_def)
qed

lemma sample_posted: "posted (\<lambda>_. JInt 0) (Some 64) scope_heap (VObj 0) one_event w sample_headers ada w"
proof -
  have "delivered one_event (Some 64) 0 w [sample_body] w"
    by (rule delivered.last [where h = event_heap and v = "VObj 0"]) (simp_all add: sample_chunk)
  then show ?thesis using sample_scope sample_value by (force simp: posted_def)
qed

section \<open>The customer is created\<close>

definition posted_shape :: shaped where
  "posted_shape = sample_shape\<lparr>shaped_payload := VObj body_address\<rparr>"

lemma ada_allocated: "json_at body_address ada = (placed body_address
    [\<lparr>obj_proto = ObjectPrototype, obj_kind = Plain, obj_props = [(KStr (js ''name''), Data (VStr (js ''Ada'')) True)]\<rparr>], VObj body_address)"
  by (simp add: json_at_def)

lemma posted_ada: "shape_check sample_sha (posted_heap sample_headers ada) 1 (VObj 3) = Inr posted_shape"
  and posted_captured: "captured_key (posted_heap sample_headers ada) (VObj 3) = VStr (js ''k'')"
proof -
  let ?h = "posted_heap sample_headers ada"
  have "request_fields sample_headers (VObj body_address) = [(''requestId'', VStr other_tenant), (''actorId'', VStr (js ''user:1'')),
     (''tenantId'', VStr sample_tenant), (''payload'', VObj body_address), (''idempotencyKey'', VStr (js ''k''))]"
    by (simp add: request_fields_def sample_headers_def optional_text_def)
  then have h: "?h 3 = plain_object [(''requestId'', VStr other_tenant), (''actorId'', VStr (js ''user:1'')),
     (''tenantId'', VStr sample_tenant), (''payload'', VObj body_address), (''idempotencyKey'', VStr (js ''k''))]"
    using posted_heap_literal(1) [OF ada_allocated, of sample_headers] by simp
  note facts = plain_object_facts [where h = ?h and r = 3, OF h]
  have "is_ordinary ?h (VObj 3)" "owns_exactly ?h 3 action_spec_keys"
    using facts(1,2) by (auto simp: action_spec_keys_def)
  moreover have reads: "read_key ?h 3 (js ''requestId'') = Inr (VStr other_tenant)"
    "read_key ?h 3 (js ''actorId'') = Inr (VStr (js ''user:1''))"
    "read_key ?h 3 (js ''tenantId'') = Inr (VStr sample_tenant)"
    "read_key ?h 3 (js ''payload'') = Inr (VObj body_address)"
    "read_key ?h 3 (js ''idempotencyKey'') = Inr (VStr (js ''k''))"
    unfolding facts(4) by simp_all
  moreover have "actor_id_new (VStr (js ''user:1'')) = Inr (ActorId (js ''user:1''))" by code_simp
  moreover have "raw_key_ok (js ''k'')" by code_simp
  ultimately show "shape_check sample_sha ?h 1 (VObj 3) = Inr posted_shape"
    using sample_uuids
    by (auto simp: shape_check_def rbind_eq_Inr ordinary_options_iff correlation_id_new_def tenant_id_new_def canonical_uuid_eq_Inr
        idempotency_key_new_def fingerprint_of_eq_Inr posted_shape_def sample_shape_def sample_correlation_def)
  show "captured_key ?h (VObj 3) = VStr (js ''k'')"
    using facts(2) reads by (simp add: captured_key_def facts)
qed

lemma posted_ada_payload: "payload_json (posted_heap sample_headers ada) posted_shape = Some ada"
proof -
  let ?h = "posted_heap sample_headers ada"
  have h: "?h body_address = plain_object [(''name'', VStr (js ''Ada''))]"
    using posted_heap_literal(2) [OF ada_allocated, of body_address sample_headers]
    by (simp add: placed_def plain_object_def body_address_def)
  have "canonical_object ?h (VObj body_address) (js ''a Command payload'') = Inr ada"
    using literal_denotes [where h = ?h and r = body_address and ks = "[''name'']", OF h] name_key
    by (simp add: canonical_object_iff is_atom_def atom_json_def)
  then show ?thesis by (simp add: payload_json_def posted_shape_def)
qed

text \<open>The place of the body is all that tells this action from the one the service is run on by itself.\<close>

lemma posted_same:
  "customer_command_with p posted_shape j = customer_command_with p sample_shape j"
  "change_set_of t a posted_shape j = change_set_of t a sample_shape j"
  "shaped_tenant posted_shape = TenantId sample_tenant" "shaped_actor posted_shape = ActorId (js ''user:1'')"
  "request_of posted_shape = other_tenant" "shaped_key posted_shape = shaped_key sample_shape"
  by (simp_all add: customer_command_with_def change_set_of_def request_of_def posted_shape_def sample_shape_def sample_correlation_def)

lemma posted_admissible:
  "admissible sample_sha sample_ports sample_statements (posted_heap sample_headers ada) 1 (VObj 3) () posted_shape ada"
  using sample_admissible posted_ada posted_ada_payload
  by (simp add: admissible_def posted_same Let_def) (simp add: sample_shape_def)

abbreviation (input) sample_world :: "(unit, app_db, unit) kernel" where
  "sample_world \<equiv> ((), empty_store, ())"

abbreviation (input) sample_plain :: "heap \<Rightarrow> jsval \<Rightarrow> ((unit, app_db, unit) kernel, thrown, service_result) eff" where
  "sample_plain \<equiv> \<lambda>h spec. plain_service sample_sha sample_ports (substrate_client sample_substrate) h 1 spec"

lemma posted_created:
  obtains w1 where "sample_plain (posted_heap sample_headers ada) (VObj 3) sample_world =
      (Inr (Committed other_tenant (VInst (ICommitReceipt (Genuine created_receipt)))), w1)"
    "adb_rows (app_part w1) = inserted sample_substrate sample_tenant created_intents 0 (adb_rows empty_store)"
proof -
  have store: "adb_faults (app_part sample_world) = []" "adb_next (app_part sample_world) = 0"
    and fresh: "\<not> key_used (adb_rows (app_part sample_world)) t k" for t k
    by (simp_all add: empty_store_def Let_def key_used_def)
  have tenant: "tenant_value (shaped_tenant posted_shape) = sample_tenant" by (simp add: posted_same)
  have "\<exists>w1. sample_plain (posted_heap sample_headers ada) (VObj 3) sample_world =
      (Inr (Committed other_tenant (VInst (ICommitReceipt (Genuine created_receipt)))), w1) \<and>
     adb_rows (app_part w1) = inserted sample_substrate sample_tenant created_intents 0 (adb_rows empty_store)"
    using admitted_created [where w = sample_world and s = posted_shape and i = created_intents and sub = sample_substrate
        and key = "js ''k''" and r = created_receipt, OF _ store(1), unfolded tenant posted_same(2-5) store(2)]
      posted_admissible created_prepared created_accepted created_made posted_captured fresh
    by simp
  with that show thesis by blast
qed

abbreviation (input) send_nothing :: "('w, 'b) send" where
  "send_nothing \<equiv> \<lambda>ev w. (Inr (), w)"

lemma sample_app_run:
  obtains w1 where "customer_app sample_plain (\<lambda>_. JInt 0) (\<lambda>_. type_error []) (Some 64) scope_heap (VObj 0)
      (Given one_event) (Given send_nothing) sample_world =
    Some (Inr (created_events other_tenant (commit_receipt_to_json created_receipt)), w1)"
proof -
  obtain w1 where service: "sample_plain (posted_heap sample_headers ada) (VObj 3) sample_world =
      (Inr (Committed other_tenant (VInst (ICommitReceipt (Genuine created_receipt)))), w1)"
    by (rule posted_created)
  have "re_test header_value_form other_tenant" by (rule uuid_printable [OF sample_uuids(2)])
  moreover have "receipt_json (\<lambda>_. type_error []) (VInst (ICommitReceipt (Genuine created_receipt))) = Inr (commit_receipt_to_json created_receipt)"
    by (simp add: receipt_json_def private_read_def)
  ultimately have "customer_app sample_plain (\<lambda>_. JInt 0) (\<lambda>_. type_error []) (Some 64) scope_heap (VObj 0)
      (Given one_event) (Given send_nothing) sample_world =
      Some (send_all send_nothing (created_events other_tenant (commit_receipt_to_json created_receipt)) w1)"
    by (intro app_answers_created [where service = sample_plain, OF sample_posted _ _ service]) (simp_all add: max_safe_integer_def sample_headers_def)
  moreover have "send_all send_nothing evs w1 = (Inr evs, w1)" for evs :: "delivery_body routed asgi_event list"
  proof -
    have "emap send_nothing evs w1 = (Inr (map (\<lambda>_. ()) evs), w1)" by (induction evs) (simp_all add: ebind_apply)
    then show ?thesis by (simp add: send_all_def ebind_apply)
  qed
  ultimately show thesis using that by simp
qed

theorem posted_customer_or_none_witness:
  "\<exists>w1 e es1. customer_app sample_plain (\<lambda>_. JInt 0) (\<lambda>_. type_error []) (Some 64) scope_heap (VObj 0)
      (Given one_event) (Given send_nothing) sample_world =
        Some (Inr (created_events other_tenant (commit_receipt_to_json created_receipt)), w1) \<and>
     take_commit e [] = Some es1 \<and> adb_rows (app_part w1) = tables_of es1 \<and> cust_payload (entry_customer e) = ada"
proof -
  obtain w1 where run: "customer_app sample_plain (\<lambda>_. JInt 0) (\<lambda>_. type_error []) (Some 64) scope_heap (VObj 0)
      (Given one_event) (Given send_nothing) sample_world =
    Some (Inr (created_events other_tenant (commit_receipt_to_json created_receipt)), w1)"
    by (rule sample_app_run)
  have rows: "adb_rows (app_part sample_world) = tables_of []" by (simp add: empty_store_def Let_def tables_of_def)
  have ports: "port_candidates sample_ports = resolver_source sample_statements" by (simp add: sample_ports_def)
  have answered: "answered_created (Inr (created_events other_tenant (commit_receipt_to_json created_receipt)))"
    by (simp add: answered_created_def created_events_def answer_events_def)
  have "\<exists>ms j w0 e es1. posted (\<lambda>_. JInt 0) (Some 64) scope_heap (VObj 0) one_event sample_world ms j w0 \<and>
      records_post sample_sha ms j e \<and> take_commit e [] = Some es1 \<and> adb_rows (app_part w1) = tables_of es1"
    using posted_customer_or_none [OF disjI1 [OF refl] ports sample_statements_wf _ _ rows run] answered
    by (simp add: keeps_def) blast
  then obtain ms j w0 e es1 where
    p: "posted (\<lambda>_. JInt 0) (Some 64) scope_heap (VObj 0) one_event sample_world ms j w0"
    and e: "records_post sample_sha ms j e" "take_commit e [] = Some es1" "adb_rows (app_part w1) = tables_of es1"
    by blast
  obtain chunks where chunks: "delivered one_event (Some 64) 0 sample_world chunks w0" "body_value (\<lambda>_. JInt 0) (concat chunks) = Some j"
    using p by (auto simp: posted_def)
  have "delivered one_event (Some 64) 0 sample_world [sample_body] sample_world"
    by (rule delivered.last [where h = event_heap and v = "VObj 0"]) (simp_all add: sample_chunk)
  with chunks(1) have "chunks = [sample_body]" by (simp add: receive_iff [symmetric])
  with chunks(2) sample_value have "j = ada" by simp
  with e(1) have "cust_payload (entry_customer e) = ada" by (auto simp: records_post_def)
  with run e show ?thesis by blast
qed

end
