(* ===== verification/Decision_Log_Composition.thy ===== *)
theory Decision_Log_Composition
  imports Customer_Audit
begin

text \<open>
  \<^verbatim>\<open>src/src/delivery/policy-decision-log-composition.mjs\<close>: a logging decision point over a list of
  statements and the decision log's adapter, behind a facade of three functions.
\<close>

section \<open>Construction\<close>

definition log_composition_keys :: "string list" where
  "log_composition_keys = [''connectionString'', ''statements'', ''idGenerator'', ''now'']"

definition check_log_composition :: "heap \<Rightarrow> jsval \<Rightarrow> (js_string \<times> jsval \<times> nat \<times> nat) outcome" where
  "check_log_composition h options = (let who = ''policyDecisionLogComposition'' in
     rbind (ordinary_options h options log_composition_keys
       (js (who @ '' needs exactly one ordinary options object''))
       (js (who @ '' options must carry exactly these keys: '') @ comma_list log_composition_keys)) (\<lambda>r.
     if \<not> list_all (\<lambda>k. enumerable_data (own_property h r k)) (own_keys h r)
     then type_error (js (who @ '' admits only ordinary own-enumerable data options''))
     else rbind (non_empty_option who (member_at h r (js ''connectionString''))) (\<lambda>connection.
       let statements = member_at h r (js ''statements'') in
       if \<not> (case statements of VObj a \<Rightarrow> is_array h statements \<and> obj_proto (h a) = ArrayPrototype | _ \<Rightarrow> False)
       then type_error (js (who @ '' statements must be an ordinary array''))
       else rbind (function_option who ''idGenerator'' (member_at h r (js ''idGenerator''))) (\<lambda>ids.
         rbind (function_option who ''now'' (member_at h r (js ''now''))) (\<lambda>now.
         Inr (connection, statements, ids, now))))))"

text \<open>The resolver checks its statements, in an object of its own at \<open>at\<close>; nothing after it can refuse.\<close>

definition policy_log_new :: "heap \<Rightarrow> nat \<Rightarrow> jsval \<Rightarrow> (js_string \<times> policy_statement list \<times> nat \<times> nat) outcome" where
  "policy_log_new h at options =
     rbind (check_log_composition h options) (\<lambda>(connection, statements, ids, now).
     rbind (resolver_new (h(at := plain_object [(''statements'', statements)])) (VObj at)) (\<lambda>ss.
     Inr (connection, ss, ids, now)))"

section \<open>The facade\<close>

definition policy_log_services ::
    "(js_string \<Rightarrow> js_string) \<Rightarrow> policy_statement list \<Rightarrow> ('e, thrown, jsval) eff
     \<Rightarrow> (unit \<Rightarrow> ('e, thrown, jsval) eff) \<Rightarrow> 'l sql_client \<Rightarrow> ('e, 'a, 'l) kernel log_services" where
  "policy_log_services sha ss ids now lcl = \<lparr>svc_candidates = resolver_source ss,
     svc_append = (\<lambda>v. ebind (at_log (adapter_append sha lcl v)) (\<lambda>_. eret VUndef)),
     svc_id = at_caller ids, svc_read_clock = (\<lambda>u. at_caller (now u)),
     svc_chain_head = (\<lambda>t. ebind (at_log (adapter_chain_head lcl (VInst (ITenantId t)))) (\<lambda>head.
       eret (case head of None \<Rightarrow> VNull | Some s \<Rightarrow> VStr s)))\<rparr>"

definition facade_decide ::
    "(js_string \<Rightarrow> js_string) \<Rightarrow> policy_statement list \<Rightarrow> ('e, thrown, jsval) eff \<Rightarrow> (unit \<Rightarrow> ('e, thrown, jsval) eff)
     \<Rightarrow> 'l sql_client \<Rightarrow> jsval \<Rightarrow> (('e, 'a, 'l) kernel, thrown, policy_decision) eff" where
  "facade_decide sha ss ids now lcl request = logging_decide sha (policy_log_services sha ss ids now lcl) request"

definition facade_decide_all ::
    "(js_string \<Rightarrow> js_string) \<Rightarrow> policy_statement list \<Rightarrow> ('e, thrown, jsval) eff \<Rightarrow> (unit \<Rightarrow> ('e, thrown, jsval) eff)
     \<Rightarrow> 'l sql_client \<Rightarrow> heap \<Rightarrow> jsval \<Rightarrow> (('e, 'a, 'l) kernel, thrown, policy_decision list) eff" where
  "facade_decide_all sha ss ids now lcl h requests =
     logging_decide_all sha (policy_log_services sha ss ids now lcl) h requests"

definition facade_close :: "('l, thrown, unit) eff \<Rightarrow> (('e, 'a, 'l) kernel, thrown, unit) eff" where
  "facade_close close_pool = at_log close_pool"

text \<open>These are the services of the audited customer composition with the resolver for its candidates.\<close>

lemma facade_services:
  "policy_log_services sha ss ids now lcl =
     audited_services sha \<lparr>port_current = current, port_candidates = resolver_source ss, port_invariants = invariants\<rparr> ids now lcl"
  by (simp add: policy_log_services_def audited_services_def resolver_source_def at_caller_def fun_eq_iff)

section \<open>What fails leaves the log alone\<close>

definition fails_keep :: "('w \<Rightarrow> 'k) \<Rightarrow> ('w, 'e, 'a) eff \<Rightarrow> bool" where
  "fails_keep f m \<longleftrightarrow> (\<forall>w e w1. m w = (Inl e, w1) \<longrightarrow> f w1 = f w)"

lemma fails_keepD: "fails_keep f m \<Longrightarrow> m w = (Inl e, w1) \<Longrightarrow> f w1 = f w"
  unfolding fails_keep_def by blast

lemma fails_keep_keeps: "keeps f m \<Longrightarrow> fails_keep f m"
  by (auto simp: fails_keep_def dest: keepsD)

lemma fails_keep_ebind:
  assumes "keeps f m" and "\<And>x. fails_keep f (g x)" shows "fails_keep f (ebind m g)"
  unfolding fails_keep_def
proof (intro allI impI)
  fix w e w1 assume run: "ebind m g w = (Inl e, w1)"
  show "f w1 = f w"
  proof (cases rule: eff_cases [of m w])
    case (throws d w2)
    with run keepsD [OF assms(1) throws] show ?thesis by (simp add: ebind_apply)
  next
    case (answers x w2)
    with run have "g x w2 = (Inl e, w1)" by (simp add: ebind_apply)
    from fails_keepD [OF assms(2) this] keepsD [OF assms(1) answers] show ?thesis by simp
  qed
qed

lemma fails_keep_last:
  assumes "fails_keep f m" shows "fails_keep f (ebind m (\<lambda>_. eret y))"
  unfolding fails_keep_def
proof (intro allI impI)
  fix w e w1 assume run: "ebind m (\<lambda>_. eret y) w = (Inl e, w1)"
  show "f w1 = f w"
    by (cases rule: eff_cases [of m w]) (use run fails_keepD [OF assms] in \<open>auto simp: ebind_apply\<close>)
qed

lemma fails_keep_prod: "(\<And>x y. fails_keep f (m x y)) \<Longrightarrow> fails_keep f (case p of (x, y) \<Rightarrow> m x y)"
  by (cases p) simp

section \<open>One request, one row\<close>

lemma append_fails:
  assumes "svc = log_services_over sha jsonb ports ids now"
  shows "fails_keep log_rows (log_port_append (svc_append svc) (VInst (IDecisionLogEntry (Genuine e))))"
  unfolding fails_keep_def
proof (intro allI impI)
  fix w :: "('a, 'b, log_db) kernel" and x w1
  assume run: "log_port_append (svc_append svc) (VInst (IDecisionLogEntry (Genuine e))) w = (Inl x, w1)"
  obtain res l where "adapter_append sha (table_client jsonb) (VInst (IDecisionLogEntry (Genuine e))) (log_part w) = (res, l)" by force
  with run have "res = Inl x" "log_part w1 = l"
    by (auto simp: assms log_services_over_def audited_services_def log_port_append_def genuine_entry_def
        exact_entry_def genuine_def ebind_apply at_log_def split: sum.splits)
  with table.append_outcome [OF \<open>adapter_append sha (table_client jsonb) (VInst (IDecisionLogEntry (Genuine e))) (log_part w) = (res, l)\<close>]
  show "log_rows w1 = log_rows w" by simp
qed

lemma log_one_row:
  fixes svc :: "('e, 'a, log_db) kernel log_services"
  assumes svc: "svc = log_services_over sha jsonb ports ids now" and prev: "keeps log_rows prev"
    and run: "log_one sha svc q prev w = (res, w1)"
  shows "case res of
     Inl _ \<Rightarrow> log_rows w1 = log_rows w
   | Inr (d, e) \<Rightarrow> \<exists>r. recorded sha q (decision_effect d) r \<and> log_rows w1 = log_rows w @ [r]"
proof -
  note frames = services_keep_rows [OF svc]
  have clock: "keeps log_rows (clock_now (svc_read_clock svc) ())"
    unfolding clock_now_def by (auto intro!: frame_rules frames)
  show ?thesis
  proof (cases res)
    case (Inl x)
    have "fails_keep log_rows (log_one sha svc q prev)"
      unfolding log_one_def Let_def
      by (intro fails_keep_last fails_keep_ebind fails_keep_prod frame_rules frames prev clock append_fails [OF svc])
    from fails_keepD [OF this run [unfolded Inl]] Inl show ?thesis by simp
  next
    case (Inr de)
    obtain d e where de: "de = (d, e)" by (cases de)
    have "ends_with log_rows (\<lambda>(d, e) w1 w2. \<exists>x. log_port_append (svc_append svc) (VInst (IDecisionLogEntry (Genuine e))) w1 = (Inr x, w2))
        (log_one sha svc q prev)"
      unfolding log_one_def Let_def by (intro ends_with_rules frame_rules frames prev clock) auto
    from ends_withD [OF this run [unfolded Inr de]] obtain w2 x where
      "log_port_append (svc_append svc) (VInst (IDecisionLogEntry (Genuine e))) w2 = (Inr x, w1)" "log_rows w2 = log_rows w"
      by auto
    with appended_row [OF svc this(1)] log_one_ok [OF run [unfolded Inr de]] Inr de show ?thesis
      by (auto simp: recorded_def)
  qed
qed

text \<open>What the policies of a list of statements say of a request, and a decision that follows them.\<close>

definition follows_policy :: "policy_statement list \<Rightarrow> policy_request \<Rightarrow> effect \<Rightarrow> bool" where
  "follows_policy ss q eff \<longleftrightarrow> (\<forall>t a c. asks_as q t a c \<longrightarrow> (eff = Allow \<longleftrightarrow> policy_admits ss t a q))"

lemma log_one_policy:
  assumes "svc_candidates svc = resolver_source ss" and "statements_wf ss" and "log_one sha svc q prev w = (Inr (d, e), w1)"
  shows "follows_policy ss q (decision_effect d)"
proof -
  obtain h cs where "fst (resolver_source ss (VInst (IPolicyRequest (Genuine q))) ()) = Inr (h, cs)"
    "evaluator_decide_of h (VInst (IPolicyRequest (Genuine q))) cs = Inr d"
    using assms(1,3) by (auto simp: log_one_def Let_def ebind_Inr_iff resolver_source_def)
  then show ?thesis using evaluated_admits [OF _ assms(2)] by (auto simp: follows_policy_def)
qed

text \<open>The rows of a batch: one for each request that was decided, in their order, by the policies.\<close>

definition batch_rows ::
    "(js_string \<Rightarrow> js_string) \<Rightarrow> policy_statement list \<Rightarrow> policy_request list \<Rightarrow> effect list \<Rightarrow> log_row list \<Rightarrow> bool" where
  "batch_rows sha ss qs effs rows \<longleftrightarrow> length effs = length rows \<and> length rows \<le> length qs \<and>
     (\<forall>i < length rows. recorded sha (qs ! i) (effs ! i) (rows ! i) \<and> follows_policy ss (qs ! i) (effs ! i))"

lemma batch_rows_Nil: "batch_rows sha ss qs [] []"
  by (simp add: batch_rows_def)

lemma batch_rows_Cons:
  "recorded sha q eff r \<Longrightarrow> follows_policy ss q eff \<Longrightarrow> batch_rows sha ss qs effs rows \<Longrightarrow>
     batch_rows sha ss (q # qs) (eff # effs) (r # rows)"
  by (auto simp: batch_rows_def nth_Cons split: nat.splits)

lemma resolve_prev_keeps:
  assumes "svc = log_services_over sha jsonb ports ids now"
  shows "keeps log_rows (resolve_prev svc heads tenant q)"
  unfolding resolve_prev_def chain_head_of_def
  by (intro frame_rules services_keep_rows [OF assms])

lemma log_all_rows:
  fixes svc :: "('e, 'a, log_db) kernel log_services"
  assumes svc: "svc = log_services_over sha jsonb ports ids now" and ss: "svc_candidates svc = resolver_source ss" "statements_wf ss"
  shows "log_all sha svc heads qs w = (res, w1) \<Longrightarrow> \<exists>effs rows. log_rows w1 = log_rows w @ rows \<and> batch_rows sha ss qs effs rows \<and>
    (\<forall>pairs. res = Inr pairs \<longrightarrow> length rows = length qs \<and> effs = map (decision_effect \<circ> fst) pairs)"
proof (induction qs arbitrary: heads w res w1)
  case Nil
  then show ?case by (auto intro!: exI [of _ "[]"] simp: batch_rows_Nil)
next
  case (Cons q qs)
  show ?case
  proof (cases "request_tenant q")
    case (Inl e)
    with Cons.prems show ?thesis by (auto intro!: exI [of _ "[]"] simp: batch_rows_Nil)
  next
    case (Inr t)
    let ?tenant = "tenant_id_to_string t"
    obtain one w2 where one: "log_one sha svc q (resolve_prev svc heads ?tenant q) w = (one, w2)"
      by (cases "log_one sha svc q (resolve_prev svc heads ?tenant q) w")
    note row = log_one_row [OF svc resolve_prev_keeps [OF svc] one]
    show ?thesis
    proof (cases one)
      case (Inl e)
      with Cons.prems Inr one row show ?thesis
        by (auto intro!: exI [of _ "[]"] simp: batch_rows_Nil ebind_apply Let_def)
    next
      case de: (Inr de)
      obtain d e where d: "de = (d, e)" by (cases de)
      obtain r where r: "recorded sha q (decision_effect d) r" "log_rows w2 = log_rows w @ [r]" using row de d by auto
      have policy: "follows_policy ss q (decision_effect d)"
        by (rule log_one_policy [OF ss one [unfolded de d]])
      obtain rest w3 where rest: "log_all sha svc (heads(?tenant \<mapsto> entry_hash e)) qs w2 = (rest, w3)"
        by (cases "log_all sha svc (heads(?tenant \<mapsto> entry_hash e)) qs w2")
      from Cons.IH [OF rest] obtain effs rows where
        IH: "log_rows w3 = log_rows w2 @ rows" "batch_rows sha ss qs effs rows"
          "\<forall>pairs. rest = Inr pairs \<longrightarrow> length rows = length qs \<and> effs = map (decision_effect \<circ> fst) pairs" by blast
      have "w1 = w3" "res = rbind rest (\<lambda>ps. Inr ((d, e) # ps))"
        using Cons.prems Inr one de d rest by (auto simp: ebind_apply Let_def split: sum.splits)
      with IH r batch_rows_Cons [OF r(1) policy IH(2)] show ?thesis
        by (intro exI [of _ "decision_effect d # effs"] exI [of _ "r # rows"]) (auto simp: rbind_eq_Inr)
    qed
  qed
qed

lemma facade_log_services:
  "policy_log_services sha ss ids now (table_client jsonb) =
     log_services_over sha jsonb \<lparr>port_current = current, port_candidates = resolver_source ss, port_invariants = invariants\<rparr> ids now"
  by (simp add: log_services_over_def facade_services [of sha ss ids now _ current invariants])

text \<open>
  C33. A batch is on record as far as it went. Whatever the facade's decideAll does over the decision
  log's table, it appends one row for each request of the batch it decided, in the order of the batch,
  each about its request and of the effect the statements give it; it answers only when that is all of
  them, with those effects, and a batch it refuses leaves the log as it was.
\<close>

theorem facade_batch_on_record:
  fixes w :: "('e, 'a, log_db) kernel"
  assumes "statements_wf ss" and "facade_decide_all sha ss ids now (table_client jsonb) h requests w = (res, w1)"
  shows "\<exists>effs rows. log_rows w1 = log_rows w @ rows \<and> (case require_request_array h requests of
     Inl e \<Rightarrow> res = Inl e \<and> rows = []
   | Inr qs \<Rightarrow> batch_rows sha ss qs effs rows \<and>
       (case res of Inl _ \<Rightarrow> True | Inr ds \<Rightarrow> length rows = length qs \<and> effs = map decision_effect ds))"
proof (cases "require_request_array h requests")
  case (Inl e)
  with assms(2) show ?thesis by (auto simp: facade_decide_all_def logging_decide_all_def)
next
  case (Inr qs)
  show ?thesis
  proof (cases "qs = []")
    case True
    with Inr assms(2) show ?thesis
      by (auto simp: facade_decide_all_def logging_decide_all_def batch_rows_Nil intro!: exI [of _ "[]"])
  next
    case False
    let ?svc = "policy_log_services sha ss ids now (table_client jsonb) :: ('e, 'a, log_db) kernel log_services"
    obtain r w2 where r: "log_all sha ?svc (\<lambda>_. None) qs w = (r, w2)"
      by (cases "log_all sha ?svc (\<lambda>_. None) qs w")
    have res: "w1 = w2" "res = rbind r (\<lambda>pairs. Inr (map fst pairs))"
      using assms(2) Inr False r
      by (auto simp: facade_decide_all_def logging_decide_all_def ebind_apply split: sum.splits)
    have "svc_candidates ?svc = resolver_source ss" by (simp add: policy_log_services_def)
    from log_all_rows [OF facade_log_services this assms(1) r] obtain effs rows where
      rows: "log_rows w2 = log_rows w @ rows" "batch_rows sha ss qs effs rows"
        "\<forall>pairs. r = Inr pairs \<longrightarrow> length rows = length qs \<and> effs = map (decision_effect \<circ> fst) pairs" by blast
    with Inr res show ?thesis
      by (intro exI [of _ effs] exI [of _ rows]) (auto simp: rbind_eq_Inr split: sum.splits)
  qed
qed

end
