(* ===== verification/Delivery_Claims.thy ===== *)
theory Delivery_Claims
  imports Asgi_Sample Decision_Log_Composition Customer_Audit_Run
begin

text \<open>
  What the delivery ring promises: the router's dispatch, the body a call receives, the requests it
  turns away itself, the customers it creates, and the rows a batch of decisions leaves.
\<close>

section \<open>The facade on one request\<close>

abbreviation (input) sample_facade ::
    "heap \<Rightarrow> jsval \<Rightarrow> ((unit, unit, log_db) kernel, thrown, policy_decision list) eff" where
  "sample_facade \<equiv> facade_decide_all sample_sha [] (\<lambda>w. (Inr (VStr sample_ulid), w)) (\<lambda>_ w. (Inr (VStr leap_day), w))
     (table_client Some)"

definition one_request :: heap where
  "one_request = (\<lambda>_. array_object [VInst (IPolicyRequest (Genuine sample_request))])"

lemma single_list: "set xs = {x} \<Longrightarrow> distinct xs \<Longrightarrow> xs = [x]"
  by (cases xs; cases "tl xs") auto

lemma one_request_checked: "require_request_array one_request (VObj 0) = Inr [sample_request]"
proof -
  have h: "one_request 0 = array_object [VInst (IPolicyRequest (Genuine sample_request))]" by (simp add: one_request_def)
  note facts = array_object_facts(1,2) [where h = one_request and r = 0, OF h]
  have "set (own_keys one_request 0) = {KStr (dec_nat 0)}"
    using array_object_facts(5) [where h = one_request and r = 0, OF h] by (simp add: lessThan_Suc)
  then have "own_keys one_request 0 = [KStr (dec_nat 0)]"
    using distinct_own_keys [of one_request 0] by (simp add: single_list)
  moreover have "re_test index_form (dec_nat 0)" by code_simp
  moreover have "log_batch_element one_request 0 0 = Inr sample_request"
    by (simp add: log_batch_element_def array_object_property [where h = one_request and r = 0, OF h]
        genuine_policy_request_def exact_policy_request_def genuine_def)
  ultimately show ?thesis
    using facts by (simp add: require_request_array_def) (simp add: h array_object_def)
qed

text \<open>No statement applies, so the request is denied, and its row is the first of the log.\<close>

lemma facade_on_one_request:
  fixes w :: "(unit, unit, log_db) kernel"
  assumes "log_part w = empty_db"
  shows "\<exists>w1. sample_facade one_request (VObj 0) w = (Inr [sample_denial], w1)"
proof -
  let ?svc = "policy_log_services sample_sha [] (\<lambda>w. (Inr (VStr sample_ulid), w)) (\<lambda>_ w. (Inr (VStr leap_day), w))
     (table_client Some) :: (unit, unit, log_db) kernel log_services"
  obtain p where p: "entry_payload (sample_entry None) = Inr p" by (rule sample_payload_entry)
  have "\<exists>w1. adapter_append sample_sha (table_client Some) (VInst (IDecisionLogEntry (Genuine (sample_entry None)))) empty_db =
      (Inr (receipt_of (sample_entry None) (TenantId sample_tenant)), w1) \<and>
      db_rows w1 = db_rows empty_db @ [row_of (sample_entry None) (TenantId sample_tenant) p]"
    by (rule fresh_at_end [OF empty_reachable _ sample_entry_about _ p gives_back_Some sample_sha_hex])
      (simp_all add: fresh_in_empty sample_entry_def)
  then obtain l where app: "adapter_append sample_sha (table_client Some) (VInst (IDecisionLogEntry (Genuine (sample_entry None)))) empty_db =
      (Inr (receipt_of (sample_entry None) (TenantId sample_tenant)), l)" by blast
  obtain a b where w: "w = (a, b, empty_db)" using assms by (cases w) simp
  have tenant: "request_tenant sample_request = Inr (Genuine (TenantId sample_tenant))" by (rule sample_heads)
  have "tenant_value (TenantId sample_tenant) \<in> lang uuid_form"
    using sample_uuids by (simp add: uuid_ok_def)
  from empty_head [OF this] have head: "resolve_prev ?svc (\<lambda>_. None) sample_tenant sample_request w = (Inr VNull, w)"
    by (simp add: resolve_prev_def chain_head_of_def tenant ebind_apply policy_log_services_def at_log_def w)
  have "instant_of (VStr leap_day) = Some leap_day" using leap_day_ok by (simp add: instant_of_def names_a_real_instant_iff)
  then have services: "svc_candidates ?svc (VInst (IPolicyRequest (Genuine sample_request))) w = (Inr (candidates_heap [], VObj 0), w)"
    "svc_id ?svc w = (Inr (VStr sample_ulid), w)" "clock_now (svc_read_clock ?svc) () w = (Inr leap_day, w)"
    by (simp_all add: policy_log_services_def at_caller_def w ebind_apply clock_now_def resolver_source_def resolver_candidates_for_def
        genuine_policy_request_def exact_policy_request_def genuine_def elift_def)
  have layer: "layer_resolved (candidates_heap []) (VObj 0) (decision_matched sample_denial) = Inr VNull"
    by (simp add: layer_resolved_def sample_denial_def)
  have append: "log_port_append (svc_append ?svc) (VInst (IDecisionLogEntry (Genuine (sample_entry None)))) w = (Inr VUndef, (a, b, l))"
    by (simp add: log_port_append_def genuine_entry_def exact_entry_def genuine_def policy_log_services_def at_log_def app w ebind_apply)
  have entry: "entry_of sample_sha (VStr sample_ulid) (VInst (IPolicyRequest (Genuine sample_request)))
      (VInst (IPolicyDecision (Genuine sample_denial))) VNull (VStr leap_day) VNull = Inr (sample_entry None)"
    by (rule sample_entry_of) (simp add: prev_hash_value_def)
  have "log_one sample_sha ?svc sample_request (resolve_prev ?svc (\<lambda>_. None) sample_tenant sample_request) w =
      (Inr (sample_denial, sample_entry None), (a, b, l))"
    by (simp add: log_one_def Let_def ebind_apply services sample_evaluation layer head append entry)
  then show ?thesis
    by (simp add: facade_decide_all_def logging_decide_all_def one_request_checked ebind_apply Let_def tenant tenant_id_to_string_def)
qed

theorem facade_batch_on_record_witness:
  "\<exists>(w1 :: (unit, unit, log_db) kernel) r. sample_facade one_request (VObj 0) ((), (), empty_db) = (Inr [sample_denial], w1) \<and>
     log_rows w1 = [r] \<and> recorded sample_sha sample_request Deny r"
proof -
  have "log_part ((), (), empty_db) = empty_db" by simp
  from facade_on_one_request [OF this] obtain w1 :: "(unit, unit, log_db) kernel" where
    run: "sample_facade one_request (VObj 0) ((), (), empty_db) = (Inr [sample_denial], w1)" by blast
  have "statements_wf []" by (simp add: statements_wf_def)
  from facade_batch_on_record [OF this run] obtain effs rows where
    rows: "log_rows w1 = log_rows ((), (), empty_db) @ rows" "batch_rows sample_sha [] [sample_request] effs rows"
      "length rows = 1" "effs = [decision_effect sample_denial]"
    by (auto simp: one_request_checked)
  then obtain r where r: "rows = [r]" by (cases rows) auto
  with rows have "recorded sample_sha sample_request Deny r" by (simp add: batch_rows_def sample_denial_def)
  with run rows(1) r show ?thesis by (auto simp: empty_db_def)
qed

section \<open>Dispatch\<close>

text \<open>The routes of a checked table, with what their handlers do.\<close>

definition bound_routes :: "(jsval \<Rightarrow> ('w, 'b) handler) \<Rightarrow> jsval route list \<Rightarrow> ('w, 'b) handler route list" where
  "bound_routes f routes = map (\<lambda>x. \<lparr>route_method = route_method x, route_path = route_path x,
     route_handler = f (route_handler x)\<rparr>) routes"

lemma bound_table: "table_ok routes \<Longrightarrow> table_ok (bound_routes f routes)"
  by (simp add: table_ok_def bound_routes_def comp_def)

text \<open>
  C18. One handler per message. A router that could be constructed hands a message to the handler of
  the one route with its method and path, and answers what that handler answers where it is an
  ordinary object; a message no route is for gets 405 where its path is known and 404 where it is
  not, and no handler is run.
\<close>

theorem router_dispatches:
  assumes "router_new h0 options = Inr routes" and "message_read h message = Inr (Some (verb, path))"
  shows "(\<forall>x \<in> set routes. route_method x = verb \<and> route_path x = path \<longrightarrow>
      router_handle (bound_routes f routes) h message w = (case f (route_handler x) h message w of
         (Inl e, w1) \<Rightarrow> (Inl e, w1)
       | (Inr reply, w1) \<Rightarrow> (if answer_ordinary reply then Inr reply
           else type_error (js ''StandardRouter route handler must return an ordinary response object''), w1))) \<and>
    ((verb, path) \<notin> (\<lambda>x. (route_method x, route_path x)) ` set routes \<longrightarrow>
      router_handle (bound_routes f routes) h message w =
        (Inr (if path \<in> route_path ` set routes then router_error 405 ''METHOD_NOT_SUPPORTED''
          else router_error 404 ''ROUTE_NOT_FOUND''), w))"
proof (intro conjI ballI impI)
  note table = bound_table [OF router_new_table [OF assms(1)], of f]
  {
    fix x assume x: "x \<in> set routes" "route_method x = verb \<and> route_path x = path"
    have "the_route (bound_routes f routes) verb path =
        Some \<lparr>route_method = verb, route_path = path, route_handler = f (route_handler x)\<rparr>"
      unfolding the_route_iff [OF table] using x by (force simp: bound_routes_def)
    then show "router_handle (bound_routes f routes) h message w = (case f (route_handler x) h message w of
         (Inl e, w1) \<Rightarrow> (Inl e, w1)
       | (Inr reply, w1) \<Rightarrow> (if answer_ordinary reply then Inr reply
           else type_error (js ''StandardRouter route handler must return an ordinary response object''), w1))"
      by (simp add: dispatch [OF assms(2)])
  next
    assume "(verb, path) \<notin> (\<lambda>x. (route_method x, route_path x)) ` set routes"
    then have "the_route (bound_routes f routes) verb path \<noteq> Some y" for y
      unfolding the_route_iff [OF table] by (auto simp: bound_routes_def)
    then have "the_route (bound_routes f routes) verb path = None" by auto
    moreover have "route_path ` set (bound_routes f routes) = route_path ` set routes"
      by (force simp: bound_routes_def)
    ultimately show "router_handle (bound_routes f routes) h message w =
        (Inr (if path \<in> route_path ` set routes then router_error 405 ''METHOD_NOT_SUPPORTED''
          else router_error 404 ''ROUTE_NOT_FOUND''), w)"
      by (simp add: dispatch [OF assms(2)])
  }
qed

section \<open>The body of a call\<close>

text \<open>
  C20. The body is what was delivered. A body that was received is the chunks of the events in their
  order, every one of them but the last marked as followed by more, and it is within the limit.
\<close>

theorem received_body_is_whole:
  assumes "receive_chunks receive limit [] 0 w = Some (Inr (Some cs), w1)"
  shows "delivered receive limit 0 w cs w1 \<and> merge_chunks cs = concat cs \<and>
    (case limit of None \<Rightarrow> True | Some n \<Rightarrow> length (merge_chunks cs) \<le> n)"
proof -
  have "delivered receive limit 0 w cs w1" using assms by (simp add: receive_iff)
  with delivered_fits [OF this] show ?thesis by (auto simp: merge_chunks_concat split: option.splits)
qed

text \<open>
  C21. Receiving ends. With a limit on the body, the loop over a caller's events comes to an end,
  whatever they are, if each chunk that announces another carries at least one byte.
\<close>

theorem receiving_ends:
  assumes "progresses receive"
  shows "\<exists>y. receive_chunks receive (Some n) [] 0 w = Some y"
  by (rule receive_ends [OF assms])

lemma one_event_once: "next_chunk limit received event_heap (VObj 0) \<noteq> Inr (Some (bs, True))"
proof -
  have h: "event_heap 0 = plain_object [(''type'', VStr (js ''http.request'')), (''body'', VObj 1)]" by (simp add: event_heap_def)
  note facts = plain_object_facts [where h = event_heap and r = 0, OF h]
  have "chunk_of event_heap (VObj 1) = Some sample_body" by (simp add: chunk_of_def event_heap_def)
  moreover have "more_wanted event_heap 0 = Inr (Some False)"
    by (simp add: more_wanted_def plain_object_property [where h = event_heap and r = 0, OF h])
  ultimately show ?thesis
    using facts(2) by (auto simp: next_chunk_def facts(4) simp del: One_nat_def split: option.splits if_splits)
qed

theorem receiving_ends_witness: "\<exists>y. receive_chunks one_event (Some 64) [] 0 () = Some y"
  by (rule receiving_ends) (auto simp: progresses_def one_event_once)

theorem received_body_is_whole_witness:
  "delivered one_event (Some 64) 0 () [sample_body] () \<and> length (merge_chunks [sample_body]) \<le> 64"
proof -
  have "receive_chunks one_event (Some 64) [] 0 () = Some (Inr (Some [sample_body]), ())"
    by (simp add: receive_chunks.simps [of one_event] sample_chunk)
  from received_body_is_whole [OF this] show ?thesis by (simp add: sample_body_bytes)
qed

section \<open>Requests that are turned away\<close>

definition refusal_events :: "int \<Rightarrow> string \<Rightarrow> 'b asgi_event list" where
  "refusal_events status code = answer_events status [(js ''content-type'', js ''application/json'')]
     (JsonObj [(js ''error'', JsonObj [(js ''code'', JsonStr (js code)), (js ''retryable'', JsonBool False)])])"

lemma profile_error_encoded:
  "encode_events (Some (encode_json_body other)) (Some encode_utf8_header_part) profile_error_events =
     Inr (refusal_events 400 ''PROFILE_SCOPE_INVALID'')"
  by (simp add: profile_error_events_def encode_events_def encode_event_def text_header_def encode_part_def
      encode_utf8_header_part_def encoded_bytes_def encode_json_body_def body_json_def refusal_events_def
      answer_events_def header_bytes_def)

lemma router_error_encoded:
  assumes "100 \<le> status" "status \<le> 599"
  shows "rbind (to_response_events (router_error status code))
      (encode_events (Some (encode_json_body other)) (Some encode_utf8_header_part)) = Inr (refusal_events status code)"
proof -
  let ?ps = "[(''content-type'', VStr (js ''application/json''))]"
  let ?h = "\<lambda>_ :: nat. plain_object ?ps"
  have h: "?h 0 = plain_object ?ps" by simp
  have ordinary: "is_ordinary ?h (VObj 0)" using plain_object_facts(2) [where h = ?h and r = 0, OF h] by blast
  have typed: "read_key ?h 0 (js ''content-type'') = Inr (VStr (js ''application/json''))"
    using read_plain_object [where h = ?h and r = 0, OF h, of "''content-type''"] by simp
  have keys: "own_keys ?h 0 = [KStr (js ''content-type'')]" by (simp add: plain_object_def) code_simp
  have "check_header_object (?h, VObj 0) = Inr [(js ''content-type'', js ''application/json'')]"
    using ordinary answer_names typed by (simp add: check_header_object_def keys)
  then have "check_router_response (router_error status code :: delivery_body routed answer) = Inr (status, [(js ''content-type'', js ''application/json'')])"
    using assms
    by (simp add: check_router_response_def response_keys_def check_status_def number_to_int_def router_error_def literal_answer_def)
  moreover have "map lower_unit (js ''content-type'') = js ''content-type''" by (rule header_name_lower, rule answer_names)
  moreover have "answer_body (router_error status code :: delivery_body routed answer) = Inr (CodeError (js code))"
    by (simp add: router_error_def literal_answer_def)
  ultimately show ?thesis
    by (simp add: to_response_events_def encode_events_def encode_event_def text_header_def encode_part_def
        encode_utf8_header_part_def encoded_bytes_def encode_json_body_def body_json_def refusal_events_def
        answer_events_def header_bytes_def)
qed

lemma send_error_refusal:
  "send_error_events \<lparr>chk_receive = rc, chk_send = sd, chk_decode = dec, chk_body = Some (encode_json_body other),
     chk_header = Some encode_utf8_header_part, chk_max = limit\<rparr> w = send_all sd (refusal_events 400 ''PROFILE_SCOPE_INVALID'') w"
  by (simp add: send_error_events_def profile_error_encoded ebind_apply elift_def)

lemma undecodable_refused:
  assumes limit: "case limit of None \<Rightarrow> True | Some n \<Rightarrow> int n \<le> max_safe_integer"
    and v: "scope_view h scope = Inr (Some (verb, path, ms))"
    and chunks: "delivered rc limit 0 w cs w1" and body: "body_value num (concat cs) = None"
  shows "customer_app service num other limit h scope (Given rc) (Given sd) w =
    Some (send_all sd (refusal_events 400 ''PROFILE_SCOPE_INVALID'') w1)"
proof -
  have "\<exists>e. decode_json_body num (concat cs) = Inl e"
    using body decode_json_body_iff [of num "concat cs"] by (cases "decode_json_body num (concat cs)") auto
  then show ?thesis
    using app_args_check [OF limit, of num other rc sd] chunks
    by (auto simp: customer_app_def call_from_receive_def v send_error_refusal receive_iff [symmetric] decoded_body_def
        merge_chunks_concat)
qed

lemma off_route_refused:
  assumes limit: "case limit of None \<Rightarrow> True | Some n \<Rightarrow> int n \<le> max_safe_integer"
    and v: "scope_view h scope = Inr (Some (verb, path, ms))"
    and chunks: "delivered rc limit 0 w cs w1" and body: "body_value num (concat cs) \<noteq> None"
    and off: "(verb, path) \<noteq> (js ''POST'', js ''/customers'')"
  shows "customer_app service num other limit h scope (Given rc) (Given sd) w =
    Some (send_all sd (if path = js ''/customers'' then refusal_events 405 ''METHOD_NOT_SUPPORTED''
      else refusal_events 404 ''ROUTE_NOT_FOUND'') w1)"
proof -
  obtain j where j: "body_value num (concat cs) = Some j" using body by blast
  obtain hb b where "json_at body_address j = (hb, b)" by (cases "json_at body_address j")
  with j have decoded: "decode_json_body num (concat cs) = Inr (hb, b)" by (simp add: decode_json_body_iff)
  let ?error = "if path = js ''/customers'' then router_error 405 ''METHOD_NOT_SUPPORTED'' else router_error 404 ''ROUTE_NOT_FOUND''"
  have route: "router_handle (customer_routes service) (message_heap 0 verb path ms hb b) (VObj 0) w1 = (Inr ?error, w1)"
    using off by (auto simp: customer_router [OF message_is_read])
  show ?thesis by (rule app_served [OF v chunks limit decoded route]) (simp add: router_error_encoded)
qed

text \<open>
  C7. What never reaches the service. Whatever the service is, a call with a scope that is not valid,
  with a body that is refused - over the limit, or not the events a body comes in - or with a body that
  is no JSON object in UTF-8 is answered 400, a call for another path 404, and another method on
  /customers 405, each with its two events; the service is not run for any of them.
\<close>

theorem turned_away_unserved:
  assumes "case limit of None \<Rightarrow> True | Some n \<Rightarrow> int n \<le> max_safe_integer"
  shows "case scope_view h scope of
      Inl e \<Rightarrow> customer_app service num other limit h scope (Given rc) (Given sd) w = Some (Inl e, w)
    | Inr None \<Rightarrow> customer_app service num other limit h scope (Given rc) (Given sd) w =
        Some (send_all sd (refusal_events 400 ''PROFILE_SCOPE_INVALID'') w)
    | Inr (Some (verb, path, ms)) \<Rightarrow>
        (\<forall>w1. receive_chunks rc limit [] 0 w = Some (Inr None, w1) \<longrightarrow>
          customer_app service num other limit h scope (Given rc) (Given sd) w =
            Some (send_all sd (refusal_events 400 ''PROFILE_SCOPE_INVALID'') w1)) \<and>
        (\<forall>cs w1. delivered rc limit 0 w cs w1 \<longrightarrow> body_value num (concat cs) = None \<longrightarrow>
          customer_app service num other limit h scope (Given rc) (Given sd) w =
            Some (send_all sd (refusal_events 400 ''PROFILE_SCOPE_INVALID'') w1)) \<and>
        (\<forall>cs w1. delivered rc limit 0 w cs w1 \<longrightarrow> body_value num (concat cs) \<noteq> None \<longrightarrow>
          (verb, path) \<noteq> (js ''POST'', js ''/customers'') \<longrightarrow>
          customer_app service num other limit h scope (Given rc) (Given sd) w =
            Some (send_all sd (if path = js ''/customers'' then refusal_events 405 ''METHOD_NOT_SUPPORTED''
              else refusal_events 404 ''ROUTE_NOT_FOUND'') w1))"
proof (cases "scope_view h scope")
  case (Inl e)
  then show ?thesis using app_args_check [OF assms, of num other rc sd] by (simp add: customer_app_def call_from_receive_def)
next
  case scope: (Inr v)
  show ?thesis
  proof (cases v)
    case None
    then show ?thesis
      using scope app_args_check [OF assms, of num other rc sd]
      by (simp add: customer_app_def call_from_receive_def send_error_refusal)
  next
    case (Some mpm)
    obtain verb path ms where v: "scope_view h scope = Inr (Some (verb, path, ms))" using scope Some by (cases mpm) auto
    show ?thesis unfolding v
    proof (simp only: sum.case option.case prod.case, intro conjI allI impI)
      fix w1 assume "receive_chunks rc limit [] 0 w = Some (Inr None, w1)"
      then show "customer_app service num other limit h scope (Given rc) (Given sd) w =
          Some (send_all sd (refusal_events 400 ''PROFILE_SCOPE_INVALID'') w1)"
        using app_args_check [OF assms, of num other rc sd]
        by (simp add: customer_app_def call_from_receive_def v send_error_refusal)
    next
      fix cs w1 assume "delivered rc limit 0 w cs w1" "body_value num (concat cs) = None"
      then show "customer_app service num other limit h scope (Given rc) (Given sd) w =
          Some (send_all sd (refusal_events 400 ''PROFILE_SCOPE_INVALID'') w1)"
        by (rule undecodable_refused [OF assms v])
    next
      fix cs w1
      assume "delivered rc limit 0 w cs w1" "body_value num (concat cs) \<noteq> None" "(verb, path) \<noteq> (js ''POST'', js ''/customers'')"
      then show "customer_app service num other limit h scope (Given rc) (Given sd) w =
          Some (send_all sd (if path = js ''/customers'' then refusal_events 405 ''METHOD_NOT_SUPPORTED''
            else refusal_events 404 ''ROUTE_NOT_FOUND'') w1)"
        by (rule off_route_refused [OF assms v])
    qed
  qed
qed

section \<open>Who may is served\<close>

definition conflict_events :: "js_string \<Rightarrow> 'b asgi_event list" where
  "conflict_events request = answer_events 409 (request_headers request)
     (JsonObj [(js ''error'', JsonObj
        [(js ''code'', JsonStr (js ''IDEMPOTENCY_CONFLICT'')),
         (js ''message'', JsonStr (js ''a request with this idempotency fingerprint was already committed'')),
         (js ''requestId'', JsonStr request), (js ''retryable'', JsonBool False)])])"

text \<open>
  C6. A post that may be made is made. Where the body posted to /customers and its headers are an
  admissible action and no statement fails, the application answers 201 with the receipt and the three
  rows are stored, if the key is new; under a key its tenant has used it answers 409 and stores nothing.
\<close>

theorem admissible_post_is_answered:
  fixes w :: "('e, app_db, 'l) kernel"
  assumes "posted num limit h scope rc w ms j w0"
    and "case limit of None \<Rightarrow> True | Some n \<Rightarrow> int n \<le> max_safe_integer"
    and "admissible sha ports ss (posted_heap ms j) ref (VObj 3) (fst w0) s p" and "adb_faults (app_part w0) = []"
    and "check_prepared (change_set_of (shaped_tenant s) (shaped_actor s) s p) = Inr i"
    and "rows_accepted sub (tenant_value (shaped_tenant s)) i"
    and "captured_key (posted_heap ms j) (VObj 3) = VStr key"
    and "made_receipt sub (request_of s) key (tenant_value (shaped_tenant s)) (adb_next (app_part w0)) = Inr r"
  shows "\<exists>w1. customer_app (\<lambda>h spec. plain_service sha ports (substrate_client sub) h ref spec) num other limit h scope
        (Given rc) (Given sd) w =
      Some (send_all sd (if key_used (adb_rows (app_part w0)) (tenant_value (shaped_tenant s)) (fingerprint (shaped_key s))
        then conflict_events (request_of s) else created_events (request_of s) (commit_receipt_to_json r)) w1) \<and>
    adb_rows (app_part w1) =
      (if key_used (adb_rows (app_part w0)) (tenant_value (shaped_tenant s)) (fingerprint (shaped_key s))
       then adb_rows (app_part w0)
       else inserted sub (tenant_value (shaped_tenant s)) i (adb_next (app_part w0)) (adb_rows (app_part w0)))"
proof -
  let ?service = "\<lambda>h spec. plain_service sha ports (substrate_client sub) h ref spec :: (('e, app_db, 'l) kernel, thrown, service_result) eff"
  let ?used = "key_used (adb_rows (app_part w0)) (tenant_value (shaped_tenant s)) (fingerprint (shaped_key s))"
  obtain hb v where at: "json_at body_address j = (hb, v)" by (cases "json_at body_address j")
  have shape: "shape_check sha (posted_heap ms j) ref (VObj 3) = Inr s" using assms(3) by (simp add: admissible_def)
  have request: "map_of ms (js ''x-request-id'') = Some (request_of s)"
    using posted_fields(1) [OF at shape] by (simp add: request_of_def)
  have printable: "re_test header_value_form (request_of s)" by (rule request_printable [OF shape])
  obtain w1 where run: "?service (posted_heap ms j) (VObj 3) w0 =
      (if ?used then Inl (IdempotencyConflict (tenant_value (shaped_tenant s)) (fingerprint (shaped_key s)))
       else Inr (Committed (request_of s) (VInst (ICommitReceipt (Genuine r)))), w1)"
    and rows: "adb_rows (app_part w1) = (if ?used then adb_rows (app_part w0)
       else inserted sub (tenant_value (shaped_tenant s)) i (adb_next (app_part w0)) (adb_rows (app_part w0)))"
    using admitted_created [OF assms(3-8)] by blast
  have "customer_app ?service num other limit h scope (Given rc) (Given sd) w =
      Some (send_all sd (if ?used then conflict_events (request_of s) else created_events (request_of s) (commit_receipt_to_json r)) w1)"
  proof (cases ?used)
    case True
    with run have "?service (posted_heap ms j) (VObj 3) w0 =
      (Inl (IdempotencyConflict (tenant_value (shaped_tenant s)) (fingerprint (shaped_key s))), w1)" by simp
    from app_answers_post [where service = ?service, OF assms(1,2) request this, of "conflict_response (request_of s)" other _ sd]
    show ?thesis using True printable
      by (simp add: post_response_def is_idempotency_conflict_def conflict_response_def body_json_def error_body_json_def
          conflict_events_def)
  next
    case False
    with run have "?service (posted_heap ms j) (VObj 3) w0 =
      (Inr (Committed (request_of s) (VInst (ICommitReceipt (Genuine r)))), w1)" by simp
    from app_answers_created [where service = ?service, OF assms(1,2) request this printable, of other _ sd]
    show ?thesis using False by (simp add: receipt_json_def private_read_def)
  qed
  with rows show ?thesis by blast
qed

theorem admissible_post_is_answered_witness:
  "\<exists>w1. customer_app sample_plain (\<lambda>_. JInt 0) (\<lambda>_. type_error []) (Some 64) scope_heap (VObj 0)
      (Given one_event) (Given send_nothing) sample_world =
        Some (send_all send_nothing (created_events other_tenant (commit_receipt_to_json created_receipt)) w1) \<and>
    adb_rows (app_part w1) = inserted sample_substrate sample_tenant created_intents 0 (adb_rows empty_store)"
proof -
  have store: "adb_faults (app_part sample_world) = []" "adb_next (app_part sample_world) = 0"
    and fresh: "\<not> key_used (adb_rows (app_part sample_world)) t k" for t k
    by (simp_all add: empty_store_def Let_def key_used_def)
  have tenant: "tenant_value (shaped_tenant posted_shape) = sample_tenant" by (simp add: posted_same)
  show ?thesis
    using admissible_post_is_answered [where sha = sample_sha and ports = sample_ports and w = sample_world and w0 = sample_world
        and s = posted_shape and i = created_intents and sub = sample_substrate and key = "js ''k''" and r = created_receipt
        and other = "\<lambda>_. type_error []" and sd = send_nothing,
        OF sample_posted _ _ store(1), unfolded tenant posted_same(2-5) store(2)]
      posted_admissible created_prepared created_accepted created_made posted_captured fresh
    by (simp add: max_safe_integer_def)
qed

section \<open>Bodies read back\<close>

text \<open>No member name is an array index, at any depth: then the members come out as they are listed.\<close>

fun all_records :: "json \<Rightarrow> bool" where
  "all_records (JsonArr vs) = list_all all_records vs"
| "all_records (JsonObj ms) = (record_keys (map fst ms) \<and> list_all (\<lambda>(_, v). all_records v) ms)"
| "all_records _ = True"

lemma ordered_all_records: "all_records v \<Longrightarrow> ordered v = v"
proof (induction v)
  case (JsonArr vs)
  then show ?case by (simp add: list_all_iff map_idI)
next
  case (JsonObj ms)
  then have "map (\<lambda>(k, v). (k, ordered v)) ms = ms"
    by (intro map_idI) (fastforce simp: list_all_iff snds.simps)
  with JsonObj.prems show ?case by (simp add: ordered_record del: ordered.simps)
qed auto

lemma body_names:
  "record_keys [js ''error'']" "record_keys [js ''commitReceipt'']" "record_keys [js ''code'', js ''retryable'']"
  "record_keys [js ''code'', js ''message'', js ''retryable'']"
  "record_keys [js ''code'', js ''message'', js ''requestId'', js ''retryable'']"
  "record_keys [js ''requestId'', js ''tenantId'', js ''resourceId'', js ''outcome'', js ''committedAt'', js ''auditId'',
     js ''outboxEventIds'', js ''idempotencyKey'']"
  by code_simp+

definition readable :: "json \<Rightarrow> bool" where
  "readable j \<longleftrightarrow> (\<exists>ms. j = JsonObj ms) \<and> all_records j \<and> numbers_ok j \<and> keys_distinct j \<and> (\<forall>num. numbers_read num j)"

lemma receipt_readable: "readable (JsonObj [(js ''commitReceipt'', commit_receipt_to_json r)])"
  by (simp add: readable_def commit_receipt_to_json_def body_names list_all_iff)

lemma code_readable: "readable (JsonObj [(js ''error'', JsonObj [(js ''code'', JsonStr c), (js ''retryable'', JsonBool b)])])"
  by (simp add: readable_def body_names)

lemma error_readable: "readable (error_body_json e)"
  by (cases "body_request e") (simp_all add: readable_def error_body_json_def body_names)

lemma readable_decodes:
  assumes "readable j"
  shows "decode_json_body num (utf8_encode (stringify j)) = Inr (json_at body_address j)"
proof -
  obtain ms where ms: "j = JsonObj ms" using assms by (auto simp: readable_def)
  have "json_parse num (stringify j) = Some j"
    using assms parse_stringify [of j num] ordered_all_records [of j] by (simp add: readable_def)
  moreover have again: "text_decode True (utf8_encode (stringify j)) = Some (stringify j)"
    using assms by (intro stringify_round_trip) (simp add: readable_def)
  moreover have "utf8_encode (stringify j) \<noteq> []"
  proof
    assume "utf8_encode (stringify j) = []"
    moreover have "text_decode True [] = Some []" by (simp add: text_decode_def drop_mark_def)
    ultimately have "stringify j = []" using again by (metis option.inject)
    then show False by (simp add: ms js_def)
  qed
  ultimately have "body_value num (utf8_encode (stringify j)) = Some j" by (simp add: body_value_def ms)
  then show ?thesis by (cases "json_at body_address j") (simp add: decode_json_body_iff)
qed

text \<open>
  C22. What is answered can be read. The bytes the default encoder makes of an answer - a receipt or an
  error - are UTF-8 of a JSON text that the default decoder of the same module reads back as that
  very object, whatever its texts hold.
\<close>

theorem answer_body_reads_back:
  assumes "case b of Reply (ReceiptBody v) \<Rightarrow> \<exists>r. v = VInst (ICommitReceipt (Genuine r)) | _ \<Rightarrow> True"
  shows "\<exists>j. body_json other b = Inr j \<and> encode_json_body other b = Inr (Some (utf8_encode (stringify j))) \<and>
    decode_json_body num (utf8_encode (stringify j)) = Inr (json_at body_address j)"
proof -
  have "\<exists>j. body_json other b = Inr j \<and> readable j"
    using assms receipt_readable code_readable error_readable
    by (cases b) (auto simp: body_json_def receipt_json_def private_read_def split: delivery_body.splits)
  then show ?thesis using readable_decodes by (auto simp: encode_json_body_def)
qed

theorem answer_body_reads_back_witness:
  "\<exists>j. body_json (\<lambda>_. type_error []) (CodeError [0xD800]) = Inr j \<and>
    encode_json_body (\<lambda>_. type_error []) (CodeError [0xD800]) = Inr (Some (utf8_encode (stringify j))) \<and>
    decode_json_body (\<lambda>_. JInt 0) (utf8_encode (stringify j)) = Inr (json_at body_address j)"
  by (rule answer_body_reads_back) simp

section \<open>The remaining witnesses\<close>

definition table_heap :: heap where
  "table_heap = (\<lambda>a. if a = 0 then plain_object [(''routes'', VObj 1)]
     else if a = 1 then array_object [VObj 2]
     else plain_object [(''method'', VStr (js ''POST'')), (''path'', VStr (js ''/customers'')),
       (''handler'', VInst (IService SvcHttpAdapter (Genuine 0)))])"

abbreviation (input) the_table :: "jsval route list" where
  "the_table \<equiv> [\<lparr>route_method = js ''POST'', route_path = js ''/customers'', route_handler = VInst (IService SvcHttpAdapter (Genuine 0))\<rparr>]"

lemma table_checked: "router_new table_heap (VObj 0) = Inr the_table"
proof -
  have h0: "table_heap 0 = plain_object [(''routes'', VObj 1)]" and h1: "table_heap 1 = array_object [VObj 2]"
    and h2: "table_heap 2 = plain_object [(''method'', VStr (js ''POST'')), (''path'', VStr (js ''/customers'')),
       (''handler'', VInst (IService SvcHttpAdapter (Genuine 0)))]"
    by (simp_all add: table_heap_def)
  note facts0 = plain_object_facts [where h = table_heap and r = 0, OF h0]
  note facts1 = array_object_facts(1,2) [where h = table_heap and r = 1, OF h1]
  note facts2 = plain_object_facts [where h = table_heap and r = 2, OF h2]
  have "owns_exactly table_heap 0 [''routes'']" "owns_exactly table_heap 2 route_keys"
    using facts0(1) facts2(1) by (auto simp: route_keys_def)
  moreover have "is_ordinary table_heap (VObj 0)" "is_ordinary table_heap (VObj 2)" using facts0(2) facts2(2) by simp_all
  ultimately have options: "ordinary_options table_heap (VObj 0) [''routes''] a b = Inr 0"
    "ordinary_options table_heap (VObj 2) route_keys a b = Inr 2" for a b
    by (simp_all add: ordinary_options_iff)
  have "js ''POST'' \<noteq> []" "js ''/customers'' \<noteq> []" by (simp_all add: js_def)
  then have "check_route_record table_heap 0 (VObj 2) = Inr (hd the_table)"
    by (simp add: check_route_record_def options facts2(4) non_empty_text_value_def has_handle_def Let_def)
  moreover have "read_key table_heap 1 (dec_nat 0) = Inr (VObj 2)"
    using element_read [where h = table_heap and r = 1, OF h1, of 0] by simp
  moreover have "own_property table_heap 1 (KStr (dec_nat 0)) \<noteq> None"
    using array_object_property [where h = table_heap and r = 1, OF h1] by simp
  ultimately have "check_route_at table_heap 1 0 = Inr (Some (hd the_table))" by (auto simp: check_route_at_def)
  moreover have "[0..<array_length table_heap 1] = [0]" unfolding facts1(2) by simp
  ultimately show ?thesis
    using facts1 by (simp add: router_new_def options facts0(4) del: One_nat_def)
qed

theorem router_dispatches_witness:
  "router_handle (bound_routes (\<lambda>_ _ _. eret (router_error 200 ''DONE'')) the_table) scope_heap (VObj 0) () =
     (Inr (router_error 200 ''DONE'' :: unit routed answer), ())"
proof -
  have h: "scope_heap 0 = plain_object [(''type'', VStr (js ''http'')), (''method'', VStr (js ''POST'')),
       (''path'', VStr (js ''/customers'')), (''headers'', VObj 1)]" by (simp add: scope_heap_def)
  note facts = plain_object_facts [where h = scope_heap and r = 0, OF h]
  have "message_read scope_heap (VObj 0) = Inr (Some (js ''POST'', js ''/customers''))"
    using facts(2) by (simp add: message_read_def facts(4))
  from router_dispatches [OF table_checked this, of "\<lambda>_ _ _. eret (router_error 200 ''DONE'')" "()"] show ?thesis
    by (simp add: router_error_def literal_answer_def)
qed

theorem turned_away_unserved_witness:
  "customer_app sample_plain (\<lambda>_. JInt 0) (\<lambda>_. type_error []) (Some 3) scope_heap (VObj 0) (Given one_event) (Given send_nothing)
     sample_world = Some (send_all send_nothing (refusal_events 400 ''PROFILE_SCOPE_INVALID'') sample_world)"
proof -
  have h: "event_heap 0 = plain_object [(''type'', VStr (js ''http.request'')), (''body'', VObj 1)]" by (simp add: event_heap_def)
  note facts = plain_object_facts [where h = event_heap and r = 0, OF h]
  have "chunk_of event_heap (VObj 1) = Some sample_body" by (simp add: chunk_of_def event_heap_def)
  then have "next_chunk (Some 3) 0 event_heap (VObj 0) = Inr None"
    using facts(2) by (simp add: next_chunk_def facts(4) sample_body_bytes del: One_nat_def)
  then have "receive_chunks one_event (Some 3) [] 0 sample_world = Some (Inr None, sample_world)"
    by (simp add: receive_chunks.simps [of one_event])
  with turned_away_unserved [where limit = "Some 3" and h = scope_heap and scope = "VObj 0" and service = sample_plain
      and num = "\<lambda>_. JInt 0" and other = "\<lambda>_. type_error []" and rc = one_event and sd = send_nothing and w = sample_world] show ?thesis
    by (simp add: sample_scope max_safe_integer_def)
qed



end
