(* ===== verification/Host_Args.thy ===== *)
theory Host_Args
  imports Domain_Identity Json_Parse
begin

text \<open>
  The command line of the host: \<^verbatim>\<open>parseArgs\<close> of \<^verbatim>\<open>src/host/js_asgi/create_customer_asgi_runner.mjs\<close>, and
  \<^verbatim>\<open>src/host/deploy/secret_file_runner.mjs\<close>, which makes that command line from two mounted files.
\<close>

section \<open>The runner's arguments\<close>

datatype policy_mode = DenyMode | AllowMode

record runner_args =
  ra_policy :: policy_mode
  ra_connection :: "js_string option"
  ra_tenant :: "js_string option"
  ra_actor :: "js_string option"
  ra_audit :: bool

text \<open>The trusted forms; a refusal is a text.\<close>

definition trusted_actor_form :: regex where
  "trusted_actor_form = Seq (Class [(0x21, 0x7E)]) (up_to 127 (Class [(0x21, 0x7E)]))"

definition check_trusted_tenant :: "js_string \<Rightarrow> js_string option" where
  "check_trusted_tenant v =
     (if \<not> re_test uuid_form v
      then Some (js ''--trusted-tenant-id must be a canonical lowercase hyphenated UUID in 8-4-4-4-12 form'')
      else if v = nil_uuid then Some (js ''--trusted-tenant-id must not be the nil UUID'') else None)"

definition check_trusted_actor :: "js_string \<Rightarrow> js_string option" where
  "check_trusted_actor v =
     (if v = [] then Some (js ''--trusted-actor-id must not be empty'')
      else if \<not> re_test trusted_actor_form v
      then Some (js ''--trusted-actor-id must be 1-128 visible ASCII characters'') else None)"

text \<open>One flag with the argument after it, which may be missing.\<close>

type_synonym 'a parsed = "js_string + 'a"

definition needs_value :: "string \<Rightarrow> js_string option \<Rightarrow> (js_string \<Rightarrow> 'a parsed) \<Rightarrow> 'a parsed" where
  "needs_value flag v f = (case v of None \<Rightarrow> Inl (js (flag @ '' requires a value'')) | Some s \<Rightarrow> f s)"

definition take_flag :: "runner_args \<Rightarrow> js_string \<Rightarrow> js_string option \<Rightarrow> runner_args parsed" where
  "take_flag args flag v =
     (if flag = js ''--policy'' then needs_value ''--policy'' v (\<lambda>s.
        if s = js ''deny'' then Inr (args\<lparr>ra_policy := DenyMode\<rparr>)
        else if s = js ''allow'' then Inr (args\<lparr>ra_policy := AllowMode\<rparr>)
        else Inl (js ''--policy must be \"deny\" or \"allow\", got '' @ quote s))
      else if flag = js ''--connection-string'' then needs_value ''--connection-string'' v (\<lambda>s.
        if s = [] then Inl (js ''--connection-string must not be empty'') else Inr (args\<lparr>ra_connection := Some s\<rparr>))
      else if flag = js ''--trusted-tenant-id'' then needs_value ''--trusted-tenant-id'' v (\<lambda>s.
        case check_trusted_tenant s of Some problem \<Rightarrow> Inl problem | None \<Rightarrow> Inr (args\<lparr>ra_tenant := Some s\<rparr>))
      else if flag = js ''--trusted-actor-id'' then needs_value ''--trusted-actor-id'' v (\<lambda>s.
        case check_trusted_actor s of Some problem \<Rightarrow> Inl problem | None \<Rightarrow> Inr (args\<lparr>ra_actor := Some s\<rparr>))
      else if flag = js ''--audit'' then needs_value ''--audit'' v (\<lambda>s.
        if s = js ''on'' then Inr (args\<lparr>ra_audit := True\<rparr>)
        else if s = js ''off'' then Inr (args\<lparr>ra_audit := False\<rparr>)
        else Inl (js ''--audit must be \"on\" or \"off\", got '' @ quote s))
      else Inl (js ''unrecognized argument: '' @ flag))"

function take_flags :: "runner_args \<Rightarrow> js_string list \<Rightarrow> runner_args parsed" where
  "take_flags args [] = Inr args"
| "take_flags args (flag # rest) =
     rbind (take_flag args flag (case rest of [] \<Rightarrow> None | v # _ \<Rightarrow> Some v)) (\<lambda>args1. take_flags args1 (tl rest))"
  by pat_completeness auto
termination by (relation "measure (\<lambda>(_, argv). length argv)") auto

definition no_args :: runner_args where
  "no_args = \<lparr>ra_policy = DenyMode, ra_connection = None, ra_tenant = None, ra_actor = None, ra_audit = False\<rparr>"

definition check_args_together :: "runner_args \<Rightarrow> runner_args parsed" where
  "check_args_together args =
     (if ra_audit args \<and> ra_policy args \<noteq> AllowMode then Inl (js ''--audit on requires --policy allow'')
      else if ra_policy args = AllowMode \<and> ra_connection args = None then Inl (js ''--policy allow requires --connection-string'')
      else if ra_policy args = AllowMode \<and> ra_tenant args = None then Inl (js ''--policy allow requires --trusted-tenant-id'')
      else if ra_policy args = AllowMode \<and> ra_actor args = None then Inl (js ''--policy allow requires --trusted-actor-id'')
      else Inr args)"

definition parse_args :: "js_string list \<Rightarrow> runner_args parsed" where
  "parse_args argv = rbind (take_flags no_args argv) check_args_together"

section \<open>The secret file runner\<close>

record mounted_paths =
  path_config :: "js_string option"
  path_database :: "js_string option"

text \<open>The position of a refused argument is all that is said of it.\<close>

definition flag_config :: js_string where "flag_config = js ''--config-file''"

definition flag_database :: js_string where "flag_database = js ''--database-url-file''"

definition path_of :: "mounted_paths \<Rightarrow> js_string \<Rightarrow> js_string option" where
  "path_of paths flag = (if flag = flag_config then path_config paths else path_database paths)"

definition put_path :: "mounted_paths \<Rightarrow> js_string \<Rightarrow> js_string \<Rightarrow> mounted_paths" where
  "put_path paths flag v =
     (if flag = flag_config then paths\<lparr>path_config := Some v\<rparr> else paths\<lparr>path_database := Some v\<rparr>)"

function take_paths :: "nat \<Rightarrow> mounted_paths \<Rightarrow> js_string list \<Rightarrow> mounted_paths parsed" where
  "take_paths i paths [] = Inr paths"
| "take_paths i paths (flag # rest) =
     (if flag \<noteq> flag_config \<and> flag \<noteq> flag_database
      then Inl (js ''unrecognized argument at position '' @ dec_nat (i + 1) @ js ''; only '' @ flag_config @ js '' and '' @ flag_database
        @ js '' are accepted'')
      else if path_of paths flag \<noteq> None then Inl (flag @ js '' may be given only once'')
      else if rest = [] \<or> hd rest = [] then Inl (flag @ js '' requires a mounted file path'')
      else take_paths (i + 2) (put_path paths flag (hd rest)) (tl rest))"
  by pat_completeness auto
termination by (relation "measure (\<lambda>(_, _, argv). length argv)") auto

definition parse_paths :: "js_string list \<Rightarrow> (js_string \<times> js_string) parsed" where
  "parse_paths argv = rbind (take_paths 0 \<lparr>path_config = None, path_database = None\<rparr> argv) (\<lambda>paths.
     case path_config paths of None \<Rightarrow> Inl (flag_config @ js '' is required'')
     | Some c \<Rightarrow> (case path_database paths of None \<Rightarrow> Inl (flag_database @ js '' is required'') | Some d \<Rightarrow> Inr (c, d)))"

definition config_fields :: "string list" where
  "config_fields = [''audit'', ''policy'', ''trustedActorId'', ''trustedTenantId'']"

text \<open>The mounted config is a parsed JSON value.\<close>

definition check_config :: "json \<Rightarrow> (js_string \<times> js_string) parsed" where
  "check_config config = (case config of
     JsonObj ms \<Rightarrow>
       if sort (map fst ms) \<noteq> map js config_fields
       then Inl (js ''the mounted config must carry exactly the fields audit, policy, trustedActorId, trustedTenantId'')
       else if map_of ms (js ''policy'') \<noteq> Some (JsonStr (js ''allow''))
       then Inl (js ''config field \"policy\" must be exactly \"allow\"'')
       else if map_of ms (js ''audit'') \<noteq> Some (JsonStr (js ''on''))
       then Inl (js ''config field \"audit\" must be exactly \"on\"'')
       else (case map_of ms (js ''trustedTenantId'') of
         Some (JsonStr tenant) \<Rightarrow>
           if \<not> re_test uuid_form tenant
           then Inl (js ''config field \"trustedTenantId\" must be a canonical lowercase hyphenated UUID in 8-4-4-4-12 form'')
           else if tenant = nil_uuid then Inl (js ''config field \"trustedTenantId\" must not be the nil UUID'')
           else (case map_of ms (js ''trustedActorId'') of
             Some (JsonStr actor) \<Rightarrow>
               if re_test trusted_actor_form actor then Inr (tenant, actor)
               else Inl (js ''config field \"trustedActorId\" must be 1-128 visible ASCII characters'')
           | _ \<Rightarrow> Inl (js ''config field \"trustedActorId\" must be 1-128 visible ASCII characters''))
       | _ \<Rightarrow> Inl (js ''config field \"trustedTenantId\" must be a canonical lowercase hyphenated UUID in 8-4-4-4-12 form''))
   | _ \<Rightarrow> Inl (js ''the mounted config must be an ordinary JSON object''))"

text \<open>Exactly one newline at the end is taken off.\<close>

definition drop_newline :: "js_string \<Rightarrow> js_string" where
  "drop_newline s = (if s \<noteq> [] \<and> last s = 0x0A then butlast s else s)"

definition handed_argv :: "js_string \<Rightarrow> js_string \<Rightarrow> js_string \<Rightarrow> js_string list" where
  "handed_argv connection tenant actor =
     [js ''--policy'', js ''allow'', js ''--connection-string'', connection, js ''--trusted-tenant-id'', tenant,
      js ''--trusted-actor-id'', actor, js ''--audit'', js ''on'']"

text \<open>
  The whole of the wrapper, over what reading a file gives (the errno of a failure is a text): the
  arguments it hands on, or the refusal it writes.
\<close>

definition secret_file_run ::
    "(js_string \<Rightarrow> js_number) \<Rightarrow> (js_string \<Rightarrow> js_string + js_string) \<Rightarrow> js_string list \<Rightarrow> js_string list parsed" where
  "secret_file_run num mounted argv =
     rbind (parse_paths argv) (\<lambda>(config_path, database_path).
     case mounted config_path of
       Inl errno \<Rightarrow> Inl (js ''the mounted config file at '' @ config_path @ js '' could not be read: '' @ errno)
     | Inr raw \<Rightarrow> (case json_parse num raw of
         None \<Rightarrow> Inl (js ''the mounted config file at '' @ config_path @ js '' is not valid JSON: SyntaxError'')
       | Some config \<Rightarrow> (case check_config config of
           Inl problem \<Rightarrow> Inl (problem @ js ''; mounted config file at '' @ config_path)
         | Inr (tenant, actor) \<Rightarrow> (case mounted database_path of
             Inl errno \<Rightarrow> Inl (js ''the mounted database-url file at '' @ database_path @ js '' could not be read: '' @ errno)
           | Inr url \<Rightarrow> let connection = drop_newline url in
               if connection = [] then Inl (js ''the mounted database-url file at '' @ database_path @ js '' is empty'')
               else Inr (handed_argv connection tenant actor)))))"

section \<open>What is accepted\<close>

text \<open>The trusted forms are the ones of the identities.\<close>

lemma trusted_tenant_iff: "check_trusted_tenant s = None \<longleftrightarrow> tenant_id_new (VStr s) = Inr (TenantId s)"
  by (simp add: check_trusted_tenant_def tenant_id_new_def canonical_uuid_def type_error_def range_error_def)

lemma trusted_actor_forms: "trusted_actor_form = actor_form"
  by (simp add: trusted_actor_form_def actor_form_def)

lemma trusted_actor_iff: "check_trusted_actor s = None \<longleftrightarrow> actor_id_new (VStr s) = Inr (ActorId s)"
proof -
  have "\<not> re_test actor_form []" by code_simp
  then show ?thesis
    by (auto simp: check_trusted_actor_def actor_id_new_def canonical_actor_def trusted_actor_forms type_error_def range_error_def)
qed

definition trusted_args :: "runner_args \<Rightarrow> bool" where
  "trusted_args args \<longleftrightarrow> (\<forall>s. ra_connection args = Some s \<longrightarrow> s \<noteq> []) \<and>
     (\<forall>s. ra_tenant args = Some s \<longrightarrow> tenant_id_new (VStr s) = Inr (TenantId s)) \<and>
     (\<forall>s. ra_actor args = Some s \<longrightarrow> actor_id_new (VStr s) = Inr (ActorId s))"

lemma take_flag_trusted: "take_flag args flag v = Inr args1 \<Longrightarrow> trusted_args args \<Longrightarrow> trusted_args args1"
  by (auto simp: take_flag_def needs_value_def trusted_args_def trusted_tenant_iff trusted_actor_iff
      split: if_splits option.splits)

lemma take_flags_trusted: "take_flags args argv = Inr args1 \<Longrightarrow> trusted_args args \<Longrightarrow> trusted_args args1"
proof (induction args argv rule: take_flags.induct)
  case (2 args flag rest)
  then show ?case by (auto simp: rbind_eq_Inr dest: take_flag_trusted)
qed simp

lemma parse_args_trusted:
  assumes "parse_args argv = Inr args"
  shows "trusted_args args \<and> (ra_audit args \<longrightarrow> ra_policy args = AllowMode) \<and>
    (ra_policy args = AllowMode \<longrightarrow> ra_connection args \<noteq> None \<and> ra_tenant args \<noteq> None \<and> ra_actor args \<noteq> None)"
proof -
  obtain args1 where args1: "take_flags no_args argv = Inr args1" "check_args_together args1 = Inr args"
    using assms by (auto simp: parse_args_def rbind_eq_Inr)
  have "trusted_args args1" by (rule take_flags_trusted [OF args1(1)]) (simp add: no_args_def trusted_args_def)
  with args1(2) show ?thesis by (auto simp: check_args_together_def split: if_splits)
qed

text \<open>
  Only a trusted caller. Arguments the runner accepts turn the audit on only together with the
  policy that allows, and allow only with a connection string and a tenant and an actor from which
  the identities of the domain can be constructed.
\<close>

theorem accepted_args_are_trusted:
  assumes "parse_args argv = Inr args"
  shows "(ra_audit args \<longrightarrow> ra_policy args = AllowMode) \<and>
    (ra_policy args = AllowMode \<longrightarrow> (\<exists>connection tenant actor. ra_connection args = Some connection \<and> connection \<noteq> [] \<and>
      ra_tenant args = Some tenant \<and> tenant_id_new (VStr tenant) = Inr (TenantId tenant) \<and>
      ra_actor args = Some actor \<and> actor_id_new (VStr actor) = Inr (ActorId actor)))"
  using parse_args_trusted [OF assms] by (auto simp: trusted_args_def)

lemma handed_parsed:
  assumes "connection \<noteq> []" "check_trusted_tenant tenant = None" "check_trusted_actor actor = None"
  shows "parse_args (handed_argv connection tenant actor) = Inr \<lparr>ra_policy = AllowMode, ra_connection = Some connection,
    ra_tenant = Some tenant, ra_actor = Some actor, ra_audit = True\<rparr>"
  using assms
  by (simp add: parse_args_def handed_argv_def take_flag_def needs_value_def no_args_def check_args_together_def)

lemma check_config_trusted:
  "check_config config = Inr (tenant, actor) \<Longrightarrow> check_trusted_tenant tenant = None \<and> check_trusted_actor actor = None"
proof -
  have "\<not> re_test trusted_actor_form []" by code_simp
  then show "check_config config = Inr (tenant, actor) \<Longrightarrow> check_trusted_tenant tenant = None \<and> check_trusted_actor actor = None"
    by (auto simp: check_config_def check_trusted_tenant_def check_trusted_actor_def
        split: json.splits if_splits option.splits)
qed

lemma secret_run_cases:
  assumes "secret_file_run num mounted argv = Inr out"
  obtains c d raw config tenant actor url where "parse_paths argv = Inr (c, d)" "mounted c = Inr raw" "json_parse num raw = Some config"
    "check_config config = Inr (tenant, actor)" "mounted d = Inr url" "drop_newline url \<noteq> []"
    "out = handed_argv (drop_newline url) tenant actor"
proof -
  obtain c d where cd: "parse_paths argv = Inr (c, d)" using assms by (auto simp: secret_file_run_def rbind_eq_Inr)
  obtain raw where raw: "mounted c = Inr raw" using assms cd by (cases "mounted c") (auto simp: secret_file_run_def)
  obtain config where config: "json_parse num raw = Some config"
    using assms cd raw by (cases "json_parse num raw") (auto simp: secret_file_run_def)
  obtain tenant actor where ta: "check_config config = Inr (tenant, actor)"
    using assms cd raw config by (cases "check_config config") (auto simp: secret_file_run_def)
  obtain url where url: "mounted d = Inr url"
    using assms cd raw config ta by (cases "mounted d") (auto simp: secret_file_run_def)
  show thesis
    using assms cd raw config ta url that by (auto simp: secret_file_run_def Let_def split: if_splits)
qed

text \<open>
  C12. What is handed on is accepted. The arguments the secret file runner makes from its two mounts are
  accepted by the runner it hands them to, and select what the mounts say: the policy that allows, with
  the audit on, for the tenant and the actor of the config and with the connection string of the other
  file, less one newline.
\<close>

theorem handed_args_are_accepted:
  assumes "secret_file_run num mounted argv = Inr out"
  shows "\<exists>c d raw config tenant actor url. parse_paths argv = Inr (c, d) \<and> mounted c = Inr raw \<and> json_parse num raw = Some config \<and>
    check_config config = Inr (tenant, actor) \<and> mounted d = Inr url \<and>
    parse_args out = Inr \<lparr>ra_policy = AllowMode, ra_connection = Some (drop_newline url), ra_tenant = Some tenant,
      ra_actor = Some actor, ra_audit = True\<rparr>"
proof -
  from assms obtain c d raw config tenant actor url where
    run: "parse_paths argv = Inr (c, d)" "mounted c = Inr raw" "json_parse num raw = Some config"
      "check_config config = Inr (tenant, actor)" "mounted d = Inr url" "drop_newline url \<noteq> []"
      "out = handed_argv (drop_newline url) tenant actor" by (rule secret_run_cases)
  from handed_parsed [OF run(6)] check_config_trusted [OF run(4)] run show ?thesis by blast
qed

section \<open>What a refusal says\<close>

definition config_problems :: "js_string set" where
  "config_problems = js ` {''the mounted config must be an ordinary JSON object'',
     ''the mounted config must carry exactly the fields audit, policy, trustedActorId, trustedTenantId'',
     ''config field \"policy\" must be exactly \"allow\"'', ''config field \"audit\" must be exactly \"on\"'',
     ''config field \"trustedTenantId\" must be a canonical lowercase hyphenated UUID in 8-4-4-4-12 form'',
     ''config field \"trustedTenantId\" must not be the nil UUID'',
     ''config field \"trustedActorId\" must be 1-128 visible ASCII characters''}"

lemma check_config_problem: "check_config config = Inl problem \<Longrightarrow> problem \<in> config_problems"
  unfolding check_config_def config_problems_def
  by (auto split: json.splits if_splits option.splits)

text \<open>The refusals of the argument list name flags and positions, never an argument.\<close>

definition path_problems :: "nat \<Rightarrow> js_string set" where
  "path_problems n = {js ''unrecognized argument at position '' @ dec_nat (i + 1) @ js ''; only '' @ flag_config @ js '' and ''
       @ flag_database @ js '' are accepted'' | i. i < n} \<union>
     (\<Union>flag \<in> {flag_config, flag_database}. {flag @ js '' may be given only once'', flag @ js '' requires a mounted file path'',
       flag @ js '' is required''})"

lemma take_paths_problem: "take_paths i paths argv = Inl e \<Longrightarrow> e \<in> path_problems (i + length argv)"
proof (induction i paths argv rule: take_paths.induct)
  case (2 i paths flag rest)
  show ?case
  proof (cases "flag \<noteq> flag_config \<and> flag \<noteq> flag_database")
    case True
    with 2 show ?thesis by (auto simp: path_problems_def)
  next
    case known: False
    show ?thesis
    proof (cases "path_of paths flag \<noteq> None \<or> rest = [] \<or> hd rest = []")
      case True
      with known 2 show ?thesis by (auto simp: path_problems_def split: if_splits)
    next
      case False
      then obtain v rest1 where rest: "rest = v # rest1" by (cases rest) auto
      with known False 2 show ?thesis by auto
    qed
  qed
qed simp

definition told :: "(js_string \<Rightarrow> js_string option) \<Rightarrow> js_string list \<Rightarrow> js_string set" where
  "told errnos argv = (case parse_paths argv of
     Inl _ \<Rightarrow> path_problems (length argv)
   | Inr (c, d) \<Rightarrow>
       {js ''the mounted config file at '' @ c @ js '' could not be read: '' @ e | e. errnos c = Some e} \<union>
       {js ''the mounted config file at '' @ c @ js '' is not valid JSON: SyntaxError''} \<union>
       {problem @ js ''; mounted config file at '' @ c | problem. problem \<in> config_problems} \<union>
       {js ''the mounted database-url file at '' @ d @ js '' could not be read: '' @ e | e. errnos d = Some e} \<union>
       {js ''the mounted database-url file at '' @ d @ js '' is empty''})"

text \<open>
  C13. A refusal gives nothing away. What the secret file runner writes when it refuses is one of the
  texts that the argument list and the errnos of the files alone allow: no byte of what is mounted is
  in it, and no argument but the two paths.
\<close>

theorem refusal_tells_no_content:
  assumes "secret_file_run num mounted argv = Inl e"
  shows "e \<in> told (\<lambda>path. case mounted path of Inl errno \<Rightarrow> Some errno | Inr _ \<Rightarrow> None) argv"
proof (cases "parse_paths argv")
  case (Inl x)
  then have "take_paths 0 \<lparr>path_config = None, path_database = None\<rparr> argv = Inl x \<or>
      x \<in> {flag_config @ js '' is required'', flag_database @ js '' is required''}"
    by (auto simp: parse_paths_def rbind_eq_Inl split: option.splits)
  then have "x \<in> path_problems (length argv)"
    using take_paths_problem [of 0 _ argv x] by (auto simp: path_problems_def)
  with Inl assms show ?thesis by (auto simp: secret_file_run_def told_def)
next
  case (Inr cd)
  then show ?thesis
    using assms check_config_problem
    by (auto simp: secret_file_run_def told_def Let_def split: sum.splits option.splits if_splits)
qed

section \<open>Two mounts\<close>

definition sample_trusted :: js_string where
  "sample_trusted = js ''11111111-1111-4111-8111-111111111111''"

definition sample_config :: json where
  "sample_config = JsonObj [(js ''audit'', JsonStr (js ''on'')), (js ''policy'', JsonStr (js ''allow'')),
     (js ''trustedActorId'', JsonStr (js ''user:1'')), (js ''trustedTenantId'', JsonStr sample_trusted)]"

definition sample_mounts :: "js_string \<Rightarrow> js_string + js_string" where
  "sample_mounts path = (if path = js ''/c'' then Inr (render sample_config)
     else if path = js ''/d'' then Inr (js ''postgres://db'' @ [0x0A]) else Inl (js ''ENOENT''))"

abbreviation (input) sample_argv :: "js_string \<Rightarrow> js_string list" where
  "sample_argv database \<equiv> [js ''--config-file'', js ''/c'', js ''--database-url-file'', database]"

lemma sample_paths: "d \<noteq> [] \<Longrightarrow> parse_paths (sample_argv d) = Inr (js ''/c'', d)"
  by (simp add: parse_paths_def flag_config_def flag_database_def path_of_def put_path_def)

lemma sample_config_read: "json_parse (\<lambda>_. JInt 0) (render sample_config) = Some sample_config"
  by (rule parse_render) (simp_all add: sample_config_def)

lemma sample_config_checked: "check_config sample_config = Inr (sample_trusted, js ''user:1'')"
proof -
  have "sorted (map js config_fields)" by code_simp
  then have "sort (map js config_fields) = map js config_fields" by (rule sorted_sort_id)
  moreover have "re_test uuid_form sample_trusted" "sample_trusted \<noteq> nil_uuid" "re_test trusted_actor_form (js ''user:1'')"
    by code_simp+
  ultimately show ?thesis by (simp add: check_config_def sample_config_def config_fields_def)
qed

lemma sample_newline: "drop_newline (js ''postgres://db'' @ [0x0A]) = js ''postgres://db''"
  by (simp add: drop_newline_def)

lemma sample_secret_run:
  "secret_file_run (\<lambda>_. JInt 0) sample_mounts (sample_argv (js ''/d'')) =
     Inr (handed_argv (js ''postgres://db'') sample_trusted (js ''user:1''))"
proof -
  have "js ''/d'' \<noteq> []" "js ''postgres://db'' \<noteq> []" by (simp_all add: js_def)
  then show ?thesis
    using sample_paths [of "js ''/d''"]
    by (simp add: secret_file_run_def sample_mounts_def sample_config_read sample_config_checked sample_newline Let_def)
qed

theorem handed_args_are_accepted_witness:
  "parse_args (handed_argv (js ''postgres://db'') sample_trusted (js ''user:1'')) =
     Inr \<lparr>ra_policy = AllowMode, ra_connection = Some (js ''postgres://db''), ra_tenant = Some sample_trusted,
       ra_actor = Some (js ''user:1''), ra_audit = True\<rparr>"
proof -
  have "js ''/d'' \<noteq> []" by (simp add: js_def)
  from handed_args_are_accepted [OF sample_secret_run] sample_paths [OF this] sample_config_read sample_config_checked sample_newline
  show ?thesis by (auto simp: sample_mounts_def)
qed

theorem accepted_args_are_trusted_witness:
  "\<exists>args. parse_args (handed_argv (js ''postgres://db'') sample_trusted (js ''user:1'')) = Inr args \<and>
     tenant_id_new (VStr sample_trusted) = Inr (TenantId sample_trusted)"
proof -
  have "js ''postgres://db'' \<noteq> []" by (simp add: js_def)
  from handed_parsed [OF this] check_config_trusted [OF sample_config_checked]
  have run: "parse_args (handed_argv (js ''postgres://db'') sample_trusted (js ''user:1'')) =
     Inr \<lparr>ra_policy = AllowMode, ra_connection = Some (js ''postgres://db''), ra_tenant = Some sample_trusted,
       ra_actor = Some (js ''user:1''), ra_audit = True\<rparr>" by blast
  from accepted_args_are_trusted [OF this] run show ?thesis by simp
qed

theorem refusal_tells_no_content_witness:
  "js ''the mounted database-url file at '' @ js ''/e'' @ js '' could not be read: '' @ js ''ENOENT''
     \<in> told (\<lambda>path. case sample_mounts path of Inl errno \<Rightarrow> Some errno | Inr _ \<Rightarrow> None) (sample_argv (js ''/e''))"
proof (rule refusal_tells_no_content)
  have "js ''/e'' \<noteq> []" by (simp add: js_def)
  then show "secret_file_run (\<lambda>_. JInt 0) sample_mounts (sample_argv (js ''/e'')) =
      Inl (js ''the mounted database-url file at '' @ js ''/e'' @ js '' could not be read: '' @ js ''ENOENT'')"
    using sample_paths [of "js ''/e''"]
    by (simp add: secret_file_run_def sample_mounts_def sample_config_read sample_config_checked)
qed

end
