(* ===== verification/Host_Clock.thy ===== *)
theory Host_Clock
  imports Instants Decision_Log Utf8
begin

text \<open>
  \<^verbatim>\<open>src/host/js_asgi/create_customer_asgi_runner.mjs\<close>, its two audit collaborators: the id and the instant
  of an entry, made from a reading of the clock in milliseconds and from random bytes.
\<close>

section \<open>Identifiers\<close>

definition crockford :: js_string where
  "crockford = js ''0123456789ABCDEFGHJKMNPQRSTVWXYZ''"

definition ulid_time_length :: nat where "ulid_time_length = 10"

definition ulid_random_length :: nat where "ulid_random_length = 16"

text \<open>The loop over the positions: the last digit first, put in front of what is there.\<close>

fun ulid_time :: "nat \<Rightarrow> nat \<Rightarrow> js_string \<Rightarrow> js_string" where
  "ulid_time 0 remaining time = time"
| "ulid_time (Suc position) remaining time =
     ulid_time position (remaining div 32) (crockford ! (remaining mod 32) # time)"

definition ulid_random :: "bytes \<Rightarrow> js_string" where
  "ulid_random random = map (\<lambda>byte. crockford ! (unat byte mod 32)) random"

definition mint_ulid :: "nat \<Rightarrow> bytes \<Rightarrow> js_string" where
  "mint_ulid now random = ulid_time ulid_time_length now [] @ ulid_random random"

lemma length_crockford: "length crockford = 32"
  by code_simp

definition crockford_class :: "(code_unit \<times> code_unit) list" where
  "crockford_class = [(0x30, 0x39), (0x41, 0x48), (0x4A, 0x4B), (0x4D, 0x4E), (0x50, 0x54), (0x56, 0x5A)]"

lemma crockford_facts:
  "list_all (in_class crockford_class) crockford" "list_all (in_class [(0x30, 0x37)]) (take 8 crockford)"
  "list_all (\<lambda>c. \<not> in_class [(0x30, 0x37)] c) (drop 8 crockford)" "sorted_wrt (<) crockford"
  by code_simp+

lemma crockford_in: "n < 32 \<Longrightarrow> in_class crockford_class (crockford ! n)"
  using crockford_facts(1) by (simp add: list_all_length length_crockford)

lemma crockford_low: "n < 32 \<Longrightarrow> in_class [(0x30, 0x37)] (crockford ! n) \<longleftrightarrow> n < 8"
proof (cases "n < 8")
  case True
  then have "take 8 crockford ! n = crockford ! n" "n < length (take 8 crockford)" by (simp_all add: length_crockford)
  with crockford_facts(2) True show ?thesis by (metis list_all_length)
next
  case False
  assume "n < 32"
  with False have "drop 8 crockford ! (n - 8) = crockford ! n" "n - 8 < length (drop 8 crockford)"
    by (simp_all add: length_crockford)
  with crockford_facts(3) False show ?thesis by (metis list_all_length)
qed

lemma crockford_less: "m < 32 \<Longrightarrow> n < 32 \<Longrightarrow> crockford ! m < crockford ! n \<longleftrightarrow> m < n"
proof -
  have up: "m < n \<Longrightarrow> n < 32 \<Longrightarrow> crockford ! m < crockford ! n" for m n
    using crockford_facts(4) by (simp add: sorted_wrt_iff_nth_less length_crockford)
  assume "m < 32" "n < 32"
  with up [of m n] up [of n m] show ?thesis by (cases m n rule: linorder_cases) auto
qed

lemma crockford_eq: "m < 32 \<Longrightarrow> n < 32 \<Longrightarrow> crockford ! m = crockford ! n \<longleftrightarrow> m = n"
  using crockford_less [of m n] crockford_less [of n m] by (cases m n rule: linorder_cases) auto

text \<open>The digits to the base 32, the first one being what is left of the reading.\<close>

fun base32 :: "nat \<Rightarrow> nat \<Rightarrow> js_string" where
  "base32 0 n = []"
| "base32 (Suc k) n = base32 k (n div 32) @ [crockford ! (n mod 32)]"

lemma ulid_time_base32: "ulid_time k n time = base32 k n @ time"
  by (induction k arbitrary: n time) auto

lemma length_base32 [simp]: "length (base32 k n) = k"
  by (induction k arbitrary: n) auto

lemma base32_in: "list_all (in_class crockford_class) (base32 k n)"
  by (induction k arbitrary: n) (auto simp: crockford_in)

lemma base32_first: "base32 (Suc k) n = crockford ! (n div 32 ^ k mod 32) # base32 k n"
proof (induction k arbitrary: n)
  case (Suc k)
  have "base32 (Suc (Suc k)) n = base32 (Suc k) (n div 32) @ [crockford ! (n mod 32)]" by (rule base32.simps(2))
  also have "base32 (Suc k) (n div 32) = crockford ! (n div 32 div 32 ^ k mod 32) # base32 k (n div 32)" by (rule Suc.IH)
  also have "(crockford ! (n div 32 div 32 ^ k mod 32) # base32 k (n div 32)) @ [crockford ! (n mod 32)] =
      crockford ! (n div 32 ^ Suc k mod 32) # base32 (Suc k) n"
    by (simp add: div_mult2_eq [symmetric])
  finally show ?case .
qed simp

lemma base32_less: "m < 32 ^ k \<Longrightarrow> n < 32 ^ k \<Longrightarrow> base32 k m < base32 k n \<longleftrightarrow> m < n"
  and base32_inject: "m < 32 ^ k \<Longrightarrow> n < 32 ^ k \<Longrightarrow> base32 k m = base32 k n \<longleftrightarrow> m = n"
proof (induction k arbitrary: m n)
  case (Suc k)
  {
    case 1
    then have lt: "m div 32 < 32 ^ k" "n div 32 < 32 ^ k" by (simp_all add: less_mult_imp_div_less mult.commute)
    have "m = 32 * (m div 32) + m mod 32" "n = 32 * (n div 32) + n mod 32" "m mod 32 < 32" "n mod 32 < 32" by simp_all
    then have "m < n \<longleftrightarrow> m div 32 < n div 32 \<or> (m div 32 = n div 32 \<and> m mod 32 < n mod 32)" by linarith
    then show ?case by (simp add: append_less_iff Suc.IH(1) [OF lt] Suc.IH(2) [OF lt] crockford_less)
  next
    case 2
    then have lt: "m div 32 < 32 ^ k" "n div 32 < 32 ^ k" by (simp_all add: less_mult_imp_div_less mult.commute)
    have "m = 32 * (m div 32) + m mod 32" "n = 32 * (n div 32) + n mod 32" by simp_all
    then have "m = n \<longleftrightarrow> m div 32 = n div 32 \<and> m mod 32 = n mod 32" by metis
    then show ?case by (simp add: Suc.IH(2) [OF lt] crockford_eq)
  }
qed simp_all

text \<open>The ids the host mints are the ones the log admits, and later readings have greater ids.\<close>

lemma lang_crockford: "s \<in> lang (rep n (Class crockford_class)) \<longleftrightarrow> length s = n \<and> list_all (in_class crockford_class) s"
  by (rule lang_rep_Class)

lemma minted_form:
  assumes "now < 2 ^ 50" and "length random = ulid_random_length"
  shows "mint_ulid now random \<in> lang ulid_form \<longleftrightarrow> now < 2 ^ 48"
proof -
  let ?c = "crockford ! (now div 32 ^ 9 mod 32)"
  have parts: "mint_ulid now random = ?c # base32 9 now @ ulid_random random"
    unfolding mint_ulid_def ulid_time_base32 ulid_time_length_def
    by (simp only: base32_first [of 9, simplified] append.simps append_Nil2) simp
  have rest: "base32 9 now @ ulid_random random \<in> lang (rep 25 (Class crockford_class))"
    unfolding lang_crockford using assms(2) base32_in
    by (auto simp: ulid_random_def ulid_random_length_def list_all_iff crockford_in)
  have "mint_ulid now random \<in> lang ulid_form \<longleftrightarrow> in_class [(0x30, 0x37)] ?c"
    using rest by (simp only: ulid_form_def parts crockford_class_def [symmetric] lang.simps(4) conc_Class list.inject) blast
  also have "\<dots> \<longleftrightarrow> now div 32 ^ 9 < 8"
    using assms(1) by (subst crockford_low) (simp_all add: less_mult_imp_div_less)
  also have "\<dots> \<longleftrightarrow> now < 2 ^ 48" by (simp add: div_less_iff_less_mult)
  finally show ?thesis .
qed

lemma minted_order:
  assumes "now < 2 ^ 50" "later < 2 ^ 50" "now < later"
  shows "mint_ulid now random < mint_ulid later other"
proof -
  have "base32 ulid_time_length now < base32 ulid_time_length later"
    using assms by (simp add: base32_less ulid_time_length_def)
  then show ?thesis by (simp add: mint_ulid_def ulid_time_base32 append_less_iff)
qed

section \<open>Instants\<close>

text \<open>
  \<open>new Date(now).toISOString()\<close>: the year and the month are found by taking whole years from 1970 and
  whole months from January off the days.
\<close>

definition days_in_year :: "nat \<Rightarrow> nat" where
  "days_in_year y = (if is_leap_year y then 366 else 365)"

function year_from :: "nat \<Rightarrow> nat \<Rightarrow> nat \<times> nat" where
  "year_from y d = (if d < days_in_year y then (y, d) else year_from (Suc y) (d - days_in_year y))"
  by auto
termination by (relation "measure snd") (auto simp: days_in_year_def split: if_splits)

declare year_from.simps [simp del]

fun month_from :: "nat \<Rightarrow> nat \<Rightarrow> nat \<Rightarrow> nat \<Rightarrow> nat \<times> nat" where
  "month_from 0 y m d = (m, d)"
| "month_from (Suc k) y m d = (if d < length_of_month y m then (m, d) else month_from k y (Suc m) (d - length_of_month y m))"

definition utc_moment :: "nat \<Rightarrow> moment" where
  "utc_moment now = (let (year, yday) = year_from 1970 (now div 86400000); (month, mday) = month_from 11 year 1 yday;
      rest = now mod 86400000 in
     Moment year month (Suc mday) (rest div 3600000) (rest div 60000 mod 60) (rest div 1000 mod 60) (rest mod 1000))"

definition utc_millisecond_instant :: "nat \<Rightarrow> js_string" where
  "utc_millisecond_instant now = spell (utc_moment now)"

lemma year_from_days:
  "year_from y d = (z, r) \<Longrightarrow> y \<le> z \<and> r < days_in_year z \<and> d = (\<Sum>i = y..<z. days_in_year i) + r"
proof (induction y d rule: year_from.induct)
  case (1 y d)
  show ?case
  proof (cases "d < days_in_year y")
    case True
    with 1 show ?thesis by (simp add: year_from.simps [of y d])
  next
    case False
    with 1 have "Suc y \<le> z \<and> r < days_in_year z \<and> d - days_in_year y = (\<Sum>i = Suc y..<z. days_in_year i) + r"
      by (simp add: year_from.simps [of y d])
    with False show ?thesis by (auto simp: sum.atLeast_Suc_lessThan)
  qed
qed

lemma month_lengths_sum:
  "(\<Sum>m = 1..12. length_of_month y m) = days_in_year y"
proof -
  have "(\<Sum>m = 1..12. length_of_month y m) = sum_list (map (length_of_month y) [1..<13])"
    by (simp add: interv_sum_list_conv_sum_set_nat atLeastLessThanSuc_atLeastAtMost [of _ 12, simplified])
  then show ?thesis by (simp add: upt_rec length_of_month_def month_lengths_def days_in_year_def)
qed

lemma month_from_days:
  "month_from k y m d = (n, r) \<Longrightarrow> 1 \<le> m \<Longrightarrow> m + k = 12 \<Longrightarrow> d < (\<Sum>i = m..12. length_of_month y i) \<Longrightarrow>
     m \<le> n \<and> n \<le> 12 \<and> r < length_of_month y n \<and> d = (\<Sum>i = m..<n. length_of_month y i) + r"
proof (induction k arbitrary: m d)
  case (Suc k)
  show ?case
  proof (cases "d < length_of_month y m")
    case True
    with Suc.prems show ?thesis by simp
  next
    case False
    have "(\<Sum>i = m..12. length_of_month y i) = length_of_month y m + (\<Sum>i = Suc m..12. length_of_month y i)"
      using Suc.prems(3) by (simp add: sum.atLeast_Suc_atMost)
    with False Suc.prems Suc.IH [of "Suc m" "d - length_of_month y m"] have
      "Suc m \<le> n \<and> n \<le> 12 \<and> r < length_of_month y n \<and> d - length_of_month y m = (\<Sum>i = Suc m..<n. length_of_month y i) + r"
      by simp
    with False show ?thesis by (auto simp: sum.atLeast_Suc_lessThan)
  qed
qed simp

text \<open>Counting whole parts off from the front keeps the order.\<close>

lemma counted_less:
  fixes f :: "nat \<Rightarrow> nat"
  assumes "d = (\<Sum>i = a..<m. f i) + r" "e = (\<Sum>i = a..<n. f i) + s" "a \<le> m" "a \<le> n" "r < f m" "s < f n" "d < e"
  shows "m < n \<or> (m = n \<and> r < s)"
proof (rule ccontr)
  assume no: "\<not> (m < n \<or> (m = n \<and> r < s))"
  then have "n < m" using assms(1,2,7) by (cases m n rule: linorder_cases) auto
  then have "{a..<m} = {a..<n} \<union> {n..<m}" "{a..<n} \<inter> {n..<m} = {}" using assms(4) by auto
  then have "(\<Sum>i = a..<m. f i) = (\<Sum>i = a..<n. f i) + (\<Sum>i = n..<m. f i)" by (simp add: sum.union_disjoint)
  moreover have "f n \<le> (\<Sum>i = n..<m. f i)" using \<open>n < m\<close> by (intro member_le_sum) auto
  ultimately show False using assms by linarith
qed

lemma year_bound: "year_from y d = (z, r) \<Longrightarrow> z \<le> y + d div 365"
proof -
  assume "year_from y d = (z, r)"
  note days = year_from_days [OF this]
  have "(\<Sum>i = y..<z. 365) \<le> (\<Sum>i = y..<z. days_in_year i)" by (rule sum_mono) (simp add: days_in_year_def)
  with days have "365 * (z - y) \<le> d" by simp
  then have "z - y \<le> d div 365" by (simp add: less_eq_div_iff_mult_less_eq mult.commute)
  with days show ?thesis by linarith
qed

definition utc_date :: "nat \<Rightarrow> nat \<times> nat \<times> nat" where
  "utc_date days = (let (year, yday) = year_from 1970 days; (month, mday) = month_from 11 year 1 yday in (year, month, mday))"

lemma utc_date_parts:
  assumes "utc_date days = (y, m, d)"
  shows "\<exists>r. 1970 \<le> y \<and> y \<le> 1970 + days div 365 \<and> days = (\<Sum>i = 1970..<y. days_in_year i) + r \<and> r < days_in_year y \<and>
    1 \<le> m \<and> m \<le> 12 \<and> d < length_of_month y m \<and> r = (\<Sum>i = 1..<m. length_of_month y i) + d"
proof -
  obtain r where r: "year_from 1970 days = (y, r)" and m: "month_from 11 y 1 r = (m, d)"
    using assms by (auto simp: utc_date_def split: prod.splits)
  note year = year_from_days [OF r] year_bound [OF r]
  have "r < (\<Sum>i = 1..12. length_of_month y i)" using year(1) by (simp only: month_lengths_sum)
  from month_from_days [OF m _ _ this] have
    "1 \<le> m \<and> m \<le> 12 \<and> d < length_of_month y m \<and> r = (\<Sum>i = 1..<m. length_of_month y i) + d" by simp
  with year show ?thesis by blast
qed

lemma utc_date_less:
  assumes "utc_date days = (y, m, d)" "utc_date later = (z, n, e)" "days < later"
  shows "y < z \<or> (y = z \<and> (m < n \<or> (m = n \<and> d < e)))"
proof -
  obtain r where r: "1970 \<le> y" "days = (\<Sum>i = 1970..<y. days_in_year i) + r" "r < days_in_year y"
    "1 \<le> m" "d < length_of_month y m" "r = (\<Sum>i = 1..<m. length_of_month y i) + d"
    using utc_date_parts [OF assms(1)] by blast
  obtain s where s: "1970 \<le> z" "later = (\<Sum>i = 1970..<z. days_in_year i) + s" "s < days_in_year z"
    "1 \<le> n" "e < length_of_month z n" "s = (\<Sum>i = 1..<n. length_of_month z i) + e"
    using utc_date_parts [OF assms(2)] by blast
  from counted_less [OF r(2) s(2) r(1) s(1) r(3) s(3) assms(3)] show ?thesis
  proof
    assume "y = z \<and> r < s"
    with counted_less [OF r(6) s(6) [folded \<open>y = z \<and> r < s\<close> [THEN conjunct1]] r(4) s(4) r(5)] s(5) show ?thesis by auto
  qed simp
qed

lemma utc_moment_date:
  "utc_moment now = (case utc_date (now div 86400000) of (y, m, d) \<Rightarrow>
     Moment y m (Suc d) (now mod 86400000 div 3600000) (now mod 86400000 div 60000 mod 60)
       (now mod 86400000 div 1000 mod 60) (now mod 86400000 mod 1000))"
  by (simp add: utc_moment_def utc_date_def Let_def split: prod.splits)

lemma utc_calendar:
  assumes "now < 2 ^ 47" shows "calendar_moment (utc_moment now)"
proof -
  obtain y m d where date: "utc_date (now div 86400000) = (y, m, d)" by (cases "utc_date (now div 86400000)")
  have "now div 86400000 div 365 \<le> 4463"
    using assms by (simp add: div_mult2_eq [symmetric] less_Suc_eq_le [symmetric] div_less_iff_less_mult)
  with utc_date_parts [OF date] have ymd: "1970 \<le> y" "y \<le> 6433" "1 \<le> m" "m \<le> 12" "d < length_of_month y m" by auto
  then have "d < gregorian_days y m" using length_of_month_gregorian [of m y] by simp
  moreover have "now mod 86400000 div 3600000 < 24" by (simp add: div_less_iff_less_mult)
  ultimately show ?thesis using ymd by (simp add: calendar_moment_def utc_moment_date date)
qed

lemma split_less:
  assumes "a < (b :: nat)" shows "a div k < b div k \<or> (a div k = b div k \<and> a mod k < b mod k)"
proof (cases "a div k = b div k")
  case True
  have "a div k * k + a mod k < b div k * k + b mod k" using assms by (simp only: div_mult_mod_eq)
  then have "a mod k < b mod k" unfolding True by (rule add_less_cancel_left [THEN iffD1])
  with True show ?thesis by simp
next
  case False
  with div_le_mono [of a b k] assms show ?thesis by simp
qed

lemma time_of_day_less:
  assumes "a < (b :: nat)"
  shows "[a div 3600000, a div 60000 mod 60, a div 1000 mod 60, a mod 1000] <
    [b div 3600000, b div 60000 mod 60, b div 1000 mod 60, b mod 1000]"
proof -
  have nest: "n div 60000 = n div 1000 div 60" "n div 3600000 = n div 1000 div 60 div 60" for n :: nat
    by (simp_all add: div_mult2_eq [symmetric])
  from split_less [OF assms, of 1000] show ?thesis
  proof
    assume "a div 1000 < b div 1000"
    from split_less [OF this, of 60] show ?thesis
    proof
      assume "a div 1000 div 60 < b div 1000 div 60"
      from split_less [OF this, of 60] show ?thesis by (auto simp: nest)
    qed (simp add: nest)
  qed (simp add: nest)
qed

lemma utc_order:
  assumes "now < later"
  shows "moment_fields (utc_moment now) < moment_fields (utc_moment later)"
proof -
  obtain y m d where date: "utc_date (now div 86400000) = (y, m, d)" by (cases "utc_date (now div 86400000)")
  obtain z n e where other: "utc_date (later div 86400000) = (z, n, e)" by (cases "utc_date (later div 86400000)")
  show ?thesis
  proof (cases "now div 86400000 < later div 86400000")
    case True
    from utc_date_less [OF date other this] show ?thesis by (auto simp: moment_fields_def utc_moment_date date other)
  next
    case False
    then have same: "now div 86400000 = later div 86400000" using assms by (simp add: div_le_mono le_antisym)
    then have "now mod 86400000 < later mod 86400000"
      using assms div_mult_mod_eq [of now 86400000] div_mult_mod_eq [of later 86400000] by linarith
    from time_of_day_less [OF this] show ?thesis using date other same by (simp add: moment_fields_def utc_moment_date)
  qed
qed

text \<open>
  The host's ids and instants are fit for the log. From a reading of the clock below 2^47
  milliseconds and sixteen random bytes the host makes an id the log entry admits and an instant the
  clock port admits, and a later reading makes a greater id and a greater instant, as texts.
\<close>

theorem audit_collaborators_fit:
  assumes "now < 2 ^ 47" and "length random = ulid_random_length"
  shows "ulid_value (VStr (mint_ulid now random)) = Inr (mint_ulid now random) \<and>
    names_a_real_instant (utc_millisecond_instant now) \<and>
    (\<forall>later other. now < later \<and> later < 2 ^ 47 \<longrightarrow>
       mint_ulid now random < mint_ulid later other \<and> utc_millisecond_instant now < utc_millisecond_instant later)"
proof (intro conjI allI impI)
  have "(2 :: nat) ^ 47 < 2 ^ 48" "(2 :: nat) ^ 47 < 2 ^ 50" by simp_all
  with assms(1) have small: "now < 2 ^ 48" "now < 2 ^ 50" by (blast intro: less_trans)+
  show "ulid_value (VStr (mint_ulid now random)) = Inr (mint_ulid now random)"
    using minted_form [OF small(2) assms(2)] small(1) by (simp add: ulid_value_def re_test_lang)
  show "names_a_real_instant (utc_millisecond_instant now)"
    using utc_calendar [OF assms(1)] by (auto simp: names_a_real_instant_iff instant_check_spells utc_millisecond_instant_def)
  fix later other
  assume later: "now < later \<and> later < 2 ^ 47"
  then have "later < 2 ^ 50" using \<open>(2 :: nat) ^ 47 < 2 ^ 50\<close> by (blast intro: less_trans)
  with later small(2) show "mint_ulid now random < mint_ulid later other" by (intro minted_order) simp_all
  show "utc_millisecond_instant now < utc_millisecond_instant later"
    using utc_order [of now later] utc_calendar assms(1) later
    by (simp add: utc_millisecond_instant_def spell_less_iff)
qed

theorem audit_collaborators_fit_witness:
  "names_a_real_instant (utc_millisecond_instant 1709251199999) \<and>
    mint_ulid 1709251199999 (replicate 16 0) < mint_ulid 1709251200000 (replicate 16 255) \<and>
    utc_millisecond_instant 1709251199999 < utc_millisecond_instant 1709251200000"
  using audit_collaborators_fit [of 1709251199999 "replicate 16 0"] by (simp add: ulid_random_length_def)

end
