(* ===== verification/Host_Envelope.thy ===== *)
theory Host_Envelope
  imports Json_Heap Http_Adapter
begin

text \<open>
  What the host runner reads and writes, \<^verbatim>\<open>src/host/js_asgi/create_customer_asgi_runner.mjs\<close>: base64, the
  envelope on its standard input and the scope in it.
\<close>

section \<open>Base64\<close>

definition base64_alphabet :: js_string where
  "base64_alphabet = js ''ABCDEFGHIJKLMNOPQRSTUVWXYZabcdefghijklmnopqrstuvwxyz0123456789+/''"

definition base64_digit :: "nat \<Rightarrow> code_unit" where
  "base64_digit n = base64_alphabet ! n"

text \<open>\<open>Buffer.from(bytes).toString("base64")\<close>: three bytes are four digits, and the end is filled up.\<close>

fun base64 :: "bytes \<Rightarrow> js_string" where
  "base64 [] = []"
| "base64 [a] = [base64_digit (unat a div 4), base64_digit (unat a mod 4 * 16), 0x3D, 0x3D]"
| "base64 [a, b] = [base64_digit (unat a div 4), base64_digit (unat a mod 4 * 16 + unat b div 16),
     base64_digit (unat b mod 16 * 4), 0x3D]"
| "base64 (a # b # c # rest) = base64_digit (unat a div 4) # base64_digit (unat a mod 4 * 16 + unat b div 16) #
     base64_digit (unat b mod 16 * 4 + unat c div 64) # base64_digit (unat c mod 64) # base64 rest"

text \<open>A digit's value, and a decoder of what the encoder makes.\<close>

definition base64_value :: "code_unit \<Rightarrow> nat" where
  "base64_value c = length (takeWhile (\<lambda>d. d \<noteq> c) base64_alphabet)"

fun base64_bytes :: "js_string \<Rightarrow> bytes" where
  "base64_bytes (p # q # r # s # rest) =
     word_of_nat (base64_value p * 4 + base64_value q div 16) #
     (if r = 0x3D then []
      else word_of_nat (base64_value q mod 16 * 16 + base64_value r div 4) #
        (if s = 0x3D then [] else word_of_nat (base64_value r mod 4 * 64 + base64_value s) # base64_bytes rest))"
| "base64_bytes _ = []"

lemma alphabet_facts: "length base64_alphabet = 64" "distinct base64_alphabet" "0x3D \<notin> set base64_alphabet"
  by code_simp+

lemma base64_value_digit: "n < 64 \<Longrightarrow> base64_value (base64_digit n) = n"
proof -
  assume n: "n < 64"
  have "takeWhile (\<lambda>d. d \<noteq> xs ! i) xs = take i xs" if "distinct xs" "i < length xs" for xs :: js_string and i
    using that
  proof (induction xs arbitrary: i)
    case (Cons x xs)
    then show ?case by (cases i) auto
  qed simp
  from this [OF alphabet_facts(2), of n] n show ?thesis
    by (simp add: base64_value_def base64_digit_def alphabet_facts)
qed

lemma base64_digit_fill: "n < 64 \<Longrightarrow> base64_digit n \<noteq> 0x3D"
  using alphabet_facts(1,3) by (metis base64_digit_def nth_mem)

lemma byte_bound: "unat (a :: 8 word) < 256"
  using unsigned_less [of a, where ?'a = nat] by simp

lemma byte_back: "word_of_nat (unat (a :: 8 word)) = a"
  by simp

lemma byte_parts:
  fixes a b c :: "8 word"
  shows "unat a div 4 < 64" "unat a mod 4 * 16 + unat b div 16 < 64" "unat b mod 16 * 4 + unat c div 64 < 64" "unat c mod 64 < 64"
    "unat a mod 4 * 16 < 64" "unat b mod 16 * 4 < 64"
    "unat a div 4 * 4 + (unat a mod 4 * 16 + unat b div 16) div 16 = unat a"
    "(unat a mod 4 * 16 + unat b div 16) mod 16 * 16 + (unat b mod 16 * 4 + unat c div 64) div 4 = unat b"
    "(unat b mod 16 * 4 + unat c div 64) mod 4 * 64 + unat c mod 64 = unat c"
    "unat a div 4 * 4 + unat a mod 4 * 16 div 16 = unat a"
    "(unat a mod 4 * 16 + unat b div 16) mod 16 * 16 + unat b mod 16 * 4 div 4 = unat b"
proof -
  have d: "unat x div 4 < 64" "unat x div 16 < 16" "unat x div 64 < 4" for x :: "8 word"
    using byte_bound [of x] by (simp_all add: div_less_iff_less_mult)
  have m: "n mod 4 < 4" "n mod 16 < 16" "n mod 64 < 64" for n :: nat by simp_all
  have joined: "(q * 16 + r) div 16 = q" "(q * 16 + r) mod 16 = r" if "r < 16" for q r :: nat using that by simp_all
  have joined4: "(q * 4 + r) div 4 = q" "(q * 4 + r) mod 4 = r" if "r < 4" for q r :: nat using that by simp_all
  show "unat a div 4 < 64" "unat c mod 64 < 64" using d m by blast+
  show "unat a mod 4 * 16 + unat b div 16 < 64" "unat b mod 16 * 4 + unat c div 64 < 64" "unat a mod 4 * 16 < 64" "unat b mod 16 * 4 < 64"
    using m(1) [of "unat a"] m(2) [of "unat b"] d(2) [of b] d(3) [of c] by linarith+
  show "unat a div 4 * 4 + (unat a mod 4 * 16 + unat b div 16) div 16 = unat a"
    "(unat a mod 4 * 16 + unat b div 16) mod 16 * 16 + (unat b mod 16 * 4 + unat c div 64) div 4 = unat b"
    "(unat b mod 16 * 4 + unat c div 64) mod 4 * 64 + unat c mod 64 = unat c"
    "(unat a mod 4 * 16 + unat b div 16) mod 16 * 16 + unat b mod 16 * 4 div 4 = unat b"
    by (simp_all only: joined [OF d(2)] joined4 [OF d(3)] nonzero_mult_div_cancel_right div_mult_mod_eq)
  show "unat a div 4 * 4 + unat a mod 4 * 16 div 16 = unat a" by simp
qed

lemmas base64_simps = base64.simps base64_bytes.simps base64_value_digit byte_parts base64_digit_fill refl if_True if_False
  byte_back

lemma base64_round_trip: "base64_bytes (base64 bs) = bs"
proof (induction bs rule: base64.induct)
  case (2 a)
  then show ?case by (simp only: base64_simps)
next
  case (3 a b)
  then show ?case by (simp only: base64_simps)
next
  case (4 a b c rest)
  then show ?case by (simp only: base64_simps)
qed simp

text \<open>
  The decoder of the platform is a parameter; what the host relies on is that it reads back what an
  encoder made.
\<close>

locale base64_decoder =
  fixes decode :: "js_string \<Rightarrow> bytes"
  assumes decodes: "decode (base64 bs) = bs"

interpretation strict_decoder: base64_decoder base64_bytes
  by unfold_locales (rule base64_round_trip)

text \<open>\<open>buffer.toString("utf-8")\<close> keeps a byte order mark.\<close>

definition buffer_text :: "bytes \<Rightarrow> js_string" where
  "buffer_text bs = concat (map (\<lambda>c. utf16 (case c of None \<Rightarrow> 0xFFFD | Some x \<Rightarrow> x)) (utf8_points (map unat bs)))"

section \<open>The envelope\<close>

definition base64_form :: regex where
  "base64_form = Seq (Star (Class [(0x41, 0x5A), (0x61, 0x7A), (0x30, 0x39), (0x2B, 0x2B), (0x2F, 0x2F)]))
     (up_to 2 (Class [(0x3D, 0x3D)]))"

definition check_envelope :: "json \<Rightarrow> js_string + (json \<times> js_string)" where
  "check_envelope envelope = (case envelope of
     JsonObj ms \<Rightarrow> (case map_of ms (js ''scope'') of
       Some (JsonObj scope) \<Rightarrow> (case map_of ms (js ''bodyBase64'') of
         Some (JsonStr body) \<Rightarrow> if re_test base64_form body then Inr (JsonObj scope, body)
           else Inl (js ''envelope.bodyBase64 must be a base64 string'')
       | _ \<Rightarrow> Inl (js ''envelope.bodyBase64 must be a base64 string''))
     | _ \<Rightarrow> Inl (js ''envelope.scope must be a JSON object''))
   | _ \<Rightarrow> Inl (js ''envelope must be a JSON object''))"

section \<open>The scope\<close>

text \<open>
  \<open>unwrapJsonSafe\<close> assigns each member to a new object literal, so a member called \<open>__proto__\<close> is no
  property: it becomes the prototype where it is an object or null, and is lost otherwise. In the tree
  this leaves, \<open>__proto__\<close> names the prototype of an object that was given one.
\<close>

definition proto_name :: js_string where "proto_name = js ''__proto__''"

definition is_primitive :: "json \<Rightarrow> bool" where
  "is_primitive v = (case v of JsonBool _ \<Rightarrow> True | JsonNum _ \<Rightarrow> True | JsonStr _ \<Rightarrow> True | _ \<Rightarrow> False)"

definition assigned_members :: "(js_string \<times> json) list \<Rightarrow> (js_string \<times> json) list" where
  "assigned_members ms = filter (\<lambda>(k, v). \<not> (k = proto_name \<and> is_primitive v)) (own_members ms)"

fun unwrap_json_safe :: "(js_string \<Rightarrow> bytes) \<Rightarrow> json \<Rightarrow> json" where
  "unwrap_json_safe b64 (JsonArr vs) = JsonArr (map (unwrap_json_safe b64) vs)"
| "unwrap_json_safe b64 (JsonObj ms) = (case ms of
     [(k, JsonStr s)] \<Rightarrow> if k = js ''__bytesBase64__'' then JsonStr (buffer_text (b64 s))
       else JsonObj (assigned_members (map (\<lambda>(k, v). (k, unwrap_json_safe b64 v)) ms))
   | _ \<Rightarrow> JsonObj (assigned_members (map (\<lambda>(k, v). (k, unwrap_json_safe b64 v)) ms)))"
| "unwrap_json_safe b64 v = v"

text \<open>The objects of that tree: one with a prototype of its own is no ordinary object.\<close>

definition with_proto :: "js_object \<Rightarrow> js_object" where
  "with_proto ob =
     (if KStr proto_name \<in> fst ` set (obj_props ob)
      then ob\<lparr>obj_proto := OtherPrototype 0, obj_props := filter (\<lambda>(k, _). k \<noteq> KStr proto_name) (obj_props ob)\<rparr> else ob)"

definition scope_at :: "json \<Rightarrow> heap \<times> jsval" where
  "scope_at j = (case allocate j 0 of (v, os) \<Rightarrow> (placed 0 (map with_proto os), v))"

text \<open>Reading a member of it, through the prototypes it was given.\<close>

lemma member_size: "map_of ms k = Some v \<Longrightarrow> size v < Suc (size_list (size_prod (\<lambda>_. 0) size) ms)"
  by (induction ms) (auto split: if_splits)

function tree_member :: "json \<Rightarrow> js_string \<Rightarrow> json option" where
  "tree_member (JsonObj ms) k = (case map_of (filter (\<lambda>(n, _). n \<noteq> proto_name) ms) k of
     Some v \<Rightarrow> Some v
   | None \<Rightarrow> (case map_of ms proto_name of None \<Rightarrow> None | Some p \<Rightarrow> tree_member p k))"
| "tree_member (JsonArr vs) k = None"
| "tree_member JsonNull k = None"
| "tree_member (JsonBool b) k = None"
| "tree_member (JsonNum n) k = None"
| "tree_member (JsonStr s) k = None"
  by pat_completeness auto
termination by (relation "measure (\<lambda>(v, _). size v)") (auto dest: member_size)

text \<open>
  \<open>String(value)\<close>: an object's own \<open>toString\<close> is no function, and there is no other way to a primitive;
  \<open>strange\<close> is what it gives for an object whose prototype was replaced.
\<close>

fun string_of :: "(json \<Rightarrow> js_string outcome) \<Rightarrow> json \<Rightarrow> js_string outcome" where
  "string_of strange JsonNull = Inr (js ''null'')"
| "string_of strange (JsonBool b) = Inr (js (if b then ''true'' else ''false''))"
| "string_of strange (JsonNum n) = Inr (number_text n)"
| "string_of strange (JsonStr s) = Inr s"
| "string_of strange (JsonArr vs) =
     rbind (rmap (\<lambda>v. if v = JsonNull then Inr [] else string_of strange v) vs) (\<lambda>ss. Inr (join (js '','') ss))"
| "string_of strange (JsonObj ms) =
     (if map_of ms proto_name \<noteq> None then strange (JsonObj ms)
      else if map_of ms (js ''toString'') \<noteq> None then type_error (js ''Cannot convert object to primitive value'')
      else Inr (js ''[object Object]''))"

fun scope_header :: "(json \<Rightarrow> js_string outcome) \<Rightarrow> string \<Rightarrow> json list \<Rightarrow> js_string option outcome" where
  "scope_header strange name [] = Inr None"
| "scope_header strange name (pair # pairs) = (case pair of
     JsonArr [k, v] \<Rightarrow> rbind (string_of strange k) (\<lambda>s.
       if lower_is name s then rbind (string_of strange v) (\<lambda>t. Inr (Some t)) else scope_header strange name pairs)
   | _ \<Rightarrow> scope_header strange name pairs)"

text \<open>\<open>headerValue(scope.headers, name) || fallback\<close>\<close>

definition claimed_identity :: "(json \<Rightarrow> js_string outcome) \<Rightarrow> json \<Rightarrow> string \<Rightarrow> string \<Rightarrow> js_string outcome" where
  "claimed_identity strange scope name fallback = (case tree_member scope (js ''headers'') of
     Some (JsonArr pairs) \<Rightarrow> rbind (scope_header strange name pairs) (\<lambda>h.
       Inr (case h of None \<Rightarrow> js fallback | Some s \<Rightarrow> if s = [] then js fallback else s))
   | _ \<Rightarrow> Inr (js fallback))"

end
