(* ===== verification/Host_Runner.thy ===== *)
theory Host_Runner
  imports Host_Args Host_Clock Host_Envelope Asgi_Created
begin

text \<open>
  \<^verbatim>\<open>main\<close> of \<^verbatim>\<open>src/host/js_asgi/create_customer_asgi_runner.mjs\<close>: one envelope from the standard input
  through the composed application to the standard output.
\<close>

section \<open>The collaborators\<close>

text \<open>What the process itself keeps: whether the body was delivered, what was sent, and how often it read its clock.\<close>

record host_state =
  host_delivered :: bool
  host_sent :: "delivery_body routed asgi_event list"
  host_ticks :: nat

definition host_current :: "js_string \<Rightarrow> js_string \<Rightarrow> unit \<Rightarrow> (host_state, thrown, jsval) eff" where
  "host_current tenant actor u = elift (rbind (tenant_id_new (VStr tenant)) (\<lambda>t. rbind (actor_id_new (VStr actor)) (\<lambda>a.
     rbind (principal_new (VInst (ITenantId (Genuine t))) (VInst (IActorId (Genuine a)))) (\<lambda>p.
     Inr (VInst (IPrincipal (Genuine p)))))))"

definition deny_candidate :: "(string \<times> jsval) list" where
  "deny_candidate = [(''policyId'', VStr (js ''deny.everything'')), (''effect'', VStr (js ''deny'')), (''applies'', VBool True)]"

definition allow_candidate :: "(string \<times> jsval) list" where
  "allow_candidate = [(''policyId'', VStr (js ''allow.everything'')), (''effect'', VStr (js ''allow'')), (''applies'', VBool True)]"

definition host_candidates :: "policy_mode \<Rightarrow> heap" where
  "host_candidates mode = (\<lambda>a. if a = 0 then array_object [VObj 1]
     else plain_object (if mode = AllowMode then allow_candidate else deny_candidate))"

definition host_ports :: "policy_mode \<Rightarrow> js_string \<Rightarrow> js_string \<Rightarrow> host_state customer_ports" where
  "host_ports mode tenant actor = \<lparr>port_current = host_current tenant actor,
     port_candidates = (\<lambda>_. eret (host_candidates mode, VObj 0)),
     port_invariants = (\<lambda>_. eret (\<lambda>_. plain_object [(''ok'', VBool True)], VObj 0))\<rparr>"

text \<open>The clock and the random bytes of the process, by the number of the reading.\<close>

definition host_id :: "(nat \<Rightarrow> nat) \<Rightarrow> (nat \<Rightarrow> bytes) \<Rightarrow> (host_state, thrown, jsval) eff" where
  "host_id clock random st =
     (Inr (VStr (mint_ulid (clock (host_ticks st)) (random (host_ticks st)))), st\<lparr>host_ticks := Suc (host_ticks st)\<rparr>)"

definition host_now :: "(nat \<Rightarrow> nat) \<Rightarrow> unit \<Rightarrow> (host_state, thrown, jsval) eff" where
  "host_now clock u st =
     (Inr (VStr (utc_millisecond_instant (clock (host_ticks st)))), st\<lparr>host_ticks := Suc (host_ticks st)\<rparr>)"

definition host_service ::
    "(js_string \<Rightarrow> js_string) \<Rightarrow> (nat \<Rightarrow> nat) \<Rightarrow> (nat \<Rightarrow> bytes) \<Rightarrow> 'l sql_client \<Rightarrow> 'a app_client \<Rightarrow> nat
     \<Rightarrow> policy_mode \<Rightarrow> bool \<Rightarrow> js_string \<Rightarrow> js_string \<Rightarrow> (host_state, 'a, 'l) kernel service" where
  "host_service sha clock random lcl cl ref mode audit tenant actor h spec = (let ports = host_ports mode tenant actor in
     if mode = AllowMode \<and> audit
     then audited_service sha ports (host_id clock random) (host_now clock) lcl cl h ref spec
     else plain_service sha ports cl h ref spec)"

text \<open>The body once, and then nothing; what is sent is kept.\<close>

definition request_event :: "bytes \<Rightarrow> heap" where
  "request_event body = (\<lambda>a.
     if a = 0 then plain_object [(''type'', VStr (js ''http.request'')), (''body'', VObj 1), (''more_body'', VBool False)]
     else \<lparr>obj_proto = OtherPrototype 0, obj_kind = ByteArray body, obj_props = []\<rparr>)"

definition host_receive :: "bytes \<Rightarrow> (host_state, 'a, 'l) kernel receive" where
  "host_receive body = at_caller (\<lambda>st. (Inr (request_event (if host_delivered st then [] else body), VObj 0),
     st\<lparr>host_delivered := True\<rparr>))"

definition host_send :: "((host_state, 'a, 'l) kernel, delivery_body routed) send" where
  "host_send ev = at_caller (\<lambda>st. (Inr (), st\<lparr>host_sent := host_sent st @ [ev]\<rparr>))"

section \<open>The output\<close>

definition header_part_base64 :: "header_part \<Rightarrow> js_string" where
  "header_part_base64 p = base64 (case p of HeaderText s \<Rightarrow> utf8_encode s | HeaderBytes bs \<Rightarrow> bs)"

definition event_json :: "'b asgi_event \<Rightarrow> json outcome" where
  "event_json ev = (case ev of
     ResponseStart status headers \<Rightarrow> Inr (JsonObj [(js ''type'', JsonStr (js ''http.response.start'')), (js ''status'', JsonNum (JInt status)),
       (js ''headersBase64'', JsonArr (map (\<lambda>(name, v). JsonArr [JsonStr (header_part_base64 name), JsonStr (header_part_base64 v)]) headers))])
   | ResponseBody (BytesBody bs) more_body \<Rightarrow> Inr (JsonObj [(js ''type'', JsonStr (js ''http.response.body'')),
       (js ''bodyBase64'', JsonStr (base64 bs)), (js ''more_body'', JsonBool more_body)])
   | ResponseBody (PlainBody _) _ \<Rightarrow> type_error (js ''The first argument must be of type string or an instance of Buffer, ArrayBuffer, or Array or an Array-like Object.''))"

definition events_for_stdout :: "'b asgi_event list \<Rightarrow> js_string outcome" where
  "events_for_stdout evs = rbind (rmap event_json evs) (\<lambda>es. Inr (stringify (JsonArr es)))"

section \<open>The process\<close>

text \<open>How it ends: what it wrote to its output, and what it failed with, which makes its exit code 1.\<close>

datatype host_failure = Reported js_string | Unhandled thrown

record host_end =
  end_stdout :: "js_string option"
  end_failure :: "host_failure option"

definition refused_end :: "js_string \<Rightarrow> host_end" where
  "refused_end message = \<lparr>end_stdout = None, end_failure = Some (Reported message)\<rparr>"

text \<open>\<open>finally { await composition.close() }\<close>: a close that throws is the failure that is seen.\<close>

definition closed_end :: "('w, thrown, unit) eff \<Rightarrow> js_string option \<Rightarrow> thrown option \<Rightarrow> 'w \<Rightarrow> host_end \<times> 'w" where
  "closed_end close written failed w = (case close w of
     (Inl e, w1) \<Rightarrow> (\<lparr>end_stdout = written, end_failure = Some (Unhandled e)\<rparr>, w1)
   | (Inr _, w1) \<Rightarrow> (\<lparr>end_stdout = written, end_failure = map_option Unhandled failed\<rparr>, w1))"

definition fresh_process :: "(host_state, 'a, 'l) kernel \<Rightarrow> (host_state, 'a, 'l) kernel" where
  "fresh_process w = ((fst w)\<lparr>host_delivered := False, host_sent := []\<rparr>, snd w)"

definition host_serve ::
    "(js_string \<Rightarrow> js_number) \<Rightarrow> (jsval \<Rightarrow> json outcome) \<Rightarrow> (host_state, 'a, 'l) kernel service
     \<Rightarrow> ((host_state, 'a, 'l) kernel, thrown, unit) eff \<Rightarrow> json \<Rightarrow> bytes
     \<Rightarrow> (host_state, 'a, 'l) kernel \<Rightarrow> (host_end \<times> (host_state, 'a, 'l) kernel) option" where
  "host_serve num other service close scope body w = (case scope_at scope of (h, v) \<Rightarrow>
     (case customer_app service num other None h v (Given (host_receive body)) (Given host_send) (fresh_process w) of
        None \<Rightarrow> None
      | Some (Inl e, w1) \<Rightarrow> Some (closed_end close None (Some e) w1)
      | Some (Inr _, w1) \<Rightarrow> Some (case events_for_stdout (host_sent (fst w1)) of
          Inl e \<Rightarrow> closed_end close None (Some e) w1
        | Inr written \<Rightarrow> closed_end close (Some written) None w1)))"

text \<open>Whose request it is: in allow mode the trusted inputs alone say, otherwise the request's own headers.\<close>

definition trusted_text :: "js_string option \<Rightarrow> js_string" where
  "trusted_text v = (case v of Some s \<Rightarrow> s | None \<Rightarrow> [])"

definition host_identity :: "(json \<Rightarrow> js_string outcome) \<Rightarrow> runner_args \<Rightarrow> json \<Rightarrow> (js_string \<times> js_string) outcome" where
  "host_identity strange args scope =
     (if ra_policy args = AllowMode then Inr (trusted_text (ra_tenant args), trusted_text (ra_actor args))
      else rbind (claimed_identity strange scope ''x-tenant-id'' ''22222222-2222-4222-8222-222222222222'') (\<lambda>tenant.
        rbind (claimed_identity strange scope ''x-actor-id'' ''js-boundary-runner'') (\<lambda>actor. Inr (tenant, actor))))"

text \<open>
  \<open>b64\<close> and \<open>syntax\<close> are the platform's: its base64 decoder, and the message of a text that is no JSON.
\<close>

definition host_main ::
    "(js_string \<Rightarrow> js_number) \<Rightarrow> (js_string \<Rightarrow> bytes) \<Rightarrow> (json \<Rightarrow> js_string outcome) \<Rightarrow> (jsval \<Rightarrow> json outcome) \<Rightarrow> (js_string \<Rightarrow> js_string)
     \<Rightarrow> (policy_mode \<Rightarrow> bool \<Rightarrow> js_string \<Rightarrow> js_string \<Rightarrow> (host_state, 'a, 'l) kernel service)
     \<Rightarrow> ((host_state, 'a, 'l) kernel, thrown, unit) eff \<Rightarrow> js_string list \<Rightarrow> bytes
     \<Rightarrow> (host_state, 'a, 'l) kernel \<Rightarrow> (host_end \<times> (host_state, 'a, 'l) kernel) option" where
  "host_main num b64 strange other syntax service close argv stdin w = (case parse_args argv of
     Inl problem \<Rightarrow> Some (refused_end (js ''malformed CLI args: '' @ problem), w)
   | Inr args \<Rightarrow> (case json_parse num (buffer_text stdin) of
       None \<Rightarrow> Some (refused_end (js ''malformed JSON envelope on stdin: '' @ syntax (buffer_text stdin)), w)
     | Some envelope \<Rightarrow> (case check_envelope envelope of
         Inl problem \<Rightarrow> Some (refused_end problem, w)
       | Inr (scope0, body64) \<Rightarrow> let scope = unwrap_json_safe b64 scope0 in
           (case host_identity strange args scope of
              Inl e \<Rightarrow> Some (\<lparr>end_stdout = None, end_failure = Some (Unhandled e)\<rparr>, w)
            | Inr (tenant, actor) \<Rightarrow>
                host_serve num other (service (ra_policy args) (ra_audit args) tenant actor) close scope (b64 body64) w))))"

end
