(* ===== verification/Host_Facts.thy ===== *)
theory Host_Facts
  imports Host_Runner Delivery_Claims
begin

text \<open>
  What the host runner guarantees: it always ends, what it prints is one answer that can be read back,
  and only a caller it was told to trust gets a customer created.
\<close>

section \<open>The decision of its candidates\<close>

definition host_candidate :: "policy_mode \<Rightarrow> candidate" where
  "host_candidate mode = \<lparr>cand_id = (if mode = AllowMode then js ''allow.everything'' else js ''deny.everything''),
     cand_effect = (if mode = AllowMode then Allow else Deny), cand_applies = True,
     cand_priority = legacy_priority, cand_layer = legacy_layer\<rparr>"

lemma host_candidate_ok: "candidate_ok (host_candidate mode)"
proof -
  have "re_test policy_id_form (js ''allow.everything'')" "re_test policy_id_form (js ''deny.everything'')" by code_simp+
  then show ?thesis
    by (simp add: candidate_ok_def host_candidate_def policy_id_ok_def legacy_priority_def re_test_lang policy_id_max_def
        safe_integer_def max_safe_integer_def)
qed

lemma check_candidate_host:
  assumes h: "h r = plain_object (if mode = AllowMode then allow_candidate else deny_candidate)"
  shows "check_candidate h (VObj r) = Inr (host_candidate mode)"
proof -
  let ?ps = "if mode = AllowMode then allow_candidate else deny_candidate"
  have keys: "map fst ?ps = legacy_candidate_keys" "distinct legacy_candidate_keys"
    by (simp_all add: legacy_candidate_keys_def allow_candidate_def deny_candidate_def)
  have "has_exact_enumerable_data_keys h r legacy_candidate_keys"
    using has_exact_plain [of h r ?ps legacy_candidate_keys, OF h] keys(2) by (simp only: keys(1))
  moreover have "candidate_policy_id (VStr (cand_id (host_candidate mode))) = Inr (cand_id (host_candidate mode))"
    using host_candidate_ok [of mode] by (simp add: result_simps candidate_ok_def)
  ultimately show ?thesis
    using plain_object_ordinary [of h r, OF h]
    by (cases mode) (simp_all add: check_candidate_def Let_def read_plain_object [of h r, OF h] candidate_effect_def
        candidate_applies_def host_candidate_def allow_candidate_def deny_candidate_def effect_of_def effect_of_text_def)
qed

lemma host_candidates_checked: "check_candidates (host_candidates mode) (VObj 0) = Inr [host_candidate mode]"
proof -
  let ?h = "host_candidates mode"
  have h: "?h 0 = array_object [VObj 1]" by (simp add: host_candidates_def)
  note arr = array_object_facts [where h = ?h and r = 0, OF h]
  have el: "map (element_at ?h 0) [0..<array_length ?h 0] = [VObj 1]"
    unfolding arr(2) by (simp add: arr(4))
  have "check_candidate ?h (VObj 1) = Inr (host_candidate mode)"
    by (rule check_candidate_host) (simp add: host_candidates_def)
  then show ?thesis
    unfolding check_candidates_def jsval.simps el by (simp add: dense_iff arr(1,3) result_simps del: One_nat_def)
qed

lemma host_decides:
  assumes "trace_genuine q c" and "evaluator_decide_of (host_candidates mode) (VInst (IPolicyRequest (Genuine q))) (VObj 0) = Inr d"
  shows "decision_effect d = Allow \<longleftrightarrow> mode = AllowMode"
proof -
  from evaluator_follows_rule [OF host_candidates_checked [of mode] assms(1)] assms(2)
  have rule: "decision_rule {host_candidate mode} (decision_effect d) (decision_matched d)" by auto
  have "applying {host_candidate mode} Allow = (if mode = AllowMode then {host_candidate mode} else {})"
    "applying {host_candidate mode} Deny = (if mode = AllowMode then {} else {host_candidate mode})"
    by (auto simp: applying_def host_candidate_def)
  with rule show ?thesis
    by (cases "decision_effect d") (auto simp: decision_rule_def leads_def split: option.splits if_splits)
qed

section \<open>Its services record what they commit\<close>

lemma host_resolved: "at_caller (port_candidates (host_ports mode t a) q) w = (Inr (host_candidates mode, VObj 0), w)"
  by (cases w) (simp add: at_caller_def host_ports_def eret_def)

interpretation host_plain: customer_point "plain_decide (host_ports mode t a)" "\<lambda>_ _ _. mode = AllowMode" for mode t a
proof
  fix q ti ac c w d w1
  assume "asks_as q ti ac c" "decision_effect d = Allow"
    and "plain_decide (host_ports mode t a) (VInst (IPolicyRequest (Genuine q))) w = (Inr d, w1)"
  with host_decides [of q c mode d] show "mode = AllowMode"
    by (auto simp: plain_decide_def decision_point_decide_def ebind_Inr_iff host_resolved asks_as_def split: option.splits)
qed (rule plain_decide_keeps)

interpretation host_audited: customer_point "logging_decide sha (audited_services sha (host_ports mode t a) ids now lcl)"
    "\<lambda>_ _ _. mode = AllowMode" for sha mode t a ids now lcl
proof
  fix q ti ac c w d w1
  assume "asks_as q ti ac c" "decision_effect d = Allow"
    and "logging_decide sha (audited_services sha (host_ports mode t a) ids now lcl) (VInst (IPolicyRequest (Genuine q))) w = (Inr d, w1)"
  with host_decides [of q c mode d] show "mode = AllowMode"
    by (auto simp: logging_decide_def log_one_def Let_def audited_services_def ebind_Inr_iff host_resolved asks_as_def
        split: option.splits)
qed (rule logging_decide_keeps)

lemma host_records:
  "recording_service (host_service sha clock random lcl (substrate_client sub) ref mode audit t a)
    (\<lambda>w. adb_rows (app_part w)) (\<lambda>tabs. tabs = tables_of es)
    (recorded_commit (\<lambda>_ _ _. mode = AllowMode) sha (host_ports mode t a) ref es) other"
proof (cases "mode = AllowMode \<and> audit")
  case True
  then have "host_service sha clock random lcl (substrate_client sub) ref mode audit t a =
      (\<lambda>h spec. audited_service sha (host_ports mode t a) (host_id clock random) (host_now clock) lcl (substrate_client sub) h ref spec)"
    by (simp add: fun_eq_iff host_service_def Let_def)
  then show ?thesis
    unfolding audited_service_def Let_def by (simp only:) (rule host_audited.service_records, rule auditor_guard_keeps)
next
  case False
  then have "host_service sha clock random lcl (substrate_client sub) ref mode audit t a =
      (\<lambda>h spec. plain_service sha (host_ports mode t a) (substrate_client sub) h ref spec)"
    by (auto simp: fun_eq_iff host_service_def Let_def)
  then show ?thesis
    unfolding plain_service_def by (simp only:) (rule host_plain.service_records, simp)
qed

interpretation host_app: recording_service "host_service sha clock random lcl (substrate_client sub) ref mode audit t a"
    "\<lambda>w. adb_rows (app_part w)" "\<lambda>tabs. tabs = tables_of es"
    "recorded_commit (\<lambda>_ _ _. mode = AllowMode) sha (host_ports mode t a) ref es" other
  for sha clock random lcl sub ref mode audit t a es other
  by (rule host_records)

section \<open>The body it delivers\<close>

lemma host_next: "next_chunk None 0 (request_event body) (VObj 0) = Inr (Some (body, False))"
proof -
  have h: "request_event body 0 = plain_object
      [(''type'', VStr (js ''http.request'')), (''body'', VObj 1), (''more_body'', VBool False)]"
    by (simp add: request_event_def)
  note facts = plain_object_facts [where h = "request_event body" and r = 0, OF h]
  have "chunk_of (request_event body) (VObj 1) = Some body" by (simp add: chunk_of_def request_event_def)
  moreover have "more_wanted (request_event body) 0 = Inr (Some False)"
    by (simp add: more_wanted_def plain_object_property [where h = "request_event body" and r = 0, OF h] facts(4))
  ultimately show ?thesis
    using facts(2) by (simp add: next_chunk_def facts(4) del: One_nat_def)
qed

lemma host_received:
  "receive_chunks (host_receive body) None [] 0 w =
     Some (Inr (Some [if host_delivered (fst w) then [] else body]), ((fst w)\<lparr>host_delivered := True\<rparr>, snd w))"
proof -
  have "host_receive body w = (Inr (request_event (if host_delivered (fst w) then [] else body), VObj 0),
      ((fst w)\<lparr>host_delivered := True\<rparr>, snd w))"
    by (simp add: host_receive_def at_caller_def split_beta)
  then show ?thesis by (simp add: receive_chunks.simps [of "host_receive body"] host_next)
qed

section \<open>What it sends\<close>

abbreviation sent_part :: "(host_state, 'a, 'l) kernel \<Rightarrow> delivery_body routed asgi_event list" where
  "sent_part w \<equiv> host_sent (fst w)"

lemma host_send_all: "send_all host_send evs w = (Inr evs, ((fst w)\<lparr>host_sent := host_sent (fst w) @ evs\<rparr>, snd w))"
proof -
  have "emap host_send evs w = (Inr (replicate (length evs) ()), ((fst w)\<lparr>host_sent := host_sent (fst w) @ evs\<rparr>, snd w))"
    by (induction evs arbitrary: w) (auto simp: host_send_def at_caller_def ebind_apply eret_def split_beta)
  then show ?thesis by (simp add: send_all_def ebind_apply eret_def)
qed

lemma host_ids_keep [frame_rules]:
  "keeps sent_part (at_caller (host_id clock random))" "keeps sent_part (at_caller (host_now clock u))"
  "keeps sent_part (at_log m)" "keeps sent_part (at_app n)"
  by (auto simp: keeps_def at_caller_def host_id_def host_now_def at_log_def at_app_def split: prod.splits)

lemma host_ports_keep [frame_rules]:
  "keeps sent_part (at_caller (port_current (host_ports mode t a) u))"
  "keeps sent_part (at_caller (port_candidates (host_ports mode t a) q))"
  "keeps sent_part (at_caller (port_invariants (host_ports mode t a) c))"
  by (auto simp: keeps_def at_caller_def host_ports_def host_current_def elift_def eret_def split: prod.splits)

lemma audited_services_send_nothing:
  fixes svc :: "(host_state, 'a, 'l) kernel log_services"
  assumes "svc = audited_services sha (host_ports mode t a) (host_id clock random) (host_now clock) lcl"
  shows "keeps sent_part (svc_candidates svc v)" "keeps sent_part (svc_append svc v)" "keeps sent_part (svc_id svc)"
    "keeps sent_part (svc_read_clock svc u)" "keeps sent_part (svc_chain_head svc x)"
  by (auto simp: assms audited_services_def intro!: frame_rules)

lemma host_service_sends_nothing: "keeps sent_part (host_service sha clock random lcl cl ref mode audit t a h spec)"
proof -
  let ?svc = "audited_services sha (host_ports mode t a) (host_id clock random) (host_now clock) lcl"
  have decide: "keeps sent_part (plain_decide (host_ports mode t a) v)" "keeps sent_part (logging_decide sha ?svc v)"
    "keeps sent_part (guard_auditor sha ?svc g)" for v g
    by (auto simp: plain_decide_def decision_point_decide_def logging_decide_def guard_auditor_def log_one_def chain_head_of_def
        Let_def clock_now_def log_port_append_def intro!: frame_rules audited_services_send_nothing [OF refl])
  have run: "keeps sent_part (pipeline_run sha (pipeline_over (host_ports mode t a) decide guard) h ref spec)"
    if "\<And>v. keeps sent_part (decide v)" "\<And>witness g. guard = Some witness \<Longrightarrow> keeps sent_part (witness g)" for decide guard
    using that by (intro pipeline_keeps) (auto simp: pipeline_over_def intro!: frame_rules)
  have handle: "keeps sent_part (service_handle sha pl (\<lambda>prepared con. at_app (fresh_commit cl prepared con)) h ref spec)"
    if "keeps sent_part (pipeline_run sha pl h ref spec)" for pl
    unfolding service_handle_def using that by (auto intro!: frame_rules split: pipeline_outcome.splits)
  have "keeps sent_part (plain_service sha (host_ports mode t a) cl h ref spec)"
    unfolding plain_service_def service_over_def by (intro handle run decide) simp
  moreover have "keeps sent_part (audited_service sha (host_ports mode t a) (host_id clock random) (host_now clock) lcl cl h ref spec)"
    unfolding audited_service_def Let_def service_over_def by (intro handle run decide(2)) (auto intro: decide(3))
  ultimately show ?thesis by (auto simp: host_service_def Let_def)
qed

text \<open>Over such a service, what the application answers is what was sent.\<close>

lemma router_sends_nothing:
  assumes "\<And>h spec. keeps f (service h spec)"
  shows "keeps f (router_handle (customer_routes service) h message)"
proof -
  have "keeps f (customer_handler service h m)" for h m
    unfolding customer_handler_def http_handle_def request_handle_def
    by (auto intro!: frame_rules assms split: option.splits sum.splits)
  then show ?thesis
    unfolding router_handle_def customer_routes_def
    by (auto intro!: frame_rules split: option.splits list.splits)
qed

text \<open>Before it sends, the application leaves what was sent alone; its two events are then all of it.\<close>

lemma app_args_fields [simp]:
  "arg_send (app_args num other limit rc sd) = sd" "arg_body (app_args num other limit rc sd) = Given (encode_json_body other)"
  "arg_header (app_args num other limit rc sd) = Given encode_utf8_header_part"
  by (simp_all add: app_args_def)

lemma unlimited_args:
  obtains c where "check_args (app_args num other None (Given rc) (Given sd)) = Inr c" "chk_receive c = rc" "chk_send c = sd"
    "chk_max c = None" "chk_body c = Some (encode_json_body other)" "chk_header c = Some encode_utf8_header_part"
  by (rule that [OF app_args_check]) simp_all

lemma host_app_sends:
  fixes w :: "(host_state, 'a, 'l) kernel"
  assumes service: "\<And>h spec. keeps sent_part (service h spec)"
    and run: "customer_app service num other None h scope (Given (host_receive body)) (Given host_send) w = Some (Inr evs, w1)"
  shows "sent_part w1 = sent_part w @ evs"
proof -
  have sends: "(\<exists>u. emap host_send es x = (Inr u, y)) \<Longrightarrow> sent_part y = sent_part x @ es"
    for es and x y :: "(host_state, 'a, 'l) kernel"
    using host_send_all [of es x] by (auto simp: send_all_def ebind_apply eret_def split: prod.splits)
  let ?w0 = "((fst w)\<lparr>host_delivered := True\<rparr>, snd w)"
  have kept: "sent_part ?w0 = sent_part w" by simp
  have errors: "send_error_events c x = (Inr evs, y) \<Longrightarrow> chk_send c = host_send \<Longrightarrow> sent_part y = sent_part x @ evs"
    for c and x y :: "(host_state, 'a, 'l) kernel"
    using sends [of evs x y] by (auto simp: send_error_events_def ebind_Inr_iff send_all_iff)
  have call: "asgi_call (router_handle (customer_routes service)) 0 h scope hb b (Given host_send) (Given (encode_json_body other))
      (Given encode_utf8_header_part) ?w0 = (Inr evs, w1) \<Longrightarrow> sent_part w1 = sent_part w @ evs" for hb b
  proof -
    assume "asgi_call (router_handle (customer_routes service)) 0 h scope hb b (Given host_send) (Given (encode_json_body other))
      (Given encode_utf8_header_part) ?w0 = (Inr evs, w1)"
    then obtain raw w2 where raw: "asgi_handle (router_handle (customer_routes service)) 0 h scope hb b ?w0 = (Inr raw, w2)"
      and sent: "\<exists>u. emap host_send evs w2 = (Inr u, w1)"
      by (auto simp: asgi_call_def ebind_Inr_iff need_function_def optional_function_def send_all_iff)
    have "keeps sent_part (asgi_handle (router_handle (customer_routes service)) 0 h scope hb b)"
      unfolding asgi_handle_def by (intro frame_rules router_sends_nothing service)
    from keepsD [OF this raw] sends [OF sent] show ?thesis by simp
  qed
  obtain c where c: "check_args (app_args num other None (Given (host_receive body))
      (Given (host_send :: ((host_state, 'a, 'l) kernel, _) send))) = Inr c"
    "chk_receive c = host_receive body" "chk_max c = None" "chk_send c = host_send" by (rule unlimited_args)
  show ?thesis
    using run errors [of c w w1] errors [of c ?w0 w1] call c(4)
    by (simp add: customer_app_def call_from_receive_def c host_received split: sum.split_asm option.split_asm prod.split_asm)
qed

section \<open>What it prints\<close>

definition part_bytes :: "header_part \<Rightarrow> bytes" where
  "part_bytes p = (case p of HeaderText s \<Rightarrow> utf8_encode s | HeaderBytes bs \<Rightarrow> bs)"

definition start_json :: "int \<Rightarrow> (bytes \<times> bytes) list \<Rightarrow> json" where
  "start_json code headers = JsonObj [(js ''type'', JsonStr (js ''http.response.start'')), (js ''status'', JsonNum (JInt code)),
     (js ''headersBase64'', JsonArr (map (\<lambda>(name, v). JsonArr [JsonStr (base64 name), JsonStr (base64 v)]) headers))]"

definition body_event_json :: "bytes \<Rightarrow> json" where
  "body_event_json body = JsonObj [(js ''type'', JsonStr (js ''http.response.body'')),
     (js ''bodyBase64'', JsonStr (base64 body)), (js ''more_body'', JsonBool False)]"

definition answer_json :: "int \<Rightarrow> (bytes \<times> bytes) list \<Rightarrow> bytes \<Rightarrow> json" where
  "answer_json code headers body = JsonArr [start_json code headers, body_event_json body]"

definition header_pairs :: "(header_part \<times> header_part) list \<Rightarrow> (bytes \<times> bytes) list" where
  "header_pairs hs = map (\<lambda>(a, b). (part_bytes a, part_bytes b)) hs"

lemma printed_events:
  "events_for_stdout [ResponseStart code hs, ResponseBody (BytesBody bs) False] = Inr (stringify (answer_json code (header_pairs hs) bs))"
  by (simp add: events_for_stdout_def event_json_def answer_json_def start_json_def body_event_json_def header_pairs_def
      header_part_base64_def part_bytes_def comp_def split_beta)

lemma encoded_bodies:
  "encode_events (Some eb) eh raw = Inr evs \<Longrightarrow> ResponseBody b m \<in> set evs \<Longrightarrow> \<exists>bs. b = BytesBody bs"
proof (induction raw arbitrary: evs)
  case (Cons ev raw)
  then obtain e es where e: "encode_event (Some eb) eh ev = Inr e" "encode_events (Some eb) eh raw = Inr es" "evs = e # es"
    by (auto simp: encode_events_def rbind_eq_Inr)
  show ?case
  proof (cases "ResponseBody b m \<in> set es")
    case True
    with Cons.IH e show ?thesis by blast
  next
    case False
    with e Cons.prems(2) have "encode_event (Some eb) eh ev = Inr (ResponseBody b m)" by simp
    then show ?thesis by (auto simp: encode_event_def rbind_eq_Inr split: asgi_event.splits event_body.splits option.splits)
  qed
qed (simp add: encode_events_def)

text \<open>Every answer of the application is a start in range and one body of bytes.\<close>

lemma app_answers_bytes:
  fixes w :: 'w
  assumes run: "customer_app service num other None h scope (Given rc) (Given sd) w = Some (Inr evs, w1)"
  shows "\<exists>code hs bs. evs = [ResponseStart code hs, ResponseBody (BytesBody bs) False] \<and> 100 \<le> code \<and> code \<le> 599"
proof -
  from answer_is_sent [OF run [unfolded customer_app_def]] obtain code hs b where
    evs: "evs = [ResponseStart code hs, ResponseBody b False]" "100 \<le> code" "code \<le> 599" by (auto simp: two_events_def)
  have "\<exists>raw. encode_events (Some (encode_json_body other)) (Some encode_utf8_header_part) raw = Inr evs"
  proof -
    obtain c where c: "check_args (app_args num other None (Given rc) (Given sd)) = Inr c"
      "chk_body c = Some (encode_json_body other)" "chk_header c = Some encode_utf8_header_part" by (rule unlimited_args)
    have errors: "send_error_events c x = (Inr evs, y) \<Longrightarrow> ?thesis" for x y
      by (auto simp: send_error_events_def ebind_Inr_iff send_all_iff c)
    have call: "asgi_call router at hh sc hb b (Given sd) (Given (encode_json_body other)) (Given encode_utf8_header_part) x = (Inr evs, y)
        \<Longrightarrow> ?thesis" for router :: "('w, delivery_body) handler" and at hh sc hb b x y
      by (auto simp: asgi_call_def ebind_Inr_iff need_function_def optional_function_def send_all_iff)
    show ?thesis
      using run errors call
      by (auto simp: customer_app_def call_from_receive_def c(1) split: sum.split_asm option.split_asm prod.split_asm)
  qed
  then obtain raw where "encode_events (Some (encode_json_body other)) (Some encode_utf8_header_part) raw = Inr evs" by blast
  from encoded_bodies [OF this, of b False] evs show ?thesis by auto
qed

lemma host_app_ends:
  fixes w :: "(host_state, 'a, 'l) kernel"
  shows "customer_app service num other None h scope (Given (host_receive body)) (Given host_send) w \<noteq> None"
proof -
  obtain c where "check_args (app_args num other None (Given (host_receive body)) (Given (host_send :: ((host_state, 'a, 'l) kernel, _) send))) = Inr c"
    and "chk_receive c = host_receive body" "chk_max c = None" by (rule unlimited_args)
  then show ?thesis
    by (simp add: customer_app_def call_from_receive_def host_received split: sum.split option.split prod.split del: not_None_eq)
qed

lemma host_serve_cases:
  assumes service: "\<And>h spec. keeps sent_part (service h spec)" and at: "scope_at scope = (h, v)"
  obtains (failed) e w2 where "customer_app service num other None h v (Given (host_receive body)) (Given host_send) (fresh_process w) = Some (Inl e, w2)"
      "host_serve num other service close scope body w = Some (closed_end close None (Some e) w2)"
  | (answered) code hs bs w2 where
      "customer_app service num other None h v (Given (host_receive body)) (Given host_send) (fresh_process w) =
        Some (Inr [ResponseStart code hs, ResponseBody (BytesBody bs) False], w2)" "100 \<le> code" "code \<le> 599"
      "host_serve num other service close scope body w =
        Some (closed_end close (Some (stringify (answer_json code (header_pairs hs) bs))) None w2)"
proof -
  let ?app = "customer_app service num other None h v (Given (host_receive body)) (Given host_send) (fresh_process w)"
  obtain r w2 where run: "?app = Some (r, w2)" using host_app_ends by fast
  show thesis
  proof (cases r)
    case (Inl e)
    with run at failed show thesis by (simp add: host_serve_def)
  next
    case (Inr evs)
    from app_answers_bytes [OF run [unfolded Inr]] obtain code hs bs where
      evs: "evs = [ResponseStart code hs, ResponseBody (BytesBody bs) False]" "100 \<le> code" "code \<le> 599" by blast
    have "sent_part w2 = evs" using host_app_sends [OF service run [unfolded Inr]] by (simp add: fresh_process_def)
    with run Inr evs at answered show thesis by (simp add: host_serve_def printed_events)
  qed
qed

text \<open>
  C9. One answer, always. Whatever its command line and its standard input are, the runner ends: it
  prints nothing and fails, or what it prints is one answer - the two events, with a status from 100
  to 599 and a whole body.
\<close>

theorem host_always_answers:
  "\<exists>ending w1. host_main num b64 strange other syntax (host_service sha clock random lcl cl ref) close argv stdin w = Some (ending, w1) \<and>
     (case end_stdout ending of
        None \<Rightarrow> end_failure ending \<noteq> None
      | Some written \<Rightarrow> \<exists>code headers body. 100 \<le> code \<and> code \<le> 599 \<and> written = stringify (answer_json code headers body))"
proof -
  let ?told = "\<lambda>ending. case end_stdout ending of
        None \<Rightarrow> end_failure ending \<noteq> None
      | Some written \<Rightarrow> \<exists>code headers body. 100 \<le> code \<and> code \<le> 599 \<and> written = stringify (answer_json code headers body)"
  have served: "\<exists>ending w1. host_serve num other (host_service sha clock random lcl cl ref mode audit t a) close scope body w = Some (ending, w1) \<and>
      ?told ending" for mode audit t a scope body
  proof -
    obtain h v where at: "scope_at scope = (h, v)" by (cases "scope_at scope")
    show ?thesis
      by (rule host_serve_cases [where service = "host_service sha clock random lcl cl ref mode audit t a", OF host_service_sends_nothing at,
            where num = num and other = other and body = body and w = w and close = close])
        (auto simp: closed_end_def split: prod.splits sum.splits)
  qed
  show ?thesis
    using served
    by (cases w) (simp add: host_main_def refused_end_def Let_def split: sum.split option.split prod.split)
qed

section \<open>Whom it serves\<close>

lemma closed_end_keeps:
  "keeps f close \<Longrightarrow> closed_end close written failed w = (ending, w1) \<Longrightarrow> f w1 = f w"
  by (auto simp: closed_end_def keeps_def split: prod.splits sum.splits)

lemma closed_end_printed:
  "closed_end close (Some written) None w = (ending, w1) \<Longrightarrow> end_stdout ending = Some written"
  by (auto simp: closed_end_def split: prod.splits sum.splits)

lemma host_caller:
  assumes "port_current (host_ports mode tenant actor) () env = (Inr (VInst (IPrincipal (Genuine p))), env1)"
    and "p = \<lparr>principal_tenant = Genuine t, principal_actor = Genuine a\<rparr>"
  shows "tenant_value t = tenant" and "actor_value a = actor"
  using assms
  by (auto simp: host_ports_def host_current_def elift_def rbind_eq_Inr tenant_id_new_def canonical_uuid_eq_Inr actor_id_new_def
      canonical_actor_def principal_new_def exact_tenant_def exact_actor_def type_error_def range_error_def split: if_splits sum.splits)

lemma host_posted:
  assumes "posted num None h scope (host_receive body) (fresh_process w) ms j w0"
  shows "scope_view h scope = Inr (Some (js ''POST'', js ''/customers'', ms))" and "body_value num body = Some j"
proof -
  from assms obtain cs where cs: "delivered (host_receive body) None 0 (fresh_process w) cs w0" "body_value num (concat cs) = Some j"
    and "scope_view h scope = Inr (Some (js ''POST'', js ''/customers'', ms))" by (auto simp: posted_def)
  then show "scope_view h scope = Inr (Some (js ''POST'', js ''/customers'', ms))" by blast
  have "cs = [body]" using cs(1) host_received [of body "fresh_process w"] by (simp add: receive_iff [symmetric] fresh_process_def)
  with cs(2) show "body_value num body = Some j" by simp
qed

text \<open>A run that reached the application: what it was given.\<close>

lemma host_main_cases:
  assumes "host_main num b64 strange other syntax service close argv stdin w = Some (ending, w1)"
  obtains (unserved) "w1 = w"
  | (served) args envelope scope body64 tenant actor where "parse_args argv = Inr args"
      "json_parse num (buffer_text stdin) = Some envelope" "check_envelope envelope = Inr (scope, body64)"
      "host_identity strange args (unwrap_json_safe b64 scope) = Inr (tenant, actor)"
      "host_serve num other (service (ra_policy args) (ra_audit args) tenant actor) close (unwrap_json_safe b64 scope) (b64 body64) w = Some (ending, w1)"
  using assms
  by (auto simp: host_main_def Let_def split: sum.splits option.splits prod.splits)

definition created_answer :: "js_string \<Rightarrow> json \<Rightarrow> js_string" where
  "created_answer request receipt = stringify (answer_json 201
     (map (\<lambda>(name, v). (utf8_encode name, utf8_encode v)) (request_headers request))
     (utf8_encode (stringify (JsonObj [(js ''commitReceipt'', receipt)]))))"

lemma created_printed: "events_for_stdout (created_events request j) = Inr (created_answer request j)"
proof -
  have "header_pairs (map header_bytes hs) = map (\<lambda>(name, v). (utf8_encode name, utf8_encode v)) hs" for hs
    by (simp add: header_pairs_def header_bytes_def part_bytes_def comp_def split_beta)
  then show ?thesis unfolding created_events_def answer_events_def printed_events created_answer_def by simp
qed

text \<open>What the serving of one envelope leaves: every table as it was, or the commit of what was posted and its answer.\<close>

lemma host_serve_commits:
  assumes close: "keeps app_part close" and rows: "adb_rows (app_part w) = tables_of es"
    and at: "scope_at scope = (h, v)"
    and run: "host_serve num other (host_service sha clock random lcl (substrate_client sub) ref mode audit tenant actor) close scope body w =
      Some (ending, w1)"
  shows "adb_rows (app_part w1) = tables_of es \<or>
    (\<exists>ms j e es1. scope_view h v = Inr (Some (js ''POST'', js ''/customers'', ms)) \<and> body_value num body = Some j \<and>
      mode = AllowMode \<and> map_of ms (js ''x-tenant-id'') = Some tenant \<and> map_of ms (js ''x-actor-id'') = Some actor \<and>
      records_post sha ms j e \<and> take_commit e es = Some es1 \<and> adb_rows (app_part w1) = tables_of es1 \<and>
      end_stdout ending = Some (created_answer (receipt_request_id (entry_receipt e)) (commit_receipt_to_json (entry_receipt e))))"
proof -
  let ?view = "\<lambda>w. adb_rows (app_part w)" and ?ports = "host_ports mode tenant actor"
  let ?service = "host_service sha clock random lcl (substrate_client sub) ref mode audit tenant actor"
  let ?rc = "host_receive body" and ?w = "fresh_process w"
  have close: "keeps ?view close" using close by (simp add: keeps_def) metis
  obtain res w2 where app: "customer_app ?service num other None h v (Given ?rc) (Given host_send) ?w = Some (res, w2)"
    using host_app_ends [of ?service num other h v body ?w] by auto
  have frames: "keeps ?view ?rc" "keeps ?view (host_send ev)" for ev
    by (auto simp: keeps_def host_receive_def host_send_def at_caller_def split: prod.splits)
  have fresh: "?view ?w = tables_of es" using rows by (simp add: fresh_process_def)
  from run app at obtain written failed where ends: "closed_end close written failed w2 = (ending, w1)"
    by (auto simp: host_serve_def split: sum.splits)
  note kept_close = closed_end_keeps [OF close ends]
  from app frames fresh show ?thesis
  proof (cases rule: host_app.app_outcome [where es = es])
    case kept
    with kept_close fresh show ?thesis by simp
  next
    case (made ms j w0 w3 request receipt jr)
    from posted_commit [OF made(3) posted_keys_distinct [OF made(1)]] obtain e es1 where
      e: "asked_by (\<lambda>_ _ _. mode = AllowMode) ?ports (fst w0) ms j" "records_post sha ms j e" "take_commit e es = Some es1"
        "?view w3 = tables_of es1" "request = receipt_request_id (entry_receipt e)"
        "receipt = VInst (ICommitReceipt (Genuine (entry_receipt e)))" by blast
    have jr: "jr = commit_receipt_to_json (entry_receipt e)" using made(4) e(6) by (simp add: receipt_json_def private_read_def)
    have sent: "res = Inr (created_events request jr)" "?view w2 = ?view w3"
      using made(5) host_send_all [of "created_events request jr" w3] by auto
    from e(1) have trusted: "mode = AllowMode" "map_of ms (js ''x-tenant-id'') = Some tenant" "map_of ms (js ''x-actor-id'') = Some actor"
      unfolding asked_by_def using host_caller by blast+
    have "host_sent (fst w2) = created_events request jr"
      using host_app_sends [OF host_service_sends_nothing app [unfolded sent(1)]] by (simp add: fresh_process_def)
    then have "closed_end close (Some (created_answer request jr)) None w2 = (ending, w1)"
      using run app at sent(1) by (simp add: host_serve_def created_printed)
    then have printed: "end_stdout ending = Some (created_answer (receipt_request_id (entry_receipt e)) (commit_receipt_to_json (entry_receipt e)))"
      unfolding e(5) jr by (rule closed_end_printed)
    have "adb_rows (app_part w1) = tables_of es1" using kept_close sent(2) e(4) by simp
    with host_posted [OF made(1)] trusted e(2,3) printed show ?thesis by blast
  qed
qed

text \<open>
  C8. Only for the caller it trusts. A run of the runner leaves every table as it was, or it was told
  on its command line to allow, and whom to trust; then the envelope on its input was a POST of
  /customers whose headers name exactly that tenant and that actor, one commit was added, for that
  tenant and of the body in the envelope, and what it printed is the 201 with the receipt of that commit.
\<close>

theorem host_commits_only_for_trusted:
  assumes "keeps app_part close" and "adb_rows (app_part w) = tables_of es"
    and "host_main num b64 strange other syntax (host_service sha clock random lcl (substrate_client sub) ref) close argv stdin w =
      Some (ending, w1)"
  shows "adb_rows (app_part w1) = tables_of es \<or>
    (\<exists>args tenant actor envelope scope body64 h v ms j e es1.
      parse_args argv = Inr args \<and> ra_policy args = AllowMode \<and> ra_tenant args = Some tenant \<and> ra_actor args = Some actor \<and>
      json_parse num (buffer_text stdin) = Some envelope \<and> check_envelope envelope = Inr (scope, body64) \<and>
      scope_at (unwrap_json_safe b64 scope) = (h, v) \<and> scope_view h v = Inr (Some (js ''POST'', js ''/customers'', ms)) \<and>
      body_value num (b64 body64) = Some j \<and>
      map_of ms (js ''x-tenant-id'') = Some tenant \<and> map_of ms (js ''x-actor-id'') = Some actor \<and>
      records_post sha ms j e \<and> take_commit e es = Some es1 \<and> adb_rows (app_part w1) = tables_of es1 \<and>
      end_stdout ending = Some (created_answer (receipt_request_id (entry_receipt e)) (commit_receipt_to_json (entry_receipt e))))"
  using assms(3)
proof (cases rule: host_main_cases)
  case unserved
  then show ?thesis using assms(2) by simp
next
  case (served args envelope scope body64 tenant actor)
  obtain h v where at: "scope_at (unwrap_json_safe b64 scope) = (h, v)" by (cases "scope_at (unwrap_json_safe b64 scope)")
  have trusted: "ra_tenant args = Some tenant" "ra_actor args = Some actor" if "ra_policy args = AllowMode"
    using served(4) that parse_args_trusted [OF served(1)] by (auto simp: host_identity_def trusted_text_def)
  from host_serve_commits [OF assms(1,2) at served(5)] show ?thesis
  proof (elim disjE exE conjE)
    fix ms j e es1
    assume mode: "ra_policy args = AllowMode"
    note facts = served(1) mode trusted [OF mode] served(2,3) at
    assume "scope_view h v = Inr (Some (js ''POST'', js ''/customers'', ms))" "body_value num (b64 body64) = Some j"
      "map_of ms (js ''x-tenant-id'') = Some tenant" "map_of ms (js ''x-actor-id'') = Some actor"
      "records_post sha ms j e" "take_commit e es = Some es1" "adb_rows (app_part w1) = tables_of es1"
      "end_stdout ending = Some (created_answer (receipt_request_id (entry_receipt e)) (commit_receipt_to_json (entry_receipt e)))"
    then show ?thesis by (intro disjI2 exI conjI) (rule facts | assumption)+
  qed (rule disjI1)
qed

end
