(* ===== verification/Host_Claims.thy ===== *)
theory Host_Claims
  imports Host_Facts
begin

text \<open>
  What crosses the boundary of the process: an envelope an encoder made is served as it was meant, and
  what is printed can be read back. Witnesses of the claims about the runner are at the end.
\<close>

section \<open>The envelope\<close>

definition digit_ranges :: "(code_unit \<times> code_unit) list" where
  "digit_ranges = [(0x41, 0x5A), (0x61, 0x7A), (0x30, 0x39), (0x2B, 0x2B), (0x2F, 0x2F)]"

lemma base64_digit_class:
  "n < 64 \<Longrightarrow> in_class digit_ranges (base64_digit n)"
proof -
  have "list_all (in_class digit_ranges) base64_alphabet" by code_simp
  then show "n < 64 \<Longrightarrow> ?thesis" by (simp add: list_all_length alphabet_facts(1) base64_digit_def)
qed

lemma base64_split:
  "\<exists>ds n. base64 bs = ds @ replicate n 0x3D \<and> n \<le> 2 \<and>
     list_all (in_class digit_ranges) ds"
proof (induction bs rule: base64.induct)
  case 1
  show ?case by (intro exI [of _ "[]"] exI [of _ 0]) simp
next
  case (2 a)
  show ?case
    by (intro exI [of _ "[base64_digit (unat a div 4), base64_digit (unat a mod 4 * 16)]"] exI [of _ "Suc (Suc 0)"])
      (simp add: base64_digit_class byte_parts)
next
  case (3 a b)
  show ?case
    by (intro exI [of _ "[base64_digit (unat a div 4), base64_digit (unat a mod 4 * 16 + unat b div 16),
          base64_digit (unat b mod 16 * 4)]"] exI [of _ "Suc 0"])
      (simp add: base64_digit_class byte_parts)
next
  case (4 a b c rest)
  then obtain ds n where rest: "base64 rest = ds @ replicate n 0x3D" "n \<le> 2"
    "list_all (in_class digit_ranges) ds" by blast
  then show ?case
    by (intro exI [of _ "base64_digit (unat a div 4) # base64_digit (unat a mod 4 * 16 + unat b div 16) #
          base64_digit (unat b mod 16 * 4 + unat c div 64) # base64_digit (unat c mod 64) # ds"] exI [of _ n])
      (simp add: base64_digit_class byte_parts)
qed

lemma base64_accepted: "re_test base64_form (base64 bs)"
proof -
  obtain ds n where bs: "base64 bs = ds @ replicate n 0x3D" "n \<le> 2"
    and ds: "list_all (in_class digit_ranges) ds"
    using base64_split by blast
  have "replicate n 0x3D \<in> lang (up_to 2 (Class [(0x3D, 0x3D)]))"
    unfolding lang_up_to_Class using bs(2) by (simp add: list_all_iff)
  moreover have "ds \<in> lang (Star (Class digit_ranges))"
    using ds unfolding lang_Star_Class .
  ultimately show ?thesis unfolding re_test_lang base64_form_def digit_ranges_def [symmetric] bs(1) by (auto simp: conc_def)
qed

definition envelope_of :: "(js_string \<times> json) list \<Rightarrow> bytes \<Rightarrow> json" where
  "envelope_of scope body = JsonObj [(js ''scope'', JsonObj scope), (js ''bodyBase64'', JsonStr (base64 body))]"

lemma envelope_checked: "check_envelope (envelope_of scope body) = Inr (JsonObj scope, base64 body)"
  by (simp add: check_envelope_def envelope_of_def base64_accepted)

lemma buffer_text_encoded:
  assumes "numbers_ok j" shows "buffer_text (utf8_encode (stringify j)) = stringify j"
proof -
  have "well_formed (stringify j)"
    unfolding stringify_render by (rule render_well_formed) (rule ordered_numbers_ok [OF assms])
  then show ?thesis by (simp add: buffer_text_def decode_bytes utf16_scalar_values comp_def)
qed

lemma envelope_read:
  assumes "keys_distinct (JsonObj scope)" "numbers_ok (JsonObj scope)" "numbers_read num (JsonObj scope)" "ordered (JsonObj scope) = JsonObj scope"
  shows "json_parse num (buffer_text (utf8_encode (stringify (envelope_of scope body)))) = Some (envelope_of scope body)"
proof -
  have names: "record_keys [js ''scope'', js ''bodyBase64'']" by code_simp
  have "numbers_ok (envelope_of scope body)" "keys_distinct (envelope_of scope body)" "numbers_read num (envelope_of scope body)"
    using assms(1-3) by (simp_all add: envelope_of_def)
  moreover have "ordered (envelope_of scope body) = envelope_of scope body"
    unfolding envelope_of_def using ordered_record [of "[(js ''scope'', JsonObj scope), (js ''bodyBase64'', JsonStr (base64 body))]"] names assms(4)
    by (simp del: ordered.simps(2))
  ultimately show ?thesis by (simp add: buffer_text_encoded parse_stringify)
qed

context base64_decoder begin

lemma envelope_served:
  assumes "parse_args argv = Inr args" and "json_parse num (buffer_text stdin) = Some (envelope_of scope body)"
    and "host_identity strange args (unwrap_json_safe decode (JsonObj scope)) = Inr (tenant, actor)"
  shows "host_main num decode strange other syntax service close argv stdin w =
    host_serve num other (service (ra_policy args) (ra_audit args) tenant actor) close (unwrap_json_safe decode (JsonObj scope)) body w"
  using assms by (simp add: host_main_def envelope_checked decodes)

end

text \<open>
  C10. The envelope is served. Over a decoder that reads back what an encoder made, a run whose
  arguments are accepted, on the UTF-8 of an envelope of a scope and of any bytes in base64, hands the
  application that scope and exactly those bytes, for the identity the arguments or the scope give.
\<close>

theorem envelope_is_served:
  assumes "base64_decoder b64" and "parse_args argv = Inr args"
    and "keys_distinct (JsonObj scope)" "numbers_ok (JsonObj scope)" "numbers_read num (JsonObj scope)" "ordered (JsonObj scope) = JsonObj scope"
    and "host_identity strange args (unwrap_json_safe b64 (JsonObj scope)) = Inr (tenant, actor)"
  shows "host_main num b64 strange other syntax service close argv (utf8_encode (stringify (envelope_of scope body))) w =
    host_serve num other (service (ra_policy args) (ra_audit args) tenant actor) close (unwrap_json_safe b64 (JsonObj scope)) body w"
  by (rule base64_decoder.envelope_served [OF assms(1,2) envelope_read [OF assms(3-6)] assms(7)])

section \<open>The printed answer\<close>

text \<open>What a reader makes of it.\<close>

definition read_header :: "json \<Rightarrow> (bytes \<times> bytes) option" where
  "read_header j = (case j of JsonArr [JsonStr name, JsonStr v] \<Rightarrow> Some (base64_bytes name, base64_bytes v) | _ \<Rightarrow> None)"

definition read_answer :: "json \<Rightarrow> (int \<times> (bytes \<times> bytes) option list \<times> bytes) option" where
  "read_answer j = (case j of
     JsonArr [JsonObj start, JsonObj body] \<Rightarrow>
       (case (map_of start (js ''status''), map_of start (js ''headersBase64''), map_of body (js ''bodyBase64'')) of
          (Some (JsonNum (JInt code)), Some (JsonArr headers), Some (JsonStr bs)) \<Rightarrow> Some (code, map read_header headers, base64_bytes bs)
        | _ \<Rightarrow> None)
   | _ \<Rightarrow> None)"

lemma answer_json_readable:
  "read_answer (answer_json code headers body) = Some (code, map Some headers, body)"
proof -
  have "map (read_header \<circ> (\<lambda>(name, v). JsonArr [JsonStr (base64 name), JsonStr (base64 v)])) headers = map Some headers"
    by (induction headers) (auto simp: read_header_def base64_round_trip)
  then show ?thesis
    by (simp add: read_answer_def answer_json_def start_json_def body_event_json_def base64_round_trip)
qed

lemma answer_json_facts:
  "all_records (answer_json code headers body)" "numbers_ok (answer_json code headers body)" "keys_distinct (answer_json code headers body)"
proof -
  have "record_keys [js ''type'', js ''status'', js ''headersBase64'']" "record_keys [js ''type'', js ''bodyBase64'', js ''more_body'']"
    by code_simp+
  then show "all_records (answer_json code headers body)" "numbers_ok (answer_json code headers body)"
    "keys_distinct (answer_json code headers body)"
    by (auto simp: answer_json_def start_json_def body_event_json_def list_all_iff plain_number_def number_is_finite_def)
qed

text \<open>
  C11. The printed answer can be read. What the runner writes for a start and a body - whatever bytes
  their headers and their body are - is a JSON text from which a reader gets back the status, every
  header and the whole body, byte for byte.
\<close>

theorem printed_answer_reads_back:
  assumes "events_for_stdout [ResponseStart code hs, ResponseBody (BytesBody bs) False] = Inr written"
    and "num (number_text (JInt code)) = JInt code"
  shows "\<exists>j. json_parse num written = Some j \<and> read_answer j = Some (code, map Some (header_pairs hs), bs)"
proof -
  let ?j = "answer_json code (header_pairs hs) bs"
  have "written = stringify ?j" using assms(1) by (simp add: printed_events)
  moreover have "numbers_read num ?j"
    using assms(2) by (auto simp: answer_json_def start_json_def body_event_json_def list_all_iff)
  ultimately show ?thesis
    using answer_json_facts [of code "header_pairs hs" bs]
    by (intro exI [of _ ?j]) (simp add: parse_stringify ordered_all_records answer_json_readable)
qed

theorem printed_answer_reads_back_witness:
  "\<exists>j. json_parse (\<lambda>_. JInt 201) (stringify (answer_json 201 [([0x61], [0xFF])] [0, 1, 255])) = Some j \<and>
    read_answer j = Some (201, [Some ([0x61], [0xFF])], [0, 1, 255])"
proof -
  have "events_for_stdout [ResponseStart 201 [(HeaderText (js ''a''), HeaderBytes [0xFF])],
      ResponseBody (BytesBody [0, 1, 255]) False :: delivery_body routed asgi_event] =
    Inr (stringify (answer_json 201 (header_pairs [(HeaderText (js ''a''), HeaderBytes [0xFF])]) [0, 1, 255]))"
    by (rule printed_events)
  moreover have "header_pairs [(HeaderText (js ''a''), HeaderBytes [0xFF])] = [([0x61], [0xFF])]" by code_simp
  ultimately show ?thesis using printed_answer_reads_back by fastforce
qed

section \<open>The remaining witnesses\<close>

definition sample_envelope_scope :: "(js_string \<times> json) list" where
  "sample_envelope_scope = [(js ''type'', JsonStr (js ''http''))]"

lemma denied_args: "parse_args [] = Inr no_args"
  by (simp add: parse_args_def check_args_together_def no_args_def)

lemma envelope_scope_identity:
  "host_identity (\<lambda>_. type_error []) no_args (unwrap_json_safe base64_bytes (JsonObj sample_envelope_scope)) =
     Inr (js ''22222222-2222-4222-8222-222222222222'', js ''js-boundary-runner'')"
  by (simp add: host_identity_def no_args_def sample_envelope_scope_def claimed_identity_def) code_simp

theorem envelope_is_served_witness:
  "host_main (\<lambda>_. JInt 0) base64_bytes (\<lambda>_. type_error []) (\<lambda>_. type_error []) (\<lambda>_. [])
      (\<lambda>_ _ _ _ _ _. ethrow (TypeError []) :: ((host_state, unit, unit) kernel, thrown, service_result) eff) (eret ())
      [] (utf8_encode (stringify (envelope_of sample_envelope_scope [0, 255])))
      (\<lparr>host_delivered = False, host_sent = [], host_ticks = 0\<rparr>, (), ()) =
    host_serve (\<lambda>_. JInt 0) (\<lambda>_. type_error []) (\<lambda>_ _. ethrow (TypeError [])) (eret ())
      (unwrap_json_safe base64_bytes (JsonObj sample_envelope_scope)) [0, 255]
      (\<lparr>host_delivered = False, host_sent = [], host_ticks = 0\<rparr>, (), ())"
proof -
  have names: "record_keys [js ''type'']" by code_simp
  have own: "ordered (JsonObj sample_envelope_scope) = JsonObj sample_envelope_scope"
    by (rule ordered_all_records) (simp add: sample_envelope_scope_def names)
  show ?thesis
    by (rule envelope_is_served [OF strict_decoder.base64_decoder_axioms denied_args _ _ _ own envelope_scope_identity])
      (simp_all add: sample_envelope_scope_def)
qed

theorem host_commits_only_for_trusted_witness:
  "\<exists>ending w1. host_main (\<lambda>_. JInt 0) base64_bytes (\<lambda>_. type_error []) (\<lambda>_. type_error []) (\<lambda>_. [])
      (host_service sample_sha (\<lambda>_. 0) (\<lambda>_. []) (table_client Some) (substrate_client sample_substrate) 0) (eret ())
      [] [] (\<lparr>host_delivered = False, host_sent = [], host_ticks = 0\<rparr>, empty_store, empty_db) = Some (ending, w1) \<and>
    adb_rows (app_part w1) = tables_of []"
proof -
  have "json_parse (\<lambda>_. JInt 0) (buffer_text []) = None" by (simp add: json_parse_def buffer_text_def skip_space_def)
  then obtain ending w1 where run: "host_main (\<lambda>_. JInt 0) base64_bytes (\<lambda>_. type_error []) (\<lambda>_. type_error []) (\<lambda>_. [])
      (host_service sample_sha (\<lambda>_. 0) (\<lambda>_. []) (table_client Some) (substrate_client sample_substrate) 0) (eret ())
      [] [] (\<lparr>host_delivered = False, host_sent = [], host_ticks = 0\<rparr>, empty_store, empty_db) = Some (ending, w1)"
    and none: "json_parse (\<lambda>_. JInt 0) (buffer_text []) = None"
    by (simp add: host_main_def denied_args)
  have "adb_rows empty_store = tables_of []" by (simp add: empty_store_def tables_of_def Let_def)
  with host_commits_only_for_trusted [OF _ _ run, of "[]"] none run show ?thesis
    by (fastforce simp: keeps_eret)
qed

end
