(* ===== verification/App_Records.thy ===== *)
theory App_Records
  imports Json_Heap
begin

text \<open>
  \<^verbatim>\<open>src/consumers/customer-app-core/customer-records-schema.mjs\<close>: the canonical form of a customer record
  in the application that consumes the kernel, and the deep copy of its payload.
\<close>

section \<open>The copy of a payload\<close>

text \<open>An object with \<open>Object.prototype\<close> or without a prototype, and its enumerable names.\<close>

definition json_plain :: "heap \<Rightarrow> jsval \<Rightarrow> bool" where
  "json_plain h v = (case v of
     VObj r \<Rightarrow> \<not> is_array h v \<and> (obj_proto (h r) = ObjectPrototype \<or> obj_proto (h r) = NullPrototype)
   | _ \<Rightarrow> False)"

definition enumerable_keys :: "heap \<Rightarrow> nat \<Rightarrow> js_string list" where
  "enumerable_keys h r = filter (\<lambda>k. case own_property h r (KStr k) of
     Some (Data _ e) \<Rightarrow> e | Some (Accessor _ e) \<Rightarrow> e | None \<Rightarrow> False) (string_keys h r)"

text \<open>What a copy holds: a hole of an array stays a hole, for \<open>map\<close> does not visit it.\<close>

datatype clone =
    CHole
  | CNull
  | CBool bool
  | CNum js_number
  | CStr js_string
  | CArr "clone list"
  | CObj "(js_string \<times> clone) list"

definition clone_scalar :: "jsval \<Rightarrow> clone outcome" where
  "clone_scalar v = (let refused = type_error (js ''payload must contain only JSON-compatible finite scalar values'') in
     case v of
       VNull \<Rightarrow> Inr CNull
     | VBool b \<Rightarrow> Inr (CBool b)
     | VStr s \<Rightarrow> Inr (CStr s)
     | VNum n \<Rightarrow> if number_is_finite n then Inr (CNum n) else refused
     | _ \<Rightarrow> refused)"

text \<open>
  \<open>cloneJsonValue\<close> with \<open>deepFreezeClone\<close>. The set \<open>seen\<close> holds the containers around the value. The first
  argument is how many containers the engine's stack has room for; beyond it the engine itself throws.
\<close>

definition stack_error :: "'a outcome" where
  "stack_error = range_error (js ''Maximum call stack size exceeded'')"

definition circular_error :: "'a outcome" where
  "circular_error = type_error (js ''payload must not contain circular references'')"

fun clone_value :: "nat \<Rightarrow> heap \<Rightarrow> nat set \<Rightarrow> jsval \<Rightarrow> clone outcome" where
  "clone_value 0 h seen v = (if is_array h v \<or> json_plain h v then stack_error else clone_scalar v)"
| "clone_value (Suc room) h seen v =
     (if is_array h v then (case v of
        VObj r \<Rightarrow> if r \<in> seen then circular_error
          else rbind (rmap (\<lambda>i. case own_property h r (KStr (dec_nat i)) of
              None \<Rightarrow> Inr CHole
            | Some _ \<Rightarrow> rbind (read_key h r (dec_nat i)) (clone_value room h (insert r seen))) [0..<array_length h r])
            (\<lambda>cs. Inr (CArr cs))
      | _ \<Rightarrow> clone_scalar v)
      else if json_plain h v then (case v of
        VObj r \<Rightarrow> if r \<in> seen then circular_error
          else rbind (rmap (\<lambda>k. rbind (read_key h r k) (\<lambda>x. rbind (clone_value room h (insert r seen) x) (\<lambda>c. Inr (k, c))))
              (enumerable_keys h r)) (\<lambda>ms. Inr (CObj ms))
      | _ \<Rightarrow> clone_scalar v)
      else clone_scalar v)"

section \<open>The record\<close>

record customer_record =
  rec_id :: js_string
  rec_tenant :: js_string
  rec_name :: js_string
  rec_payload :: clone
  rec_created :: js_string
  rec_recorded :: js_string

definition record_keys_listed :: "string list" where
  "record_keys_listed = [''id'', ''tenant_id'', ''name'', ''payload'', ''created_at'', ''recorded_at'']"

text \<open>This uuid form takes both cases.\<close>

definition any_hex :: regex where
  "any_hex = Class [(0x30, 0x39), (0x61, 0x66), (0x41, 0x46)]"

definition record_uuid_form :: regex where
  "record_uuid_form = seqs [rep 8 any_hex, lit ''-'', rep 4 any_hex, lit ''-'', rep 4 any_hex,
     lit ''-'', rep 4 any_hex, lit ''-'', rep 12 any_hex]"

definition uuid_text :: "string \<Rightarrow> jsval \<Rightarrow> js_string outcome" where
  "uuid_text key v = (let refused = type_error (js (key @ '' must be a uuid string'')) in
     case v of VStr s \<Rightarrow> if re_test record_uuid_form s then Inr s else refused | _ \<Rightarrow> refused)"

text \<open>\<open>dated\<close> says which texts \<open>Date.parse\<close> reads, which the engine decides beyond the ISO format.\<close>

definition timestamp_text :: "(js_string \<Rightarrow> bool) \<Rightarrow> string \<Rightarrow> jsval \<Rightarrow> js_string outcome" where
  "timestamp_text dated key v = (let refused = type_error (js (key @ '' must be an ISO timestamp string'')) in
     case v of VStr s \<Rightarrow> if dated s then Inr s else refused | _ \<Rightarrow> refused)"

definition name_text :: "jsval \<Rightarrow> js_string outcome" where
  "name_text v = (let refused = type_error (js ''name must be a non-blank string'') in
     case v of VStr s \<Rightarrow> if js_trim s = [] then refused else Inr s | _ \<Rightarrow> refused)"

definition canonicalize_record :: "nat \<Rightarrow> (js_string \<Rightarrow> bool) \<Rightarrow> heap \<Rightarrow> jsval \<Rightarrow> customer_record outcome" where
  "canonicalize_record room dated h v = (case v of
     VObj r \<Rightarrow>
       if \<not> json_plain h v then type_error (js ''record must be a plain object'')
       else if length (enumerable_keys h r) \<noteq> length record_keys_listed \<or>
         \<not> list_all (\<lambda>k. js k \<in> set (enumerable_keys h r)) record_keys_listed
       then type_error (js ''record must have exactly the six canonical keys'')
       else rbind (rbind (read_key h r (js ''id'')) (uuid_text ''id'')) (\<lambda>i.
         rbind (rbind (read_key h r (js ''tenant_id'')) (uuid_text ''tenant_id'')) (\<lambda>t.
         rbind (rbind (read_key h r (js ''name'')) name_text) (\<lambda>name.
         rbind (read_key h r (js ''payload'')) (\<lambda>payload.
         if \<not> json_plain h payload then type_error (js ''payload must be a plain object'')
         else rbind (rbind (read_key h r (js ''created_at'')) (timestamp_text dated ''created_at'')) (\<lambda>created.
           rbind (rbind (read_key h r (js ''recorded_at'')) (timestamp_text dated ''recorded_at'')) (\<lambda>recorded.
           rbind (clone_value room h {} payload) (\<lambda>c.
           Inr \<lparr>rec_id = i, rec_tenant = t, rec_name = js_trim name, rec_payload = c, rec_created = created,
             rec_recorded = recorded\<rparr>)))))))
   | _ \<Rightarrow> type_error (js ''record must be a plain object''))"

section \<open>The record as an object again\<close>

text \<open>The frozen literal, laid out from an address on: an object before what it holds.\<close>

definition holey_object :: "jsval option list \<Rightarrow> js_object" where
  "holey_object ws = \<lparr>obj_proto = ArrayPrototype, obj_kind = ArrayOf (length ws),
     obj_props = List.map_filter (\<lambda>(i, w). map_option (\<lambda>v. (KStr (dec_nat i), Data v True)) w) (List.enumerate 0 ws)\<rparr>"

fun place :: "clone \<Rightarrow> nat \<Rightarrow> jsval \<times> js_object list"
  and place_all :: "clone list \<Rightarrow> nat \<Rightarrow> jsval option list \<times> js_object list"
  and place_members :: "(js_string \<times> clone) list \<Rightarrow> nat \<Rightarrow> (key \<times> property) list \<times> js_object list" where
  "place CHole n = (VUndef, [])"
| "place CNull n = (VNull, [])"
| "place (CBool b) n = (VBool b, [])"
| "place (CNum x) n = (VNum x, [])"
| "place (CStr s) n = (VStr s, [])"
| "place (CArr cs) n = (case place_all cs (Suc n) of (ws, os) \<Rightarrow> (VObj n, holey_object ws # os))"
| "place (CObj ms) n = (case place_members ms (Suc n) of (ps, os) \<Rightarrow>
     (VObj n, \<lparr>obj_proto = ObjectPrototype, obj_kind = Plain, obj_props = ps\<rparr> # os))"
| "place_all [] n = ([], [])"
| "place_all (c # cs) n = (case place c n of (w, os) \<Rightarrow> (case place_all cs (n + length os) of (ws, qs) \<Rightarrow>
     ((if c = CHole then None else Some w) # ws, os @ qs)))"
| "place_members [] n = ([], [])"
| "place_members ((k, c) # ms) n = (case place c n of (w, os) \<Rightarrow> (case place_members ms (n + length os) of (ps, qs) \<Rightarrow>
     ((KStr k, Data w True) # ps, os @ qs)))"

definition overlay :: "heap \<Rightarrow> nat \<Rightarrow> js_object list \<Rightarrow> heap" where
  "overlay h n os = (\<lambda>a. if n \<le> a \<and> a < n + length os then os ! (a - n) else h a)"

definition record_literal :: "customer_record \<Rightarrow> jsval \<Rightarrow> (string \<times> jsval) list" where
  "record_literal c payload = [(''id'', VStr (rec_id c)), (''tenant_id'', VStr (rec_tenant c)), (''name'', VStr (rec_name c)),
     (''payload'', payload), (''created_at'', VStr (rec_created c)), (''recorded_at'', VStr (rec_recorded c))]"

definition record_heap :: "heap \<Rightarrow> nat \<Rightarrow> customer_record \<Rightarrow> heap" where
  "record_heap h at c = (case place (rec_payload c) (Suc at) of (v, os) \<Rightarrow> overlay h at (plain_object (record_literal c v) # os))"

section \<open>A copy is copied as it is\<close>

fun clone_ok :: "nat \<Rightarrow> clone \<Rightarrow> bool" where
  "clone_ok n CHole = False"
| "clone_ok n (CNum x) = number_is_finite x"
| "clone_ok n (CArr cs) = (case n of 0 \<Rightarrow> False | Suc m \<Rightarrow> list_all (\<lambda>c. c = CHole \<or> clone_ok m c) cs)"
| "clone_ok n (CObj ms) = (case n of 0 \<Rightarrow> False | Suc m \<Rightarrow> distinct (map fst ms) \<and> own_order (map fst ms) = map fst ms \<and>
     list_all (\<lambda>x. clone_ok m (snd x)) ms)"
| "clone_ok n c = True"

lemma clone_scalar_ok: "clone_scalar v = Inr c \<Longrightarrow> clone_ok n c"
  by (auto simp: clone_scalar_def Let_def split: jsval.splits if_splits)

lemma own_order_sorted: "own_order (own_order ks) = own_order ks"
proof -
  have "filter is_index (sort_key nat_of_dec (filter is_index ks)) = sort_key nat_of_dec (filter is_index ks)"
    "filter is_index (filter (\<lambda>k. \<not> is_index k) ks) = []"
    "filter (\<lambda>k. \<not> is_index k) (sort_key nat_of_dec (filter is_index ks)) = []"
    by (auto simp: filter_id_conv filter_empty_conv)
  then show ?thesis by (simp add: own_order_def sort_key_id_if_sorted)
qed

lemma own_order_filter: "own_order (filter P ks) = filter P (own_order ks)"
  by (simp add: own_order_def filter_sort conj_commute)

lemma enumerable_keys_facts: "distinct (enumerable_keys h r)" "own_order (enumerable_keys h r) = enumerable_keys h r"
proof -
  show "distinct (enumerable_keys h r)" by (simp add: enumerable_keys_def)
  have "own_order (string_keys h r) = string_keys h r" unfolding string_keys_def by (rule own_order_sorted)
  then show "own_order (enumerable_keys h r) = enumerable_keys h r" by (simp add: enumerable_keys_def own_order_filter)
qed

lemma clone_value_ok: "clone_value n h seen v = Inr c \<Longrightarrow> clone_ok n c"
proof (induction n arbitrary: seen v c)
  case 0
  then show ?case by (auto simp: stack_error_def clone_scalar_ok split: if_splits)
next
  case (Suc n)
  consider (array) r where "is_array h v" "v = VObj r" | (plain) r where "\<not> is_array h v" "json_plain h v" "v = VObj r"
    | (scalar) "\<not> is_array h v" "\<not> json_plain h v"
    by (cases v) (auto simp: is_array_def json_plain_def)
  then show ?case
  proof cases
    case array
    then obtain cs where c: "c = CArr cs" and each: "rmap (\<lambda>i. case own_property h r (KStr (dec_nat i)) of
              None \<Rightarrow> Inr CHole
            | Some _ \<Rightarrow> rbind (read_key h r (dec_nat i)) (clone_value n h (insert r seen))) [0..<array_length h r] = Inr cs"
      using Suc.prems by (auto simp: rbind_eq_Inr circular_error_def split: if_splits)
    have "x = CHole \<or> clone_ok n x" if "x \<in> set cs" for x
      using rmap_set [OF each that] Suc.IH by (auto simp: rbind_eq_Inr split: option.splits)
    then show ?thesis by (simp add: c list_all_iff)
  next
    case plain
    then obtain ms where c: "c = CObj ms" and each: "rmap (\<lambda>k. rbind (read_key h r k) (\<lambda>x. rbind (clone_value n h (insert r seen) x)
        (\<lambda>c. Inr (k, c)))) (enumerable_keys h r) = Inr ms"
      using Suc.prems by (auto simp: rbind_eq_Inr circular_error_def split: if_splits)
    have "list_all2 (\<lambda>k m. k = fst m) (enumerable_keys h r) ms"
      using each unfolding rmap_eq_Inr by (rule list_all2_mono) (auto simp: rbind_eq_Inr)
    then have "map fst ms = enumerable_keys h r" by (induction rule: list_all2_induct) simp_all
    moreover have "clone_ok n (snd x)" if "x \<in> set ms" for x
      using rmap_set [OF each that] Suc.IH by (auto simp: rbind_eq_Inr)
    ultimately show ?thesis using enumerable_keys_facts [of h r] by (simp add: c list_all_iff)
  next
    case scalar
    with Suc.prems show ?thesis by (simp add: clone_scalar_ok)
  qed
qed

lemma holey_property:
  "h r = holey_object ws \<Longrightarrow> own_property h r (KStr (dec_nat i)) =
     (if i < length ws then map_option (\<lambda>v. Data v True) (ws ! i) else None)"
proof -
  have "map_of (List.map_filter (\<lambda>(i, w). map_option (\<lambda>v. (KStr (dec_nat i), Data v True)) w) (List.enumerate n ws)) (KStr (dec_nat i)) =
      (if n \<le> i \<and> i < n + length ws then map_option (\<lambda>v. Data v True) (ws ! (i - n)) else None)" for n
  proof (induction ws arbitrary: n)
    case (Cons w ws)
    then show ?case by (cases w; cases "i = n") (auto simp: map_filter_simps nth_Cons' Suc_diff_le)
  qed (auto simp: map_filter_simps)
  from this [of 0] show "h r = holey_object ws \<Longrightarrow> ?thesis" by (simp add: own_property_def holey_object_def)
qed

lemma place_members_all: "list_all (\<lambda>x. snd x \<noteq> CHole) ms \<Longrightarrow> place_members ms n = (ps, os) \<Longrightarrow>
    \<exists>ws. place_all (map snd ms) n = (map Some ws, os) \<and> ps = map2 (\<lambda>k w. (KStr k, Data w True)) (map fst ms) ws \<and>
      length ws = length ms"
proof (induction ms arbitrary: n ps os)
  case (Cons m ms)
  obtain k c where m: "m = (k, c)" by (cases m)
  obtain w a where c: "place c n = (w, a)" by (cases "place c n")
  obtain qs b where ms: "place_members ms (n + length a) = (qs, b)" by (cases "place_members ms (n + length a)")
  with Cons obtain ws where "place_all (map snd ms) (n + length a) = (map Some ws, b)"
    "qs = map2 (\<lambda>k w. (KStr k, Data w True)) (map fst ms) ws" "length ws = length ms" by fastforce
  with m c ms Cons.prems show ?case by (intro exI [of _ "w # ws"]) auto
qed auto

lemma place_all_length: "place_all cs n = (ws, os) \<Longrightarrow> length ws = length cs"
  by (induction cs arbitrary: n ws os) (auto split: prod.splits)

lemma placed_each:
  assumes "\<And>c n v os. c \<in> set cs \<Longrightarrow> c \<noteq> CHole \<Longrightarrow> place c n = (v, os) \<Longrightarrow> lays h n os \<Longrightarrow> N \<le> n \<Longrightarrow> P v c"
    and "place_all cs n = (ws, os)" "lays h n os" "N \<le> n" "i < length cs"
  shows "if cs ! i = CHole then ws ! i = None else \<exists>v. ws ! i = Some v \<and> P v (cs ! i)"
  using assms
proof (induction cs arbitrary: n ws os i)
  case (Cons c cs)
  obtain w a where c: "place c n = (w, a)" by (cases "place c n")
  obtain us b where cs: "place_all cs (n + length a) = (us, b)" by (cases "place_all cs (n + length a)")
  have ws: "ws = (if c = CHole then None else Some w) # us" "lays h n a" "lays h (n + length a) b"
    using Cons.prems(2,3) c cs by (auto simp: lays_append)
  show ?case
  proof (cases i)
    case 0
    then show ?thesis using Cons.prems(1) [of c n w a] Cons.prems(4) c ws by auto
  next
    case (Suc k)
    then show ?thesis using Cons.IH [OF _ cs ws(3), of k] Cons.prems(1,4,5) ws by auto
  qed
qed simp

text \<open>The objects of a copy are copied to the same copy again, whatever stands outside them.\<close>

lemma clone_placed:
  "clone_ok n c \<Longrightarrow> place c a = (v, os) \<Longrightarrow> lays h a os \<Longrightarrow> seen \<subseteq> {..<a} \<Longrightarrow> clone_value n h seen v = Inr c"
proof (induction n arbitrary: c a v os seen)
  case 0
  then show ?case by (cases c) (auto simp: clone_scalar_def is_array_def json_plain_def)
next
  case (Suc n)
  show ?case
  proof (cases c)
    case (CArr cs)
    obtain ws qs where ws: "place_all cs (Suc a) = (ws, qs)" by (cases "place_all cs (Suc a)")
    with CArr Suc.prems have v: "v = VObj a" "h a = holey_object ws" "lays h (Suc a) qs" by (auto simp: lays_Cons)
    have len: "length ws = length cs" using place_all_length [OF ws] .
    have ok: "x \<in> set cs \<Longrightarrow> x \<noteq> CHole \<Longrightarrow> clone_ok n x" for x using CArr Suc.prems(1) by (auto simp: list_all_iff)
    have each: "if cs ! i = CHole then ws ! i = None else \<exists>w. ws ! i = Some w \<and> clone_value n h (insert a seen) w = Inr (cs ! i)"
      if "i < length cs" for i
    proof (rule placed_each [OF _ ws v(3) order.refl that])
      fix x m w us assume x: "x \<in> set cs" "x \<noteq> CHole" "place x m = (w, us)" "lays h m us" "Suc a \<le> m"
      have "insert a seen \<subseteq> {..<m}" using Suc.prems(4) x(5) by auto
      from Suc.IH [OF ok [OF x(1,2)] x(3,4) this] show "clone_value n h (insert a seen) w = Inr x" .
    qed
    have "rmap (\<lambda>i. case own_property h a (KStr (dec_nat i)) of
              None \<Rightarrow> Inr CHole
            | Some _ \<Rightarrow> rbind (read_key h a (dec_nat i)) (clone_value n h (insert a seen))) [0..<length cs] = Inr (map ((!) cs) [0..<length cs])"
    proof (rule rmap_total)
      fix i assume "i \<in> set [0..<length cs]"
      then show "(case own_property h a (KStr (dec_nat i)) of
              None \<Rightarrow> Inr CHole
            | Some _ \<Rightarrow> rbind (read_key h a (dec_nat i)) (clone_value n h (insert a seen))) = Inr (cs ! i)"
        using each [of i] holey_property [where h = h and r = a and i = i, OF v(2)] len
        by (auto simp: read_key_def split: if_splits)
    qed
    moreover have "is_array h v" "array_length h a = length cs" "a \<notin> seen"
      using v Suc.prems(4) len by (auto simp: is_array_def array_length_def holey_object_def)
    ultimately show ?thesis by (simp add: CArr v(1) map_nth)
  next
    case (CObj ms)
    then have ok: "list_all (\<lambda>x. clone_ok n (snd x)) ms" "distinct (map fst ms)" "own_order (map fst ms) = map fst ms"
      using Suc.prems(1) by simp_all
    have solid: "list_all (\<lambda>x. snd x \<noteq> CHole) ms" using ok(1) by (auto simp: list_all_iff)
    obtain ps qs where ps: "place_members ms (Suc a) = (ps, qs)" by (cases "place_members ms (Suc a)")
    from place_members_all [OF solid this] obtain ws where
      ws: "place_all (map snd ms) (Suc a) = (map Some ws, qs)" "ps = map2 (\<lambda>k w. (KStr k, Data w True)) (map fst ms) ws"
        "length ws = length (map fst ms)" by auto
    have v: "v = VObj a" "lays h (Suc a) qs"
      and ha: "h a = \<lparr>obj_proto = ObjectPrototype, obj_kind = Plain, obj_props = map2 (\<lambda>k w. (KStr k, Data w True)) (map fst ms) ws\<rparr>"
      using CObj Suc.prems(2,3) ps ws(2) by (auto simp: lays_Cons)
    have each: "clone_value n h (insert a seen) (ws ! i) = Inr (snd (ms ! i))" if i: "i < length ms" for i
    proof -
      have "if map snd ms ! i = CHole then map Some ws ! i = None
        else \<exists>w. map Some ws ! i = Some w \<and> clone_value n h (insert a seen) w = Inr (map snd ms ! i)"
      proof (rule placed_each [OF _ ws(1) v(2) order.refl])
        fix x m w us assume x: "x \<in> set (map snd ms)" "place x m = (w, us)" "lays h m us" "Suc a \<le> m"
        have "insert a seen \<subseteq> {..<m}" using Suc.prems(4) x(4) by auto
        moreover have "clone_ok n x" using ok(1) x(1) by (auto simp: list_all_iff)
        ultimately show "clone_value n h (insert a seen) w = Inr x" using Suc.IH x(2,3) by blast
      qed (use i in simp)
      moreover have "snd (ms ! i) \<noteq> CHole" using solid i by (auto simp: list_all_iff)
      ultimately show ?thesis using i ws(3) by auto
    qed
    have own: "own_property h a (KStr (map fst ms ! i)) = Some (Data (ws ! i) True)" if "i < length ms" for i
      using map_of_map2 [OF ok(2) ws(3), of i] that by (simp add: own_property_def ha)
    have keys: "string_keys h a = map fst ms" using object_keys(1) [where h = h and r = a, OF ha ok(2) ws(3)] ok(3) by simp
    have "\<exists>i < length ms. k = map fst ms ! i" if "k \<in> set (map fst ms)" for k
      using that unfolding in_set_conv_nth by auto
    then have enum: "enumerable_keys h a = map fst ms"
      unfolding enumerable_keys_def keys filter_id_conv using own by fastforce
    have "list_all2 (\<lambda>k m. rbind (read_key h a k) (\<lambda>x. rbind (clone_value n h (insert a seen) x) (\<lambda>c. Inr (k, c))) = Inr m) (map fst ms) ms"
      using own each by (auto simp: list_all2_conv_all_nth read_key_def rbind_eq_Inr)
    moreover have "\<not> is_array h v" "json_plain h v" "a \<notin> seen"
      using v ha Suc.prems(4) by (auto simp: is_array_def json_plain_def)
    ultimately show ?thesis by (simp add: CObj v(1) enum rmap_eq_Inr [symmetric])
  qed (use Suc.prems in \<open>auto simp: clone_scalar_def is_array_def json_plain_def\<close>)
qed

section \<open>A canonical record is canonical\<close>

lemma js_trim_twice: "js_trim (js_trim s) = js_trim s"
proof -
  let ?u = "dropWhile is_js_space s" and ?t = "dropWhile is_js_space (rev (dropWhile is_js_space s))"
  have "\<not> is_js_space (hd (rev ?t)) \<and> \<not> is_js_space (last (rev ?t))" if "?t \<noteq> []"
  proof
    have u: "?u \<noteq> []" using that by (metis dropWhile.simps(1) rev.simps(1))
    have "takeWhile is_js_space (rev ?u) @ ?t = rev ?u" by simp
    then have "last ?t = last (rev ?u)" using that by (metis last_appendR)
    then show "\<not> is_js_space (hd (rev ?t))" using u that hd_dropWhile [of is_js_space s] by (simp add: hd_rev last_rev)
    show "\<not> is_js_space (last (rev ?t))" using hd_dropWhile [OF that] that by (simp add: last_rev)
  qed
  then show ?thesis unfolding js_trim_id_iff by (auto simp: js_trim_def)
qed

lemma record_literal_keys:
  assumes "h r = plain_object (record_literal c v)"
  shows "enumerable_keys h r = map js record_keys_listed"
proof -
  have names: "map fst (obj_props (h r)) = map KStr (map js record_keys_listed)"
    by (simp add: assms plain_object_def record_literal_def record_keys_listed_def)
  have "string_keys h r = map js record_keys_listed"
    unfolding string_keys_def names by (simp add: record_keys_listed_def) code_simp
  moreover have "own_property h r (KStr k) \<noteq> None \<and> (case own_property h r (KStr k) of
      Some (Data _ e) \<Rightarrow> e | Some (Accessor _ e) \<Rightarrow> e | None \<Rightarrow> False)" if "k \<in> set (map js record_keys_listed)" for k
    using that by (auto simp: plain_object_property [where h = h and r = r, OF assms] record_literal_def record_keys_listed_def)
  ultimately show ?thesis unfolding enumerable_keys_def by (subst filter_True) simp_all
qed

lemma uuid_text_iff: "uuid_text key v = Inr s \<longleftrightarrow> v = VStr s \<and> re_test record_uuid_form s"
  by (cases v) (auto simp: uuid_text_def Let_def)

lemma timestamp_text_iff: "timestamp_text dated key v = Inr s \<longleftrightarrow> v = VStr s \<and> dated s"
  by (cases v) (auto simp: timestamp_text_def Let_def)

lemma name_text_iff: "name_text v = Inr s \<longleftrightarrow> v = VStr s \<and> js_trim s \<noteq> []"
  by (cases v) (auto simp: name_text_def Let_def)

text \<open>What holds of a canonical record.\<close>

definition record_wf :: "nat \<Rightarrow> (js_string \<Rightarrow> bool) \<Rightarrow> customer_record \<Rightarrow> bool" where
  "record_wf room dated c \<longleftrightarrow> re_test record_uuid_form (rec_id c) \<and> re_test record_uuid_form (rec_tenant c) \<and>
     js_trim (rec_name c) = rec_name c \<and> rec_name c \<noteq> [] \<and> clone_ok room (rec_payload c) \<and> (\<exists>ms. rec_payload c = CObj ms) \<and>
     dated (rec_created c) \<and> dated (rec_recorded c)"

lemma canonicalize_wf:
  assumes "canonicalize_record room dated h v = Inr c" shows "record_wf room dated c"
proof -
  obtain r where v: "v = VObj r" using assms by (cases v) (simp_all add: canonicalize_record_def)
  obtain i t name payload created recorded p where
    "uuid_text ''id'' i = Inr (rec_id c)" "uuid_text ''tenant_id'' t = Inr (rec_tenant c)"
    "js_trim name \<noteq> []" "rec_name c = js_trim name" "json_plain h payload" "clone_value room h {} payload = Inr (rec_payload c)"
    "timestamp_text dated ''created_at'' created = Inr (rec_created c)" "timestamp_text dated ''recorded_at'' recorded = Inr (rec_recorded c)"
    using assms unfolding v canonicalize_record_def
    by (auto simp: rbind_eq_Inr name_text_iff split: if_split_asm)
  note facts = this [unfolded uuid_text_iff timestamp_text_iff]
  have "clone_ok room (rec_payload c)" using facts(6) by (rule clone_value_ok)
  moreover have "\<exists>ms. rec_payload c = CObj ms"
    using facts(5,6)
    by (cases room) (auto simp: json_plain_def stack_error_def circular_error_def rbind_eq_Inr dest: sym
        split: jsval.splits if_splits)
  ultimately show ?thesis using facts js_trim_twice by (simp add: record_wf_def)
qed

lemma record_read:
  assumes "record_wf room dated c" and h: "h at = plain_object (record_literal c pv)"
    and pv: "place (rec_payload c) n = (pv, os)" "lays h n os"
  shows "canonicalize_record room dated h (VObj at) = Inr c"
proof -
  note c = assms(1) [unfolded record_wf_def]
  note reads = read_plain_object [where h = h and r = at, OF h]
  have "json_plain h (VObj at)" by (simp add: json_plain_def is_array_def h plain_object_def)
  moreover have "clone_value room h {} pv = Inr (rec_payload c)" by (rule clone_placed [OF _ pv]) (use c in simp_all)
  moreover have "json_plain h pv"
  proof -
    obtain ms where "rec_payload c = CObj ms" using c by blast
    with pv have "pv = VObj n" "\<exists>ps. h n = \<lparr>obj_proto = ObjectPrototype, obj_kind = Plain, obj_props = ps\<rparr>"
      by (auto simp: lays_Cons split: prod.splits)
    then show ?thesis by (auto simp: json_plain_def is_array_def)
  qed
  ultimately show ?thesis
    using c by (simp add: canonicalize_record_def record_literal_keys [where h = h and r = at, OF h] reads record_literal_def
        record_keys_listed_def uuid_text_def timestamp_text_def name_text_def)
qed

lemma record_heap_at:
  assumes "place (rec_payload c) (Suc at) = (pv, os)"
  shows "record_heap h at c at = plain_object (record_literal c pv)" and "lays (record_heap h at c) (Suc at) os"
  by (simp_all add: record_heap_def assms overlay_def lays_def)

lemma record_heap_read: "record_wf room dated c \<Longrightarrow> canonicalize_record room dated (record_heap h at c) (VObj at) = Inr c"
proof -
  obtain pv os where pv: "place (rec_payload c) (Suc at) = (pv, os)" by (cases "place (rec_payload c) (Suc at)")
  show "record_wf room dated c \<Longrightarrow> ?thesis" using record_read record_heap_at [OF pv] pv by blast
qed

text \<open>
  C16. A canonical record is canonical. Whatever object a canonical record was made from - arrays with
  holes, getters and objects without a prototype among it - the record as an object is canonical, and
  making it canonical again gives the same record.
\<close>

theorem canonical_record_is_canonical:
  assumes "canonicalize_record room dated h v = Inr c"
  shows "canonicalize_record room dated (record_heap h1 at c) (VObj at) = Inr c"
  by (rule record_heap_read [OF canonicalize_wf [OF assms]])

end
