(* ===== verification/App_Persistence.thy ===== *)
theory App_Persistence
  imports App_Records Customer_Write
begin

text \<open>
  \<^verbatim>\<open>src/consumers/customer-app-core/customer-records-adapter.mjs\<close>,
  \<^verbatim>\<open>customer-persistence-adapter.mjs\<close> and \<^verbatim>\<open>customer-data-cutover.mjs\<close>: the writes of the
  application, in one transaction, and the switch between its writer and the legacy one.
\<close>

section \<open>The client\<close>

record app_audit_row =
  aa_tenant :: js_string
  aa_event :: js_string
  aa_actor :: jsval
  aa_correlation :: js_string
  aa_details :: js_string

record app_outbox_row =
  ao_tenant :: js_string
  ao_event :: js_string
  ao_correlation :: js_string
  ao_key :: js_string

text \<open>The statements the adapters send; the INSERT of a record answers the driver's result object.\<close>

record 'w parity_client =
  par_txn :: "'w txn"
  par_context :: "jsval \<Rightarrow> ('w, thrown, unit) eff"
  par_record :: "customer_record \<Rightarrow> ('w, thrown, heap \<times> jsval) eff"
  par_audit :: "app_audit_row \<Rightarrow> ('w, thrown, unit) eff"
  par_outbox :: "app_outbox_row \<Rightarrow> ('w, thrown, unit) eff"

text \<open>
  What the platform brings: the room on the stack, what \<open>Date.parse\<close> reads, what \<open>toISOString\<close> answers of
  an object that is a Date, and \<open>JSON.stringify\<close> of an audit type that is an object.
\<close>

record platform =
  plat_room :: nat
  plat_dated :: "js_string \<Rightarrow> bool"
  plat_iso :: "jsval \<Rightarrow> js_string outcome option"
  plat_details :: "heap \<Rightarrow> jsval \<Rightarrow> js_string outcome"

text \<open>What the application throws: what was thrown at it, its own conflict, or a plain \<open>Error\<close> with a message.\<close>

datatype app_thrown = Raised thrown | CustomerConflict js_string js_string | AppError js_string

definition raised :: "('w, thrown, 'a) eff \<Rightarrow> ('w, app_thrown, 'a) eff" where
  "raised m = (\<lambda>w. case m w of (Inl e, w1) \<Rightarrow> (Inl (Raised e), w1) | (Inr x, w1) \<Rightarrow> (Inr x, w1))"

section \<open>The records adapter\<close>

text \<open>\<open>options?.key\<close>\<close>

definition optional_read :: "heap \<Rightarrow> jsval \<Rightarrow> string \<Rightarrow> jsval outcome" where
  "optional_read h v k = (case v of VObj r \<Rightarrow> read_key h r (js k) | _ \<Rightarrow> Inr VUndef)"

definition primitive_tenant :: "jsval \<Rightarrow> bool" where
  "primitive_tenant v = (case v of VStr _ \<Rightarrow> True | VNum _ \<Rightarrow> True | VBool _ \<Rightarrow> True | _ \<Rightarrow> False)"

definition normalize_timestamp :: "platform \<Rightarrow> jsval \<Rightarrow> jsval outcome" where
  "normalize_timestamp plat v = (case plat_iso plat v of None \<Rightarrow> Inr v | Some r \<Rightarrow> rbind r (\<lambda>s. Inr (VStr s)))"

definition one_row :: "heap \<Rightarrow> jsval \<Rightarrow> jsval outcome" where
  "one_row h result = (let refused = type_error (js ''query must return exactly one row'') in
     case result of
       VObj r \<Rightarrow> rbind (read_key h r (js ''rows'')) (\<lambda>rows. case rows of
         VObj a \<Rightarrow> if is_array h rows \<and> array_length h a = 1 then read_key h a (dec_nat 0) else refused
       | _ \<Rightarrow> refused)
     | _ \<Rightarrow> refused)"

text \<open>The row the database gives back is made canonical too; \<open>at\<close> is where the literal of its fields stands.\<close>

definition read_row :: "platform \<Rightarrow> nat \<Rightarrow> heap \<Rightarrow> jsval \<Rightarrow> customer_record outcome" where
  "read_row plat at h row = (case row of
     VObj r \<Rightarrow>
       rbind (read_key h r (js ''id'')) (\<lambda>i.
       rbind (read_key h r (js ''tenant_id'')) (\<lambda>t.
       rbind (read_key h r (js ''name'')) (\<lambda>name.
       rbind (read_key h r (js ''payload'')) (\<lambda>payload.
       rbind (rbind (read_key h r (js ''created_at'')) (normalize_timestamp plat)) (\<lambda>created.
       rbind (rbind (read_key h r (js ''recorded_at'')) (normalize_timestamp plat)) (\<lambda>recorded.
       canonicalize_record (plat_room plat) (plat_dated plat)
         (h(at := plain_object [(''id'', i), (''tenant_id'', t), (''name'', name), (''payload'', payload),
            (''created_at'', created), (''recorded_at'', recorded)])) (VObj at)))))))
   | VUndef \<Rightarrow> type_error (js ''Cannot read properties of undefined (reading 'id')'')
   | VNull \<Rightarrow> type_error (js ''Cannot read properties of null (reading 'id')'')
   | _ \<Rightarrow> type_error (js ''id must be a uuid string''))"

definition records_insert ::
    "platform \<Rightarrow> nat \<Rightarrow> 'w parity_client \<Rightarrow> heap \<Rightarrow> jsval \<Rightarrow> jsval \<Rightarrow> ('w, thrown, customer_record) eff" where
  "records_insert plat at cl h v options =
     ebind (elift (canonicalize_record (plat_room plat) (plat_dated plat) h v)) (\<lambda>c.
     ebind (elift (optional_read h options ''tenantId'')) (\<lambda>t.
     if \<not> primitive_tenant t then ethrow (TypeError (js ''options.tenantId must be a non-empty primitive''))
     else if t = VStr [] \<or> t \<noteq> VStr (rec_tenant c)
     then ethrow (TypeError (js ''options.tenantId must match the record's canonical tenant_id''))
     else ebind (par_record cl c) (\<lambda>(rh, result). elift (rbind (one_row rh result) (read_row plat at rh)))))"

section \<open>The persistence adapter\<close>

definition some_text :: "jsval \<Rightarrow> js_string option" where
  "some_text v = (case v of VStr s \<Rightarrow> if s = [] then None else Some s | _ \<Rightarrow> None)"

text \<open>Two texts an option must carry, read one after the other, the second only where the first is there.\<close>

definition two_texts :: "heap \<Rightarrow> jsval \<Rightarrow> string \<Rightarrow> string \<Rightarrow> string \<Rightarrow> string \<Rightarrow> (nat \<times> js_string \<times> js_string) outcome" where
  "two_texts h v a b no_object no_texts = (case v of
     VObj r \<Rightarrow> rbind (read_key h r (js a)) (\<lambda>x. case some_text x of
         None \<Rightarrow> type_error (js no_texts)
       | Some s \<Rightarrow> rbind (read_key h r (js b)) (\<lambda>y. case some_text y of
           None \<Rightarrow> type_error (js no_texts) | Some u \<Rightarrow> Inr (r, s, u)))
   | VInst _ \<Rightarrow> type_error (js no_texts)
   | _ \<Rightarrow> type_error (js no_object))"

definition check_audit_option :: "heap \<Rightarrow> jsval \<Rightarrow> (nat \<times> js_string \<times> js_string) outcome" where
  "check_audit_option h v = two_texts h v ''action'' ''correlationId'' ''options.audit must be an object''
     ''options.audit must carry non-empty action and correlationId''"

definition check_outbox_option :: "heap \<Rightarrow> jsval \<Rightarrow> (nat \<times> js_string \<times> js_string) outcome" where
  "check_outbox_option h v = two_texts h v ''eventName'' ''correlationId'' ''options.transactionalOutbox must be an object''
     ''options.transactionalOutbox must carry non-empty eventName and correlationId''"

definition check_idempotency_option :: "heap \<Rightarrow> jsval \<Rightarrow> js_string outcome" where
  "check_idempotency_option h v = (let refused = type_error (js ''options.idempotency must carry a non-empty fingerprint'') in
     case v of
       VObj r \<Rightarrow> rbind (read_key h r (js ''fingerprint'')) (\<lambda>x. case some_text x of None \<Rightarrow> refused | Some s \<Rightarrow> Inr s)
     | VInst _ \<Rightarrow> refused
     | _ \<Rightarrow> type_error (js ''options.idempotency must be an object''))"

definition or_null :: "jsval \<Rightarrow> jsval" where
  "or_null v = (if v = VUndef then VNull else v)"

text \<open>\<open>JSON.stringify({ intentType: audit.type ?? null })\<close>\<close>

definition details_text :: "platform \<Rightarrow> heap \<Rightarrow> jsval \<Rightarrow> js_string outcome" where
  "details_text plat h v = (let text_of = (\<lambda>j. Inr (stringify (JsonObj [(js ''intentType'', j)]))) in
     case or_null v of
       VNull \<Rightarrow> text_of JsonNull
     | VBool b \<Rightarrow> text_of (JsonBool b)
     | VNum n \<Rightarrow> text_of (JsonNum n)
     | VStr s \<Rightarrow> text_of (JsonStr s)
     | VBigint _ \<Rightarrow> type_error (js ''Do not know how to serialize a BigInt'')
     | VSymbol _ \<Rightarrow> Inr (js ''{}'')
     | VFun _ \<Rightarrow> Inr (js ''{}'')
     | u \<Rightarrow> plat_details plat h u)"

definition persistence_insert ::
    "platform \<Rightarrow> nat \<Rightarrow> 'w parity_client \<Rightarrow> heap \<Rightarrow> jsval \<Rightarrow> jsval \<Rightarrow> ('w, app_thrown, customer_record) eff" where
  "persistence_insert plat at cl h v options =
     (let refused = ethrow (Raised (TypeError (js ''options.tenantId must be a non-empty string matching the record's tenant_id''))) in
     ebind (raised (elift (optional_read h options ''tenantId''))) (\<lambda>t. case some_text t of
       None \<Rightarrow> refused
     | Some tenant \<Rightarrow>
     ebind (raised (elift (optional_read h v ''tenant_id''))) (\<lambda>own. if own \<noteq> VStr tenant then refused else
     ebind (raised (elift (rbind (optional_read h options ''audit'') (check_audit_option h)))) (\<lambda>(a, action, acorr).
     ebind (raised (elift (rbind (optional_read h options ''transactionalOutbox'') (check_outbox_option h)))) (\<lambda>(_, event, ocorr).
     ebind (raised (elift (rbind (optional_read h options ''idempotency'') (check_idempotency_option h)))) (\<lambda>key.
     ebind (raised (records_insert plat at cl h v options)) (\<lambda>c.
     ebind (raised (elift (read_key h a (js ''actorId'')))) (\<lambda>actor.
     ebind (raised (elift (rbind (read_key h a (js ''type'')) (details_text plat h)))) (\<lambda>details.
     ebind (raised (par_audit cl \<lparr>aa_tenant = tenant, aa_event = action, aa_actor = or_null actor, aa_correlation = acorr,
       aa_details = details\<rparr>)) (\<lambda>_.
     ebind (ecatch (raised (par_outbox cl \<lparr>ao_tenant = tenant, ao_event = event, ao_correlation = ocorr, ao_key = key\<rparr>))
       (\<lambda>e. ethrow (case e of
          Raised x \<Rightarrow> if is_duplicate_fingerprint x then CustomerConflict tenant key else e | _ \<Rightarrow> e))) (\<lambda>_.
     eret c)))))))))))"

section \<open>The cutover\<close>

text \<open>\<open>{...options}\<close>: the own enumerable properties, each read once.\<close>

definition spread :: "heap \<Rightarrow> jsval \<Rightarrow> (key \<times> property) list outcome" where
  "spread h v = (case v of
     VObj r \<Rightarrow> rbind (rmap (\<lambda>k. case own_property h r k of
         Some (Data x True) \<Rightarrow> Inr [(k, Data x True)]
       | Some (Accessor g True) \<Rightarrow> rbind g (\<lambda>x. Inr [(k, Data x True)])
       | _ \<Rightarrow> Inr []) (own_keys h r)) (\<lambda>pss. Inr (concat pss))
   | _ \<Rightarrow> Inr [])"

definition plain_of :: "(key \<times> property) list \<Rightarrow> js_object" where
  "plain_of ps = \<lparr>obj_proto = ObjectPrototype, obj_kind = Plain, obj_props = ps\<rparr>"

definition parity_absent :: "heap \<Rightarrow> jsval \<Rightarrow> bool outcome" where
  "parity_absent h options =
     rbind (optional_read h options ''audit'') (\<lambda>a. if a \<noteq> VUndef then Inr False else
     rbind (optional_read h options ''transactionalOutbox'') (\<lambda>x. if x \<noteq> VUndef then Inr False else
     rbind (optional_read h options ''idempotency'') (\<lambda>i. Inr (i = VUndef))))"

text \<open>The options of the adapter, and the default ones where none of the three are given.\<close>

definition parity_options :: "nat \<Rightarrow> heap \<Rightarrow> jsval \<Rightarrow> jsval \<Rightarrow> (heap \<times> jsval) outcome" where
  "parity_options at h options i =
     rbind (parity_absent h options) (\<lambda>absent. rbind (spread h options) (\<lambda>ps. Inr (
       if absent then overlay h at
         [plain_of ([(KStr (js ''audit''), Data (VObj (at + 1)) True), (KStr (js ''transactionalOutbox''), Data (VObj (at + 2)) True),
            (KStr (js ''idempotency''), Data (VObj (at + 3)) True)] @ ps),
          plain_object [(''action'', VStr (js ''customer.created'')), (''type'', VStr (js ''audit.append'')), (''correlationId'', i)],
          plain_object [(''eventName'', VStr (js ''customer.created'')), (''correlationId'', i)],
          plain_object [(''fingerprint'', i)]]
       else overlay h at [plain_of ps], VObj at)))"

text \<open>The statements of the transaction before its COMMIT.\<close>

definition application_writes ::
    "platform \<Rightarrow> nat \<Rightarrow> 'w parity_client \<Rightarrow> heap \<Rightarrow> jsval \<Rightarrow> jsval \<Rightarrow> ('w, app_thrown, customer_record) eff" where
  "application_writes plat at cl h v options =
     ebind (raised (txn_begin (par_txn cl))) (\<lambda>_.
     ebind (raised (elift (optional_read h options ''tenantId''))) (\<lambda>t.
     ebind (raised (par_context cl t)) (\<lambda>_.
     ebind (raised (elift (optional_read h v ''id''))) (\<lambda>i.
     ebind (raised (elift (parity_options at h options i))) (\<lambda>(h1, options1).
     persistence_insert plat at cl h1 v options1)))))"

text \<open>\<open>try ... catch { ROLLBACK } finally { release }\<close> around the writes; the failure of a ROLLBACK is dropped.\<close>

definition application_insert ::
    "platform \<Rightarrow> nat \<Rightarrow> 'w parity_client \<Rightarrow> heap \<Rightarrow> jsval \<Rightarrow> jsval \<Rightarrow> ('w, app_thrown, customer_record) eff" where
  "application_insert plat at cl h v options =
     ebind (raised (txn_connect (par_txn cl))) (\<lambda>_.
     efinally
       (ecatch
         (ebind (application_writes plat at cl h v options) (\<lambda>c.
          ebind (raised (txn_commit (par_txn cl))) (\<lambda>_. eret c)))
         (\<lambda>e. ebind (raised (quietly (txn_rollback (par_txn cl)))) (\<lambda>_. ethrow e)))
       (raised (txn_release (par_txn cl))))"

text \<open>Which writer is active is the state of the cutover; \<open>legacy\<close> is the insert it was given.\<close>

datatype writer = LegacyWriter | ApplicationWriter

record 'w cutover =
  cut_writer :: writer
  cut_world :: 'w

definition in_cutover :: "('w, 'e, 'a) eff \<Rightarrow> ('w cutover, 'e, 'a) eff" where
  "in_cutover m s = (case m (cut_world s) of (r, w) \<Rightarrow> (r, s\<lparr>cut_world := w\<rparr>))"

definition cutover_insert ::
    "(heap \<Rightarrow> jsval \<Rightarrow> jsval \<Rightarrow> ('w, app_thrown, unit) eff) \<Rightarrow> platform \<Rightarrow> nat \<Rightarrow> 'w parity_client
     \<Rightarrow> heap \<Rightarrow> jsval \<Rightarrow> jsval \<Rightarrow> ('w cutover, app_thrown, customer_record option) eff" where
  "cutover_insert legacy plat at cl h v options s = (case cut_writer s of
     LegacyWriter \<Rightarrow> in_cutover (ebind (legacy h v options) (\<lambda>_. eret None)) s
   | ApplicationWriter \<Rightarrow> in_cutover (ebind (application_insert plat at cl h v options) (\<lambda>c. eret (Some c))) s)"

text \<open>
  \<open>verify\<close> is handed a query function on the connection, and while it is awaited the cutover itself may be
  called again, so it acts on the whole state; only \<open>true\<close> itself makes the switch.
\<close>

definition cutover_switch :: "('w cutover, thrown, jsval) eff \<Rightarrow> 'w txn \<Rightarrow> ('w cutover, thrown, unit) eff" where
  "cutover_switch verify tx =
     ebind (in_cutover (txn_connect tx)) (\<lambda>_.
     efinally (ebind verify (\<lambda>compatible. (\<lambda>s.
       (Inr (), if compatible = VBool True then s\<lparr>cut_writer := ApplicationWriter\<rparr> else s))))
       (in_cutover (txn_release tx)))"

definition cutover_rollback :: "'w cutover \<Rightarrow> 'w cutover" where
  "cutover_rollback s = s\<lparr>cut_writer := LegacyWriter\<rparr>"

end
