(* ===== verification/App_Writes.thy ===== *)
theory App_Writes
  imports App_Persistence Frames
begin

text \<open>
  What the writes of the application promise: all three rows or none, the connection given back, and no
  second write under one idempotency key.
\<close>

section \<open>The contract of the client\<close>

record parity_tables =
  pt_records :: "customer_record list"
  pt_audits :: "app_audit_row list"
  pt_outbox :: "app_outbox_row list"

definition parity_key :: "app_outbox_row \<Rightarrow> js_string \<times> js_string" where
  "parity_key x = (ao_tenant x, ao_key x)"

locale parity_store =
  transactional "par_txn cl" stored pending held
  for cl :: "'w parity_client" and stored :: "'w \<Rightarrow> parity_tables" and pending :: "'w \<Rightarrow> parity_tables" and held :: "'w \<Rightarrow> nat" +
  assumes context_keeps: "par_context cl t w = (r, w1) \<Longrightarrow> stored w1 = stored w \<and> pending w1 = pending w \<and> held w1 = held w"
    and record_keeps: "par_record cl c w = (q, w1) \<Longrightarrow> stored w1 = stored w \<and> held w1 = held w"
    and record_adds: "par_record cl c w = (Inr z, w1) \<Longrightarrow> pending w1 = (pending w)\<lparr>pt_records := pt_records (pending w) @ [c]\<rparr>"
    and audit_keeps: "par_audit cl a w = (r, w1) \<Longrightarrow> stored w1 = stored w \<and> held w1 = held w"
    and audit_adds: "par_audit cl a w = (Inr (), w1) \<Longrightarrow> pending w1 = (pending w)\<lparr>pt_audits := pt_audits (pending w) @ [a]\<rparr>"
    and outbox_keeps: "par_outbox cl x w = (r, w1) \<Longrightarrow> stored w1 = stored w \<and> held w1 = held w"
    and outbox_adds: "par_outbox cl x w = (Inr (), w1) \<Longrightarrow> parity_key x \<notin> parity_key ` set (pt_outbox (pending w)) \<and>
      pending w1 = (pending w)\<lparr>pt_outbox := pt_outbox (pending w) @ [x]\<rparr>"

lemma raised_cases [result_simps]:
  "raised m w = (Inr x, w1) \<longleftrightarrow> m w = (Inr x, w1)" "raised m w = (Inl e, w1) \<longleftrightarrow> (\<exists>t. e = Raised t \<and> m w = (Inl t, w1))"
  by (auto simp: raised_def split: prod.splits sum.splits)

lemma raised_keeps [frame_rules]: "keeps f m \<Longrightarrow> keeps f (raised m)"
  by (auto simp: keeps_def raised_def split: prod.splits sum.splits)

lemma some_text_iff: "some_text v = Some s \<longleftrightarrow> v = VStr s \<and> s \<noteq> []"
  by (cases v) (auto simp: some_text_def)

text \<open>The two rows beside the record say what the options say.\<close>

definition rows_of_options :: "heap \<Rightarrow> jsval \<Rightarrow> app_audit_row \<Rightarrow> app_outbox_row \<Rightarrow> bool" where
  "rows_of_options h options a x \<longleftrightarrow>
     (\<exists>r. rbind (optional_read h options ''audit'') (check_audit_option h) = Inr (r, aa_event a, aa_correlation a)) \<and>
     (\<exists>r. rbind (optional_read h options ''transactionalOutbox'') (check_outbox_option h) = Inr (r, ao_event x, ao_correlation x)) \<and>
     rbind (optional_read h options ''idempotency'') (check_idempotency_option h) = Inr (ao_key x)"

text \<open>One write: what one answered insert left pending.\<close>

definition one_write :: "platform \<Rightarrow> heap \<Rightarrow> jsval \<Rightarrow> jsval \<Rightarrow> parity_tables \<Rightarrow> parity_tables \<Rightarrow> bool" where
  "one_write plat h v options tabs tabs1 \<longleftrightarrow> (\<exists>c a x.
     canonicalize_record (plat_room plat) (plat_dated plat) h v = Inr c \<and>
     optional_read h options ''tenantId'' = Inr (VStr (rec_tenant c)) \<and>
     aa_tenant a = rec_tenant c \<and> ao_tenant x = rec_tenant c \<and> rows_of_options h options a x \<and>
     parity_key x \<notin> parity_key ` set (pt_outbox tabs) \<and>
     tabs1 = \<lparr>pt_records = pt_records tabs @ [c], pt_audits = pt_audits tabs @ [a], pt_outbox = pt_outbox tabs @ [x]\<rparr>)"

context parity_store begin

lemma persistence_keeps:
  "keeps (\<lambda>w. (stored w, held w)) (persistence_insert plat at cl h v options)"
proof -
  have client: "keeps (\<lambda>w. (stored w, held w)) (par_record cl c)" "keeps (\<lambda>w. (stored w, held w)) (par_audit cl a)"
    "keeps (\<lambda>w. (stored w, held w)) (par_outbox cl x)" for c a x
    using record_keeps audit_keeps outbox_keeps by (auto simp: keeps_def)
  show ?thesis
    unfolding persistence_insert_def records_insert_def Let_def
    by (intro frame_rules client)
qed

lemma persistence_writes:
  assumes "persistence_insert plat at cl h v options w = (Inr c1, w1)"
  shows "one_write plat h v options (pending w) (pending w1)"
proof -
  obtain t a action acorr r event ocorr key actor details w2 w3 where
    t: "optional_read h options ''tenantId'' = Inr (VStr t)" and
    ins: "records_insert plat at cl h v options w = (Inr c1, w2)" and
    au: "par_audit cl \<lparr>aa_tenant = t, aa_event = action, aa_actor = or_null actor, aa_correlation = acorr, aa_details = details\<rparr> w2 = (Inr (), w3)" and
    ou: "par_outbox cl \<lparr>ao_tenant = t, ao_event = event, ao_correlation = ocorr, ao_key = key\<rparr> w3 = (Inr (), w1)" and
    told: "rows_of_options h options
      \<lparr>aa_tenant = t, aa_event = action, aa_actor = or_null actor, aa_correlation = acorr, aa_details = details\<rparr>
      \<lparr>ao_tenant = t, ao_event = event, ao_correlation = ocorr, ao_key = key\<rparr>"
  proof -
    obtain tv where tv: "optional_read h options ''tenantId'' = Inr tv" and rest: "(case some_text tv of None \<Rightarrow> False | Some _ \<Rightarrow> True)"
      using assms by (auto simp: persistence_insert_def Let_def ebind_Inr_iff raised_cases split: option.splits)
    then obtain s where s: "some_text tv = Some s" by (cases "some_text tv") simp_all
    then have "tv = VStr s" by (simp add: some_text_iff)
    with s tv assms that show thesis
      by (auto simp: persistence_insert_def Let_def ebind_Inr_iff raised_cases rethrow_Inr_iff rows_of_options_def
          rbind_eq_Inr split: if_splits)
  qed
  from ins obtain c z where c: "canonicalize_record (plat_room plat) (plat_dated plat) h v = Inr c"
    and own: "VStr t = VStr (rec_tenant c)" and re: "par_record cl c w = (Inr z, w2)"
    using t by (auto simp: records_insert_def ebind_Inr_iff split: if_splits)
  have "pending w1 = \<lparr>pt_records = pt_records (pending w) @ [c],
      pt_audits = pt_audits (pending w) @ [\<lparr>aa_tenant = t, aa_event = action, aa_actor = or_null actor, aa_correlation = acorr, aa_details = details\<rparr>],
      pt_outbox = pt_outbox (pending w) @ [\<lparr>ao_tenant = t, ao_event = event, ao_correlation = ocorr, ao_key = key\<rparr>]\<rparr>"
    and "parity_key \<lparr>ao_tenant = t, ao_event = event, ao_correlation = ocorr, ao_key = key\<rparr> \<notin> parity_key ` set (pt_outbox (pending w))"
    using record_adds [OF re] audit_adds [OF au] outbox_adds [OF ou] by (cases "pending w"; simp)+
  with c own t told show ?thesis unfolding one_write_def by fastforce
qed

lemma writes_keep: "keeps (\<lambda>w. (stored w, held w)) (application_writes plat at cl h v options)"
proof -
  have client: "keeps (\<lambda>w. (stored w, held w)) (txn_begin (par_txn cl))" "keeps (\<lambda>w. (stored w, held w)) (par_context cl t)" for t
    using begin_keeps context_keeps by (auto simp: keeps_def)
  show ?thesis unfolding application_writes_def by (intro frame_rules client persistence_keeps)
qed

lemma writes_pend:
  assumes "application_writes plat at cl h v options w = (Inr c, w1)"
  shows "\<exists>i h1 options1. parity_options at h options i = Inr (h1, options1) \<and> one_write plat h1 v options1 (stored w) (pending w1)"
proof -
  obtain i h1 options1 t wb wc where po: "parity_options at h options i = Inr (h1, options1)"
    and be: "txn_begin (par_txn cl) w = (Inr (), wb)" and con: "par_context cl t wb = (Inr (), wc)"
    and ins: "persistence_insert plat at cl h1 v options1 wc = (Inr c, w1)"
    using assms by (auto simp: application_writes_def ebind_Inr_iff raised_cases)
  have "pending wc = stored w" using begin_opens [OF be] context_keeps [OF con] by simp
  with persistence_writes [OF ins] po show ?thesis by auto
qed

lemma application_insert_outcome:
  assumes "application_insert plat at cl h v options w = (res, w1)"
  shows "held w1 = held w \<and> (case res of
     Inl _ \<Rightarrow> stored w1 = stored w
   | Inr _ \<Rightarrow> \<exists>i h1 options1. parity_options at h options i = Inr (h1, options1) \<and> one_write plat h1 v options1 (stored w) (stored w1))"
proof (cases "txn_connect (par_txn cl) w")
  case (Pair r wc)
  show ?thesis
  proof (cases r)
    case (Inl e)
    with Pair assms connect_fails [of w e wc] show ?thesis by (auto simp: application_insert_def ebind_apply raised_def)
  next
    case (Inr u)
    have wc: "stored wc = stored w" "held wc = Suc (held w)" using connects [of w wc] Pair Inr by simp_all
    let ?body = "ebind (application_writes plat at cl h v options) (\<lambda>c. ebind (raised (txn_commit (par_txn cl))) (\<lambda>_. eret c))"
    let ?caught = "ecatch ?body (\<lambda>e. ebind (raised (quietly (txn_rollback (par_txn cl)))) (\<lambda>_. ethrow e))"
    let ?told = "\<lambda>q wb. held wb = held wc \<and> (case q of Inl _ \<Rightarrow> stored wb = stored wc
      | Inr _ \<Rightarrow> \<exists>i h1 options1. parity_options at h options i = Inr (h1, options1) \<and> one_write plat h1 v options1 (stored wc) (stored wb))"
    obtain q wb where q: "?body wc = (q, wb)" by (cases "?body wc")
    obtain p wp where p: "application_writes plat at cl h v options wc = (p, wp)" by (cases "application_writes plat at cl h v options wc")
    have kept: "stored wp = stored wc" "held wp = held wc" using writes_keep [THEN keepsD, OF p] by simp_all
    have body: "?told q wb"
    proof (cases p)
      case (Inl e)
      with p q kept show ?thesis by (auto simp: ebind_apply)
    next
      case written: (Inr c)
      obtain k wk where k: "txn_commit (par_txn cl) wp = (k, wk)" by (cases "txn_commit (par_txn cl) wp")
      show ?thesis
      proof (cases k)
        case (Inl e)
        with commit_fails [of wp e wk] k p q written kept show ?thesis by (auto simp: ebind_apply raised_def)
      next
        case (Inr u)
        with commit_stores [of wp wk] k p q written kept have "q = Inr c" "stored wb = pending wp" "held wb = held wc"
          by (auto simp: ebind_apply raised_def)
        with writes_pend [OF p [unfolded written]] show ?thesis by simp
      qed
    qed
    obtain z wz where z: "?caught wc = (z, wz)" by (cases "?caught wc")
    have caught: "?told z wz"
    proof (cases q)
      case (Inl e)
      obtain x where "quietly (txn_rollback (par_txn cl)) wb = (Inr (), x)" "stored x = stored wb" "held x = held wb"
        by (rule quiet_rollback)
      with Inl q z body show ?thesis by (auto simp: ecatch_apply ebind_apply raised_def)
    next
      case (Inr c)
      with q z body show ?thesis by (auto simp: ecatch_apply)
    qed
    obtain y where "txn_release (par_txn cl) wz = (Inr (), y)" "stored y = stored wz" "held y = held wz - 1" by (rule released)
    with assms Pair Inr z caught wc show ?thesis
      by (auto simp: application_insert_def ebind_apply raised_def efinally_apply split: sum.splits)
  qed
qed

end

end
