(* ===== verification/App_Store.thy ===== *)
theory App_Store
  imports App_Writes Customer_Substrate
begin

text \<open>
  The three tables as their migrations constrain them for the application's own writer, a client over
  them whose statements may fail, and what an insert of the application promises on it.
\<close>

section \<open>The tables\<close>

text \<open>
  What the database and its driver decide: the uuid a text denotes, which texts, instants, payloads and
  actors it takes, which JSON texts are objects it stores, and the result object of an INSERT.
\<close>

record parity_rules =
  rule_uuid :: "js_string \<Rightarrow> js_string option"
  rule_text :: "js_string \<Rightarrow> bool"
  rule_instant :: "js_string \<Rightarrow> bool"
  rule_payload :: "clone \<Rightarrow> bool"
  rule_actor :: "jsval \<Rightarrow> bool"
  rule_details :: "js_string \<Rightarrow> bool"
  rule_answer :: "customer_record \<Rightarrow> heap \<times> jsval"

record parity_db =
  pdb_rows :: parity_tables
  pdb_work :: parity_tables
  pdb_tenant :: "js_string option"
  pdb_held :: nat
  pdb_faults :: "thrown option list"

text \<open>The row policy compares uuids, not their spellings.\<close>

definition foreign_tenant :: "parity_rules \<Rightarrow> js_string option \<Rightarrow> js_string \<Rightarrow> bool" where
  "foreign_tenant ru tenant t = (tenant = None \<or> tenant \<noteq> rule_uuid ru t)"

definition record_violation :: "parity_rules \<Rightarrow> js_string option \<Rightarrow> parity_tables \<Rightarrow> customer_record \<Rightarrow> thrown option" where
  "record_violation ru tenant tabs c =
     (if rule_uuid ru (rec_id c) = None \<or> rule_uuid ru (rec_tenant c) = None then Some (violation ''22P02'' None)
      else if \<not> rule_text ru (rec_name c) then Some (violation ''22021'' None)
      else if \<not> rule_payload ru (rec_payload c) then Some (violation ''22P05'' None)
      else if \<not> rule_instant ru (rec_created c) \<or> \<not> rule_instant ru (rec_recorded c) then Some (violation ''22007'' None)
      else if foreign_tenant ru tenant (rec_tenant c) then Some (violation ''42501'' None)
      else if only_spaces (rec_name c) then Some (violation ''23514'' (Some ''customer_records_name_present''))
      else if rule_uuid ru (rec_id c) \<in> set (map (\<lambda>x. rule_uuid ru (rec_id x)) (pt_records tabs))
      then Some (violation ''23505'' (Some ''customer_records_pkey''))
      else None)"

definition app_audit_violation :: "parity_rules \<Rightarrow> js_string option \<Rightarrow> app_audit_row \<Rightarrow> thrown option" where
  "app_audit_violation ru tenant a =
     (if rule_uuid ru (aa_tenant a) = None \<or> rule_uuid ru (aa_correlation a) = None then Some (violation ''22P02'' None)
      else if \<not> rule_text ru (aa_event a) \<or> \<not> rule_actor ru (aa_actor a) then Some (violation ''22021'' None)
      else if \<not> rule_details ru (aa_details a) then Some (violation ''22P05'' None)
      else if foreign_tenant ru tenant (aa_tenant a) then Some (violation ''42501'' None)
      else if only_spaces (aa_event a) then Some (violation ''23514'' (Some ''audit_log_event_type_present''))
      else None)"

definition dedup_key :: "parity_rules \<Rightarrow> app_outbox_row \<Rightarrow> js_string option \<times> js_string" where
  "dedup_key ru x = (rule_uuid ru (ao_tenant x), ao_key x)"

definition app_outbox_violation :: "parity_rules \<Rightarrow> js_string option \<Rightarrow> parity_tables \<Rightarrow> app_outbox_row \<Rightarrow> thrown option" where
  "app_outbox_violation ru tenant tabs x =
     (if rule_uuid ru (ao_tenant x) = None \<or> rule_uuid ru (ao_correlation x) = None then Some (violation ''22P02'' None)
      else if \<not> rule_text ru (ao_event x) \<or> \<not> rule_text ru (ao_key x) then Some (violation ''22021'' None)
      else if foreign_tenant ru tenant (ao_tenant x) then Some (violation ''42501'' None)
      else if only_spaces (ao_event x) then Some (violation ''23514'' (Some ''transactional_outbox_event_type_present''))
      else if dedup_key ru x \<in> set (map (dedup_key ru) (pt_outbox tabs))
      then Some (violation ''23505'' (Some ''transactional_outbox_tenant_dedup_key''))
      else None)"

section \<open>The client\<close>

definition parity_statement :: "(parity_db \<Rightarrow> 'a outcome \<times> parity_db) \<Rightarrow> (parity_db, thrown, 'a) eff" where
  "parity_statement f = faulty pdb_faults (\<lambda>xs w. w\<lparr>pdb_faults := xs\<rparr>) f"

definition parity_add :: "(parity_db \<Rightarrow> thrown option) \<Rightarrow> (parity_tables \<Rightarrow> parity_tables) \<Rightarrow> parity_db \<Rightarrow> unit outcome \<times> parity_db" where
  "parity_add refused add w = (case refused w of Some e \<Rightarrow> (Inl e, w) | None \<Rightarrow> (Inr (), w\<lparr>pdb_work := add (pdb_work w)\<rparr>))"

definition parity_db_txn :: "parity_db txn" where
  "parity_db_txn =
     \<lparr>txn_connect = parity_statement (\<lambda>w. (Inr (), w\<lparr>pdb_held := Suc (pdb_held w)\<rparr>)),
      txn_begin = parity_statement (\<lambda>w. (Inr (), w\<lparr>pdb_work := pdb_rows w, pdb_tenant := None\<rparr>)),
      txn_commit = parity_statement (\<lambda>w. (Inr (), w\<lparr>pdb_rows := pdb_work w, pdb_tenant := None\<rparr>)),
      txn_rollback = parity_statement (\<lambda>w. (Inr (), w\<lparr>pdb_work := pdb_rows w, pdb_tenant := None\<rparr>)),
      txn_release = (\<lambda>w. (Inr (), w\<lparr>pdb_held := pdb_held w - 1\<rparr>))\<rparr>"

definition parity_store_client :: "parity_rules \<Rightarrow> parity_db parity_client" where
  "parity_store_client ru =
     \<lparr>par_txn = parity_db_txn,
      par_context = (\<lambda>t. parity_statement (\<lambda>w. (case t of
        VStr s \<Rightarrow> (case rule_uuid ru s of Some u \<Rightarrow> (Inr (), w\<lparr>pdb_tenant := Some u\<rparr>) | None \<Rightarrow> (Inl (violation ''22P02'' None), w))
      | _ \<Rightarrow> (Inl (violation ''22P02'' None), w)))),
      par_record = (\<lambda>c. ebind (parity_statement (parity_add (\<lambda>w. record_violation ru (pdb_tenant w) (pdb_work w) c)
        (\<lambda>tabs. tabs\<lparr>pt_records := pt_records tabs @ [c]\<rparr>))) (\<lambda>_. eret (rule_answer ru c))),
      par_audit = (\<lambda>a. parity_statement (parity_add (\<lambda>w. app_audit_violation ru (pdb_tenant w) a)
        (\<lambda>tabs. tabs\<lparr>pt_audits := pt_audits tabs @ [a]\<rparr>))),
      par_outbox = (\<lambda>x. parity_statement (parity_add (\<lambda>w. app_outbox_violation ru (pdb_tenant w) (pdb_work w) x)
        (\<lambda>tabs. tabs\<lparr>pt_outbox := pt_outbox tabs @ [x]\<rparr>)))\<rparr>"

lemma parity_statement_cases:
  assumes "parity_statement f w = (res, w1)"
  obtains (fault) e xs where "pdb_faults w = Some e # xs" "res = Inl e" "w1 = w\<lparr>pdb_faults := xs\<rparr>"
  | (runs) xs where "f (w\<lparr>pdb_faults := xs\<rparr>) = (res, w1)"
  using assms unfolding parity_statement_def by (rule faulty_cases) auto

lemma parity_added:
  "parity_add refused add w = (res, w1) \<Longrightarrow>
     pdb_rows w1 = pdb_rows w \<and> pdb_held w1 = pdb_held w \<and>
     (res = Inr () \<longrightarrow> refused w = None \<and> pdb_work w1 = add (pdb_work w))"
  by (auto simp: parity_add_def split: option.splits)

lemma parity_admitted: "app_outbox_violation ru ten tabs x = None \<Longrightarrow> parity_key x \<notin> parity_key ` set (pt_outbox tabs)"
  by (auto simp: app_outbox_violation_def dedup_key_def parity_key_def image_iff split: if_splits)

interpretation parity_txn: transactional parity_db_txn pdb_rows pdb_work pdb_held
  by unfold_locales (auto simp: parity_db_txn_def elim!: parity_statement_cases)

interpretation parity: parity_store "parity_store_client ru" pdb_rows pdb_work pdb_held for ru
proof -
  have txn: "transactional (par_txn (parity_store_client ru)) pdb_rows pdb_work pdb_held"
    using parity_txn.transactional_axioms by (simp add: parity_store_client_def)
  show "parity_store (parity_store_client ru) pdb_rows pdb_work pdb_held"
    by (intro parity_store.intro parity_store_axioms.intro txn)
      (auto simp: parity_store_client_def ebind_apply
        elim!: parity_statement_cases dest!: parity_added parity_admitted split: prod.splits sum.splits jsval.splits option.splits)
qed

section \<open>All rows or none\<close>

text \<open>
  C15. The write of the application is atomic. Whatever statement of it fails or is refused, an insert that
  throws leaves every table as it was; one that answers has added one canonical record of the tenant of its
  options, one audit row and one outbox row of that tenant that say what its options say, under an
  idempotency key the tenant had not used. The connection is given back either way.
\<close>

theorem application_insert_is_atomic:
  assumes "application_insert plat at (parity_store_client ru) h v options w = (res, w1)"
  shows "pdb_held w1 = pdb_held w \<and> (case res of
     Inl _ \<Rightarrow> pdb_rows w1 = pdb_rows w
   | Inr _ \<Rightarrow> \<exists>i h1 options1. parity_options at h options i = Inr (h1, options1) \<and>
       one_write plat h1 v options1 (pdb_rows w) (pdb_rows w1))"
  using assms by (rule parity.application_insert_outcome)

section \<open>A canonical record is stored\<close>

text \<open>The options the adapter makes of a lone tenant id, and the rows of an insert under them.\<close>

definition default_literals :: "nat \<Rightarrow> js_string \<Rightarrow> jsval \<Rightarrow> js_object list" where
  "default_literals at t i =
     [plain_object [(''audit'', VObj (at + 1)), (''transactionalOutbox'', VObj (at + 2)), (''idempotency'', VObj (at + 3)),
        (''tenantId'', VStr t)],
      plain_object [(''action'', VStr (js ''customer.created'')), (''type'', VStr (js ''audit.append'')), (''correlationId'', i)],
      plain_object [(''eventName'', VStr (js ''customer.created'')), (''correlationId'', i)],
      plain_object [(''fingerprint'', i)]]"

definition default_details :: js_string where
  "default_details = stringify (JsonObj [(js ''intentType'', JsonStr (js ''audit.append''))])"

definition default_audit :: "customer_record \<Rightarrow> app_audit_row" where
  "default_audit c = \<lparr>aa_tenant = rec_tenant c, aa_event = js ''customer.created'', aa_actor = VNull, aa_correlation = rec_id c,
     aa_details = default_details\<rparr>"

definition default_outbox :: "customer_record \<Rightarrow> app_outbox_row" where
  "default_outbox c = \<lparr>ao_tenant = rec_tenant c, ao_event = js ''customer.created'', ao_correlation = rec_id c, ao_key = rec_id c\<rparr>"

definition stored_with :: "customer_record \<Rightarrow> parity_tables \<Rightarrow> parity_tables" where
  "stored_with c tabs = \<lparr>pt_records = pt_records tabs @ [c], pt_audits = pt_audits tabs @ [default_audit c],
     pt_outbox = pt_outbox tabs @ [default_outbox c]\<rparr>"

text \<open>The database takes the three rows: no check refuses them and neither the id nor the key is used.\<close>

definition takes_record :: "parity_rules \<Rightarrow> parity_tables \<Rightarrow> customer_record \<Rightarrow> bool" where
  "takes_record ru tabs c \<longleftrightarrow> rule_uuid ru (rec_tenant c) \<noteq> None \<and>
     record_violation ru (rule_uuid ru (rec_tenant c)) tabs c = None \<and>
     app_audit_violation ru (rule_uuid ru (rec_tenant c)) (default_audit c) = None \<and>
     app_outbox_violation ru (rule_uuid ru (rec_tenant c)) tabs (default_outbox c) = None"

lemma record_uuid_form_empty: "\<not> re_test record_uuid_form []"
  by code_simp

lemma lone_option:
  assumes "h k = plain_object [(''tenantId'', VStr t)]"
  shows "own_keys h k = [KStr (js ''tenantId'')]"
    and "own_property h k (KStr (js ''tenantId'')) = Some (Data (VStr t) True)"
    and "read_key h k (js x) = Inr (if x = ''tenantId'' then VStr t else VUndef)"
proof -
  have "set (own_keys h k) = {KStr (js ''tenantId'')}" "length (own_keys h k) = 1"
    using plain_object_keys [where h = h and r = k, OF assms] plain_object_key_count [where h = h and r = k, OF assms]
    by (simp_all add: key_set_def)
  then obtain y where "own_keys h k = [y]" by (metis One_nat_def length_0_conv length_Suc_conv)
  with \<open>set (own_keys h k) = _\<close> show "own_keys h k = [KStr (js ''tenantId'')]" by simp
qed (simp_all add: plain_object_property [where h = h and r = k, OF assms] read_plain_object [where h = h and r = k, OF assms])

lemma default_options:
  assumes "h k = plain_object [(''tenantId'', VStr t)]"
  shows "parity_options at h (VObj k) i = Inr (overlay h at (default_literals at t i), VObj at)"
  by (simp add: parity_options_def parity_absent_def optional_read_def spread_def lone_option [where h = h, OF assms]
      default_literals_def plain_of_def plain_object_def)

text \<open>Options that say what the default ones say, wherever their objects stand.\<close>

definition full_options :: "heap \<Rightarrow> nat \<Rightarrow> nat \<Rightarrow> nat \<Rightarrow> nat \<Rightarrow> customer_record \<Rightarrow> bool" where
  "full_options h p a b f c \<longleftrightarrow>
     h p = plain_object [(''audit'', VObj a), (''transactionalOutbox'', VObj b), (''idempotency'', VObj f), (''tenantId'', VStr (rec_tenant c))] \<and>
     h a = plain_object [(''action'', VStr (js ''customer.created'')), (''type'', VStr (js ''audit.append'')), (''correlationId'', VStr (rec_id c))] \<and>
     h b = plain_object [(''eventName'', VStr (js ''customer.created'')), (''correlationId'', VStr (rec_id c))] \<and>
     h f = plain_object [(''fingerprint'', VStr (rec_id c))]"

lemma intent_details: "details_text plat h (VStr (js ''audit.append'')) = Inr default_details"
  by (simp add: details_text_def or_null_def default_details_def)

lemma clear_persistence:
  assumes c: "canonicalize_record (plat_room plat) (plat_dated plat) h (VObj r) = Inr c"
    and own: "read_key h r (js ''tenant_id'') = Inr (VStr (rec_tenant c))" and t: "rec_tenant c \<noteq> []" and i: "rec_id c \<noteq> []"
    and full: "full_options h p a b f c"
    and answer: "(case rule_answer ru c of (rh, z) \<Rightarrow> rbind (one_row rh z) (read_row plat at rh)) = Inr c"
    and takes: "takes_record ru (pdb_work w) c" and w: "pdb_faults w = []" "pdb_tenant w = rule_uuid ru (rec_tenant c)"
  shows "persistence_insert plat at (parity_store_client ru) h (VObj r) (VObj p) w =
    (Inr c, w\<lparr>pdb_work := stored_with c (pdb_work w)\<rparr>)"
proof -
  let ?cl = "parity_store_client ru"
  note opts = full [unfolded full_options_def]
  have reads: "read_key h p (js k) = Inr (case map_of [(''audit'', VObj a), (''transactionalOutbox'', VObj b), (''idempotency'', VObj f),
        (''tenantId'', VStr (rec_tenant c))] k of Some v \<Rightarrow> v | None \<Rightarrow> VUndef)"
    "read_key h a (js k) = Inr (case map_of [(''action'', VStr (js ''customer.created'')), (''type'', VStr (js ''audit.append'')),
        (''correlationId'', VStr (rec_id c))] k of Some v \<Rightarrow> v | None \<Rightarrow> VUndef)"
    "read_key h b (js k) = Inr (case map_of [(''eventName'', VStr (js ''customer.created'')), (''correlationId'', VStr (rec_id c))] k of
        Some v \<Rightarrow> v | None \<Rightarrow> VUndef)"
    "read_key h f (js k) = Inr (case map_of [(''fingerprint'', VStr (rec_id c))] k of Some v \<Rightarrow> v | None \<Rightarrow> VUndef)" for k
    using opts by (blast intro: read_plain_object)+
  have filled: "some_text (VStr s) = Some s" if "s \<noteq> []" for s using that by (simp add: some_text_def)
  have created: "js ''customer.created'' \<noteq> []" by (simp add: js_def)
  define w1 where "w1 = w\<lparr>pdb_work := (pdb_work w)\<lparr>pt_records := pt_records (pdb_work w) @ [c]\<rparr>\<rparr>"
  define w2 where "w2 = w1\<lparr>pdb_work := (pdb_work w1)\<lparr>pt_audits := pt_audits (pdb_work w1) @ [default_audit c]\<rparr>\<rparr>"
  define w3 where "w3 = w2\<lparr>pdb_work := (pdb_work w2)\<lparr>pt_outbox := pt_outbox (pdb_work w2) @ [default_outbox c]\<rparr>\<rparr>"
  have same: "app_outbox_violation ru ten (tabs\<lparr>pt_records := cs, pt_audits := as\<rparr>) x = app_outbox_violation ru ten tabs x"
    for ten tabs cs as x by (simp add: app_outbox_violation_def)
  have "par_record ?cl c w = (Inr (rule_answer ru c), w1)"
    using takes w by (simp add: parity_store_client_def parity_statement_def parity_add_def takes_record_def w1_def ebind_apply)
  then have rec: "records_insert plat at ?cl h (VObj r) (VObj p) w = (Inr c, w1)"
    using c t answer
    by (simp add: records_insert_def ebind_apply optional_read_def reads primitive_tenant_def elift_def split: prod.splits)
  have aud: "par_audit ?cl \<lparr>aa_tenant = rec_tenant c, aa_event = js ''customer.created'', aa_actor = VNull, aa_correlation = rec_id c,
      aa_details = default_details\<rparr> w1 = (Inr (), w2)"
    using takes w unfolding default_audit_def [symmetric]
    by (simp add: parity_store_client_def parity_statement_def parity_add_def takes_record_def w1_def w2_def)
  have out: "par_outbox ?cl \<lparr>ao_tenant = rec_tenant c, ao_event = js ''customer.created'', ao_correlation = rec_id c, ao_key = rec_id c\<rparr> w2 = (Inr (), w3)"
    using takes w unfolding default_outbox_def [symmetric]
    by (simp add: parity_store_client_def parity_statement_def parity_add_def takes_record_def w1_def w2_def w3_def same)
  have "persistence_insert plat at ?cl h (VObj r) (VObj p) w = (Inr c, w3)"
    by (simp add: persistence_insert_def Let_def ebind_apply raised_def optional_read_def reads own filled t i created
        check_audit_option_def check_outbox_option_def check_idempotency_option_def two_texts_def rec or_null_def intent_details
        aud out ecatch_apply)
  moreover have "w3 = w\<lparr>pdb_work := stored_with c (pdb_work w)\<rparr>" by (simp add: w1_def w2_def w3_def stored_with_def)
  ultimately show ?thesis by simp
qed

lemma clear_insert_with:
  assumes rec: "record_wf (plat_room plat) (plat_dated plat) c" "h1 r = plain_object (record_literal c pv)"
      "place (rec_payload c) n = (pv, os)" "lays h1 n os"
    and given: "optional_read h (VObj r) ''id'' = Inr (VStr (rec_id c))" "optional_read h options ''tenantId'' = Inr (VStr (rec_tenant c))"
    and options: "parity_options at h options (VStr (rec_id c)) = Inr (h1, VObj p)" "full_options h1 p a b f c"
    and answer: "(case rule_answer ru c of (rh, z) \<Rightarrow> rbind (one_row rh z) (read_row plat at rh)) = Inr c"
    and takes: "takes_record ru (pdb_rows w) c" and w: "pdb_faults w = []"
  shows "application_insert plat at (parity_store_client ru) h (VObj r) options w =
    (Inr c, w\<lparr>pdb_rows := stored_with c (pdb_rows w), pdb_work := stored_with c (pdb_rows w), pdb_tenant := None\<rparr>)"
proof -
  let ?cl = "parity_store_client ru"
  have filled: "rec_tenant c \<noteq> []" "rec_id c \<noteq> []"
    using rec(1) record_uuid_form_empty unfolding record_wf_def by metis+
  obtain u where u: "rule_uuid ru (rec_tenant c) = Some u" using takes by (auto simp: takes_record_def)
  define wc where "wc = w\<lparr>pdb_held := Suc (pdb_held w)\<rparr>"
  define wb where "wb = wc\<lparr>pdb_work := pdb_rows wc, pdb_tenant := Some u\<rparr>"
  have "persistence_insert plat at ?cl h1 (VObj r) (VObj p) wb = (Inr c, wb\<lparr>pdb_work := stored_with c (pdb_work wb)\<rparr>)"
  proof (rule clear_persistence [OF record_read [OF rec] _ filled options(2) answer])
    show "read_key h1 r (js ''tenant_id'') = Inr (VStr (rec_tenant c))"
      by (simp add: read_plain_object [where h = h1, OF rec(2)] record_literal_def)
  qed (use takes w u in \<open>simp_all add: wb_def wc_def\<close>)
  then have "application_writes plat at ?cl h (VObj r) options wc = (Inr c, wb\<lparr>pdb_work := stored_with c (pdb_work wb)\<rparr>)"
    using w u
    by (simp add: application_writes_def ebind_apply raised_def given options(1)
        parity_store_client_def parity_db_txn_def parity_statement_def wb_def wc_def)
  then show ?thesis
    using w
    by (simp add: application_insert_def ebind_apply raised_def ecatch_apply efinally_apply
        parity_store_client_def parity_db_txn_def parity_statement_def wb_def wc_def)
qed

lemma clear_application_insert:
  assumes rec: "record_wf (plat_room plat) (plat_dated plat) c" "h r = plain_object (record_literal c pv)"
      "place (rec_payload c) n = (pv, os)" "lays h n os"
    and options: "h k = plain_object [(''tenantId'', VStr (rec_tenant c))]" "r < at" "n + length os \<le> at"
    and answer: "(case rule_answer ru c of (rh, z) \<Rightarrow> rbind (one_row rh z) (read_row plat at rh)) = Inr c"
    and takes: "takes_record ru (pdb_rows w) c" and w: "pdb_faults w = []"
  shows "application_insert plat at (parity_store_client ru) h (VObj r) (VObj k) w =
    (Inr c, w\<lparr>pdb_rows := stored_with c (pdb_rows w), pdb_work := stored_with c (pdb_rows w), pdb_tenant := None\<rparr>)"
proof -
  let ?lits = "default_literals at (rec_tenant c) (VStr (rec_id c))" let ?h1 = "overlay h at ?lits"
  have low: "overlay h at q a = h a" if "a < at" for q a using that by (simp add: overlay_def)
  have rec1: "?h1 r = plain_object (record_literal c pv)" "lays ?h1 n os"
    using rec(2,4) options(2,3) low by (auto simp: lays_def)
  have "lays ?h1 at ?lits" by (simp add: lays_def overlay_def)
  then have full: "full_options ?h1 at (at + 1) (at + 2) (at + 3) c"
    by (simp add: full_options_def default_literals_def lays_Cons numeral_2_eq_2 numeral_3_eq_3)
  show ?thesis
  proof (rule clear_insert_with [OF rec(1) rec1(1) rec(3) rec1(2) _ _ default_options [where h = h, OF options(1)] full answer takes w])
    show "optional_read h (VObj r) ''id'' = Inr (VStr (rec_id c))"
      by (simp add: optional_read_def read_plain_object [where h = h, OF rec(2)] record_literal_def)
    show "optional_read h (VObj k) ''tenantId'' = Inr (VStr (rec_tenant c))"
      by (simp add: optional_read_def lone_option [where h = h, OF options(1)])
  qed
qed

text \<open>
  A canonical record is stored. A record object the application finds canonical, inserted for its own
  tenant over a connection that does not fail and tables that take its rows, is answered as it is; the
  record, its audit row and its outbox row under its id as the idempotency key are stored.
\<close>

theorem canonical_record_is_stored:
  assumes rec: "record_wf (plat_room plat) (plat_dated plat) c" "h r = plain_object (record_literal c pv)"
      "place (rec_payload c) n = (pv, os)" "lays h n os"
    and options: "h k = plain_object [(''tenantId'', VStr (rec_tenant c))]" "r < at" "n + length os \<le> at"
    and answer: "(case rule_answer ru c of (rh, z) \<Rightarrow> rbind (one_row rh z) (read_row plat at rh)) = Inr c"
    and takes: "takes_record ru (pdb_rows w) c" and w: "pdb_faults w = []"
  shows "application_insert plat at (parity_store_client ru) h (VObj r) (VObj k) w =
    (Inr c, w\<lparr>pdb_rows := stored_with c (pdb_rows w), pdb_work := stored_with c (pdb_rows w), pdb_tenant := None\<rparr>)"
  by (rule clear_application_insert [OF assms])

section \<open>A sample insert\<close>

text \<open>A row that gives the record back as it was is read as the record.\<close>

lemma row_read_back:
  assumes c: "record_wf (plat_room plat) (plat_dated plat) c" and row: "rh r = plain_object (record_literal c pv)"
    and pv: "place (rec_payload c) n = (pv, os)" "lays rh n os" and at: "n + length os \<le> at"
    and iso: "\<And>s. plat_iso plat (VStr s) = None"
  shows "read_row plat at rh (VObj r) = Inr c"
proof -
  let ?h = "rh(at := plain_object (record_literal c pv))"
  have "lays ?h n os" using pv(2) at by (auto simp: lays_def)
  then have "canonicalize_record (plat_room plat) (plat_dated plat) ?h (VObj at) = Inr c"
    by (intro record_read [OF c _ pv(1)]) simp_all
  then show ?thesis
    by (simp add: read_row_def read_plain_object [where h = rh, OF row] record_literal_def normalize_timestamp_def iso)
qed

definition app_uuid :: js_string where
  "app_uuid = js ''0000000A-0000-4000-8000-00000000000a''"

definition app_record :: customer_record where
  "app_record = \<lparr>rec_id = app_uuid, rec_tenant = app_uuid, rec_name = js ''Ada'', rec_payload = CObj [(js ''k'', CArr [CHole, CNull])],
     rec_created = js ''2024-02-29'', rec_recorded = js ''2024-03-01''\<rparr>"

definition sample_platform :: platform where
  "sample_platform = \<lparr>plat_room = 8, plat_dated = (\<lambda>_. True), plat_iso = (\<lambda>_. None), plat_details = (\<lambda>_ _. Inr [])\<rparr>"

text \<open>At 0 the options, or the result object of an INSERT; its array of one row at 1; the record, or the row, at 2.\<close>

definition sample_row_heap :: "customer_record \<Rightarrow> js_object list \<Rightarrow> heap" where
  "sample_row_heap c os = overlay (record_heap (\<lambda>_. plain_object []) 2 c) 0 os"

definition sample_rules :: parity_rules where
  "sample_rules = \<lparr>rule_uuid = (\<lambda>s. if s = app_uuid then Some s else None), rule_text = (\<lambda>_. True), rule_instant = (\<lambda>_. True),
     rule_payload = (\<lambda>_. True), rule_actor = (\<lambda>_. True), rule_details = (\<lambda>_. True),
     rule_answer = (\<lambda>c. (sample_row_heap c [plain_object [(''rows'', VObj 1)], holey_object [Some (VObj 2)]], VObj 0))\<rparr>"

definition sample_options_heap :: heap where
  "sample_options_heap = sample_row_heap app_record [plain_object [(''tenantId'', VStr app_uuid)]]"

definition no_parity_rows :: parity_db where
  "no_parity_rows = (let none = \<lparr>pt_records = [], pt_audits = [], pt_outbox = []\<rparr> in
     \<lparr>pdb_rows = none, pdb_work = none, pdb_tenant = None, pdb_held = 0, pdb_faults = []\<rparr>)"

lemma app_record_wf: "record_wf 8 (\<lambda>_. True) app_record"
proof -
  have "re_test record_uuid_form app_uuid" by code_simp
  moreover have "js_trim (js ''Ada'') = js ''Ada'' \<and> js ''Ada'' \<noteq> []" by code_simp
  moreover have "clone_ok 8 (CObj [(js ''k'', CArr [CHole, CNull])])" by code_simp
  ultimately show ?thesis by (simp add: record_wf_def app_record_def del: clone_ok.simps)
qed

theorem canonical_record_is_canonical_witness:
  "canonicalize_record 8 (\<lambda>_. True) (record_heap (\<lambda>_. plain_object []) 5 app_record) (VObj 5) = Inr app_record"
  by (rule canonical_record_is_canonical [OF record_heap_read [OF app_record_wf, of "\<lambda>_. plain_object []" 2]])

lemma sample_row:
  assumes "length os \<le> 2"
  obtains pv qs where "place (rec_payload app_record) 3 = (pv, qs)" "length qs = 2"
    "sample_row_heap app_record os 2 = plain_object (record_literal app_record pv)" "lays (sample_row_heap app_record os) 3 qs"
proof -
  obtain pv qs where p: "place (rec_payload app_record) (Suc 2) = (pv, qs)" by (cases "place (rec_payload app_record) (Suc 2)")
  have "length qs = 2" using p by (auto simp: app_record_def)
  with record_heap_at [OF p] p assms that [of pv qs] show thesis
    by (auto simp: sample_row_heap_def overlay_def lays_def)
qed

lemma sample_takes: "takes_record sample_rules (pdb_rows no_parity_rows) app_record"
proof -
  have "\<not> only_spaces (js ''Ada'') \<and> \<not> only_spaces (js ''customer.created'')" by code_simp
  then show ?thesis
    by (simp add: takes_record_def record_violation_def app_audit_violation_def app_outbox_violation_def sample_rules_def
        no_parity_rows_def app_record_def default_audit_def default_outbox_def foreign_tenant_def Let_def)
qed

lemma sample_answer:
  assumes "5 \<le> at"
  shows "(case rule_answer sample_rules app_record of (rh, z) \<Rightarrow> rbind (one_row rh z) (read_row sample_platform at rh)) = Inr app_record"
proof -
  let ?os = "[plain_object [(''rows'', VObj 1)], holey_object [Some (VObj 2)]]" let ?rh = "sample_row_heap app_record ?os"
  obtain pv qs where row: "place (rec_payload app_record) 3 = (pv, qs)" "length qs = 2"
    "?rh 2 = plain_object (record_literal app_record pv)" "lays ?rh 3 qs" by (rule sample_row [of ?os]) simp_all
  have read: "read_row sample_platform at ?rh (VObj 2) = Inr app_record"
    using app_record_wf row(2) assms by (intro row_read_back [OF _ row(3,1,4)]) (simp_all add: sample_platform_def)
  have z: "?rh 0 = plain_object [(''rows'', VObj 1)]" "?rh 1 = holey_object [Some (VObj 2)]"
    by (simp_all add: sample_row_heap_def overlay_def)
  have reads: "read_key ?rh 0 (js ''rows'') = Inr (VObj 1)" "read_key ?rh 1 (dec_nat 0) = Inr (VObj 2)"
    using read_plain_object [where h = ?rh, OF z(1), of "''rows''"] holey_property [where h = ?rh and i = 0, OF z(2)]
    by (simp_all add: read_key_def del: dec_nat.simps)
  moreover have "is_array ?rh (VObj 1)" "array_length ?rh 1 = 1"
    using z(2) by (simp_all add: is_array_def array_length_def) (simp_all add: holey_object_def)
  ultimately have "one_row ?rh (VObj 0) = Inr (VObj 2)"
    by (simp add: one_row_def Let_def del: One_nat_def dec_nat.simps)
  with read show ?thesis by (simp add: sample_rules_def)
qed

abbreviation (input) sample_app_insert :: "parity_db \<Rightarrow> (app_thrown + customer_record) \<times> parity_db" where
  "sample_app_insert \<equiv> application_insert sample_platform 10 (parity_store_client sample_rules) sample_options_heap (VObj 2) (VObj 0)"

lemma sample_record_there:
  obtains pv qs where "place (rec_payload app_record) 3 = (pv, qs)" "3 + length qs \<le> 10"
    "sample_options_heap 2 = plain_object (record_literal app_record pv)" "lays sample_options_heap 3 qs"
    "sample_options_heap 0 = plain_object [(''tenantId'', VStr (rec_tenant app_record))]"
    "record_wf (plat_room sample_platform) (plat_dated sample_platform) app_record"
proof -
  obtain pv qs where row: "place (rec_payload app_record) 3 = (pv, qs)" "length qs = 2"
    "sample_options_heap 2 = plain_object (record_literal app_record pv)" "lays sample_options_heap 3 qs"
    unfolding sample_options_heap_def by (rule sample_row [of "[plain_object [(''tenantId'', VStr app_uuid)]]"]) simp_all
  have "sample_options_heap 0 = plain_object [(''tenantId'', VStr (rec_tenant app_record))]"
    by (simp add: sample_options_heap_def sample_row_heap_def overlay_def app_record_def)
  with row that [of pv qs] app_record_wf show thesis by (simp add: sample_platform_def)
qed

lemma no_faults: "pdb_faults no_parity_rows = []"
  by (simp add: no_parity_rows_def Let_def)

theorem canonical_record_is_stored_witness:
  "\<exists>w1. sample_app_insert no_parity_rows = (Inr app_record, w1) \<and> length (pt_outbox (pdb_rows w1)) = 1"
proof -
  obtain pv qs where row: "place (rec_payload app_record) 3 = (pv, qs)" "3 + length qs \<le> 10"
    "sample_options_heap 2 = plain_object (record_literal app_record pv)" "lays sample_options_heap 3 qs"
    "sample_options_heap 0 = plain_object [(''tenantId'', VStr (rec_tenant app_record))]"
    "record_wf (plat_room sample_platform) (plat_dated sample_platform) app_record" by (rule sample_record_there)
  have "sample_app_insert no_parity_rows = (Inr app_record, no_parity_rows\<lparr>pdb_rows := stored_with app_record (pdb_rows no_parity_rows),
      pdb_work := stored_with app_record (pdb_rows no_parity_rows), pdb_tenant := None\<rparr>)"
    by (rule canonical_record_is_stored [OF row(6,3,1,4,5) _ row(2) sample_answer sample_takes no_faults]) simp_all
  then show ?thesis by (simp add: no_parity_rows_def Let_def stored_with_def)
qed

theorem application_insert_is_atomic_witness:
  "\<exists>w1 i h1 options1. sample_app_insert no_parity_rows = (Inr app_record, w1) \<and> pdb_held w1 = 0 \<and>
     parity_options 10 sample_options_heap (VObj 0) i = Inr (h1, options1) \<and>
     one_write sample_platform h1 (VObj 2) options1 (pdb_rows no_parity_rows) (pdb_rows w1)"
proof -
  obtain pv qs where row: "place (rec_payload app_record) 3 = (pv, qs)" "3 + length qs \<le> 10"
    "sample_options_heap 2 = plain_object (record_literal app_record pv)" "lays sample_options_heap 3 qs"
    "sample_options_heap 0 = plain_object [(''tenantId'', VStr (rec_tenant app_record))]"
    "record_wf (plat_room sample_platform) (plat_dated sample_platform) app_record" by (rule sample_record_there)
  have "sample_app_insert no_parity_rows = (Inr app_record, no_parity_rows\<lparr>pdb_rows := stored_with app_record (pdb_rows no_parity_rows),
      pdb_work := stored_with app_record (pdb_rows no_parity_rows), pdb_tenant := None\<rparr>)"
    by (rule clear_application_insert [OF row(6,3,1,4,5) _ row(2) sample_answer sample_takes no_faults]) simp_all
  then obtain w1 where run: "sample_app_insert no_parity_rows = (Inr app_record, w1)" by blast
  have "pdb_held no_parity_rows = 0" by (simp add: no_parity_rows_def Let_def)
  with application_insert_is_atomic [OF run] run show ?thesis by auto
qed

end
