(* ===== verification/App_Module.thy ===== *)
theory App_Module
  imports App_Store Option_Shapes Js_Number
begin

text \<open>
  \<^verbatim>\<open>src/consumers/customer-app-core/customer-app-core.mjs\<close> and \<^verbatim>\<open>customer-module-api.mjs\<close>: what the application
  asks of the SDK, the coordinate, the grants and the options of the cutover before it is ready, and the one
  operation of its module.
\<close>

section \<open>Construction\<close>

definition app_lift :: "'a outcome \<Rightarrow> app_thrown + 'a" where
  "app_lift r = (case r of Inl e \<Rightarrow> Inl (Raised e) | Inr x \<Rightarrow> Inr x)"

text \<open>\<open>keys.every((key) => p(sdk[key]))\<close>\<close>

fun every_read :: "heap \<Rightarrow> nat \<Rightarrow> (jsval \<Rightarrow> bool) \<Rightarrow> string list \<Rightarrow> bool outcome" where
  "every_read h r p [] = Inr True"
| "every_read h r p (k # ks) = rbind (read_key h r (js k)) (\<lambda>v. if p v then every_read h r p ks else Inr False)"

definition typeof_number :: "jsval \<Rightarrow> bool" where
  "typeof_number v = (case v of VNum _ \<Rightarrow> True | _ \<Rightarrow> False)"

definition typeof_string :: "jsval \<Rightarrow> bool" where
  "typeof_string v = (case v of VStr _ \<Rightarrow> True | _ \<Rightarrow> False)"

definition typeof_function :: "jsval \<Rightarrow> bool" where
  "typeof_function v = (case v of VFun _ \<Rightarrow> True | _ \<Rightarrow> False)"

definition sdk_string_fields :: "string list" where
  "sdk_string_fields = [''ACTION_KIND'', ''ACTION_NAME'']"

definition sdk_array_fields :: "string list" where
  "sdk_array_fields = [''ACTION_FIELDS'', ''OUTCOMES'', ''ERROR_ENVELOPE_FIELDS'']"

definition sdk_function_fields :: "string list" where
  "sdk_function_fields = [''buildActionSpec'', ''isOutcome'', ''isErrorEnvelope'']"

text \<open>\<open>frozen\<close> says which values are frozen objects.\<close>

definition public_sdk_contract :: "(jsval \<Rightarrow> bool) \<Rightarrow> heap \<Rightarrow> jsval \<Rightarrow> bool outcome" where
  "public_sdk_contract frozen h sdk = (case sdk of
     VObj r \<Rightarrow>
       rbind (every_read h r typeof_number [''ACTION_VERSION'']) (\<lambda>b. if \<not> b then Inr False else
       rbind (every_read h r typeof_string sdk_string_fields) (\<lambda>b. if \<not> b then Inr False else
       rbind (every_read h r (\<lambda>v. is_array h v \<and> frozen v) sdk_array_fields) (\<lambda>b. if \<not> b then Inr False else
       every_read h r typeof_function sdk_function_fields)))
   | _ \<Rightarrow> Inr False)"

text \<open>\<open>`${sdk.ACTION_NAME}@${sdk.ACTION_VERSION}`\<close> of an SDK with the contract.\<close>

definition sdk_coordinate :: "jsval \<Rightarrow> jsval \<Rightarrow> js_string" where
  "sdk_coordinate name version = (case (name, version) of
     (VStr s, VNum n) \<Rightarrow> s @ js ''@'' @ number_text n | _ \<Rightarrow> [])"

text \<open>\<open>grantedCapabilities.includes(x)\<close> from an index on; the last argument counts the elements left.\<close>

fun includes_from :: "heap \<Rightarrow> nat \<Rightarrow> jsval \<Rightarrow> nat \<Rightarrow> nat \<Rightarrow> bool outcome" where
  "includes_from h r x i 0 = Inr False"
| "includes_from h r x i (Suc n) =
     rbind (read_key h r (dec_nat i)) (\<lambda>v. if v = x then Inr True else includes_from h r x (Suc i) n)"

definition grants_core :: "heap \<Rightarrow> jsval \<Rightarrow> bool outcome" where
  "grants_core h caps = (case caps of
     VObj r \<Rightarrow> if is_array h caps then includes_from h r (VStr (js ''customer:core'')) 0 (array_length h r) else Inr False
   | _ \<Rightarrow> Inr False)"

definition app_core :: "(jsval \<Rightarrow> bool) \<Rightarrow> heap \<Rightarrow> jsval \<Rightarrow> jsval \<Rightarrow> jsval \<Rightarrow> app_thrown + unit" where
  "app_core frozen h sdk coordinate caps =
     rbind (app_lift (public_sdk_contract frozen h sdk)) (\<lambda>ok.
     if \<not> ok then Inl (AppError (js ''createCustomerAppCore requires a valid public generated SDK contract'')) else
     rbind (app_lift (optional_read h sdk ''ACTION_NAME'')) (\<lambda>name.
     rbind (app_lift (optional_read h sdk ''ACTION_VERSION'')) (\<lambda>version.
     if coordinate \<noteq> VStr (sdk_coordinate name version)
     then Inl (AppError (js ''createCustomerAppCore requires the exact SDK-derived coordinate'')) else
     rbind (app_lift (grants_core h caps)) (\<lambda>granted.
     if \<not> granted then Inl (AppError (js ''createCustomerAppCore requires the exact customer:core capability grant''))
     else Inr ()))))"

text \<open>The options of the cutover are all read before any is checked.\<close>

definition check_cutover_options :: "heap \<Rightarrow> jsval \<Rightarrow> unit outcome" where
  "check_cutover_options h options = (case options of
     VObj _ \<Rightarrow>
       rbind (optional_read h options ''connectionString'') (\<lambda>connection.
       rbind (optional_read h options ''legacyInsert'') (\<lambda>legacy.
       rbind (optional_read h options ''verifyCompatibility'') (\<lambda>verify.
       rbind (optional_read h options ''poolFactory'') (\<lambda>factory.
       if some_text connection = None then type_error (js ''options.connectionString must be a non-empty string'')
       else if \<not> typeof_function legacy then type_error (js ''options.legacyInsert must be a function'')
       else if \<not> typeof_function verify then type_error (js ''options.verifyCompatibility must be a function'')
       else if factory \<noteq> VUndef \<and> \<not> typeof_function factory
       then type_error (js ''options.poolFactory must be a function when provided'')
       else Inr ()))))
   | VInst _ \<Rightarrow> type_error (js ''options.connectionString must be a non-empty string'')
   | _ \<Rightarrow> type_error (js ''options must be an object''))"

definition module_api_new :: "(jsval \<Rightarrow> bool) \<Rightarrow> heap \<Rightarrow> jsval \<Rightarrow> jsval \<Rightarrow> jsval \<Rightarrow> jsval \<Rightarrow> app_thrown + unit" where
  "module_api_new frozen h sdk coordinate caps cutover_options =
     rbind (app_core frozen h sdk coordinate caps) (\<lambda>_.
     rbind (app_lift (check_cutover_options h cutover_options)) (\<lambda>_.
     (let refused = Inl (AppError (js ''createCustomerModuleApi requires the sdk to be customer.create@1'')) in
     rbind (app_lift (optional_read h sdk ''ACTION_NAME'')) (\<lambda>name.
     if name \<noteq> VStr (js ''customer.create'') then refused else
     rbind (app_lift (optional_read h sdk ''ACTION_VERSION'')) (\<lambda>version.
     if version \<noteq> VNum (JInt 1) then refused else Inr ())))))"

section \<open>The operation\<close>

text \<open>\<open>isOrdinaryObject\<close> here asks for the prototype alone.\<close>

definition literal_object :: "heap \<Rightarrow> jsval \<Rightarrow> bool" where
  "literal_object h v = (case v of VObj r \<Rightarrow> obj_proto (h r) = ObjectPrototype | _ \<Rightarrow> False)"

definition record_customer_keys :: "string list" where
  "record_customer_keys = [''actionSpec'', ''record'', ''insertOptions'']"

definition literal_option :: "heap \<Rightarrow> jsval \<Rightarrow> string \<Rightarrow> (app_thrown + jsval)" where
  "literal_option h options k = rbind (app_lift (optional_read h options k)) (\<lambda>v.
     if literal_object h v then Inr v
     else Inl (Raised (TypeError (js (''recordCustomer requires an ordinary insertOptions.'' @ k @ '' object'')))))"

text \<open>The five texts are read first and checked in the order they were read, then the two correlation ids compared.\<close>

definition check_option_texts :: "heap \<Rightarrow> jsval \<Rightarrow> jsval \<Rightarrow> jsval \<Rightarrow> app_thrown + unit" where
  "check_option_texts h audit outbox idempotency =
     rbind (app_lift (optional_read h audit ''action'')) (\<lambda>action.
     rbind (app_lift (optional_read h audit ''correlationId'')) (\<lambda>acorr.
     rbind (app_lift (optional_read h outbox ''eventName'')) (\<lambda>event.
     rbind (app_lift (optional_read h outbox ''correlationId'')) (\<lambda>ocorr.
     rbind (app_lift (optional_read h idempotency ''fingerprint'')) (\<lambda>key.
     (let missing = (\<lambda>k. Inl (AppError (js (''recordCustomer requires a non-empty insertOptions.'' @ k)))) in
      if some_text action = None then missing ''audit.action''
      else if some_text acorr = None then missing ''audit.correlationId''
      else if some_text event = None then missing ''transactionalOutbox.eventName''
      else if some_text ocorr = None then missing ''transactionalOutbox.correlationId''
      else if some_text key = None then missing ''idempotency.fingerprint''
      else if acorr \<noteq> ocorr
      then Inl (AppError (js ''recordCustomer requires audit.correlationId to match transactionalOutbox.correlationId''))
      else Inr ()))))))"

text \<open>
  What is checked before anything is inserted. \<open>built\<close> is \<open>sdk.buildActionSpec\<close>: what it throws or, in turn,
  what reading \<open>tenantId\<close> of its answer throws or gives.
\<close>

definition record_request ::
    "(jsval \<Rightarrow> jsval outcome outcome) \<Rightarrow> platform \<Rightarrow> heap \<Rightarrow> jsval \<Rightarrow> app_thrown + (customer_record \<times> jsval)" where
  "record_request built plat h args = (case args of
     VObj r \<Rightarrow>
       if \<not> literal_object h args then Inl (Raised (TypeError (js ''recordCustomer requires an ordinary options object'')))
       else if \<not> includes_exactly h r record_customer_keys
       then Inl (Raised (TypeError (js ''recordCustomer requires exactly {actionSpec, record, insertOptions}'')))
       else
         rbind (app_lift (read_key h r (js ''actionSpec''))) (\<lambda>spec.
         rbind (app_lift (read_key h r (js ''record''))) (\<lambda>v.
         rbind (app_lift (read_key h r (js ''insertOptions''))) (\<lambda>options.
         if \<not> literal_object h options then Inl (Raised (TypeError (js ''recordCustomer requires an insertOptions object'')))
         else
           rbind (literal_option h options ''audit'') (\<lambda>audit.
           rbind (literal_option h options ''transactionalOutbox'') (\<lambda>outbox.
           rbind (literal_option h options ''idempotency'') (\<lambda>idempotency.
           rbind (app_lift (built spec)) (\<lambda>answer.
           rbind (app_lift (canonicalize_record (plat_room plat) (plat_dated plat) h v)) (\<lambda>c.
           rbind (app_lift answer) (\<lambda>t.
           rbind (if t \<noteq> VStr (rec_tenant c) then Inr False
              else rbind (app_lift (optional_read h options ''tenantId'')) (\<lambda>u. Inr (t = u))) (\<lambda>same.
           if \<not> same
           then Inl (AppError (js ''recordCustomer requires the built tenantId to match the canonical record and insertOptions''))
           else rbind (check_option_texts h audit outbox idempotency) (\<lambda>_. Inr (c, options))))))))))))
   | _ \<Rightarrow> Inl (Raised (TypeError (js ''recordCustomer requires an ordinary options object''))))"

text \<open>
  \<open>recordCustomer\<close>. The canonical record is a new object at \<open>at\<close>; the writer gets it with the options, whose
  copy stands behind it. What the writer answers is dropped.
\<close>

definition record_end :: "nat \<Rightarrow> customer_record \<Rightarrow> nat" where
  "record_end at c = Suc at + length (snd (place (rec_payload c) (Suc at)))"

definition record_customer ::
    "(jsval \<Rightarrow> jsval outcome outcome) \<Rightarrow> (heap \<Rightarrow> jsval \<Rightarrow> jsval \<Rightarrow> ('w, app_thrown, unit) eff) \<Rightarrow> platform \<Rightarrow> nat \<Rightarrow>
     'w parity_client \<Rightarrow> heap \<Rightarrow> jsval \<Rightarrow> ('w cutover, app_thrown, customer_record) eff" where
  "record_customer built legacy plat at cl h args =
     ebind (elift (record_request built plat h args)) (\<lambda>(c, options).
     ebind (cutover_insert legacy plat (record_end at c) cl (record_heap h at c) (VObj at) options) (\<lambda>_. eret c))"

section \<open>What being ready takes\<close>

lemma app_lift_Inr [simp]: "app_lift r = Inr x \<longleftrightarrow> r = Inr x"
  by (auto simp: app_lift_def split: sum.splits)

text \<open>
  The module is ready only over an SDK with the public contract, under the one coordinate it was written for
  and with the grant it needs.
\<close>

lemma ready_module_is_granted:
  assumes "module_api_new frozen h sdk coordinate caps cutover_options = Inr ()"
  shows "public_sdk_contract frozen h sdk = Inr True \<and> coordinate = VStr (js ''customer.create@1'') \<and> grants_core h caps = Inr True \<and>
    check_cutover_options h cutover_options = Inr ()"
proof -
  have "sdk_coordinate (VStr (js ''customer.create'')) (VNum (JInt 1)) = js ''customer.create@1''" by code_simp
  then show ?thesis
    using assms by (auto simp: module_api_new_def app_core_def Let_def rbind_eq_Inr split: if_split_asm)
qed

text \<open>A cutover makes the application the writer only where the check answered \<open>true\<close>; on every other path the writer stays.\<close>

lemma cutover_needs_true:
  assumes "cutover_switch verify tx s = (r, s1)" and "keeps cut_writer verify" and "cut_writer s1 \<noteq> cut_writer s"
  shows "cut_writer s1 = ApplicationWriter \<and> (\<exists>w w1. verify w = (Inr (VBool True), w1))"
  using assms
  by (auto simp: cutover_switch_def ebind_apply efinally_apply in_cutover_def split: prod.splits sum.splits if_splits
      dest: keepsD)

text \<open>
  A rollback during the check is lost: where nothing else fails and the check answers \<open>true\<close>, the application
  is the writer in the end.
\<close>

lemma rollback_during_check_is_lost:
  assumes "txn_connect tx (cut_world s) = (Inr (), w1)" and "txn_release tx w1 = (Inr (), w2)"
  shows "cutover_switch (\<lambda>u. (Inr (VBool True), cutover_rollback u)) tx s =
    (Inr (), \<lparr>cut_writer = ApplicationWriter, cut_world = w2\<rparr>)"
  using assms by (simp add: cutover_switch_def ebind_apply efinally_apply in_cutover_def cutover_rollback_def)

section \<open>What a recorded customer is\<close>

lemma request_accepted:
  assumes "record_request built plat h args = Inr (c, options)"
  obtains r v spec answer where "args = VObj r" "read_key h r (js ''record'') = Inr v" "read_key h r (js ''insertOptions'') = Inr options"
    "read_key h r (js ''actionSpec'') = Inr spec" "built spec = Inr answer" "answer = Inr (VStr (rec_tenant c))"
    "canonicalize_record (plat_room plat) (plat_dated plat) h v = Inr c" "optional_read h options ''tenantId'' = Inr (VStr (rec_tenant c))"
proof -
  obtain r where r: "args = VObj r" using assms by (cases args) (simp_all add: record_request_def)
  show thesis
    using assms that unfolding r record_request_def
    by (auto simp: rbind_eq_Inr literal_option_def split: if_split_asm)
qed

text \<open>The record is still there, and canonical, under the options laid out behind it.\<close>

lemma record_stays:
  assumes "record_wf (plat_room plat) (plat_dated plat) c"
    and "parity_options (record_end at c) (record_heap h at c) options i = Inr (h1, options1)"
  shows "canonicalize_record (plat_room plat) (plat_dated plat) h1 (VObj at) = Inr c"
proof -
  obtain pv os where p: "place (rec_payload c) (Suc at) = (pv, os)" by (cases "place (rec_payload c) (Suc at)")
  obtain qs where h1: "h1 = overlay (record_heap h at c) (record_end at c) qs"
    using assms(2) by (auto simp: parity_options_def rbind_eq_Inr split: if_splits)
  have low: "h1 a = record_heap h at c a" if "a < Suc at + length os" for a
    using that by (simp add: h1 overlay_def record_end_def p)
  have "h1 at = plain_object (record_literal c pv)" "lays h1 (Suc at) os"
    using record_heap_at [OF p] low by (simp_all add: lays_def)
  from record_read [OF assms(1) this(1) p this(2)] show ?thesis .
qed

text \<open>
  C14. Only the tenant's own customer is recorded. Once the application is the writer, a recordCustomer that
  throws leaves every table as it was. One that answers was handed an object of its three keys whose action
  spec the SDK built for the tenant of the record and of the options; the record it answers is the canonical
  form of the one it was handed and is the one row stored, beside one audit row and one outbox row of that
  tenant under a fresh idempotency key. The writer stays and the connection is given back either way.
\<close>

theorem recorded_customer_is_stored:
  assumes "record_customer built legacy plat at (parity_store_client ru) h args s = (res, s1)" and "cut_writer s = ApplicationWriter"
  shows "cut_writer s1 = ApplicationWriter \<and> pdb_held (cut_world s1) = pdb_held (cut_world s) \<and> (case res of
     Inl _ \<Rightarrow> pdb_rows (cut_world s1) = pdb_rows (cut_world s)
   | Inr c \<Rightarrow> \<exists>r v spec a x. args = VObj r \<and> read_key h r (js ''record'') = Inr v \<and> read_key h r (js ''actionSpec'') = Inr spec \<and>
       built spec = Inr (Inr (VStr (rec_tenant c))) \<and> canonicalize_record (plat_room plat) (plat_dated plat) h v = Inr c \<and>
       aa_tenant a = rec_tenant c \<and> ao_tenant x = rec_tenant c \<and>
       parity_key x \<notin> parity_key ` set (pt_outbox (pdb_rows (cut_world s))) \<and>
       pdb_rows (cut_world s1) = \<lparr>pt_records = pt_records (pdb_rows (cut_world s)) @ [c],
         pt_audits = pt_audits (pdb_rows (cut_world s)) @ [a], pt_outbox = pt_outbox (pdb_rows (cut_world s)) @ [x]\<rparr>)"
proof (cases "record_request built plat h args")
  case (Inl e)
  with assms show ?thesis by (auto simp: record_customer_def ebind_apply)
next
  case (Inr req)
  then obtain c options where req: "record_request built plat h args = Inr (c, options)" by (cases req) simp
  let ?at = "record_end at c" and ?h = "record_heap h at c"
  obtain q w1 where run: "application_insert plat ?at (parity_store_client ru) ?h (VObj at) options (cut_world s) = (q, w1)"
    by (cases "application_insert plat ?at (parity_store_client ru) ?h (VObj at) options (cut_world s)")
  have s1: "s1 = s\<lparr>cut_world := w1\<rparr>" "res = (case q of Inl e \<Rightarrow> Inl e | Inr _ \<Rightarrow> Inr c)"
    using assms run req by (auto simp: record_customer_def ebind_apply cutover_insert_def in_cutover_def split: sum.splits)
  note told = parity.application_insert_outcome [OF run]
  show ?thesis
  proof (cases q)
    case (Inl e)
    with s1 told assms(2) show ?thesis by simp
  next
    case answered: (Inr d)
    obtain r v spec where h: "args = VObj r" "read_key h r (js ''record'') = Inr v" "read_key h r (js ''actionSpec'') = Inr spec"
      "built spec = Inr (Inr (VStr (rec_tenant c)))" "canonicalize_record (plat_room plat) (plat_dated plat) h v = Inr c"
      by (rule request_accepted [OF req]) auto
    from told answered obtain i h1 options1 where po: "parity_options ?at ?h options i = Inr (h1, options1)"
      and wr: "one_write plat h1 (VObj at) options1 (pdb_rows (cut_world s)) (pdb_rows w1)" by auto
    from wr obtain e a x where e: "canonicalize_record (plat_room plat) (plat_dated plat) h1 (VObj at) = Inr e"
      and rows: "aa_tenant a = rec_tenant e" "ao_tenant x = rec_tenant e" "parity_key x \<notin> parity_key ` set (pt_outbox (pdb_rows (cut_world s)))"
        "pdb_rows w1 = \<lparr>pt_records = pt_records (pdb_rows (cut_world s)) @ [e],
           pt_audits = pt_audits (pdb_rows (cut_world s)) @ [a], pt_outbox = pt_outbox (pdb_rows (cut_world s)) @ [x]\<rparr>"
      unfolding one_write_def by blast
    have "e = c" using record_stays [OF canonicalize_wf [OF h(5)] po] e by simp
    with rows h s1 told answered assms(2) show ?thesis by auto
  qed
qed

section \<open>A sample call\<close>

definition sample_literals :: "js_object list" where
  "sample_literals =
     [plain_object [(''actionSpec'', VNull), (''record'', VObj 5), (''insertOptions'', VObj 1)],
      plain_object [(''audit'', VObj 2), (''transactionalOutbox'', VObj 3), (''idempotency'', VObj 4), (''tenantId'', VStr app_uuid)],
      plain_object [(''action'', VStr (js ''customer.created'')), (''type'', VStr (js ''audit.append'')), (''correlationId'', VStr app_uuid)],
      plain_object [(''eventName'', VStr (js ''customer.created'')), (''correlationId'', VStr app_uuid)],
      plain_object [(''fingerprint'', VStr app_uuid)]]"

definition sample_args_heap :: heap where
  "sample_args_heap = overlay (record_heap (\<lambda>_. plain_object []) 5 app_record) 0 sample_literals"

definition sample_built :: "jsval \<Rightarrow> jsval outcome outcome" where
  "sample_built spec = Inr (Inr (VStr app_uuid))"

lemma sample_args:
  "sample_args_heap 0 = plain_object [(''actionSpec'', VNull), (''record'', VObj 5), (''insertOptions'', VObj 1)]"
  "sample_args_heap 1 = plain_object [(''audit'', VObj 2), (''transactionalOutbox'', VObj 3), (''idempotency'', VObj 4), (''tenantId'', VStr app_uuid)]"
  "sample_args_heap 2 = plain_object [(''action'', VStr (js ''customer.created'')), (''type'', VStr (js ''audit.append'')), (''correlationId'', VStr app_uuid)]"
  "sample_args_heap 3 = plain_object [(''eventName'', VStr (js ''customer.created'')), (''correlationId'', VStr app_uuid)]"
  "sample_args_heap 4 = plain_object [(''fingerprint'', VStr app_uuid)]"
  by (simp_all add: sample_args_heap_def sample_literals_def overlay_def)

lemma sample_canonical: "canonicalize_record 8 (\<lambda>_. True) sample_args_heap (VObj 5) = Inr app_record"
proof -
  obtain pv os where p: "place (rec_payload app_record) (Suc 5) = (pv, os)" by (cases "place (rec_payload app_record) (Suc 5)")
  have "sample_args_heap a = record_heap (\<lambda>_. plain_object []) 5 app_record a" if "5 \<le> a" for a
    using that by (simp add: sample_args_heap_def overlay_def sample_literals_def)
  with record_heap_at [OF p] have "sample_args_heap 5 = plain_object (record_literal app_record pv)" "lays sample_args_heap (Suc 5) os"
    by (simp_all add: lays_def)
  from record_read [OF app_record_wf this(1) p this(2)] show ?thesis .
qed

lemma sample_request: "record_request sample_built sample_platform sample_args_heap (VObj 0) = Inr (app_record, VObj 1)"
proof -
  note reads = sample_args [THEN read_plain_object [where h = sample_args_heap]]
  have "includes_exactly sample_args_heap 0 record_customer_keys"
    unfolding includes_exactly_owns record_customer_keys_def
    by (subst plain_object_owns [where h = sample_args_heap, OF sample_args(1)]) auto
  moreover have literal: "literal_object sample_args_heap (VObj i)" if "i < 5" for i
  proof -
    have "i = 0 \<or> i = 1 \<or> i = 2 \<or> i = 3 \<or> i = 4" using that by auto
    with sample_args show ?thesis by (auto simp: literal_object_def plain_object_def)
  qed
  moreover have "some_text (VStr (js ''customer.created'')) \<noteq> None" "some_text (VStr app_uuid) \<noteq> None"
    by (simp_all add: some_text_def app_uuid_def js_def)
  moreover have "rec_tenant app_record = app_uuid" by (simp add: app_record_def)
  ultimately show ?thesis
    by (simp add: record_request_def reads literal_option_def optional_read_def app_lift_def sample_built_def
        sample_platform_def sample_canonical check_option_texts_def Let_def del: One_nat_def)
qed

lemma sample_parity_options:
  obtains h1 where "parity_options 13 (record_heap sample_args_heap 10 app_record) (VObj 1) (VStr app_uuid) = Inr (h1, VObj 13)"
    "full_options h1 13 2 3 4 app_record" "\<forall>a<13. h1 a = record_heap sample_args_heap 10 app_record a"
proof -
  let ?h = "record_heap sample_args_heap 10 app_record"
  let ?ps = "[(''audit'', VObj 2), (''transactionalOutbox'', VObj 3), (''idempotency'', VObj 4), (''tenantId'', VStr app_uuid)]"
  have low: "?h a = sample_args_heap a" if "a < 10" for a
    using that by (simp add: record_heap_def overlay_def split: prod.splits)
  have h: "?h 1 = plain_object ?ps" "?h 2 = sample_args_heap 2" "?h 3 = sample_args_heap 3" "?h 4 = sample_args_heap 4"
    using sample_args(2) low by simp_all
  have names: "map fst (obj_props (?h 1)) = map (KStr \<circ> js \<circ> fst) ?ps" by (simp add: h(1) plain_object_def del: One_nat_def)
  have "own_keys ?h 1 = map (KStr \<circ> js \<circ> fst) ?ps"
    unfolding own_keys_def string_keys_def symbol_keys_def names by code_simp
  then have ps: "spread ?h (VObj 1) = Inr (map (\<lambda>(k, v). (KStr (js k), Data v True)) ?ps)"
    by (simp add: spread_def plain_object_property [where h = ?h, OF h(1)] del: One_nat_def)
  have "parity_absent ?h (VObj 1) = Inr False"
    by (simp add: parity_absent_def optional_read_def read_plain_object [where h = ?h, OF h(1)] del: One_nat_def)
  with ps have po: "parity_options 13 ?h (VObj 1) (VStr app_uuid) = Inr (overlay ?h 13 [plain_object ?ps], VObj 13)"
    by (simp add: parity_options_def plain_of_def plain_object_def)
  have "full_options (overlay ?h 13 [plain_object ?ps]) 13 2 3 4 app_record"
    using h sample_args by (simp add: full_options_def overlay_def app_record_def)
  with po show thesis by (rule that) (simp add: overlay_def)
qed

theorem recorded_customer_is_stored_witness:
  "\<exists>s1 a x. record_customer sample_built (\<lambda>_ _ _. eret ()) sample_platform 10 (parity_store_client sample_rules) sample_args_heap (VObj 0)
       \<lparr>cut_writer = ApplicationWriter, cut_world = no_parity_rows\<rparr> = (Inr app_record, s1) \<and>
     pdb_rows (cut_world s1) = \<lparr>pt_records = [app_record], pt_audits = [a], pt_outbox = [x]\<rparr> \<and> ao_tenant x = app_uuid"
proof -
  let ?s = "\<lparr>cut_writer = ApplicationWriter, cut_world = no_parity_rows\<rparr>"
  obtain pv os where p: "place (rec_payload app_record) (Suc 10) = (pv, os)" by (cases "place (rec_payload app_record) (Suc 10)")
  have at: "length os = 2" using p by (auto simp: app_record_def)
  then have end13: "record_end 10 app_record = 13" using p by (simp add: record_end_def)
  let ?h = "record_heap sample_args_heap 10 app_record"
  obtain h1 where h1: "parity_options 13 ?h (VObj 1) (VStr app_uuid) = Inr (h1, VObj 13)"
    "full_options h1 13 2 3 4 app_record" "\<forall>a<13. h1 a = ?h a" by (rule sample_parity_options)
  have rows: "h1 10 = plain_object (record_literal app_record pv)" "lays h1 (Suc 10) os"
    using record_heap_at [OF p] h1(3) at by (simp_all add: lays_def)
  have ids: "rec_id app_record = app_uuid" "rec_tenant app_record = app_uuid" by (simp_all add: app_record_def)
  have "?h 1 = sample_args_heap 1" by (simp add: record_heap_def overlay_def split: prod.splits)
  then have tenant: "optional_read ?h (VObj 1) ''tenantId'' = Inr (VStr (rec_tenant app_record))"
    using read_plain_object [where h = ?h, OF \<open>?h 1 = _\<close> [unfolded sample_args(2)], of "''tenantId''"] ids
    by (simp add: optional_read_def)
  have given: "optional_read ?h (VObj 10) ''id'' = Inr (VStr (rec_id app_record))"
    by (simp add: optional_read_def read_plain_object [where h = ?h, OF record_heap_at(1) [OF p]] record_literal_def)
  have "record_wf (plat_room sample_platform) (plat_dated sample_platform) app_record"
    using app_record_wf by (simp add: sample_platform_def)
  from clear_insert_with [OF this rows(1) p rows(2) given tenant _ h1(2) sample_answer sample_takes no_faults] h1(1) ids
  obtain w1 where run: "application_insert sample_platform 13 (parity_store_client sample_rules) ?h (VObj 10) (VObj 1) no_parity_rows = (Inr app_record, w1)"
    by simp
  have call: "record_customer sample_built (\<lambda>_ _ _. eret ()) sample_platform 10 (parity_store_client sample_rules) sample_args_heap (VObj 0) ?s =
      (Inr app_record, ?s\<lparr>cut_world := w1\<rparr>)"
    by (simp add: record_customer_def ebind_apply sample_request cutover_insert_def in_cutover_def end13 run
        del: One_nat_def)
  from recorded_customer_is_stored [OF call] call show ?thesis by (auto simp: no_parity_rows_def Let_def ids)
qed

end
