(* ===== verification/App_Surface.thy ===== *)
theory App_Surface
  imports App_Module
begin

text \<open>
  \<^verbatim>\<open>src/consumers/customer-app-core/customer-surface.mjs\<close>: the state a user interface is shown, and its two
  operations, whose runs stay in flight until the module answers.
\<close>

section \<open>The state\<close>

datatype surface_view = Idle | Submitting | Saved jsval | Rejected

text \<open>What happened, for the specification: a run begun by submit or retry, a run ended, a call turned down.\<close>

datatype surface_event = Submitted jsval | Retried jsval | Ended jsval bool | TurnedDown

text \<open>The three variables of the closure, the arguments of the runs in flight and what happened so far.\<close>

record surface =
  sur_view :: surface_view
  sur_pending :: bool
  sur_last :: "jsval option"
  sur_running :: "jsval list"
  sur_events :: "surface_event list"

definition surface_new :: surface where
  "surface_new = \<lparr>sur_view = Idle, sur_pending = False, sur_last = None, sur_running = [], sur_events = []\<rparr>"

text \<open>The flags of the projections.\<close>

definition submit_enabled :: "surface_view \<Rightarrow> bool" where
  "submit_enabled v = (v = Idle)"

definition retry_visible :: "surface_view \<Rightarrow> bool" where
  "retry_visible v = (v = Rejected)"

text \<open>A ready handle: frozen, ready, of the one coordinate, with its operation; \<open>frozen\<close> says which values are frozen.\<close>

definition ready_module_api :: "(jsval \<Rightarrow> bool) \<Rightarrow> heap \<Rightarrow> jsval \<Rightarrow> bool outcome" where
  "ready_module_api frozen h v =
     (if \<not> literal_object h v \<or> \<not> frozen v then Inr False else
      rbind (optional_read h v ''status'') (\<lambda>status. if status \<noteq> VStr (js ''ready'') then Inr False else
      rbind (optional_read h v ''manifest'') (\<lambda>manifest. if \<not> literal_object h manifest \<or> \<not> frozen manifest then Inr False else
      rbind (optional_read h manifest ''actionCoordinate'') (\<lambda>coordinate.
        if coordinate \<noteq> VStr (js ''customer.create@1'') then Inr False else
      rbind (optional_read h v ''recordCustomer'') (\<lambda>f. Inr (typeof_function f))))))"

definition surface_check :: "(jsval \<Rightarrow> bool) \<Rightarrow> heap \<Rightarrow> jsval \<Rightarrow> surface outcome" where
  "surface_check frozen h v = rbind (ready_module_api frozen h v) (\<lambda>ready.
     if ready then Inr surface_new else type_error (js ''createCustomerSurface requires a ready P15 customerModuleApi handle''))"

section \<open>The operations\<close>

text \<open>\<open>runSubmit\<close> up to its await, from submit or from retry.\<close>

definition run_submit :: "(jsval \<Rightarrow> surface_event) \<Rightarrow> jsval \<Rightarrow> surface \<Rightarrow> surface" where
  "run_submit called v s = s\<lparr>sur_pending := True, sur_view := Submitting, sur_running := sur_running s @ [v],
     sur_events := sur_events s @ [called v]\<rparr>"

definition turned_down :: "app_thrown \<Rightarrow> surface \<Rightarrow> (app_thrown + unit) \<times> surface" where
  "turned_down e s = (Inl e, s\<lparr>sur_events := sur_events s @ [TurnedDown]\<rparr>)"

definition surface_submit :: "heap \<Rightarrow> jsval \<Rightarrow> surface \<Rightarrow> (app_thrown + unit) \<times> surface" where
  "surface_submit h v s =
     (if sur_pending s then turned_down (AppError (js ''customer surface submit refused: a submit is already in flight'')) s
      else if \<not> literal_object h v then turned_down (Raised (TypeError (js ''submit requires an ordinary options object''))) s
      else if (case v of VObj r \<Rightarrow> \<not> includes_exactly h r record_customer_keys | _ \<Rightarrow> True)
      then turned_down (Raised (TypeError (js ''submit requires exactly {actionSpec, record, insertOptions}''))) s
      else (Inr (), run_submit Submitted v s))"

definition surface_retry :: "surface \<Rightarrow> (app_thrown + unit) \<times> surface" where
  "surface_retry s =
     (if sur_pending s then turned_down (AppError (js ''customer surface retry refused: a submit is already in flight'')) s
      else case sur_last s of
        None \<Rightarrow> turned_down (AppError (js ''customer surface retry refused: no rejected submit to retry'')) s
      | Some v \<Rightarrow> if sur_view s \<noteq> Rejected
          then turned_down (AppError (js ''customer surface retry refused: no rejected submit to retry'')) s
          else (Inr (), run_submit Retried v s))"

text \<open>
  The rest of a run once \<open>recordCustomer\<close> has settled: \<open>Some x\<close> where it answered with the record \<open>x\<close>, \<open>None\<close>
  where it threw or reading the record of its answer did.
\<close>

definition surface_settle :: "jsval \<Rightarrow> jsval option \<Rightarrow> surface \<Rightarrow> surface" where
  "surface_settle v res s = s\<lparr>sur_last := Some v, sur_view := (case res of Some x \<Rightarrow> Saved x | None \<Rightarrow> Rejected),
     sur_pending := False, sur_running := remove1 v (sur_running s), sur_events := sur_events s @ [Ended v (res \<noteq> None)]\<rparr>"

text \<open>Calls come whenever they like, and any run in flight may settle next, whichever it is.\<close>

inductive surface_step :: "surface \<Rightarrow> surface \<Rightarrow> bool" where
  submits: "surface_submit h v s = (r, t) \<Longrightarrow> surface_step s t"
| retries: "surface_retry s = (r, t) \<Longrightarrow> surface_step s t"
| settles: "v \<in> set (sur_running s) \<Longrightarrow> surface_step s (surface_settle v res s)"

inductive surface_reachable :: "surface \<Rightarrow> bool" where
  opened: "surface_reachable surface_new"
| stepped: "surface_reachable s \<Longrightarrow> surface_step s t \<Longrightarrow> surface_reachable t"

section \<open>One run at a time\<close>

text \<open>
  The specification: at most one run, and how the last one ended. A retry is a run of the arguments of the
  last run, which was rejected. \<open>None\<close> is what may not happen.
\<close>

type_synonym surface_spec = "jsval option \<times> (jsval \<times> bool) option"

definition spec_step :: "surface_spec \<Rightarrow> surface_event \<Rightarrow> surface_spec option" where
  "spec_step st e = (case st of (cur, ended) \<Rightarrow> (case e of
     Submitted v \<Rightarrow> if cur = None then Some (Some v, ended) else None
   | Retried v \<Rightarrow> if cur = None \<and> ended = Some (v, False) then Some (Some v, ended) else None
   | Ended v ok \<Rightarrow> if cur = Some v then Some (None, Some (v, ok)) else None
   | TurnedDown \<Rightarrow> Some st))"

fun spec_run :: "surface_spec \<Rightarrow> surface_event list \<Rightarrow> surface_spec option" where
  "spec_run st [] = Some st"
| "spec_run st (e # es) = (case spec_step st e of None \<Rightarrow> None | Some st1 \<Rightarrow> spec_run st1 es)"

lemma spec_run_append: "spec_run st (es @ fs) = (case spec_run st es of None \<Rightarrow> None | Some st1 \<Rightarrow> spec_run st1 fs)"
  by (induction es arbitrary: st) (auto split: option.splits)

text \<open>What the specification says is shown.\<close>

definition displays :: "surface_spec \<Rightarrow> surface_view \<Rightarrow> bool" where
  "displays st v = (case st of
     (Some _, _) \<Rightarrow> v = Submitting
   | (None, None) \<Rightarrow> v = Idle
   | (None, Some (_, ok)) \<Rightarrow> if ok then (case v of Saved _ \<Rightarrow> True | _ \<Rightarrow> False) else v = Rejected)"

definition surface_inv :: "surface \<Rightarrow> surface_spec \<Rightarrow> bool" where
  "surface_inv s st \<longleftrightarrow> spec_run (None, None) (sur_events s) = Some st \<and> displays st (sur_view s) \<and>
     sur_running s = (case fst st of None \<Rightarrow> [] | Some v \<Rightarrow> [v]) \<and> sur_pending s = (fst st \<noteq> None) \<and>
     sur_last s = map_option fst (snd st)"

lemma run_submit_inv:
  assumes "surface_inv s (None, ended)" and "spec_step (None, ended) (called v) = Some (Some v, ended)"
  shows "surface_inv (run_submit called v s) (Some v, ended)"
  using assms by (simp add: surface_inv_def run_submit_def spec_run_append displays_def)

lemma turned_down_inv: "surface_inv s st \<Longrightarrow> turned_down e s = (r, t) \<Longrightarrow> surface_inv t st"
  by (auto simp: surface_inv_def turned_down_def spec_run_append spec_step_def split: prod.splits)

lemma surface_step_inv:
  assumes "surface_step s t" and "surface_inv s st"
  shows "\<exists>st1. surface_inv t st1"
  using assms(1)
proof (cases rule: surface_step.cases)
  case (submits h v r)
  show ?thesis
  proof (cases "t = run_submit Submitted v s \<and> \<not> sur_pending s")
    case True
    with assms(2) obtain ended where "st = (None, ended)" by (cases st) (auto simp: surface_inv_def)
    with True assms(2) run_submit_inv [where called = Submitted and s = s and v = v and ended = ended] show ?thesis by (auto simp: spec_step_def)
  next
    case False
    with submits obtain e where "turned_down e s = (r, t)" by (auto simp: surface_submit_def split: if_split_asm)
    with turned_down_inv assms(2) show ?thesis by blast
  qed
next
  case (retries r)
  show ?thesis
  proof (cases "\<exists>v. sur_last s = Some v \<and> sur_view s = Rejected \<and> \<not> sur_pending s")
    case True
    then obtain v where v: "sur_last s = Some v" "sur_view s = Rejected" "\<not> sur_pending s" by blast
    with retries have t: "t = run_submit Retried v s" by (simp add: surface_retry_def)
    from v assms(2) have "st = (None, Some (v, False))"
      by (cases st) (auto simp: surface_inv_def displays_def split: option.splits if_splits prod.splits)
    with t assms(2) run_submit_inv [where called = Retried and s = s and v = v and ended = "Some (v, False)"] show ?thesis
      by (auto simp: spec_step_def)
  next
    case False
    with retries obtain e where "turned_down e s = (r, t)" by (auto simp: surface_retry_def split: if_split_asm option.splits)
    with turned_down_inv assms(2) show ?thesis by blast
  qed
next
  case (settles v res)
  with assms(2) obtain ended where "st = (Some v, ended)" by (cases st) (auto simp: surface_inv_def split: option.splits)
  with settles assms(2) have "surface_inv t (None, Some (v, res \<noteq> None))"
    by (auto simp: surface_inv_def surface_settle_def spec_run_append spec_step_def displays_def split: option.splits)
  then show ?thesis by blast
qed

lemma surface_reachable_inv: "surface_reachable s \<Longrightarrow> \<exists>st. surface_inv s st"
proof (induction rule: surface_reachable.induct)
  case opened
  show ?case by (rule exI [of _ "(None, None)"]) (simp add: surface_inv_def surface_new_def displays_def)
next
  case (stepped s t)
  then show ?case using surface_step_inv by blast
qed

text \<open>
  C17. The surface runs one call at a time. However its callers and the answers of the module interleave, what
  happened is a sequence of single runs, calls made during one turned down, and a retry only ever a run of the
  very arguments of the run before it, which was rejected; what is shown is what the specification shows,
  submitting exactly while one run is in flight.
\<close>

theorem surface_runs_one_at_a_time:
  assumes "surface_reachable s"
  shows "\<exists>cur ended. spec_run (None, None) (sur_events s) = Some (cur, ended) \<and> displays (cur, ended) (sur_view s) \<and>
    sur_running s = (case cur of None \<Rightarrow> [] | Some v \<Rightarrow> [v]) \<and> (sur_pending s \<longleftrightarrow> cur \<noteq> None) \<and>
    (retry_visible (sur_view s) \<longleftrightarrow> cur = None \<and> (\<exists>v. ended = Some (v, False) \<and> sur_last s = Some v))"
proof -
  obtain cur ended where "surface_inv s (cur, ended)" using surface_reachable_inv [OF assms] by (metis surj_pair)
  then show ?thesis
    by (intro exI [of _ cur] exI [of _ ended])
      (auto simp: surface_inv_def displays_def retry_visible_def split: option.splits if_splits surface_view.splits)
qed

text \<open>A submit, a second one turned down, a rejection, and the retry of the first.\<close>

definition sample_surface :: surface where
  "sample_surface = snd (surface_retry (surface_settle (VObj 0) None
     (snd (surface_submit sample_args_heap (VObj 0) (snd (surface_submit sample_args_heap (VObj 0) surface_new))))))"

lemma sample_args_ordinary:
  "literal_object sample_args_heap (VObj 0)" "includes_exactly sample_args_heap 0 record_customer_keys"
proof -
  show "literal_object sample_args_heap (VObj 0)" by (simp add: literal_object_def sample_args plain_object_def)
  show "includes_exactly sample_args_heap 0 record_customer_keys"
    unfolding includes_exactly_owns record_customer_keys_def
    by (subst plain_object_owns [where h = sample_args_heap, OF sample_args(1)]) auto
qed

lemma sample_surface_reachable: "surface_reachable sample_surface"
proof -
  let ?s1 = "snd (surface_submit sample_args_heap (VObj 0) surface_new)" let ?s2 = "snd (surface_submit sample_args_heap (VObj 0) ?s1)"
  have running: "VObj 0 \<in> set (sur_running ?s2)"
    by (simp add: sample_args_ordinary surface_submit_def surface_new_def run_submit_def turned_down_def)
  have submit: "surface_step s (snd (surface_submit h v s))" for h v s by (rule surface_step.submits [OF prod.collapse [symmetric]])
  have retry: "surface_step s (snd (surface_retry s))" for s by (rule surface_step.retries [OF prod.collapse [symmetric]])
  show ?thesis unfolding sample_surface_def
    by (intro surface_reachable.stepped [OF _ retry] surface_reachable.stepped [OF _ surface_step.settles [OF running]]
        surface_reachable.stepped [OF _ submit] surface_reachable.opened)
qed

theorem surface_runs_one_at_a_time_witness:
  "sur_events sample_surface = [Submitted (VObj 0), TurnedDown, Ended (VObj 0) False, Retried (VObj 0)] \<and> sur_running sample_surface = [VObj 0] \<and>
     (\<exists>cur ended. spec_run (None, None) (sur_events sample_surface) = Some (cur, ended) \<and> displays (cur, ended) (sur_view sample_surface))"
  using surface_runs_one_at_a_time [OF sample_surface_reachable]
  by (auto simp: sample_surface_def sample_args_ordinary surface_submit_def surface_retry_def surface_settle_def surface_new_def
      run_submit_def turned_down_def)

end
