(* ===== verification/Spec2Isabelle.thy ===== *)
theory Spec2Isabelle
  imports Decision_Log_Claims Action_Contract Customer_Audit_Run Delivery_Claims Host_Claims App_Surface
begin

text \<open>
  A verification development of the MetaFramer kernel, the JavaScript of \<^verbatim>\<open>src/src\<close>, of its host process
  \<^verbatim>\<open>src/host\<close> and of the application that consumes it, \<^verbatim>\<open>src/consumers/customer-app-core\<close>.

  \<^bold>\<open>The program.\<close> The kernel runs one action, \<open>customer.create@1\<close>, for the tenant and the actor a caller is
  authenticated as. The rings from the inside out: the domain (closed identity types), the application (actions,
  policy, ports, decision log entries, unit of work, pipeline, receipt), the adapters (three Postgres adapters), and
  the delivery (request handler, HTTP message, router, ASGI profile, compositions). A host process takes one
  envelope on its standard input, runs the composed ASGI application on it and prints two response events. A
  request goes scope and body \<open>\<rightarrow>\<close> router \<open>\<rightarrow>\<close> handler \<open>\<rightarrow>\<close> commit service \<open>\<rightarrow>\<close> pipeline (shape check, identity, tenant
  guard, policy, invariants, prepared change set) \<open>\<rightarrow>\<close> write envelope \<open>\<rightarrow>\<close> one transaction of three rows; with the audited
  composition every decision and every refusal of the guard is appended to a hash-chained log first.

  \<^bold>\<open>How JavaScript is modelled.\<close> A validator answers or throws: a sum, \<open>Inl\<close> what is thrown
  (\<open>Kernel_Prelude\<close>). An awaited collaborator is a state transformer \<open>('w, 'e, 'a) eff\<close> over an arbitrary world, so the
  order and the number of calls are part of every definition. What a caller hands in is a \<open>jsval\<close> with the heap
  it is read in (\<open>Kernel_Values\<close>): objects with a prototype, own properties, enumerability and getters that answer or throw.
  An instance of a kernel type is \<open>Genuine\<close> with its private state, or \<open>Hollow\<close>, an object with the right prototype and none.
  Text is a list of UTF-16 code units and a regular expression is a term with a matcher (\<open>Js_Text\<close>), a number its
  shortest decimal (\<open>Js_Number\<close>), bytes are words of eight bits (\<open>Utf8\<close>), JSON text is written by \<open>stringify\<close> and read by
  \<open>json_parse\<close> (\<open>Js_Json\<close>, \<open>Json_Parse\<close>; \<open>Json_Injective\<close> shows that canonical values with one text are one value).
  \<open>Option_Shapes\<close> holds the four rules by which constructors take their one options object, \<open>Literals\<close> and \<open>Json_Heap\<close> the
  objects the code itself makes, \<open>Frames\<close> what a program leaves alone.

  \<^bold>\<open>The kernel's own types.\<close>
  \<^item> \<open>Domain_Identity\<close>: \<^verbatim>\<open>src/src/domain/identity-primitives.mjs\<close>. The constructors admit exactly the canonical
    spellings; the four id types are instances of \<open>closed_identity\<close>.
  \<^item> \<open>Canonicalisation\<close>, \<open>Action_Primitives\<close>, \<open>Action_Contract\<close>: \<^verbatim>\<open>action-primitives.mjs\<close> and \<^verbatim>\<open>action-contract.mjs\<close> of
    \<^verbatim>\<open>src/src/application\<close>. The canonical rule accepts exactly the trees of plain JSON data at most sixteen containers
    deep; error chains are at most eight long.
  \<^item> \<open>Policy_Model\<close>, \<open>Authorization\<close>, \<open>Authorization_Facts\<close>: \<^verbatim>\<open>policy-decision.mjs\<close>, \<^verbatim>\<open>policy-statement.mjs\<close>,
    \<^verbatim>\<open>authorization-evaluator.mjs\<close>, \<^verbatim>\<open>policy-candidate-resolver.mjs\<close>, \<^verbatim>\<open>policy-decision-point.mjs\<close>,
    \<^verbatim>\<open>policy-batch-evaluator.mjs\<close>. Deny overrides, default deny, and statements of another tenant change nothing.
  \<^item> \<open>Ports\<close>: \<^verbatim>\<open>clock.mjs\<close>, \<^verbatim>\<open>identity.mjs\<close>, \<^verbatim>\<open>policy.mjs\<close>, \<^verbatim>\<open>use-case.mjs\<close>; their one contract is \<open>gate\<close>.
  \<^item> \<open>Instants\<close>: the three copies of the calendar rule, which agree. \<open>Commit_Receipt\<close>: \<^verbatim>\<open>commit-receipt.mjs\<close>.

  \<^bold>\<open>The decision log.\<close> \<open>Decision_Log\<close> has \<^verbatim>\<open>decision-log-entry.mjs\<close>, \<^verbatim>\<open>decision-log-port.mjs\<close> and
  \<^verbatim>\<open>decision-logging-policy-decision-point.mjs\<close>; \<open>Decision_Log_Store\<close> has \<^verbatim>\<open>src/src/adapters/postgres-decision-log-adapter.mjs\<close>
  over the contract \<open>log_client\<close>; \<open>Decision_Log_Table\<close> the table as its migration constrains it, on which \<open>Decision_Log_Chain\<close>
  interprets that contract; \<open>Decision_Log_Composition\<close> has \<^verbatim>\<open>policy-decision-log-composition.mjs\<close>. \<open>Decision_Log_Facts\<close> and
  \<open>Decision_Log_Claims\<close>: rows verify, tampering collides the digest, the append refines an abstract log of chains, and
  concurrent transactions never fork a chain.

  \<^bold>\<open>The write.\<close> \<open>Unit_Of_Work\<close> has \<^verbatim>\<open>unit-of-work.mjs\<close>, once as a state transformer and once as a step relation whose
  steps are its awaits; \<open>Transactions\<close> the contract \<open>transactional\<close> of a client; \<open>Customer_Write\<close> has \<^verbatim>\<open>write-envelope.mjs\<close>,
  \<^verbatim>\<open>postgres-unit-of-work.mjs\<close> and \<^verbatim>\<open>postgres-write-envelope-write.mjs\<close>; \<open>Customer_Store\<close> its contract \<open>app_store\<close>;
  \<open>Customer_Substrate\<close> the constrained tables that fulfil it; \<open>Customer_Claims\<close>: a commit refines an abstract history, and
  one idempotency key makes one commit.

  \<^bold>\<open>The action.\<close> \<open>Customer_Pipeline\<close> has \<^verbatim>\<open>create-customer-pipeline.mjs\<close> and \<^verbatim>\<open>create-customer-commit-service.mjs\<close>, with its
  facts beside it; \<open>Customer_Composition\<close> has \<^verbatim>\<open>create-customer-composition.mjs\<close>, plain and audited. \<open>Composition_Frames\<close>
  says which part of the world a call touches, with the contract \<open>admitting_point\<close> of a decision point; \<open>Customer_Admission\<close>
  who gets a customer, over \<open>customer_point\<close>; \<open>Customer_Audit\<close> and \<open>Customer_Audit_Run\<close> what is on record; \<open>Customer_Created\<close>
  that an admissible action is committed.

  \<^bold>\<open>The delivery.\<close> \<open>Request_Handler\<close> (\<^verbatim>\<open>src/src/sdk/create-customer.mjs\<close>, \<^verbatim>\<open>create-customer-request-handler.mjs\<close>),
  \<open>Http_Adapter\<close> (\<^verbatim>\<open>create-customer-http-message-adapter.mjs\<close>), \<open>Standard_Router\<close> (\<^verbatim>\<open>standard-router.mjs\<close>),
  \<open>Asgi_Profile\<close> (\<^verbatim>\<open>asgi-core-profile.mjs\<close>), \<open>Asgi_Composition\<close> (\<^verbatim>\<open>create-customer-asgi-composition.mjs\<close>).
  \<open>Asgi_Facts\<close>, \<open>Asgi_Run\<close>, \<open>Asgi_Service\<close> (contract \<open>recording_service\<close>), \<open>Asgi_Created\<close>, \<open>Asgi_Sample\<close> and
  \<open>Delivery_Claims\<close> follow a request from bytes to rows and back.

  \<^bold>\<open>The host.\<close> \<open>Host_Args\<close> has the command lines of \<^verbatim>\<open>src/host/js_asgi/create_customer_asgi_runner.mjs\<close> and of
  \<^verbatim>\<open>src/host/deploy/secret_file_runner.mjs\<close>; \<open>Host_Clock\<close> the ids and instants it mints; \<open>Host_Envelope\<close> base64, the
  envelope and the scope; \<open>Host_Runner\<close> its main function; \<open>Host_Facts\<close> and \<open>Host_Claims\<close>: it always ends with one readable
  answer, serves the envelope it was given, and creates customers only for the caller it was told to trust.

  \<^bold>\<open>The application.\<close> \<open>App_Records\<close> has \<^verbatim>\<open>customer-records-schema.mjs\<close>; \<open>App_Persistence\<close> has
  \<^verbatim>\<open>customer-records-adapter.mjs\<close>, \<^verbatim>\<open>customer-persistence-adapter.mjs\<close> and \<^verbatim>\<open>customer-data-cutover.mjs\<close>; \<open>App_Writes\<close> their
  contract \<open>parity_store\<close>, which \<open>App_Store\<close> interprets on the tables; \<open>App_Module\<close> has \<^verbatim>\<open>customer-app-core.mjs\<close> and
  \<^verbatim>\<open>customer-module-api.mjs\<close>; \<open>App_Surface\<close> has \<^verbatim>\<open>customer-surface.mjs\<close> as a step relation held against a specification of single
  runs. An insert is all of its three rows or none, what is recorded is the canonical record of the tenant the action
  was built for, the surface runs one call at a time, and a rollback during the check of a cutover is lost.

  \<^bold>\<open>Bounds and fuel.\<close> The canonical rule stops at \<open>max_depth\<close>, sixteen, as the code does. \<open>json_parse\<close> runs on fuel twice the
  length of the text plus one; \<open>Json_Parse\<close> shows that more fuel changes no answer. The loop over
  request events has no bound in the code: it is a partial function whose value \<open>None\<close> is that it never ends, with the
  condition under which it does. The deep copy of a payload takes the room on the engine's stack as a number and throws
  beyond it.

  \<^bold>\<open>Parameters.\<close> The digest of \<^verbatim>\<open>node:crypto\<close>; the double a numeral denotes; the rendering of foreign objects into messages;
  the message of a syntax error; the lenient base64 decoder of the platform, assumed to read back what an encoder
  made; what \<open>Date.parse\<close> reads; \<open>buildActionSpec\<close> of a generated SDK; clock readings and random bytes; what
  \<open>jsonb\<close> keeps of a value; the Postgres clients, under contracts that are interpreted on tables whose every statement may fail. A
  collaborator is taken not to touch the pools of the others, and a getter to answer the same each time it is read.

  \<^bold>\<open>Not modelled.\<close> Proxies, properties inherited from foreign prototypes, own properties of functions, and a heap changed
  between two awaits; the frozenness of objects, where the code only makes them frozen; a COMMIT whose acknowledgement
  is lost after it took effect; the other spellings of a tenant's uuid, in the kernel's tables; clock readings past the year
  9999; an output cut short when the process exits; the pool of the driver and closing it. The scripts of \<^verbatim>\<open>src/tools\<close> and \<^verbatim>\<open>src/examples\<close> check and generate
  files of the repository and are no part of the running kernel; \<^verbatim>\<open>src/host/python_asgi\<close> and \<^verbatim>\<open>src/db\<close> are Python, of
  which the constraints of the tables are modelled; the tests and planning files are not code of the program.
\<close>

end
